(* ===== verification/Prelude.thy ===== *)
theory Prelude
  imports Main "HOL-Library.Word" "HOL-Library.List_Lexorder"
begin

text \<open>
  What every component of the library shares: the machine integers and byte
  arrays of the Rust sources, \<open>Result\<close> and \<open>Option\<close> plumbing (the \<open>?\<close> operator is
  \<open>and_then\<close>), checked slicing, and big-endian integer encodings.  Fixed-width
  arrays \<open>[u8; N]\<close> are a type of their own, \<open>'n bytes\<close>, so that the width of a
  field is part of its type here as it is in the source.
\<close>

named_theorems error_intros \<open>rules that bound the error values of a result\<close>
named_theorems result_simps
named_theorems wire_simps

type_synonym u8 = "8 word"
type_synonym u16 = "16 word"
type_synonym u32 = "32 word"
type_synonym u64 = "64 word"

subsection \<open>Results\<close>

definition and_then :: "'e + 'a \<Rightarrow> ('a \<Rightarrow> 'e + 'b) \<Rightarrow> 'e + 'b" where
  "and_then r f = (case r of Inl e \<Rightarrow> Inl e | Inr x \<Rightarrow> f x)"

definition map_err :: "('e \<Rightarrow> 'f) \<Rightarrow> 'e + 'a \<Rightarrow> 'f + 'a" where
  "map_err g r = (case r of Inl e \<Rightarrow> Inl (g e) | Inr x \<Rightarrow> Inr x)"

definition ok_or :: "'e \<Rightarrow> 'a option \<Rightarrow> 'e + 'a" where
  "ok_or e v = (case v of None \<Rightarrow> Inl e | Some x \<Rightarrow> Inr x)"

lemma and_then_Inl [simp]: "and_then (Inl e) f = Inl e"
  and and_then_Inr [simp]: "and_then (Inr x) f = f x"
  by (simp_all add: and_then_def)

lemma and_then_eq_Inr [result_simps]:
  "and_then r f = Inr y \<longleftrightarrow> (\<exists>x. r = Inr x \<and> f x = Inr y)"
  by (cases r) simp_all

lemma and_then_eq_Inl [result_simps]:
  "and_then r f = Inl e \<longleftrightarrow> r = Inl e \<or> (\<exists>x. r = Inr x \<and> f x = Inl e)"
  by (cases r) simp_all

lemma and_then_assoc: "and_then (and_then r f) g = and_then r (\<lambda>x. and_then (f x) g)"
  by (cases r) simp_all

lemma and_then_if: "and_then (if b then x else y) f = (if b then and_then x f else and_then y f)"
  by simp

text \<open>
  \<open>or_bail st r k\<close> is the \<open>?\<close> operator inside a method on \<open>&mut self\<close>: the early return leaves
  the object in the state \<open>st\<close> it has at that point.
\<close>

definition or_bail :: "'s \<Rightarrow> 'e + 'a \<Rightarrow> ('a \<Rightarrow> ('e + 'b) \<times> 's) \<Rightarrow> ('e + 'b) \<times> 's" where
  "or_bail st r k = (case r of Inl e \<Rightarrow> (Inl e, st) | Inr x \<Rightarrow> k x)"

lemma or_bail_simps [simp]: "or_bail st (Inl e) k = (Inl e, st)" "or_bail st (Inr x) k = k x"
  by (simp_all add: or_bail_def)

lemma or_bail_Inr [result_simps]:
  "or_bail st r k = (Inr y, st') \<longleftrightarrow> (\<exists>x. r = Inr x \<and> k x = (Inr y, st'))"
  by (cases r) simp_all

lemma or_bail_Inl [result_simps]:
  "or_bail st r k = (Inl e, st') \<longleftrightarrow> r = Inl e \<and> st' = st \<or> (\<exists>x. r = Inr x \<and> k x = (Inl e, st'))"
  by (cases r) auto

lemma map_result_Inl [simp]:
  "map_sum id f r = Inl e \<longleftrightarrow> r = Inl e"
  "apfst (map_sum id f) p = (Inl e, st) \<longleftrightarrow> p = (Inl e, st)"
  by (cases r; simp) (cases p; cases "fst p"; simp)

lemma map_result_Inr [simp]:
  "map_sum id f r = Inr y \<longleftrightarrow> (\<exists>x. r = Inr x \<and> y = f x)"
  "apfst (map_sum id f) p = (Inr y, st) \<longleftrightarrow> (\<exists>x. p = (Inr x, st) \<and> y = f x)"
  by (cases r; auto) (cases p; cases "fst p"; auto)

definition errors_within :: "'e set \<Rightarrow> 'e + 'a \<Rightarrow> bool" where
  "errors_within E r \<longleftrightarrow> (\<forall>e. r = Inl e \<longrightarrow> e \<in> E)"

lemma errors_within_intros [error_intros]:
  "e \<in> E \<Longrightarrow> errors_within E (Inl e)"
  "errors_within E (Inr x)"
  "errors_within E r \<Longrightarrow> (\<And>x. errors_within E (f x)) \<Longrightarrow> errors_within E (and_then r f)"
  "(b \<Longrightarrow> errors_within E r1) \<Longrightarrow> (\<not> b \<Longrightarrow> errors_within E r2) \<Longrightarrow>
     errors_within E (if b then r1 else r2)"
  "(\<And>x y. errors_within E (g x y)) \<Longrightarrow> errors_within E (case p of (x, y) \<Rightarrow> g x y)"
  "(\<And>x. v = x \<Longrightarrow> errors_within E (h x)) \<Longrightarrow> errors_within E (Let v h)"
  by (auto simp: errors_within_def Let_def and_then_def split: sum.splits prod.splits)

lemma errors_within_ok_or [error_intros]: "e \<in> E \<Longrightarrow> errors_within E (ok_or e v)"
  by (cases v) (simp_all add: errors_within_def ok_or_def)

lemma errors_withinD: "errors_within E r \<Longrightarrow> r = Inl e \<Longrightarrow> e \<in> E"
  by (simp add: errors_within_def)

lemma and_then_cong [fundef_cong]:
  "r = r' \<Longrightarrow> (\<And>x. r' = Inr x \<Longrightarrow> f x = g x) \<Longrightarrow> and_then r f = and_then r' g"
  by (cases r') simp_all

lemma map_err_simps [simp]:
  "map_err g (Inl e) = Inl (g e)" "map_err g (Inr x) = Inr x"
  by (simp_all add: map_err_def)

lemma map_err_eq_Inr [result_simps]: "map_err g r = Inr x \<longleftrightarrow> r = Inr x"
  by (cases r) simp_all

lemma ok_or_simps [simp]: "ok_or e None = Inl e" "ok_or e (Some x) = Inr x"
  by (simp_all add: ok_or_def)

lemma ok_or_eq_Inr [result_simps]: "ok_or e v = Inr x \<longleftrightarrow> v = Some x"
  by (cases v) simp_all

lemma if_eq_Inr [result_simps]:
  "(if b then Inl e else r) = Inr x \<longleftrightarrow> \<not> b \<and> r = Inr x"
  by simp

subsection \<open>Sizes and slices\<close>

text \<open>
  \<open>usize\<close> values are naturals; the two operations that can leave the machine range,
  \<open>checked_add\<close> and \<open>checked_mul\<close>, test it (64-bit target).  \<open>slice_get\<close> is
  \<open>slice.get(a..b)\<close>.
\<close>

definition USIZE_BITS :: nat where
  "USIZE_BITS = 64"

definition checked_add :: "nat \<Rightarrow> nat \<Rightarrow> nat option" where
  "checked_add a b = (if a + b < 2 ^ USIZE_BITS then Some (a + b) else None)"

definition checked_mul :: "nat \<Rightarrow> nat \<Rightarrow> nat option" where
  "checked_mul a b = (if a * b < 2 ^ USIZE_BITS then Some (a * b) else None)"

definition usize_of_u32 :: "u32 \<Rightarrow> nat option" where
  "usize_of_u32 w = (if unat w < 2 ^ USIZE_BITS then Some (unat w) else None)"

definition slice_get :: "'a list \<Rightarrow> nat \<Rightarrow> nat \<Rightarrow> 'a list option" where
  "slice_get xs a b = (if a \<le> b \<and> b \<le> length xs then Some (take (b - a) (drop a xs)) else None)"

lemma usize_of_u32_Some [simp]: "usize_of_u32 w = Some (unat w)"
proof -
  have "unat w < 2 ^ 32"
    by (rule order.strict_trans2 [OF unsigned_less]) simp
  then show ?thesis
    by (simp add: usize_of_u32_def USIZE_BITS_def)
qed

lemma slice_get_append:
  "slice_get (xs @ ys) (length xs) (length xs + n) = (if n \<le> length ys then Some (take n ys) else None)"
  by (simp add: slice_get_def)

subsection \<open>Fixed-width byte arrays\<close>

typedef (overloaded) ('n::len) bytes = "{xs :: u8 list. length xs = LENGTH('n)}"
  morphisms bytes_list Bytes
  by (rule exI [of _ "replicate (LENGTH('n)) 0"]) simp

setup_lifting type_definition_bytes

definition filled :: "u8 \<Rightarrow> 'n::len bytes" where
  "filled b = Bytes (replicate (LENGTH('n)) b)"

definition padded :: "u8 list \<Rightarrow> 'n::len bytes" where
  "padded xs = Bytes (take (LENGTH('n)) (xs @ replicate (LENGTH('n)) 0))"

definition try_into :: "u8 list \<Rightarrow> 'n::len bytes option" where
  "try_into xs = (if length xs = LENGTH('n) then Some (padded xs) else None)"

instantiation bytes :: (len) equal
begin

definition equal_bytes :: "'a bytes \<Rightarrow> 'a bytes \<Rightarrow> bool" where
  "equal_bytes a b = (bytes_list a = bytes_list b)"

instance
  by standard (simp add: equal_bytes_def bytes_list_inject)

end

instantiation bytes :: (len) linorder
begin

definition less_eq_bytes :: "'a bytes \<Rightarrow> 'a bytes \<Rightarrow> bool" where
  "less_eq_bytes a b = (bytes_list a \<le> bytes_list b)"

definition less_bytes :: "'a bytes \<Rightarrow> 'a bytes \<Rightarrow> bool" where
  "less_bytes a b = (bytes_list a < bytes_list b)"

instance
  by standard (auto simp: less_eq_bytes_def less_bytes_def less_le bytes_list_inject)

end

lemma length_bytes_list [simp]: "length (bytes_list (b :: 'n::len bytes)) = LENGTH('n)"
  using bytes_list [of b] by simp

lemma bytes_list_filled [simp, code abstract]:
  "bytes_list (filled b :: 'n::len bytes) = replicate (LENGTH('n)) b"
  by (simp add: filled_def Bytes_inverse)

lemma bytes_list_padded [simp, code abstract]:
  "bytes_list (padded xs :: 'n::len bytes) = take (LENGTH('n)) (xs @ replicate (LENGTH('n)) 0)"
  by (simp add: padded_def Bytes_inverse)

lemma bytes_list_eq_iff [simp]: "bytes_list a = bytes_list b \<longleftrightarrow> a = b"
  by (rule bytes_list_inject)

lemma try_into_eq_Some [simp]: "try_into xs = Some b \<longleftrightarrow> xs = bytes_list b"
  by (auto simp: try_into_def simp flip: bytes_list_eq_iff)

lemma try_into_bytes_list [simp]: "try_into (bytes_list b) = Some b"
  by simp

lemma try_into_None [simp]:
  "(try_into xs :: 'n::len bytes option) = None \<longleftrightarrow> length xs \<noteq> LENGTH('n)"
  by (simp add: try_into_def)

lemma bytes_of_length:
  "length xs = LENGTH('n) \<Longrightarrow> \<exists>b :: 'n::len bytes. xs = bytes_list b"
  by (metis option.exhaust try_into_None try_into_eq_Some)

subsection \<open>Big-endian integers\<close>

text \<open>
  \<open>to_be_bytes\<close> and \<open>from_be_bytes\<close> of the Rust integer types, for every width that
  is a multiple of eight.
\<close>

definition be_bytes :: "nat \<Rightarrow> nat \<Rightarrow> u8 list" where
  "be_bytes n v = map (\<lambda>i. of_nat (v div 256 ^ i)) (rev [0..<n])"

definition be_value :: "u8 list \<Rightarrow> nat" where
  "be_value = foldl (\<lambda>acc b. 256 * acc + unat b) 0"

definition to_be_bytes :: "'w::len word \<Rightarrow> u8 list" where
  "to_be_bytes w = be_bytes (LENGTH('w) div 8) (unat w)"

definition from_be_bytes :: "u8 list \<Rightarrow> 'w::len word" where
  "from_be_bytes bs = of_nat (be_value bs)"

lemma length_be_bytes [simp]: "length (be_bytes n v) = n"
  by (simp add: be_bytes_def)

lemma length_to_be_bytes [simp]: "length (to_be_bytes (w :: 'w::len word)) = LENGTH('w) div 8"
  by (simp add: to_be_bytes_def)

lemma be_value_snoc: "be_value (bs @ [b]) = 256 * be_value bs + unat b"
  by (simp add: be_value_def)

lemma be_bytes_Suc: "be_bytes (Suc n) v = be_bytes n (v div 256) @ [of_nat v]"
proof -
  have "rev [0..<Suc n] = map Suc (rev [0..<n]) @ [0]"
    by (metis map_Suc_upt rev.simps(2) rev_map upt_conv_Cons zero_less_Suc)
  then show ?thesis
    by (simp add: be_bytes_def div_mult2_eq)
qed

lemma be_value_be_bytes: "be_value (be_bytes n v) = v mod 256 ^ n"
proof (induction n arbitrary: v)
  case 0
  then show ?case by (simp add: be_bytes_def be_value_def)
next
  case (Suc n)
  have "unat (of_nat v :: u8) = v mod 256"
    by (simp add: unat_of_nat)
  then show ?case
    using Suc by (simp add: be_bytes_Suc be_value_snoc mod_mult2_eq)
qed

lemma be_value_bound: "be_value bs < 256 ^ length bs"
proof (induction bs rule: rev_induct)
  case Nil
  then show ?case by (simp add: be_value_def)
next
  case (snoc b bs)
  have "unat b < 256"
    by (rule order.strict_trans2 [OF unsigned_less]) simp
  with snoc show ?case by (simp add: be_value_snoc)
qed

lemma be_bytes_be_value: "be_bytes (length bs) (be_value bs) = bs"
proof (induction bs rule: rev_induct)
  case Nil
  then show ?case by (simp add: be_bytes_def)
next
  case (snoc b bs)
  have b: "unat b < 256"
    by (rule order.strict_trans2 [OF unsigned_less]) simp
  have "of_nat (256 * be_value bs + unat b) = b"
    unfolding word_unat_eq_iff unat_of_nat using b by simp
  with snoc b show ?case
    by (simp add: be_bytes_Suc be_value_snoc)
qed

lemma pow_256: "8 dvd n \<Longrightarrow> (256 :: nat) ^ (n div 8) = 2 ^ n"
  by (auto simp: power_mult)

lemma from_to_be_bytes [simp]:
  assumes "8 dvd LENGTH('w)"
  shows "from_be_bytes (to_be_bytes w) = (w :: 'w::len word)"
  using assms by (simp add: from_be_bytes_def to_be_bytes_def be_value_be_bytes pow_256)

lemma to_be_bytes_inject [simp]:
  "8 dvd LENGTH('w) \<Longrightarrow> to_be_bytes a = to_be_bytes b \<longleftrightarrow> a = (b :: 'w::len word)"
  by (metis from_to_be_bytes)

lemma to_from_be_bytes:
  assumes "8 dvd LENGTH('w)" and "length bs = LENGTH('w) div 8"
  shows "to_be_bytes (from_be_bytes bs :: 'w::len word) = bs"
proof -
  have "(256 :: nat) ^ length bs = 2 ^ LENGTH('w)"
    using assms by (simp add: pow_256)
  with be_value_bound [of bs] have "be_value bs < 2 ^ LENGTH('w)"
    by simp
  then have "unat (of_nat (be_value bs) :: 'w word) = be_value bs"
    by (simp add: unat_of_nat)
  then show ?thesis
    using be_bytes_be_value [of bs] assms(2) by (simp add: to_be_bytes_def from_be_bytes_def)
qed

subsection \<open>Panics\<close>

text \<open>
  Code that indexes with \<open>xs[a..b]\<close> may panic.  Its results carry a \<open>fault\<close>, either \<open>Panic\<close> or
  an ordinary error value, so that the absence of panics is a statement about the model.
\<close>

datatype 'e fault = Panic | Err 'e

abbreviation lift_err :: "'e + 'a \<Rightarrow> 'e fault + 'a" where
  "lift_err \<equiv> map_err Err"

definition index_range :: "'a list \<Rightarrow> nat \<Rightarrow> nat \<Rightarrow> 'e fault + 'a list" where
  "index_range xs a b = (if a \<le> b \<and> b \<le> length xs then Inr (take (b - a) (drop a xs)) else Inl Panic)"

definition index_at :: "'a list \<Rightarrow> nat \<Rightarrow> 'e fault + 'a" where
  "index_at xs i = (if i < length xs then Inr (xs ! i) else Inl Panic)"

lemma index_range_Inr [simp]:
  "a \<le> b \<Longrightarrow> b \<le> length xs \<Longrightarrow> index_range xs a b = Inr (take (b - a) (drop a xs))"
  by (simp add: index_range_def)

lemma index_at_Inr [simp]: "i < length xs \<Longrightarrow> index_at xs i = Inr (xs ! i)"
  by (simp add: index_at_def)

subsection \<open>Iterators\<close>

text \<open>\<open>try_map f xs\<close> is \<open>xs.iter().map(f).collect::<Result<Vec<_>, _>>()\<close>.\<close>

fun try_map :: "('a \<Rightarrow> 'e + 'b) \<Rightarrow> 'a list \<Rightarrow> 'e + 'b list" where
  "try_map f [] = Inr []"
| "try_map f (x # xs) = and_then (f x) (\<lambda>y. and_then (try_map f xs) (\<lambda>ys. Inr (y # ys)))"

lemma try_map_map: "(\<And>x. x \<in> set xs \<Longrightarrow> f (g x) = Inr x) \<Longrightarrow> try_map f (map g xs) = Inr xs"
  by (induction xs) simp_all

text \<open>\<open>slice::chunks_exact\<close>, for a positive chunk length.\<close>

function chunks_exact :: "nat \<Rightarrow> 'a list \<Rightarrow> 'a list list" where
  "chunks_exact n xs = (if n = 0 \<or> length xs < n then [] else take n xs # chunks_exact n (drop n xs))"
  by auto
termination by (relation "measure (\<lambda>(n, xs). length xs)") auto

declare chunks_exact.simps [simp del]

lemma chunks_exact_concat:
  assumes "n > 0" and "\<And>x. x \<in> set xs \<Longrightarrow> length (f x) = n"
  shows "chunks_exact n (concat (map f xs)) = map f xs"
  using assms(2)
proof (induction xs)
  case (Cons x xs)
  then show ?case using assms(1) by (subst chunks_exact.simps) simp
qed (use assms(1) in \<open>simp add: chunks_exact.simps\<close>)

end
