(* ===== verification/Fcp_Types.thy ===== *)
theory Fcp_Types
  imports Prelude
begin

text \<open>
  The vocabulary of the protocol core: the fixed-width identifiers and policy
  constants of \<open>libfcp-core/src/types.rs\<close>, the failures of \<open>error.rs\<close>, and the
  endpoint identities and mandatory dual signatures of \<open>identity.rs\<close>.

  The signature algorithms and the hash are third-party code.  They enter as the
  record \<open>crypto\<close> (the verification side and BLAKE3) and the record \<open>key_ops\<close>
  (the signing side), which every definition that uses them takes as an argument.
\<close>

subsection \<open>Identifiers and bounds\<close>

definition FCP_WIRE_MARKER :: "3 bytes" where
  "FCP_WIRE_MARKER = padded [0x46, 0x43, 0x50]"

definition PROTOCOL_ID :: string where
  "PROTOCOL_ID = ''org.nixort.cfr.fcp''"

definition FCP_WIRE_VERSION :: u8 where
  "FCP_WIRE_VERSION = 1"

definition MAX_DESCRIPTION_BYTES :: nat where
  "MAX_DESCRIPTION_BYTES = 96 * 1024"

definition MAX_CANDIDATE_BYTES :: nat where
  "MAX_CANDIDATE_BYTES = 4 * 1024"

definition MAX_CFR_CONTROL_BYTES :: nat where
  "MAX_CFR_CONTROL_BYTES = 4 * 1024 * 1024"

definition MAX_ENVELOPE_BYTES :: nat where
  "MAX_ENVELOPE_BYTES = MAX_CFR_CONTROL_BYTES + 8 * 1024"

definition MAX_SEEN_ENVELOPES :: nat where
  "MAX_SEEN_ENVELOPES = 1024"

lemmas bound_defs =
  MAX_DESCRIPTION_BYTES_def MAX_CANDIDATE_BYTES_def MAX_CFR_CONTROL_BYTES_def MAX_ENVELOPE_BYTES_def

datatype federation_id = FederationId (federation_bytes: "32 bytes")

datatype attempt_id = AttemptId (attempt_bytes: "16 bytes")

datatype endpoint_key = EndpointKey (endpoint_key_bytes: "32 bytes")

datatype webrtc_binding = WebRtcBinding (binding_bytes: "32 bytes")

datatype envelope_id = EnvelopeId (envelope_id_bytes: "32 bytes")

datatype close_code = CloseCode (close_code_u16: u16)

subsection \<open>Failures\<close>

datatype error =
    TooLarge
  | FieldTooLarge
  | Truncated
  | TrailingBytes
  | BadMarker
  | UnsupportedVersion
  | UnknownKind
  | BadSenderKey
  | BadSignature
  | NonCanonical
  | WrongFederation
  | WrongAttempt
  | WrongSender
  | WrongRecipient
  | SameEndpoint
  | WrongLocalSigner
  | InvalidState
  | Glare
  | WrongCandidateParent
  | BadConfigurationMarker
  | UnsupportedConfigurationVersion
  | BadConfigurationAuthority
  | WrongConfigurationAuthority
  | BadConfigurationSignature
  | TooManyFederationMembers
  | DuplicateFederationMember
  | BadPostQuantumKey
  | BadPostQuantumSignatureEncoding
  | BadPostQuantumSignature

subsection \<open>Third-party cryptography\<close>

text \<open>
  \<open>ed25519_key_from_bytes\<close> is whether \<open>VerifyingKey::from_bytes\<close> accepts the key,
  \<open>ed25519_verify_strict\<close> whether the strict check accepts the signature; the
  \<open>mldsa\<close> fields are the key parser, the signature parser and the verifier of
  ML-DSA-65; \<open>blake3_hash\<close> is the hash of a complete input.
\<close>

record crypto =
  ed25519_key_from_bytes :: "32 bytes \<Rightarrow> bool"
  ed25519_verify_strict :: "32 bytes \<Rightarrow> u8 list \<Rightarrow> 64 bytes \<Rightarrow> bool"
  mldsa_key_try_from :: "1952 bytes \<Rightarrow> bool"
  mldsa_signature_try_from :: "3309 bytes \<Rightarrow> bool"
  mldsa_verify :: "1952 bytes \<Rightarrow> u8 list \<Rightarrow> 3309 bytes \<Rightarrow> bool"
  blake3_hash :: "u8 list \<Rightarrow> 32 bytes"

record ('sk, 'psk) key_ops =
  ed25519_verifying_key :: "'sk \<Rightarrow> 32 bytes"
  ed25519_sign :: "'sk \<Rightarrow> u8 list \<Rightarrow> 64 bytes"
  mldsa_verifying_key :: "'psk \<Rightarrow> 1952 bytes"
  mldsa_sign :: "'psk \<Rightarrow> u8 list \<Rightarrow> 3309 bytes"

text \<open>ASCII text as the bytes of a Rust byte string.\<close>

definition ascii :: "string \<Rightarrow> u8 list" where
  "ascii s = map (\<lambda>ch. word_of_nat (of_char ch)) s"

definition binding_preimage :: "u8 list \<Rightarrow> u8 list \<Rightarrow> u8 list" where
  "binding_preimage description dtls_fingerprint =
     ascii ''org.nixort.cfr.fcp/webrtc-binding'' @
     to_be_bytes (of_nat (length description) :: u64) @ description @
     to_be_bytes (of_nat (length dtls_fingerprint) :: u64) @ dtls_fingerprint"

definition derive :: "crypto \<Rightarrow> u8 list \<Rightarrow> u8 list \<Rightarrow> webrtc_binding" where
  "derive c description dtls_fingerprint =
     WebRtcBinding (blake3_hash c (binding_preimage description dtls_fingerprint))"

subsection \<open>Endpoint identities\<close>

datatype endpoint_identity =
  EndpointIdentity (classical: endpoint_key) (post_quantum: "1952 bytes")

instantiation endpoint_key :: linorder
begin

definition less_eq_endpoint_key :: "endpoint_key \<Rightarrow> endpoint_key \<Rightarrow> bool" where
  "less_eq_endpoint_key a b = (endpoint_key_bytes a \<le> endpoint_key_bytes b)"

definition less_endpoint_key :: "endpoint_key \<Rightarrow> endpoint_key \<Rightarrow> bool" where
  "less_endpoint_key a b = (endpoint_key_bytes a < endpoint_key_bytes b)"

instance
  by standard
    (auto simp: less_eq_endpoint_key_def less_endpoint_key_def endpoint_key.expand less_le_not_le)

end

text \<open>The derived \<open>Ord\<close> of a struct compares its fields in order.\<close>

instantiation endpoint_identity :: linorder
begin

definition less_eq_endpoint_identity :: "endpoint_identity \<Rightarrow> endpoint_identity \<Rightarrow> bool" where
  "less_eq_endpoint_identity a b =
     (classical a < classical b \<or> (classical a = classical b \<and> post_quantum a \<le> post_quantum b))"

definition less_endpoint_identity :: "endpoint_identity \<Rightarrow> endpoint_identity \<Rightarrow> bool" where
  "less_endpoint_identity a b =
     (classical a < classical b \<or> (classical a = classical b \<and> post_quantum a < post_quantum b))"

instance
  by standard
    (auto simp: less_eq_endpoint_identity_def less_endpoint_identity_def endpoint_identity.expand)

end

definition verify_classical :: "crypto \<Rightarrow> endpoint_identity \<Rightarrow> u8 list \<Rightarrow> 64 bytes \<Rightarrow> error + unit" where
  "verify_classical c identity message signature =
     (let key = endpoint_key_bytes (classical identity)
      in if \<not> ed25519_key_from_bytes c key then Inl BadSenderKey
         else if ed25519_verify_strict c key message signature then Inr ()
         else Inl BadSignature)"

definition verify_post_quantum :: "crypto \<Rightarrow> endpoint_identity \<Rightarrow> u8 list \<Rightarrow> 3309 bytes \<Rightarrow> error + unit" where
  "verify_post_quantum c identity message signature =
     (if \<not> mldsa_key_try_from c (post_quantum identity) then Inl BadPostQuantumKey
      else if \<not> mldsa_signature_try_from c signature then Inl BadPostQuantumSignatureEncoding
      else if mldsa_verify c (post_quantum identity) message signature then Inr ()
      else Inl BadPostQuantumSignature)"

text \<open>The \<open>EndpointSigner\<close> trait as a record of its three methods.\<close>

record signer =
  signer_endpoint :: endpoint_identity
  sign_classical :: "u8 list \<Rightarrow> 64 bytes"
  sign_post_quantum :: "u8 list \<Rightarrow> 3309 bytes"

record ('sk, 'psk) signing_identity =
  si_classical :: 'sk
  si_post_quantum :: 'psk

definition signing_identity_endpoint ::
  "('sk, 'psk) key_ops \<Rightarrow> ('sk, 'psk) signing_identity \<Rightarrow> endpoint_identity" where
  "signing_identity_endpoint ops si =
     EndpointIdentity (EndpointKey (ed25519_verifying_key ops (si_classical si)))
       (mldsa_verifying_key ops (si_post_quantum si))"

definition signing_identity_signer ::
  "('sk, 'psk) key_ops \<Rightarrow> ('sk, 'psk) signing_identity \<Rightarrow> signer" where
  "signing_identity_signer ops si =
     \<lparr> signer_endpoint = signing_identity_endpoint ops si,
       sign_classical = ed25519_sign ops (si_classical si),
       sign_post_quantum = mldsa_sign ops (si_post_quantum si) \<rparr>"

subsection \<open>What signatures promise\<close>

text \<open>
  \<open>signs_correctly\<close> is the documented contract of the two algorithms for one key
  pair: public keys parse, signatures parse, and what a key signs its public key
  verifies.  \<open>honest_signer\<close> is the same contract seen through the trait.
\<close>

definition signs_correctly ::
  "crypto \<Rightarrow> ('sk, 'psk) key_ops \<Rightarrow> ('sk, 'psk) signing_identity \<Rightarrow> bool" where
  "signs_correctly c ops si \<longleftrightarrow>
     ed25519_key_from_bytes c (ed25519_verifying_key ops (si_classical si)) \<and>
     mldsa_key_try_from c (mldsa_verifying_key ops (si_post_quantum si)) \<and>
     (\<forall>m. ed25519_verify_strict c (ed25519_verifying_key ops (si_classical si)) m
            (ed25519_sign ops (si_classical si) m)) \<and>
     (\<forall>m. mldsa_signature_try_from c (mldsa_sign ops (si_post_quantum si) m)) \<and>
     (\<forall>m. mldsa_verify c (mldsa_verifying_key ops (si_post_quantum si)) m
            (mldsa_sign ops (si_post_quantum si) m))"

definition honest_signer :: "crypto \<Rightarrow> signer \<Rightarrow> bool" where
  "honest_signer c s \<longleftrightarrow>
     (\<forall>m. verify_classical c (signer_endpoint s) m (sign_classical s m) = Inr () \<and>
          verify_post_quantum c (signer_endpoint s) m (sign_post_quantum s m) = Inr ())"

lemma honest_signerD:
  assumes "honest_signer c s"
  shows "verify_classical c (signer_endpoint s) m (sign_classical s m) = Inr ()"
    and "verify_post_quantum c (signer_endpoint s) m (sign_post_quantum s m) = Inr ()"
  using assms by (simp_all add: honest_signer_def)

lemma signing_identity_honest:
  "signs_correctly c ops si \<Longrightarrow> honest_signer c (signing_identity_signer ops si)"
  by (simp add: signs_correctly_def honest_signer_def signing_identity_signer_def
      signing_identity_endpoint_def verify_classical_def verify_post_quantum_def)

lemma verify_classical_error:
  "verify_classical c i m s = Inl e \<Longrightarrow> e = BadSenderKey \<or> e = BadSignature"
  by (auto simp: verify_classical_def Let_def split: if_splits)

lemma verify_post_quantum_error:
  "verify_post_quantum c i m s = Inl e \<Longrightarrow>
     e = BadPostQuantumKey \<or> e = BadPostQuantumSignatureEncoding \<or> e = BadPostQuantumSignature"
  by (auto simp: verify_post_quantum_def split: if_splits)

subsection \<open>Unambiguous bindings\<close>

lemma be_length_prefix_inj:
  assumes "to_be_bytes (of_nat (length xs) :: u64) @ xs @ s = to_be_bytes (of_nat (length ys) :: u64) @ ys @ t"
    and "length xs < 2 ^ 64" and "length ys < 2 ^ 64"
  shows "xs = ys \<and> s = t"
proof -
  have "to_be_bytes (of_nat (length xs) :: u64) = to_be_bytes (of_nat (length ys) :: u64)"
    and rest: "xs @ s = ys @ t"
    using assms(1) by (simp_all add: append_eq_append_conv)
  then have "(of_nat (length xs) :: u64) = of_nat (length ys)"
    by simp
  then have "unat (of_nat (length xs) :: u64) = unat (of_nat (length ys) :: u64)"
    by simp
  then have "length xs = length ys"
    using assms(2,3) by (simp add: unat_of_nat)
  with rest show ?thesis by simp
qed

lemma binding_preimage_inj:
  assumes "binding_preimage d f = binding_preimage d' f'"
    and "length d < 2 ^ 64" "length d' < 2 ^ 64" "length f < 2 ^ 64" "length f' < 2 ^ 64"
  shows "d = d' \<and> f = f'"
proof -
  have "d = d' \<and> to_be_bytes (of_nat (length f) :: u64) @ f @ [] = to_be_bytes (of_nat (length f') :: u64) @ f' @ []"
    using assms(1) by (intro be_length_prefix_inj assms) (simp add: binding_preimage_def)
  then show ?thesis
    using be_length_prefix_inj [of f "[]" f' "[]"] assms by blast
qed

subsection \<open>A concrete instance of the external algorithms\<close>

text \<open>
  An executable stand-in for the signature and hash libraries, at which the hypotheses of the
  properties are discharged: a signature is the key's first byte followed by the message, cut or
  padded to the signature's length, and a digest is the envelope kind followed by the first bytes
  of the body.
\<close>

definition demo_crypto :: crypto where
  "demo_crypto = \<lparr>
     ed25519_key_from_bytes = (\<lambda>_. True),
     ed25519_verify_strict = (\<lambda>k m s. s = padded (hd (bytes_list k) # m)),
     mldsa_key_try_from = (\<lambda>_. True),
     mldsa_signature_try_from = (\<lambda>_. True),
     mldsa_verify = (\<lambda>k m s. s = padded (hd (bytes_list k) # m)),
     blake3_hash = (\<lambda>m. padded (m ! 4 # drop 4021 m)) \<rparr>"

definition demo_identity :: "u8 \<Rightarrow> endpoint_identity" where
  "demo_identity n = EndpointIdentity (EndpointKey (filled n)) (filled n)"

definition demo_signer :: "u8 \<Rightarrow> signer" where
  "demo_signer n = \<lparr> signer_endpoint = demo_identity n,
     sign_classical = (\<lambda>m. padded (n # m)), sign_post_quantum = (\<lambda>m. padded (n # m)) \<rparr>"

lemma signer_endpoint_demo [simp]: "signer_endpoint (demo_signer n) = demo_identity n"
  by (simp add: demo_signer_def)

lemma demo_identity_eq [simp]: "demo_identity m = demo_identity n \<longleftrightarrow> m = n"
proof
  assume "demo_identity m = demo_identity n"
  then have "hd (bytes_list (filled m :: 32 bytes)) = hd (bytes_list (filled n :: 32 bytes))"
    by (simp add: demo_identity_def)
  then show "m = n" by simp
qed simp

lemma demo_signer_honest [simp]: "honest_signer demo_crypto (demo_signer n)"
  by (simp add: honest_signer_def demo_signer_def demo_identity_def demo_crypto_def
      verify_classical_def verify_post_quantum_def)

end
