(* ===== verification/Wire.thy ===== *)
theory Wire
  imports Fcp_Types
begin

text \<open>
  The bounded reader and writer at the end of \<open>libfcp-core/src/envelope.rs\<close>: a
  \<open>Reader\<close> is the wire and an offset into it, a \<open>Writer\<close> is the bytes written so
  far.  The locale \<open>wire_field\<close> is the contract between a writer and the reader of
  the same field: reading what was written gives it back and advances past it, and
  whatever is read was written there.  Every field type of the wire format is an
  interpretation of it.
\<close>

subsection \<open>Definitions\<close>

definition validate_len :: "nat \<Rightarrow> nat \<Rightarrow> error + unit" where
  "validate_len len maximum =
     (if len > maximum \<or> len > 2 ^ 32 - 1 then Inl FieldTooLarge else Inr ())"

type_synonym writer = "u8 list"

definition writer_fixed :: "writer \<Rightarrow> u8 list \<Rightarrow> writer" where
  "writer_fixed w bs = w @ bs"

definition writer_u8 :: "writer \<Rightarrow> u8 \<Rightarrow> writer" where
  "writer_u8 w b = w @ [b]"

definition writer_u16 :: "writer \<Rightarrow> u16 \<Rightarrow> writer" where
  "writer_u16 w n = writer_fixed w (to_be_bytes n)"

definition writer_u32 :: "writer \<Rightarrow> u32 \<Rightarrow> writer" where
  "writer_u32 w n = writer_fixed w (to_be_bytes n)"

definition u32_try_from :: "nat \<Rightarrow> u32 option" where
  "u32_try_from n = (if n < 2 ^ 32 then Some (of_nat n) else None)"

definition writer_bytes :: "writer \<Rightarrow> u8 list \<Rightarrow> error + writer" where
  "writer_bytes w bs =
     and_then (validate_len (length bs) MAX_CFR_CONTROL_BYTES) (\<lambda>_.
     and_then (ok_or FieldTooLarge (u32_try_from (length bs))) (\<lambda>len.
     Inr (writer_fixed (writer_u32 w len) bs)))"

record reader =
  reader_wire :: "u8 list"
  reader_offset :: nat

definition reader_new :: "u8 list \<Rightarrow> reader" where
  "reader_new wire = \<lparr> reader_wire = wire, reader_offset = 0 \<rparr>"

definition read_fixed :: "reader \<Rightarrow> error + ('n::len bytes \<times> reader)" where
  "read_fixed r =
     and_then (ok_or Truncated (checked_add (reader_offset r) (LENGTH('n)))) (\<lambda>stop.
     and_then (ok_or Truncated (slice_get (reader_wire r) (reader_offset r) stop)) (\<lambda>bs.
     and_then (ok_or Truncated (try_into bs)) (\<lambda>b.
     Inr (b, r\<lparr>reader_offset := stop\<rparr>))))"

definition read_u8 :: "reader \<Rightarrow> error + (u8 \<times> reader)" where
  "read_u8 r = and_then (read_fixed r) (\<lambda>(b :: 1 bytes, r). Inr (hd (bytes_list b), r))"

definition read_u16 :: "reader \<Rightarrow> error + (u16 \<times> reader)" where
  "read_u16 r = and_then (read_fixed r) (\<lambda>(b :: 2 bytes, r). Inr (from_be_bytes (bytes_list b), r))"

definition read_u32 :: "reader \<Rightarrow> error + (u32 \<times> reader)" where
  "read_u32 r = and_then (read_fixed r) (\<lambda>(b :: 4 bytes, r). Inr (from_be_bytes (bytes_list b), r))"

definition read_bytes_ref :: "nat \<Rightarrow> reader \<Rightarrow> error + (u8 list \<times> reader)" where
  "read_bytes_ref maximum r =
     and_then (read_u32 r) (\<lambda>(n, r).
     and_then (ok_or FieldTooLarge (usize_of_u32 n)) (\<lambda>len.
     and_then (validate_len len maximum) (\<lambda>_.
     and_then (ok_or Truncated (checked_add (reader_offset r) len)) (\<lambda>stop.
     and_then (ok_or Truncated (slice_get (reader_wire r) (reader_offset r) stop)) (\<lambda>bs.
     Inr (bs, r\<lparr>reader_offset := stop\<rparr>))))))"

definition read_bytes :: "nat \<Rightarrow> reader \<Rightarrow> error + (u8 list \<times> reader)" where
  "read_bytes maximum r = read_bytes_ref maximum r"

definition reader_finish :: "reader \<Rightarrow> error + unit" where
  "reader_finish r =
     (if reader_offset r = length (reader_wire r) then Inr () else Inl TrailingBytes)"

definition write_identity :: "writer \<Rightarrow> endpoint_identity \<Rightarrow> writer" where
  "write_identity w identity =
     writer_fixed (writer_fixed w (bytes_list (endpoint_key_bytes (classical identity))))
       (bytes_list (post_quantum identity))"

definition read_identity :: "reader \<Rightarrow> error + (endpoint_identity \<times> reader)" where
  "read_identity r =
     and_then (read_fixed r) (\<lambda>(key, r).
     and_then (read_fixed r) (\<lambda>(pq, r).
     Inr (EndpointIdentity (EndpointKey key) pq, r)))"

subsection \<open>Readers by position\<close>

text \<open>
  \<open>reader_at pre s\<close> has consumed \<open>pre\<close> and has \<open>s\<close> left.  \<open>addressable\<close> says that
  the wire fits the address space, the condition under which \<open>checked_add\<close> on an
  offset within the wire succeeds.
\<close>

definition reader_at :: "u8 list \<Rightarrow> u8 list \<Rightarrow> reader" where
  "reader_at pre s = \<lparr> reader_wire = pre @ s, reader_offset = length pre \<rparr>"

definition addressable :: "u8 list \<Rightarrow> bool" where
  "addressable wire \<longleftrightarrow> length wire < 2 ^ USIZE_BITS"

lemma reader_new_at: "reader_new wire = reader_at [] wire"
  by (simp add: reader_new_def reader_at_def)

lemma addressable_envelope: "length wire \<le> MAX_ENVELOPE_BYTES \<Longrightarrow> addressable wire"
  by (simp add: addressable_def USIZE_BITS_def bound_defs)

lemma reader_at_eq [simp]: "reader_at pre s = reader_at pre' s' \<longleftrightarrow> pre = pre' \<and> s = s'"
  by (auto simp: reader_at_def append_eq_append_conv)

lemma reader_finish_at [simp]:
  "reader_finish (reader_at pre s) = (if s = [] then Inr () else Inl TrailingBytes)"
  by (simp add: reader_finish_def reader_at_def)

lemma take_slice_at:
  assumes "addressable (pre @ s)"
  shows "and_then (ok_or Truncated (checked_add (length pre) n)) (\<lambda>stop.
           and_then (ok_or Truncated (slice_get (pre @ s) (length pre) stop)) (\<lambda>bs. f bs stop)) =
         (if n \<le> length s then f (take n s) (length pre + n) else Inl Truncated)"
  using assms by (auto simp: addressable_def checked_add_def slice_get_def)

lemma reader_at_advance:
  "n \<le> length s \<Longrightarrow>
     (reader_at pre s)\<lparr>reader_offset := length pre + n\<rparr> = reader_at (pre @ take n s) (drop n s)"
  by (simp add: reader_at_def)

lemma read_fixed_at:
  assumes "addressable (pre @ s)"
  shows "(read_fixed (reader_at pre s) :: error + ('n::len bytes \<times> reader)) =
     (if LENGTH('n) \<le> length s
      then Inr (padded (take (LENGTH('n)) s), reader_at (pre @ take (LENGTH('n)) s) (drop (LENGTH('n)) s))
      else Inl Truncated)"
proof -
  have "reader_wire (reader_at pre s) = pre @ s" "reader_offset (reader_at pre s) = length pre"
    by (simp_all add: reader_at_def)
  then show ?thesis
    by (simp add: read_fixed_def take_slice_at [OF assms] reader_at_advance try_into_def)
qed

subsection \<open>The field contract\<close>

locale wire_field =
  fixes put :: "'a \<Rightarrow> u8 list"
    and get :: "reader \<Rightarrow> error + ('a \<times> reader)"
    and fits :: "'a \<Rightarrow> bool"
  assumes get_put: "addressable (pre @ put x @ s) \<Longrightarrow> fits x \<Longrightarrow>
      get (reader_at pre (put x @ s)) = Inr (x, reader_at (pre @ put x) s)"
    and put_get: "addressable (pre @ s) \<Longrightarrow> get (reader_at pre s) = Inr (x, r) \<Longrightarrow>
      fits x \<and> (\<exists>t. s = put x @ t \<and> r = reader_at (pre @ put x) t)"
begin

lemma get_iff:
  "addressable (pre @ s) \<Longrightarrow>
     get (reader_at pre s) = Inr (x, r) \<longleftrightarrow>
       fits x \<and> (\<exists>t. s = put x @ t \<and> r = reader_at (pre @ put x) t)"
  using get_put put_get by auto

lemma get_last:
  "addressable (pre @ put x) \<Longrightarrow> fits x \<Longrightarrow>
     get (reader_at pre (put x)) = Inr (x, reader_at (pre @ put x) [])"
  using get_put [of pre x "[]"] by simp

lemma put_prefix_free:
  assumes "fits x" and "fits y" and "put x @ s = put y @ t"
    and "addressable (put x @ s)"
  shows "x = y \<and> s = t"
proof -
  have "get (reader_at [] (put x @ s)) = Inr (x, reader_at (put x) s)"
    using get_put [of "[]" x s] assms by simp
  moreover have "get (reader_at [] (put x @ s)) = Inr (y, reader_at (put y) t)"
    using get_put [of "[]" y t] assms by simp
  ultimately show ?thesis by simp
qed

end

text \<open>Two fields in sequence are a field.\<close>

locale wire_pair = a: wire_field put_a get_a fits_a + b: wire_field put_b get_b fits_b
  for put_a :: "'a \<Rightarrow> u8 list" and get_a and fits_a
    and put_b :: "'b \<Rightarrow> u8 list" and get_b and fits_b

sublocale wire_pair \<subseteq> ab: wire_field
  "\<lambda>(x, y). put_a x @ put_b y"
  "\<lambda>r. and_then (get_a r) (\<lambda>(x, r). and_then (get_b r) (\<lambda>(y, r). Inr ((x, y), r)))"
  "\<lambda>(x, y). fits_a x \<and> fits_b y"
proof (unfold_locales, goal_cases)
  case (1 pre x s)
  then show ?case by (cases x) (simp add: a.get_put b.get_put)
next
  case (2 pre s x r)
  then show ?case by (cases x) (auto simp: and_then_eq_Inr a.get_iff b.get_iff)
qed

subsection \<open>The fields of the wire format\<close>

lemma read_fixed_iff:
  assumes "addressable (pre @ s)"
  shows "read_fixed (reader_at pre s) = Inr (b :: 'n::len bytes, r) \<longleftrightarrow>
     (\<exists>t. s = bytes_list b @ t \<and> r = reader_at (pre @ bytes_list b) t)"
proof
  assume "read_fixed (reader_at pre s) = Inr (b, r)"
  then have len: "LENGTH('n) \<le> length s" and b: "b = padded (take (LENGTH('n)) s)"
    and r: "r = reader_at (pre @ take (LENGTH('n)) s) (drop (LENGTH('n)) s)"
    by (simp_all add: read_fixed_at [OF assms] split: if_splits)
  have "bytes_list b = take (LENGTH('n)) s"
    using len by (simp add: b)
  then show "\<exists>t. s = bytes_list b @ t \<and> r = reader_at (pre @ bytes_list b) t"
    using r by (metis append_take_drop_id)
next
  assume "\<exists>t. s = bytes_list b @ t \<and> r = reader_at (pre @ bytes_list b) t"
  then show "read_fixed (reader_at pre s) = Inr (b, r)"
    using assms by (auto simp: read_fixed_at simp flip: bytes_list_eq_iff)
qed

interpretation fixed_field: wire_field bytes_list read_fixed "\<lambda>_. True"
  by unfold_locales (auto simp: read_fixed_iff)

lemma read_u8_cons [simp]:
  "addressable (pre @ b # s) \<Longrightarrow> read_u8 (reader_at pre (b # s)) = Inr (b, reader_at (pre @ [b]) s)"
  by (simp add: read_u8_def read_fixed_at)

lemma read_u8_nil [simp]: "addressable pre \<Longrightarrow> read_u8 (reader_at pre []) = Inl Truncated"
  by (simp add: read_u8_def read_fixed_at)

interpretation u8_field: wire_field "\<lambda>b. [b]" read_u8 "\<lambda>_. True"
proof (unfold_locales)
  fix pre s x r
  assume "addressable (pre @ s)" "read_u8 (reader_at pre s) = Inr (x, r)"
  then show "True \<and> (\<exists>t. s = [x] @ t \<and> r = reader_at (pre @ [x]) t)"
    by (cases s) auto
qed simp

lemma read_be_field:
  assumes width: "8 dvd LENGTH('w)" "LENGTH('n) = LENGTH('w) div 8"
    and get: "\<And>r. g r = and_then (read_fixed r) (\<lambda>(b :: 'n::len bytes, r). Inr (from_be_bytes (bytes_list b) :: 'w::len word, r))"
  shows "wire_field to_be_bytes g (\<lambda>_. True)"
proof (unfold_locales)
  fix pre s and x :: "'w word"
  assume a: "addressable (pre @ to_be_bytes x @ s)"
  obtain b :: "'n bytes" where b: "to_be_bytes x = bytes_list b"
    using bytes_of_length [of "to_be_bytes x", where 'n = 'n] width by auto
  have "from_be_bytes (bytes_list b) = x"
    using width(1) by (simp flip: b)
  then show "g (reader_at pre (to_be_bytes x @ s)) = Inr (x, reader_at (pre @ to_be_bytes x) s)"
    using a by (simp add: get b fixed_field.get_put)
next
  fix pre s r and x :: "'w word"
  assume "addressable (pre @ s)" "g (reader_at pre s) = Inr (x, r)"
  then obtain b :: "'n bytes" and t where "x = from_be_bytes (bytes_list b)"
    and "s = bytes_list b @ t" "r = reader_at (pre @ bytes_list b) t"
    by (auto simp: get and_then_eq_Inr read_fixed_iff)
  moreover have "to_be_bytes (from_be_bytes (bytes_list b) :: 'w word) = bytes_list b"
    using width by (intro to_from_be_bytes) simp_all
  ultimately show "True \<and> (\<exists>t. s = to_be_bytes x @ t \<and> r = reader_at (pre @ to_be_bytes x) t)"
    by auto
qed

interpretation u16_field: wire_field to_be_bytes read_u16 "\<lambda>_. True"
  by (rule read_be_field [where 'n = 2]) (simp_all add: read_u16_def)

interpretation u32_field: wire_field to_be_bytes read_u32 "\<lambda>_. True"
  by (rule read_be_field [where 'n = 4]) (simp_all add: read_u32_def)

definition len_prefixed :: "u8 list \<Rightarrow> u8 list" where
  "len_prefixed bs = to_be_bytes (of_nat (length bs) :: u32) @ bs"

lemma validate_len_Inr [simp]:
  "validate_len n m = Inr u \<longleftrightarrow> n \<le> m \<and> n < 2 ^ 32"
  by (auto simp: validate_len_def)

lemma read_bytes_ref_put:
  fixes n :: u32
  assumes "addressable (pre @ to_be_bytes n @ t)"
  shows "read_bytes_ref m (reader_at pre (to_be_bytes n @ t)) =
     and_then (validate_len (unat n) m) (\<lambda>_.
       if unat n \<le> length t
       then Inr (take (unat n) t, reader_at (pre @ to_be_bytes n @ take (unat n) t) (drop (unat n) t))
       else Inl Truncated)"
proof -
  let ?p = "pre @ to_be_bytes n"
  have addr: "addressable (?p @ t)" using assms by simp
  have at: "reader_wire (reader_at ?p t) = ?p @ t" "reader_offset (reader_at ?p t) = length ?p"
    by (simp_all add: reader_at_def)
  show ?thesis
    unfolding read_bytes_ref_def u32_field.get_put [OF assms TrueI]
    by (simp only: and_then_Inr prod.case usize_of_u32_Some ok_or_simps at take_slice_at [OF addr])
      (simp add: reader_at_advance [of _ t ?p, simplified] cong: and_then_cong)
qed

lemma read_bytes_ref_iff:
  assumes "addressable (pre @ s)"
  shows "read_bytes_ref m (reader_at pre s) = Inr (bs, r) \<longleftrightarrow>
     length bs \<le> m \<and> length bs < 2 ^ 32 \<and>
     (\<exists>t. s = len_prefixed bs @ t \<and> r = reader_at (pre @ len_prefixed bs) t)"
proof
  assume got: "read_bytes_ref m (reader_at pre s) = Inr (bs, r)"
  then obtain n r' where "read_u32 (reader_at pre s) = Inr (n, r')"
    by (auto simp: read_bytes_ref_def and_then_eq_Inr)
  then obtain t where s: "s = to_be_bytes n @ t"
    using u32_field.put_get [OF assms] by blast
  have addr: "addressable (pre @ to_be_bytes n @ t)"
    using assms s by simp
  from got have "unat n \<le> m" "unat n < 2 ^ 32" "unat n \<le> length t" and bs: "bs = take (unat n) t"
    and r: "r = reader_at (pre @ to_be_bytes n @ take (unat n) t) (drop (unat n) t)"
    unfolding s read_bytes_ref_put [OF addr] by (auto simp: and_then_eq_Inr split: if_splits)
  moreover from this have "of_nat (length bs) = n" by simp
  ultimately show "length bs \<le> m \<and> length bs < 2 ^ 32 \<and>
     (\<exists>t. s = len_prefixed bs @ t \<and> r = reader_at (pre @ len_prefixed bs) t)"
    using s by (auto simp: len_prefixed_def)
next
  assume "length bs \<le> m \<and> length bs < 2 ^ 32 \<and>
     (\<exists>t. s = len_prefixed bs @ t \<and> r = reader_at (pre @ len_prefixed bs) t)"
  then obtain t where len: "length bs \<le> m" "length bs < 2 ^ 32"
    and s: "s = to_be_bytes (of_nat (length bs) :: u32) @ bs @ t"
    and r: "r = reader_at (pre @ len_prefixed bs) t"
    by (auto simp: len_prefixed_def)
  have addr: "addressable (pre @ to_be_bytes (of_nat (length bs) :: u32) @ bs @ t)"
    using assms s by simp
  have "unat (of_nat (length bs) :: u32) = length bs"
    using len by (simp add: unat_of_nat)
  then show "read_bytes_ref m (reader_at pre s) = Inr (bs, r)"
    unfolding s read_bytes_ref_put [OF addr] r using len by (simp add: len_prefixed_def and_then_eq_Inr)
qed

abbreviation bytes_fit :: "nat \<Rightarrow> u8 list \<Rightarrow> bool" where
  "bytes_fit m bs \<equiv> length bs \<le> m \<and> length bs < 2 ^ 32"

interpretation bytes_field: wire_field len_prefixed "read_bytes m" "bytes_fit m" for m
  by unfold_locales (auto simp: read_bytes_def read_bytes_ref_iff)

definition identity_bytes :: "endpoint_identity \<Rightarrow> u8 list" where
  "identity_bytes i = bytes_list (endpoint_key_bytes (classical i)) @ bytes_list (post_quantum i)"

interpretation identity_pair: wire_pair
  "bytes_list :: 32 bytes \<Rightarrow> u8 list" read_fixed "\<lambda>_. True"
  "bytes_list :: 1952 bytes \<Rightarrow> u8 list" read_fixed "\<lambda>_. True"
  by unfold_locales

lemma read_identity_pair:
  "read_identity r =
     and_then (and_then (read_fixed r) (\<lambda>(x, r). and_then (read_fixed r) (\<lambda>(y, r). Inr ((x, y), r))))
       (\<lambda>((k, q), r). Inr (EndpointIdentity (EndpointKey k) q, r))"
  by (auto simp: read_identity_def and_then_def split: sum.splits)

interpretation identity_field: wire_field identity_bytes read_identity "\<lambda>_. True"
proof (unfold_locales, goal_cases)
  case (1 pre x s)
  then show ?case
    using identity_pair.ab.get_put [of pre "(endpoint_key_bytes (classical x), post_quantum x)" s]
    by (simp add: read_identity_pair identity_bytes_def)
next
  case (2 pre s x r)
  then show ?case
    by (auto simp: read_identity_pair and_then_eq_Inr identity_bytes_def dest!: identity_pair.ab.put_get)
qed

lemma length_identity_bytes [simp]: "length (identity_bytes i) = 1984"
  by (simp add: identity_bytes_def)

lemma length_len_prefixed [simp]: "length (len_prefixed bs) = 4 + length bs"
  by (simp add: len_prefixed_def)

subsection \<open>Writers\<close>

lemma writer_simps [simp]:
  "writer_fixed w bs = w @ bs"
  "writer_u8 w b = w @ [b]"
  "writer_u16 w n = w @ to_be_bytes n"
  "writer_u32 w n' = w @ to_be_bytes n'"
  "write_identity w i = w @ identity_bytes i"
  by (simp_all add: writer_fixed_def writer_u8_def writer_u16_def writer_u32_def
      write_identity_def identity_bytes_def)

lemma writer_bytes_eq:
  "length bs \<le> MAX_CFR_CONTROL_BYTES \<Longrightarrow> writer_bytes w bs = Inr (w @ len_prefixed bs)"
  by (simp add: writer_bytes_def validate_len_def u32_try_from_def len_prefixed_def bound_defs)

lemmas field_iffs =
  fixed_field.get_iff u8_field.get_iff u16_field.get_iff u32_field.get_iff bytes_field.get_iff
  identity_field.get_iff

end
