(* ===== verification/Envelope.thy ===== *)
theory Envelope
  imports Wire
begin

text \<open>
  Canonical FCP envelopes (\<open>libfcp-core/src/envelope.rs\<close>): kinds, bodies, signing,
  the encoder, the two parsers (\<open>decode\<close>, which materialises the envelope, and
  \<open>verify_wire\<close>, which walks the wire without allocating and checks both signatures)
  and the composed \<open>decode_verified\<close> that adapters call on untrusted input.

  The central fact is \<open>decode_iff_encode\<close>: the parser and the encoder are inverse
  relations, so every envelope has exactly one accepted encoding.
\<close>

subsection \<open>Kinds and bodies\<close>

datatype kind = KindOffer | KindAnswer | KindCandidate | KindClose | KindCfrControl

fun kind_u8 :: "kind \<Rightarrow> u8" where
  "kind_u8 KindOffer = 1"
| "kind_u8 KindAnswer = 2"
| "kind_u8 KindCandidate = 3"
| "kind_u8 KindClose = 4"
| "kind_u8 KindCfrControl = 5"

definition kind_try_from :: "u8 \<Rightarrow> error + kind" where
  "kind_try_from b =
     (if b = 1 then Inr KindOffer
      else if b = 2 then Inr KindAnswer
      else if b = 3 then Inr KindCandidate
      else if b = 4 then Inr KindClose
      else if b = 5 then Inr KindCfrControl
      else Inl UnknownKind)"

datatype body =
    Offer (body_binding: webrtc_binding) (body_description: "u8 list")
  | Answer (body_offer_id: envelope_id) (body_binding: webrtc_binding) (body_description: "u8 list")
  | Candidate (body_parent_id: envelope_id) (body_sequence: u32) (body_candidate: "u8 list")
  | Close (body_reason: close_code)
  | CfrControl (body_payload: "u8 list")

fun body_kind :: "body \<Rightarrow> kind" where
  "body_kind (Offer binding description) = KindOffer"
| "body_kind (Answer offer_id binding description) = KindAnswer"
| "body_kind (Candidate parent_id sequence candidate) = KindCandidate"
| "body_kind (Close reason) = KindClose"
| "body_kind (CfrControl payload) = KindCfrControl"

fun body_validate :: "body \<Rightarrow> error + unit" where
  "body_validate (Offer binding description) = validate_len (length description) MAX_DESCRIPTION_BYTES"
| "body_validate (Answer offer_id binding description) = validate_len (length description) MAX_DESCRIPTION_BYTES"
| "body_validate (Candidate parent_id sequence candidate) = validate_len (length candidate) MAX_CANDIDATE_BYTES"
| "body_validate (Close reason) = Inr ()"
| "body_validate (CfrControl payload) = validate_len (length payload) MAX_CFR_CONTROL_BYTES"

subsection \<open>Envelopes\<close>

record envelope =
  env_federation :: federation_id
  env_attempt :: attempt_id
  env_sender :: endpoint_identity
  env_recipient :: endpoint_identity
  env_body :: body
  env_classical_signature :: "64 bytes"
  env_post_quantum_signature :: "3309 bytes"

definition envelope_kind :: "envelope \<Rightarrow> kind" where
  "envelope_kind env = body_kind (env_body env)"

definition signed_bytes :: "envelope \<Rightarrow> error + u8 list" where
  "signed_bytes env =
     and_then (body_validate (env_body env)) (\<lambda>_.
     let w = writer_fixed [] (bytes_list FCP_WIRE_MARKER);
         w = writer_u8 w FCP_WIRE_VERSION;
         w = writer_u8 w (kind_u8 (envelope_kind env));
         w = writer_fixed w (bytes_list (federation_bytes (env_federation env)));
         w = writer_fixed w (bytes_list (attempt_bytes (env_attempt env)));
         w = write_identity w (env_sender env);
         w = write_identity w (env_recipient env)
     in case env_body env of
          Offer binding description \<Rightarrow>
            writer_bytes (writer_fixed w (bytes_list (binding_bytes binding))) description
        | Answer offer_id binding description \<Rightarrow>
            writer_bytes
              (writer_fixed (writer_fixed w (bytes_list (envelope_id_bytes offer_id)))
                (bytes_list (binding_bytes binding))) description
        | Candidate parent_id sequence candidate \<Rightarrow>
            writer_bytes
              (writer_u32 (writer_fixed w (bytes_list (envelope_id_bytes parent_id))) sequence) candidate
        | Close reason \<Rightarrow> Inr (writer_u16 w (close_code_u16 reason))
        | CfrControl payload \<Rightarrow> writer_bytes w payload)"

definition encode :: "envelope \<Rightarrow> error + u8 list" where
  "encode env =
     and_then (signed_bytes env) (\<lambda>bs.
     let bs = bs @ bytes_list (env_classical_signature env) @ bytes_list (env_post_quantum_signature env)
     in if length bs > MAX_ENVELOPE_BYTES then Inl TooLarge else Inr bs)"

definition env_id :: "crypto \<Rightarrow> envelope \<Rightarrow> error + envelope_id" where
  "env_id c env = and_then (encode env) (\<lambda>bs. Inr (EnvelopeId (blake3_hash c bs)))"

definition sign :: "signer \<Rightarrow> federation_id \<Rightarrow> attempt_id \<Rightarrow> endpoint_identity \<Rightarrow> body \<Rightarrow> error + envelope" where
  "sign s federation attempt recipient body =
     and_then (body_validate body) (\<lambda>_.
     let env = \<lparr> env_federation = federation, env_attempt = attempt,
                 env_sender = signer_endpoint s, env_recipient = recipient, env_body = body,
                 env_classical_signature = filled 0, env_post_quantum_signature = filled 0 \<rparr>
     in and_then (signed_bytes env) (\<lambda>transcript.
        Inr (env\<lparr> env_classical_signature := sign_classical s transcript,
                  env_post_quantum_signature := sign_post_quantum s transcript \<rparr>)))"

definition verify :: "crypto \<Rightarrow> envelope \<Rightarrow> error + unit" where
  "verify c env =
     and_then (signed_bytes env) (\<lambda>transcript.
     and_then (verify_classical c (env_sender env) transcript (env_classical_signature env)) (\<lambda>_.
     verify_post_quantum c (env_sender env) transcript (env_post_quantum_signature env)))"

definition read_body :: "kind \<Rightarrow> reader \<Rightarrow> error + (body \<times> reader)" where
  "read_body k r =
     (case k of
        KindOffer \<Rightarrow>
          and_then (read_fixed r) (\<lambda>(binding, r).
          and_then (read_bytes MAX_DESCRIPTION_BYTES r) (\<lambda>(description, r).
          Inr (Offer (WebRtcBinding binding) description, r)))
      | KindAnswer \<Rightarrow>
          and_then (read_fixed r) (\<lambda>(offer_id, r).
          and_then (read_fixed r) (\<lambda>(binding, r).
          and_then (read_bytes MAX_DESCRIPTION_BYTES r) (\<lambda>(description, r).
          Inr (Answer (EnvelopeId offer_id) (WebRtcBinding binding) description, r))))
      | KindCandidate \<Rightarrow>
          and_then (read_fixed r) (\<lambda>(parent_id, r).
          and_then (read_u32 r) (\<lambda>(sequence, r).
          and_then (read_bytes MAX_CANDIDATE_BYTES r) (\<lambda>(candidate, r).
          Inr (Candidate (EnvelopeId parent_id) sequence candidate, r))))
      | KindClose \<Rightarrow>
          and_then (read_u16 r) (\<lambda>(reason, r). Inr (Close (CloseCode reason), r))
      | KindCfrControl \<Rightarrow>
          and_then (read_bytes MAX_CFR_CONTROL_BYTES r) (\<lambda>(payload, r). Inr (CfrControl payload, r)))"

definition decode :: "u8 list \<Rightarrow> error + envelope" where
  "decode wire =
     (if length wire > MAX_ENVELOPE_BYTES then Inl TooLarge else
      let r = reader_new wire in
      and_then (read_fixed r) (\<lambda>(marker, r).
      if marker \<noteq> FCP_WIRE_MARKER then Inl BadMarker else
      and_then (read_u8 r) (\<lambda>(version, r).
      if version \<noteq> FCP_WIRE_VERSION then Inl UnsupportedVersion else
      and_then (read_u8 r) (\<lambda>(tag, r).
      and_then (kind_try_from tag) (\<lambda>k.
      and_then (read_fixed r) (\<lambda>(federation, r).
      and_then (read_fixed r) (\<lambda>(attempt, r).
      and_then (read_identity r) (\<lambda>(sender, r).
      and_then (read_identity r) (\<lambda>(recipient, r).
      and_then (read_body k r) (\<lambda>(body, r).
      and_then (body_validate body) (\<lambda>_.
      and_then (read_fixed r) (\<lambda>(classical_signature, r).
      and_then (read_fixed r) (\<lambda>(post_quantum_signature, r).
      and_then (reader_finish r) (\<lambda>_.
      let result = \<lparr> env_federation = FederationId federation, env_attempt = AttemptId attempt,
                     env_sender = sender, env_recipient = recipient, env_body = body,
                     env_classical_signature = classical_signature,
                     env_post_quantum_signature = post_quantum_signature \<rparr>
      in and_then (encode result) (\<lambda>bs. if bs \<noteq> wire then Inl NonCanonical else Inr result)))))))))))))))"

definition skip_body :: "kind \<Rightarrow> reader \<Rightarrow> error + reader" where
  "skip_body k r =
     (case k of
        KindOffer \<Rightarrow>
          and_then (read_fixed r) (\<lambda>(_ :: 32 bytes, r).
          and_then (read_bytes_ref MAX_DESCRIPTION_BYTES r) (\<lambda>(_, r). Inr r))
      | KindAnswer \<Rightarrow>
          and_then (read_fixed r) (\<lambda>(_ :: 32 bytes, r).
          and_then (read_fixed r) (\<lambda>(_ :: 32 bytes, r).
          and_then (read_bytes_ref MAX_DESCRIPTION_BYTES r) (\<lambda>(_, r). Inr r)))
      | KindCandidate \<Rightarrow>
          and_then (read_fixed r) (\<lambda>(_ :: 32 bytes, r).
          and_then (read_u32 r) (\<lambda>(_, r).
          and_then (read_bytes_ref MAX_CANDIDATE_BYTES r) (\<lambda>(_, r). Inr r)))
      | KindClose \<Rightarrow> and_then (read_u16 r) (\<lambda>(_, r). Inr r)
      | KindCfrControl \<Rightarrow>
          and_then (read_bytes_ref MAX_CFR_CONTROL_BYTES r) (\<lambda>(_, r). Inr r))"

definition verify_wire :: "crypto \<Rightarrow> u8 list \<Rightarrow> error + unit" where
  "verify_wire c wire =
     (if length wire > MAX_ENVELOPE_BYTES then Inl TooLarge else
      let r = reader_new wire in
      and_then (read_fixed r) (\<lambda>(marker, r).
      if marker \<noteq> FCP_WIRE_MARKER then Inl BadMarker else
      and_then (read_u8 r) (\<lambda>(version, r).
      if version \<noteq> FCP_WIRE_VERSION then Inl UnsupportedVersion else
      and_then (read_u8 r) (\<lambda>(tag, r).
      and_then (kind_try_from tag) (\<lambda>k.
      and_then (read_fixed r) (\<lambda>(_ :: 32 bytes, r).
      and_then (read_fixed r) (\<lambda>(_ :: 16 bytes, r).
      and_then (read_identity r) (\<lambda>(sender, r).
      and_then (read_identity r) (\<lambda>(_, r).
      and_then (skip_body k r) (\<lambda>r.
      let signed_end = reader_offset r in
      and_then (read_fixed r) (\<lambda>(classical_signature, r).
      and_then (read_fixed r) (\<lambda>(post_quantum_signature, r).
      and_then (reader_finish r) (\<lambda>_.
      and_then (verify_classical c sender (take signed_end wire) classical_signature) (\<lambda>_.
      verify_post_quantum c sender (take signed_end wire) post_quantum_signature))))))))))))))"

definition decode_verified :: "crypto \<Rightarrow> u8 list \<Rightarrow> error + envelope" where
  "decode_verified c wire = and_then (verify_wire c wire) (\<lambda>_. decode wire)"

subsection \<open>The transcript as a byte string\<close>

fun body_bytes :: "body \<Rightarrow> u8 list" where
  "body_bytes (Offer binding description) = bytes_list (binding_bytes binding) @ len_prefixed description"
| "body_bytes (Answer offer_id binding description) =
     bytes_list (envelope_id_bytes offer_id) @ bytes_list (binding_bytes binding) @ len_prefixed description"
| "body_bytes (Candidate parent_id sequence candidate) =
     bytes_list (envelope_id_bytes parent_id) @ to_be_bytes sequence @ len_prefixed candidate"
| "body_bytes (Close reason) = to_be_bytes (close_code_u16 reason)"
| "body_bytes (CfrControl payload) = len_prefixed payload"

definition transcript :: "envelope \<Rightarrow> u8 list" where
  "transcript env =
     bytes_list FCP_WIRE_MARKER @ [FCP_WIRE_VERSION] @ [kind_u8 (body_kind (env_body env))] @
     bytes_list (federation_bytes (env_federation env)) @ bytes_list (attempt_bytes (env_attempt env)) @
     identity_bytes (env_sender env) @ identity_bytes (env_recipient env) @ body_bytes (env_body env)"

abbreviation body_ok :: "body \<Rightarrow> bool" where
  "body_ok b \<equiv> body_validate b = Inr ()"

lemma kind_try_from_iff [simp]: "kind_try_from b = Inr k \<longleftrightarrow> b = kind_u8 k"
  by (cases k) (auto simp: kind_try_from_def)

lemma kind_try_from_u8 [simp]: "kind_try_from (kind_u8 k) = Inr k"
  by simp

lemma signed_bytes_eq: "body_ok (env_body env) \<Longrightarrow> signed_bytes env = Inr (transcript env)"
  by (cases "env_body env")
    (simp_all add: signed_bytes_def envelope_kind_def transcript_def writer_bytes_eq bound_defs
      validate_len_def split: if_splits)

lemma signed_bytes_Inl: "body_validate (env_body env) = Inl e \<Longrightarrow> signed_bytes env = Inl e"
  by (simp add: signed_bytes_def)

lemma body_validate_cases [case_names ok bad]:
  obtains "body_ok b" | "body_validate b = Inl FieldTooLarge"
proof -
  have "body_ok b \<or> body_validate b = Inl FieldTooLarge"
    by (cases b) (auto simp: validate_len_def)
  then show thesis using that by blast
qed

lemma signed_bytes_iff: "signed_bytes env = Inr t \<longleftrightarrow> body_ok (env_body env) \<and> t = transcript env"
  by (cases "env_body env" rule: body_validate_cases) (auto simp: signed_bytes_eq signed_bytes_Inl)

definition envelope_bytes :: "envelope \<Rightarrow> u8 list" where
  "envelope_bytes env =
     transcript env @ bytes_list (env_classical_signature env) @ bytes_list (env_post_quantum_signature env)"

lemma length_body_bytes:
  "body_ok b \<Longrightarrow> length (body_bytes b) \<le> 4 + MAX_CFR_CONTROL_BYTES"
  by (cases b) (simp_all add: bound_defs)

lemma length_transcript: "length (transcript env) = 4021 + length (body_bytes (env_body env))"
  by (simp add: transcript_def)

lemma length_envelope_bytes: "length (envelope_bytes env) = 7394 + length (body_bytes (env_body env))"
  by (simp add: envelope_bytes_def length_transcript)

lemma encode_bytes:
  "encode env = and_then (signed_bytes env) (\<lambda>_. if length (envelope_bytes env) > MAX_ENVELOPE_BYTES
     then Inl TooLarge else Inr (envelope_bytes env))"
  by (cases "env_body env" rule: body_validate_cases)
    (simp_all add: encode_def signed_bytes_eq signed_bytes_Inl envelope_bytes_def Let_def)

lemma length_envelope_max:
  "body_ok (env_body env) \<Longrightarrow> length (envelope_bytes env) \<le> MAX_ENVELOPE_BYTES"
  using length_body_bytes [of "env_body env"] length_envelope_bytes [of env]
  by (simp add: bound_defs)

lemma encode_eq: "body_ok (env_body env) \<Longrightarrow> encode env = Inr (envelope_bytes env)"
  using length_envelope_max [of env] by (simp add: encode_bytes signed_bytes_eq)

lemma encode_Inl: "body_validate (env_body env) = Inl e \<Longrightarrow> encode env = Inl e"
  by (simp add: encode_bytes signed_bytes_Inl)

lemma encode_iff: "encode env = Inr w \<longleftrightarrow> body_ok (env_body env) \<and> w = envelope_bytes env"
  by (cases "env_body env" rule: body_validate_cases) (auto simp: encode_eq encode_Inl)

subsection \<open>Bodies as fields\<close>

interpretation body_field: wire_field body_bytes "read_body k" "\<lambda>b. body_kind b = k \<and> body_ok b" for k
proof (unfold_locales, goal_cases)
  case (1 pre x s)
  then show ?case
    by (cases x) (auto simp: read_body_def fixed_field.get_put u16_field.get_put u32_field.get_put
        bytes_field.get_put)
next
  case (2 pre s x r)
  then show ?case
    by (cases k) (auto simp: read_body_def and_then_eq_Inr field_iffs)
qed

lemma skip_body_read: "skip_body k r = and_then (read_body k r) (\<lambda>(_, r). Inr r)"
  by (cases k) (auto simp: skip_body_def read_body_def read_bytes_def and_then_def split: sum.splits)

lemmas field_puts =
  fixed_field.get_put u8_field.get_put [simplified] u16_field.get_put u32_field.get_put bytes_field.get_put
  identity_field.get_put body_field.get_put

lemma decode_envelope_bytes:
  assumes "body_ok (env_body env)"
  shows "decode (envelope_bytes env) = Inr env"
proof -
  let ?w = "envelope_bytes env"
  have len: "length ?w \<le> MAX_ENVELOPE_BYTES" using length_envelope_max [OF assms] .
  then have addr: "addressable ?w" by (rule addressable_envelope)
  show ?thesis
    using len addr encode_eq [OF assms] assms
    unfolding decode_def reader_new_at
    by (cases env) (simp add: envelope_bytes_def transcript_def field_puts fixed_field.get_last Let_def)
qed


lemma verify_eq:
  "body_ok (env_body env) \<Longrightarrow> verify c env =
     and_then (verify_classical c (env_sender env) (transcript env) (env_classical_signature env)) (\<lambda>_.
     verify_post_quantum c (env_sender env) (transcript env) (env_post_quantum_signature env))"
  by (simp add: verify_def signed_bytes_eq)

lemma decode_imp_encode: "decode w = Inr env \<Longrightarrow> encode env = Inr w"
  by (auto simp: decode_def and_then_eq_Inr Let_def split: if_splits prod.splits)

lemma verify_wire_decode: "verify_wire c w = and_then (decode w) (verify c)"
proof (cases "length w > MAX_ENVELOPE_BYTES")
  case True
  then show ?thesis by (simp add: verify_wire_def decode_def)
next
  case False
  then have addr: "addressable w" by (simp add: addressable_envelope)
  show ?thesis
    unfolding verify_wire_def decode_def reader_new_at skip_body_read and_then_assoc and_then_if
      Let_def split_beta if_not_P [OF False]
    apply (simp only: and_then_assoc and_then_if Let_def split_beta and_then_Inr and_then_Inl cong: if_cong)
    apply (intro and_then_cong refl impI if_cong)
    using addr apply (clarsimp simp: field_iffs body_field.get_iff)
    apply (intro and_then_cong refl)
    apply (clarsimp simp: field_iffs split: if_splits)
    apply (simp add: encode_eq verify_eq envelope_bytes_def transcript_def reader_at_def take_Cons')
    done
qed

subsection \<open>Errors of the parser\<close>

definition parse_errors :: "error set" where
  "parse_errors = {TooLarge, BadMarker, UnsupportedVersion, UnknownKind, Truncated, FieldTooLarge, TrailingBytes}"

lemma parse_error_intros [error_intros]:
  "TooLarge \<in> parse_errors" "BadMarker \<in> parse_errors" "UnsupportedVersion \<in> parse_errors"
  "UnknownKind \<in> parse_errors" "Truncated \<in> parse_errors" "FieldTooLarge \<in> parse_errors"
  "TrailingBytes \<in> parse_errors"
  by (simp_all add: parse_errors_def)

lemma read_fixed_errors [error_intros]: "errors_within parse_errors (read_fixed r)"
  unfolding read_fixed_def by (intro error_intros)

lemma read_errors [error_intros]:
  "errors_within parse_errors (read_u8 r)"
  "errors_within parse_errors (read_u16 r)"
  "errors_within parse_errors (read_u32 r)"
  "errors_within parse_errors (validate_len n m)"
  "errors_within parse_errors (read_identity r)"
  "errors_within parse_errors (reader_finish r)"
  "errors_within parse_errors (kind_try_from b)"
  unfolding read_u8_def read_u16_def read_u32_def validate_len_def read_identity_def reader_finish_def
    kind_try_from_def
  by (intro error_intros)+

lemma read_bytes_ref_errors [error_intros]: "errors_within parse_errors (read_bytes_ref m r)"
  unfolding read_bytes_ref_def by (intro error_intros)

lemma skip_body_errors [error_intros]: "errors_within parse_errors (skip_body k r)"
  unfolding skip_body_def by (cases k; simp only: kind.case; intro error_intros)

lemma verify_wire_errors:
  assumes "\<And>i m s. errors_within parse_errors (verify_classical c i m s)"
    and "\<And>i m s. errors_within parse_errors (verify_post_quantum c i m s)"
  shows "errors_within parse_errors (verify_wire c w)"
  unfolding verify_wire_def by (intro error_intros assms)

lemma decode_errors: "errors_within parse_errors (decode w)"
proof -
  let ?c = "\<lparr> ed25519_key_from_bytes = (\<lambda>_. True), ed25519_verify_strict = (\<lambda>_ _ _. True),
     mldsa_key_try_from = (\<lambda>_. True), mldsa_signature_try_from = (\<lambda>_. True),
     mldsa_verify = (\<lambda>_ _ _. True), blake3_hash = (\<lambda>_. filled 0) \<rparr>"
  have "errors_within parse_errors (verify_wire ?c w)"
    by (rule verify_wire_errors) (simp_all add: verify_classical_def verify_post_quantum_def errors_within_def)
  then show ?thesis
    by (cases "decode w") (simp_all add: verify_wire_decode errors_within_def)
qed

subsection \<open>Signing\<close>

lemma sign_eq:
  "sign s f a r b =
     and_then (body_validate b) (\<lambda>_.
       let env = \<lparr> env_federation = f, env_attempt = a, env_sender = signer_endpoint s, env_recipient = r,
                   env_body = b, env_classical_signature = filled 0, env_post_quantum_signature = filled 0 \<rparr>
       in Inr (env\<lparr> env_classical_signature := sign_classical s (transcript env),
                    env_post_quantum_signature := sign_post_quantum s (transcript env) \<rparr>))"
  by (cases b rule: body_validate_cases) (simp_all add: sign_def signed_bytes_eq Let_def)

lemma transcript_unsigned [simp]:
  "transcript (env\<lparr> env_classical_signature := cs \<rparr>) = transcript env"
  "transcript (env\<lparr> env_post_quantum_signature := ps \<rparr>) = transcript env"
  by (simp_all add: transcript_def)

lemma sign_fields:
  assumes "sign s f a r b = Inr env"
  shows "env_federation env = f" "env_attempt env = a" "env_sender env = signer_endpoint s"
    "env_recipient env = r" "env_body env = b" "body_ok b"
    "env_classical_signature env = sign_classical s (transcript env)"
    "env_post_quantum_signature env = sign_post_quantum s (transcript env)"
  using assms by (auto simp: sign_eq and_then_eq_Inr Let_def transcript_def)

lemma sign_verifies:
  "honest_signer c s \<Longrightarrow> sign s f a r b = Inr env \<Longrightarrow> verify c env = Inr ()"
  by (simp add: sign_fields verify_eq honest_signerD)

lemma sign_ok: "body_ok b \<Longrightarrow> \<exists>env. sign s f a r b = Inr env"
  by (simp add: sign_eq Let_def)

lemma decode_iff: "decode w = Inr env \<longleftrightarrow> encode env = Inr w"
  using decode_imp_encode [of w env] by (auto simp: encode_iff decode_envelope_bytes)

lemma decode_verified_eq:
  "decode_verified c w = and_then (decode w) (\<lambda>env. and_then (verify c env) (\<lambda>_. Inr env))"
  by (cases "decode w") (simp_all add: decode_verified_def verify_wire_decode)

lemma decode_verified_iff:
  "decode_verified c w = Inr env \<longleftrightarrow> encode env = Inr w \<and> verify c env = Inr ()"
  by (auto simp: decode_verified_eq and_then_eq_Inr decode_iff)

lemma decode_verified_envelope_bytes:
  "body_ok (env_body env) \<Longrightarrow>
     decode_verified c (envelope_bytes env) = and_then (verify c env) (\<lambda>_. Inr env)"
  by (simp add: decode_verified_eq decode_envelope_bytes)

lemma verify_iff:
  "verify c env = Inr () \<longleftrightarrow> body_ok (env_body env) \<and>
     verify_classical c (env_sender env) (transcript env) (env_classical_signature env) = Inr () \<and>
     verify_post_quantum c (env_sender env) (transcript env) (env_post_quantum_signature env) = Inr ()"
  by (auto simp: verify_def and_then_eq_Inr signed_bytes_iff)

lemma transcript_inject:
  assumes "body_ok (env_body e1)" and "body_ok (env_body e2)" and "transcript e1 = transcript e2"
  shows "env_federation e1 = env_federation e2" "env_attempt e1 = env_attempt e2"
    "env_sender e1 = env_sender e2" "env_recipient e1 = env_recipient e2" "env_body e1 = env_body e2"
proof -
  let ?f = "\<lambda>e. e\<lparr> env_classical_signature := filled 0, env_post_quantum_signature := filled 0 \<rparr>"
  have bytes: "envelope_bytes (?f e1) = envelope_bytes (?f e2)"
    using assms(3) by (simp add: envelope_bytes_def)
  have "decode (envelope_bytes (?f e1)) = Inr (?f e1)" "decode (envelope_bytes (?f e2)) = Inr (?f e2)"
    using assms by (simp_all add: decode_envelope_bytes)
  then have eq: "?f e1 = ?f e2"
    unfolding bytes by simp
  show "env_federation e1 = env_federation e2" "env_attempt e1 = env_attempt e2"
    "env_sender e1 = env_sender e2" "env_recipient e1 = env_recipient e2" "env_body e1 = env_body e2"
    using arg_cong [OF eq, of env_federation] arg_cong [OF eq, of env_attempt]
      arg_cong [OF eq, of env_sender] arg_cong [OF eq, of env_recipient] arg_cong [OF eq, of env_body]
    by simp_all
qed

definition demo_offer :: body where
  "demo_offer = Offer (WebRtcBinding (filled 9)) [118, 61, 48]"

definition demo_envelope :: "u8 \<Rightarrow> envelope" where
  "demo_envelope n = \<lparr> env_federation = FederationId (filled 1), env_attempt = AttemptId (filled 2),
     env_sender = demo_identity 3, env_recipient = demo_identity 4, env_body = demo_offer,
     env_classical_signature = filled n, env_post_quantum_signature = filled n \<rparr>"

lemma demo_offer_ok [simp]: "body_ok demo_offer"
  by (simp add: demo_offer_def bound_defs)

subsection \<open>Properties\<close>

text \<open>
  C5.  Parsing and printing are inverse relations: \<open>Envelope::decode\<close> accepts exactly the byte
  strings that \<open>Envelope::encode\<close> produces, and returns the envelope they were produced from.
  In particular the encoding is canonical (no envelope has two accepted encodings, no byte
  string two meanings), and everything that can be encoded can be decoded.
\<close>

theorem envelope_decode_encode: "decode w = Inr env \<longleftrightarrow> encode env = Inr w"
  by (rule decode_iff)

text \<open>
  C1.  The allocation-free verifier and the materialising parser agree on every input:
  \<open>decode_verified\<close>, which runs \<open>verify_wire\<close> over borrowed slices first and \<open>decode\<close> only
  afterwards, returns exactly what parsing first and checking both signatures over the
  re-encoded transcript would return, the error value on every failing branch included.
\<close>

theorem envelope_decode_verified_equiv:
  "decode_verified c w = and_then (decode w) (\<lambda>env. and_then (verify c env) (\<lambda>_. Inr env))"
  by (rule decode_verified_eq)

text \<open>
  C39.  The canonicity comparison at the end of \<open>decode\<close> never rejects, and no signature or
  session error can come out of it: the only errors of the parser are the seven framing errors.
\<close>

theorem envelope_decode_errors:
  "(case decode w of
      Inl e \<Rightarrow> e \<in> {TooLarge, BadMarker, UnsupportedVersion, UnknownKind, Truncated, FieldTooLarge, TrailingBytes}
    | Inr env \<Rightarrow> encode env = Inr w)"
  using decode_errors [of w]
  by (cases "decode w") (auto simp: errors_within_def parse_errors_def decode_imp_encode)

text \<open>
  C30.  The signed transcript is unambiguous: two envelopes with the same signed bytes agree in
  every field the signatures cover (federation, attempt, sender, recipient and body), so a
  signature never transfers to another message.
\<close>

theorem envelope_transcript_unambiguous:
  assumes "signed_bytes e1 = Inr t" and "signed_bytes e2 = Inr t"
  shows "env_federation e1 = env_federation e2 \<and> env_attempt e1 = env_attempt e2 \<and>
         env_sender e1 = env_sender e2 \<and> env_recipient e1 = env_recipient e2 \<and>
         env_body e1 = env_body e2"
  using assms transcript_inject [of e1 e2] by (simp add: signed_bytes_iff)

theorem envelope_transcript_unambiguous_witness:
  "\<exists>t. signed_bytes (demo_envelope 5) = Inr t \<and> signed_bytes (demo_envelope 6) = Inr t \<and>
     env_body (demo_envelope 5) = env_body (demo_envelope 6)"
proof -
  have "signed_bytes (demo_envelope 5) = Inr (transcript (demo_envelope 5))"
    and "signed_bytes (demo_envelope 6) = Inr (transcript (demo_envelope 5))"
    by (simp_all add: signed_bytes_iff demo_envelope_def transcript_def)
  with envelope_transcript_unambiguous [OF this] show ?thesis by blast
qed

text \<open>
  What an honest endpoint signs is accepted: signing a body within its bounds succeeds, the
  result encodes within \<open>MAX_ENVELOPE_BYTES\<close>, and \<open>decode_verified\<close> of that encoding returns
  the very envelope with the requested federation, attempt, recipient and body.
\<close>

theorem envelope_sign_accepted:
  assumes "honest_signer c s" and "body_validate b = Inr ()"
  shows "\<exists>env w. sign s f a r b = Inr env \<and> encode env = Inr w \<and> length w \<le> MAX_ENVELOPE_BYTES \<and>
           decode_verified c w = Inr env \<and> env_federation env = f \<and> env_attempt env = a \<and>
           env_sender env = signer_endpoint s \<and> env_recipient env = r \<and> env_body env = b"
proof -
  obtain env where env: "sign s f a r b = Inr env"
    using sign_ok [OF assms(2)] by blast
  note fields = sign_fields [OF env]
  have "encode env = Inr (envelope_bytes env)" "length (envelope_bytes env) \<le> MAX_ENVELOPE_BYTES"
    using fields by (simp_all add: encode_eq length_envelope_max)
  with fields env sign_verifies [OF assms(1) env] show ?thesis
    by (auto simp: decode_verified_iff)
qed

theorem envelope_sign_accepted_witness:
  "honest_signer demo_crypto (demo_signer 3) \<and> body_validate demo_offer = Inr () \<and>
   (\<exists>env w. sign (demo_signer 3) (FederationId (filled 1)) (AttemptId (filled 2)) (demo_identity 4) demo_offer
        = Inr env \<and> encode env = Inr w \<and> decode_verified demo_crypto w = Inr env \<and> env_body env = demo_offer)"
  using envelope_sign_accepted [OF demo_signer_honest demo_offer_ok, of 3 "FederationId (filled 1)"
      "AttemptId (filled 2)" "demo_identity 4"]
  by auto

end
