(* ===== verification/Connection.thy ===== *)
theory Connection
  imports Envelope
begin

text \<open>
  The per-peer state machine (\<open>libfcp-core/src/connection.rs\<close>).  A method on \<open>&mut self\<close> is a
  function from the connection to its result and the connection it leaves behind; an early return
  leaves the connection as it is at that point, so partial updates on error paths would show.
  \<open>conn_apply\<close> dispatches the public operations, and \<open>conn_reach\<close> is reachability from
  \<open>Connection::new\<close> under any interleaving of them, with any envelopes received.
\<close>

subsection \<open>Definitions\<close>

datatype phase = Idle | OfferSent | OfferReceived | AnswerSent | AnswerReceived | Established | Closed

record negotiation_ids =
  neg_offer :: envelope_id
  neg_answer :: "envelope_id option"

datatype action =
    Send envelope
  | ApplyOffer webrtc_binding "u8 list"
  | ApplyAnswer webrtc_binding "u8 list"
  | AddCandidate u32 "u8 list"
  | OpenControlChannel
  | DeliverCfr envelope_id endpoint_identity "u8 list"
  | CloseTransport close_code

record control_channel_config =
  channel_label :: string
  channel_protocol :: string
  channel_ordered :: bool
  channel_reliable :: bool
  channel_binary :: bool

definition CONTROL_CHANNEL :: control_channel_config where
  "CONTROL_CHANNEL = \<lparr> channel_label = ''org.nixort.cfr.fcp.control/1'', channel_protocol = PROTOCOL_ID,
     channel_ordered = True, channel_reliable = True, channel_binary = True \<rparr>"

record connection =
  conn_federation :: federation_id
  conn_attempt :: attempt_id
  conn_local :: endpoint_identity
  conn_remote :: endpoint_identity
  conn_phase :: phase
  conn_negotiation :: "negotiation_ids option"
  conn_seen :: "envelope_id list"

definition connection_new ::
  "federation_id \<Rightarrow> attempt_id \<Rightarrow> endpoint_identity \<Rightarrow> endpoint_identity \<Rightarrow> error + connection" where
  "connection_new federation attempt local remote =
     (if local = remote then Inl SameEndpoint
      else Inr \<lparr> conn_federation = federation, conn_attempt = attempt, conn_local = local,
                 conn_remote = remote, conn_phase = Idle, conn_negotiation = None, conn_seen = [] \<rparr>)"

definition require_local_signer :: "connection \<Rightarrow> signer \<Rightarrow> error + unit" where
  "require_local_signer conn s =
     (if signer_endpoint s \<noteq> conn_local conn then Inl WrongLocalSigner else Inr ())"

definition conn_sign :: "connection \<Rightarrow> signer \<Rightarrow> body \<Rightarrow> error + envelope" where
  "conn_sign conn s b = sign s (conn_federation conn) (conn_attempt conn) (conn_remote conn) b"

definition begin_offer ::
  "crypto \<Rightarrow> signer \<Rightarrow> webrtc_binding \<Rightarrow> u8 list \<Rightarrow> connection \<Rightarrow> (error + action list) \<times> connection" where
  "begin_offer c s binding description conn =
     or_bail conn (require_local_signer conn s) (\<lambda>_.
     if conn_phase conn \<noteq> Idle then (Inl InvalidState, conn) else
     or_bail conn (conn_sign conn s (Offer binding description)) (\<lambda>offer.
     or_bail conn (env_id c offer) (\<lambda>offer_id.
     let conn = conn\<lparr> conn_negotiation := Some \<lparr> neg_offer = offer_id, neg_answer = None \<rparr> \<rparr>;
         conn = conn\<lparr> conn_phase := OfferSent \<rparr>
     in (Inr [OpenControlChannel, Send offer], conn))))"

definition answer ::
  "crypto \<Rightarrow> signer \<Rightarrow> webrtc_binding \<Rightarrow> u8 list \<Rightarrow> connection \<Rightarrow> (error + action) \<times> connection" where
  "answer c s binding description conn =
     or_bail conn (require_local_signer conn s) (\<lambda>_.
     if conn_phase conn \<noteq> OfferReceived then (Inl InvalidState, conn) else
     or_bail conn (ok_or InvalidState (conn_negotiation conn)) (\<lambda>ids.
     let offer_id = neg_offer ids in
     or_bail conn (conn_sign conn s (Answer offer_id binding description)) (\<lambda>ans.
     or_bail conn (env_id c ans) (\<lambda>answer_id.
     let conn = conn\<lparr> conn_negotiation := Some \<lparr> neg_offer = offer_id, neg_answer = Some answer_id \<rparr> \<rparr>;
         conn = conn\<lparr> conn_phase := AnswerSent \<rparr>
     in (Inr (Send ans), conn)))))"

definition negotiating :: "phase \<Rightarrow> bool" where
  "negotiating p \<longleftrightarrow> p \<in> {OfferSent, OfferReceived, AnswerSent, AnswerReceived, Established}"

definition candidate :: "signer \<Rightarrow> u32 \<Rightarrow> u8 list \<Rightarrow> connection \<Rightarrow> error + action" where
  "candidate s sequence cand conn =
     and_then (require_local_signer conn s) (\<lambda>_.
     if \<not> negotiating (conn_phase conn) then Inl InvalidState else
     and_then (ok_or InvalidState (conn_negotiation conn)) (\<lambda>ids.
     let parent_id = (case neg_answer ids of Some a \<Rightarrow> a | None \<Rightarrow> neg_offer ids) in
     and_then (conn_sign conn s (Candidate parent_id sequence cand)) (\<lambda>env. Inr (Send env))))"

definition cfr_control :: "signer \<Rightarrow> u8 list \<Rightarrow> connection \<Rightarrow> error + action" where
  "cfr_control s payload conn =
     and_then (require_local_signer conn s) (\<lambda>_.
     if conn_phase conn \<noteq> Established then Inl InvalidState else
     and_then (conn_sign conn s (CfrControl payload)) (\<lambda>env. Inr (Send env)))"

definition conn_close :: "signer \<Rightarrow> close_code \<Rightarrow> connection \<Rightarrow> (error + action) \<times> connection" where
  "conn_close s reason conn =
     or_bail conn (require_local_signer conn s) (\<lambda>_.
     if conn_phase conn \<in> {Idle, Closed} then (Inl InvalidState, conn) else
     let conn = conn\<lparr> conn_phase := Closed \<rparr> in
     or_bail conn (conn_sign conn s (Close reason)) (\<lambda>env. (Inr (Send env), conn)))"

definition validate_inbound :: "crypto \<Rightarrow> connection \<Rightarrow> envelope \<Rightarrow> error + unit" where
  "validate_inbound c conn env =
     (if env_federation env \<noteq> conn_federation conn then Inl WrongFederation
      else if env_attempt env \<noteq> conn_attempt conn then Inl WrongAttempt
      else if env_sender env \<noteq> conn_remote conn then Inl WrongSender
      else if env_recipient env \<noteq> conn_local conn then Inl WrongRecipient
      else verify c env)"

definition validate_candidate_parent :: "connection \<Rightarrow> envelope_id \<Rightarrow> error + unit" where
  "validate_candidate_parent conn parent =
     and_then (ok_or InvalidState (conn_negotiation conn)) (\<lambda>ids.
     if \<not> negotiating (conn_phase conn) then Inl InvalidState
     else if parent \<noteq> neg_offer ids \<and> neg_answer ids \<noteq> Some parent then Inl WrongCandidateParent
     else Inr ())"

definition note_seen :: "envelope_id \<Rightarrow> connection \<Rightarrow> connection" where
  "note_seen i conn =
     (let seen = (if length (conn_seen conn) = MAX_SEEN_ENVELOPES then tl (conn_seen conn) else conn_seen conn)
      in conn\<lparr> conn_seen := seen @ [i] \<rparr>)"

definition receive_body ::
  "envelope_id \<Rightarrow> endpoint_identity \<Rightarrow> body \<Rightarrow> connection \<Rightarrow> (error + action list) \<times> connection" where
  "receive_body i remote_endpoint b conn =
     (case b of
        Offer binding description \<Rightarrow>
          if conn_phase conn = OfferSent then (Inl Glare, conn)
          else if conn_phase conn \<noteq> Idle then (Inl InvalidState, conn)
          else let conn = conn\<lparr> conn_negotiation := Some \<lparr> neg_offer = i, neg_answer = None \<rparr> \<rparr>;
                   conn = conn\<lparr> conn_phase := OfferReceived \<rparr>
               in (Inr [ApplyOffer binding description], conn)
      | Answer offer_id binding description \<Rightarrow>
          if conn_phase conn \<noteq> OfferSent then (Inl InvalidState, conn)
          else or_bail conn (ok_or InvalidState (conn_negotiation conn)) (\<lambda>ids.
            if neg_offer ids \<noteq> offer_id then (Inl InvalidState, conn)
            else let conn = conn\<lparr> conn_negotiation := Some \<lparr> neg_offer = neg_offer ids, neg_answer = Some i \<rparr> \<rparr>;
                     conn = conn\<lparr> conn_phase := AnswerReceived \<rparr>
                 in (Inr [ApplyAnswer binding description], conn))
      | Candidate parent_id sequence cand \<Rightarrow>
          or_bail conn (validate_candidate_parent conn parent_id) (\<lambda>_.
          (Inr [AddCandidate sequence cand], conn))
      | Close reason \<Rightarrow>
          if conn_phase conn \<in> {Idle, Closed} then (Inl InvalidState, conn)
          else (Inr [CloseTransport reason], conn\<lparr> conn_phase := Closed \<rparr>)
      | CfrControl payload \<Rightarrow>
          if conn_phase conn \<noteq> Established then (Inl InvalidState, conn)
          else (Inr [DeliverCfr i remote_endpoint payload], conn))"

definition receive :: "crypto \<Rightarrow> envelope \<Rightarrow> connection \<Rightarrow> (error + action list) \<times> connection" where
  "receive c env conn =
     or_bail conn (validate_inbound c conn env) (\<lambda>_.
     or_bail conn (env_id c env) (\<lambda>i.
     let remote_endpoint = env_sender env in
     if i \<in> set (conn_seen conn) then (Inr [], conn)
     else case receive_body i remote_endpoint (env_body env) conn of
            (Inl e, conn) \<Rightarrow> (Inl e, conn)
          | (Inr actions, conn) \<Rightarrow> (Inr actions, note_seen i conn)))"

definition transport_connected :: "connection \<Rightarrow> (error + action list) \<times> connection" where
  "transport_connected conn =
     (if conn_phase conn \<notin> {AnswerSent, AnswerReceived} then (Inl InvalidState, conn)
      else (Inr [], conn\<lparr> conn_phase := Established \<rparr>))"

definition transport_failed :: "connection \<Rightarrow> (error + unit) \<times> connection" where
  "transport_failed conn =
     (if conn_phase conn \<in> {Idle, Closed} then (Inl InvalidState, conn)
      else (Inr (), conn\<lparr> conn_phase := Closed \<rparr>))"

subsection \<open>Operations in sequence\<close>

datatype conn_op =
    OpBeginOffer signer webrtc_binding "u8 list"
  | OpAnswer signer webrtc_binding "u8 list"
  | OpCandidate signer u32 "u8 list"
  | OpCfrControl signer "u8 list"
  | OpClose signer close_code
  | OpReceive envelope
  | OpConnected
  | OpFailed

fun conn_apply :: "crypto \<Rightarrow> conn_op \<Rightarrow> connection \<Rightarrow> (error + action list) \<times> connection" where
  "conn_apply c (OpBeginOffer s binding description) conn = begin_offer c s binding description conn"
| "conn_apply c (OpAnswer s binding description) conn =
     apfst (map_sum id (\<lambda>a. [a])) (answer c s binding description conn)"
| "conn_apply c (OpCandidate s sequence cand) conn =
     (map_sum id (\<lambda>a. [a]) (candidate s sequence cand conn), conn)"
| "conn_apply c (OpCfrControl s payload) conn = (map_sum id (\<lambda>a. [a]) (cfr_control s payload conn), conn)"
| "conn_apply c (OpClose s reason) conn = apfst (map_sum id (\<lambda>a. [a])) (conn_close s reason conn)"
| "conn_apply c (OpReceive env) conn = receive c env conn"
| "conn_apply c OpConnected conn = transport_connected conn"
| "conn_apply c OpFailed conn = apfst (map_sum id (\<lambda>_. [])) (transport_failed conn)"

primrec conn_run :: "crypto \<Rightarrow> conn_op list \<Rightarrow> connection \<Rightarrow> connection" where
  "conn_run c [] conn = conn"
| "conn_run c (op # ops) conn = conn_run c ops (snd (conn_apply c op conn))"

inductive conn_reach :: "crypto \<Rightarrow> connection \<Rightarrow> bool" for c where
  conn_init: "connection_new f a l r = Inr conn \<Longrightarrow> conn_reach c conn"
| conn_step: "conn_reach c conn \<Longrightarrow> conn_apply c op conn = (res, conn') \<Longrightarrow> conn_reach c conn'"

inductive_cases conn_reachE: "conn_reach c conn"

subsection \<open>What each operation changes\<close>

lemma conn_sign_close [simp]: "conn_sign conn s (Close reason) = Inl e \<longleftrightarrow> False"
  by (simp add: conn_sign_def sign_eq Let_def)

lemma conn_sign_cong [simp]: "conn_sign (conn\<lparr> conn_phase := p \<rparr>) s b = conn_sign conn s b"
  by (simp add: conn_sign_def)

lemma begin_offer_Inr:
  "begin_offer c s binding description conn = (Inr acts, conn') \<longleftrightarrow>
     signer_endpoint s = conn_local conn \<and> conn_phase conn = Idle \<and>
     (\<exists>env i. conn_sign conn s (Offer binding description) = Inr env \<and> env_id c env = Inr i \<and>
        acts = [OpenControlChannel, Send env] \<and>
        conn' = conn\<lparr> conn_phase := OfferSent,
                      conn_negotiation := Some \<lparr> neg_offer = i, neg_answer = None \<rparr> \<rparr>)"
  by (auto simp: begin_offer_def or_bail_Inr require_local_signer_def Let_def)

lemma answer_Inr:
  "answer c s binding description conn = (Inr act, conn') \<longleftrightarrow>
     signer_endpoint s = conn_local conn \<and> conn_phase conn = OfferReceived \<and>
     (\<exists>ids env i. conn_negotiation conn = Some ids \<and>
        conn_sign conn s (Answer (neg_offer ids) binding description) = Inr env \<and>
        env_id c env = Inr i \<and> act = Send env \<and>
        conn' = conn\<lparr> conn_phase := AnswerSent,
                      conn_negotiation := Some \<lparr> neg_offer = neg_offer ids, neg_answer = Some i \<rparr> \<rparr>)"
  by (auto simp: answer_def or_bail_Inr require_local_signer_def ok_or_eq_Inr Let_def)

lemma conn_close_Inr:
  "conn_close s reason conn = (Inr act, conn') \<longleftrightarrow>
     signer_endpoint s = conn_local conn \<and> conn_phase conn \<notin> {Idle, Closed} \<and>
     conn' = conn\<lparr> conn_phase := Closed \<rparr> \<and>
     (\<exists>env. conn_sign conn s (Close reason) = Inr env \<and> act = Send env)"
  by (auto simp: conn_close_def or_bail_Inr require_local_signer_def Let_def)

lemma cfr_control_Inr:
  "cfr_control s payload conn = Inr act \<longleftrightarrow>
     signer_endpoint s = conn_local conn \<and> conn_phase conn = Established \<and>
     (\<exists>env. conn_sign conn s (CfrControl payload) = Inr env \<and> act = Send env)"
  by (auto simp: cfr_control_def and_then_eq_Inr require_local_signer_def)

lemma validate_inbound_Inr:
  "validate_inbound c conn env = Inr u \<longleftrightarrow>
     env_federation env = conn_federation conn \<and> env_attempt env = conn_attempt conn \<and>
     env_sender env = conn_remote conn \<and> env_recipient env = conn_local conn \<and> verify c env = Inr ()"
  by (auto simp: validate_inbound_def)

lemma env_id_eq: "body_ok (env_body env) \<Longrightarrow> env_id c env = Inr (EnvelopeId (blake3_hash c (envelope_bytes env)))"
  by (simp add: env_id_def encode_eq)

lemma verified_id:
  "verify c env = Inr () \<Longrightarrow> env_id c env = Inr (EnvelopeId (blake3_hash c (envelope_bytes env)))"
  by (simp add: verify_iff env_id_eq)

lemma commit_iff:
  "(case p of (Inl e, st) \<Rightarrow> (Inl e, st) | (Inr acts, st) \<Rightarrow> (Inr acts, f st)) = (Inr y, st') \<longleftrightarrow>
     (\<exists>st1. p = (Inr y, st1) \<and> st' = f st1)"
  "(case p of (Inl e, st) \<Rightarrow> (Inl e, st) | (Inr acts, st) \<Rightarrow> (Inr acts, f st)) = (Inl e', st') \<longleftrightarrow>
     p = (Inl e', st')"
  by (cases p; cases "fst p"; auto)+

lemma receive_Inr:
  "receive c env conn = (Inr acts, conn') \<longleftrightarrow>
     validate_inbound c conn env = Inr () \<and>
     (\<exists>i. env_id c env = Inr i \<and>
        (if i \<in> set (conn_seen conn) then acts = [] \<and> conn' = conn
         else \<exists>conn1. receive_body i (env_sender env) (env_body env) conn = (Inr acts, conn1) \<and>
                conn' = note_seen i conn1))"
  unfolding receive_def Let_def or_bail_Inr by (auto simp: commit_iff)

lemma receive_cases:
  assumes "receive c env conn = (Inr acts, conn')"
  obtains (replayed) i where "env_id c env = Inr i" "i \<in> set (conn_seen conn)" "acts = []" "conn' = conn"
  | (fresh) i conn1 where "env_id c env = Inr i" "i \<notin> set (conn_seen conn)"
      "receive_body i (env_sender env) (env_body env) conn = (Inr acts, conn1)" "conn' = note_seen i conn1"
  using assms by (auto simp: receive_Inr split: if_splits)

lemma error_unchanged:
  "begin_offer c s binding description conn = (Inl e, conn') \<Longrightarrow> conn' = conn"
  "answer c s binding description conn = (Inl e, conn') \<Longrightarrow> conn' = conn"
  "conn_close s reason conn = (Inl e, conn') \<Longrightarrow> conn' = conn"
  "receive_body i re b conn = (Inl e, conn') \<Longrightarrow> conn' = conn"
  "transport_connected conn = (Inl e, conn') \<Longrightarrow> conn' = conn"
  "transport_failed conn = (Inl e, conn') \<Longrightarrow> conn' = conn"
  by (auto simp: begin_offer_def answer_def conn_close_def receive_body_def transport_connected_def
      transport_failed_def or_bail_Inl Let_def split: if_splits body.splits)

lemma receive_error_unchanged: "receive c env conn = (Inl e, conn') \<Longrightarrow> conn' = conn"
  unfolding receive_def Let_def or_bail_Inl by (auto simp: commit_iff dest: error_unchanged split: if_splits)

lemma conn_apply_error: "conn_apply c op conn = (Inl e, conn') \<Longrightarrow> conn' = conn"
  by (cases op) (auto dest: error_unchanged receive_error_unchanged)

definition same_pins :: "connection \<Rightarrow> connection \<Rightarrow> bool" where
  "same_pins conn conn' \<longleftrightarrow> conn_federation conn' = conn_federation conn \<and> conn_attempt conn' = conn_attempt conn \<and>
     conn_local conn' = conn_local conn \<and> conn_remote conn' = conn_remote conn"

lemma receive_body_pins:
  "receive_body i re b conn = (Inr acts, conn') \<Longrightarrow> same_pins conn conn' \<and> conn_seen conn' = conn_seen conn"
  by (cases b) (auto simp: receive_body_def same_pins_def or_bail_Inr Let_def split: if_splits)

subsection \<open>The invariant\<close>

fun negotiation_shape :: "phase \<Rightarrow> negotiation_ids option \<Rightarrow> bool" where
  "negotiation_shape Idle n = (n = None)"
| "negotiation_shape Closed n = (n \<noteq> None)"
| "negotiation_shape p None = False"
| "negotiation_shape p (Some ids) = ((neg_answer ids = None) = (p \<in> {OfferSent, OfferReceived}))"

definition conn_inv :: "connection \<Rightarrow> bool" where
  "conn_inv conn \<longleftrightarrow>
     conn_local conn \<noteq> conn_remote conn \<and>
     distinct (conn_seen conn) \<and> length (conn_seen conn) \<le> MAX_SEEN_ENVELOPES \<and>
     (conn_phase conn = Idle \<longrightarrow> conn_seen conn = []) \<and>
     negotiation_shape (conn_phase conn) (conn_negotiation conn)"

lemma negotiation_shape_close:
  "negotiation_shape p n \<Longrightarrow> p \<noteq> Idle \<Longrightarrow> \<exists>ids. n = Some ids"
  by (cases p; cases n) auto

lemma negotiation_shape_connect:
  "negotiation_shape p n \<Longrightarrow> p = AnswerSent \<or> p = AnswerReceived \<Longrightarrow> negotiation_shape Established n"
  by (cases n) auto

lemma receive_body_shape:
  assumes "receive_body i re b conn = (Inr acts, conn')"
    and "negotiation_shape (conn_phase conn) (conn_negotiation conn)"
  shows "negotiation_shape (conn_phase conn') (conn_negotiation conn') \<and> conn_phase conn' \<noteq> Idle"
  using assms
  by (cases b) (auto simp: receive_body_def or_bail_Inr ok_or_eq_Inr validate_candidate_parent_def
      and_then_eq_Inr negotiating_def Let_def dest: negotiation_shape_close split: if_splits)

lemma note_seen_seen:
  assumes "i \<notin> set (conn_seen conn)" and "distinct (conn_seen conn)"
    and "length (conn_seen conn) \<le> MAX_SEEN_ENVELOPES"
  shows "distinct (conn_seen (note_seen i conn)) \<and> length (conn_seen (note_seen i conn)) \<le> MAX_SEEN_ENVELOPES"
proof -
  have "MAX_SEEN_ENVELOPES > 0" by (simp add: MAX_SEEN_ENVELOPES_def)
  then show ?thesis
    using assms by (auto simp: note_seen_def distinct_tl dest: list.set_sel(2) split: if_splits)
      (metis list.set_sel(2) list.size(3) nat_less_le)
qed

lemma note_seen_frame [simp]:
  "conn_local (note_seen i conn) = conn_local conn" "conn_remote (note_seen i conn) = conn_remote conn"
  "conn_federation (note_seen i conn) = conn_federation conn"
  "conn_attempt (note_seen i conn) = conn_attempt conn"
  "conn_phase (note_seen i conn) = conn_phase conn"
  "conn_negotiation (note_seen i conn) = conn_negotiation conn"
  by (simp_all add: note_seen_def Let_def)

lemma receive_inv: "conn_inv conn \<Longrightarrow> receive c env conn = (Inr acts, conn') \<Longrightarrow> conn_inv conn'"
proof (erule receive_cases)
  fix i conn1
  assume "conn_inv conn" "i \<notin> set (conn_seen conn)" "conn' = note_seen i conn1"
    and got: "receive_body i (env_sender env) (env_body env) conn = (Inr acts, conn1)"
  then show "conn_inv conn'"
    using receive_body_shape [OF got] note_seen_seen [of i conn1] receive_body_pins [OF got]
    by (simp add: conn_inv_def same_pins_def)
qed simp

lemma conn_apply_inv: "conn_inv conn \<Longrightarrow> conn_apply c op conn = (res, conn') \<Longrightarrow> conn_inv conn'"
proof (cases res)
  case (Inr acts)
  assume inv: "conn_inv conn" and app: "conn_apply c op conn = (res, conn')"
  show ?thesis
  proof (cases op)
    case (OpReceive env)
    with app Inr show ?thesis using receive_inv [OF inv] by simp
  qed (use inv app Inr in \<open>auto simp: conn_inv_def begin_offer_Inr answer_Inr conn_close_Inr
      transport_connected_def transport_failed_def negotiation_shape_close negotiation_shape_connect
      split: if_splits\<close>)
qed (auto dest: conn_apply_error)

lemma conn_new_inv: "connection_new f a l r = Inr conn \<Longrightarrow> conn_inv conn"
  by (auto simp: connection_new_def conn_inv_def split: if_splits)

lemma conn_reach_inv: "conn_reach c conn \<Longrightarrow> conn_inv conn"
  by (induction rule: conn_reach.induct) (auto intro: conn_new_inv conn_apply_inv)

subsection \<open>Pinned fields and phases\<close>

lemma conn_apply_pins: "conn_apply c op conn = (res, conn') \<Longrightarrow> same_pins conn conn'"
proof (cases res)
  case (Inr acts)
  assume app: "conn_apply c op conn = (res, conn')"
  show ?thesis
  proof (cases op)
    case (OpReceive env)
    with app Inr have "receive c env conn = (Inr acts, conn')" by simp
    then show ?thesis
      by (rule receive_cases) (use receive_body_pins in \<open>simp_all add: same_pins_def\<close>)
  qed (use app Inr in \<open>auto simp: same_pins_def begin_offer_Inr answer_Inr conn_close_Inr
      transport_connected_def transport_failed_def split: if_splits\<close>)
qed (auto simp: same_pins_def dest: conn_apply_error)

inductive phase_step :: "phase \<Rightarrow> phase \<Rightarrow> bool" where
  offer_out: "phase_step Idle OfferSent"
| offer_in: "phase_step Idle OfferReceived"
| answer_out: "phase_step OfferReceived AnswerSent"
| answer_in: "phase_step OfferSent AnswerReceived"
| connect_answerer: "phase_step AnswerSent Established"
| connect_offerer: "phase_step AnswerReceived Established"
| finish: "p \<noteq> Idle \<Longrightarrow> p \<noteq> Closed \<Longrightarrow> phase_step p Closed"

inductive_simps phase_step_simps: "phase_step p q"

lemma receive_body_phase:
  "receive_body i re b conn = (Inr acts, conn') \<Longrightarrow>
     conn_phase conn' = conn_phase conn \<or> phase_step (conn_phase conn) (conn_phase conn')"
  by (cases b) (auto simp: receive_body_def or_bail_Inr Let_def phase_step_simps split: if_splits)

lemma conn_apply_phase:
  "conn_apply c op conn = (res, conn') \<Longrightarrow>
     conn_phase conn' = conn_phase conn \<or> phase_step (conn_phase conn) (conn_phase conn')"
proof (cases res)
  case (Inr acts)
  assume app: "conn_apply c op conn = (res, conn')"
  show ?thesis
  proof (cases op)
    case (OpReceive env)
    with app Inr have "receive c env conn = (Inr acts, conn')" by simp
    then show ?thesis
      by (rule receive_cases) (use receive_body_phase in simp_all)
  qed (use app Inr in \<open>auto simp: begin_offer_Inr answer_Inr conn_close_Inr
      transport_connected_def transport_failed_def intro: phase_step.intros split: if_splits\<close>)
qed (auto dest: conn_apply_error)

subsection \<open>The replay window\<close>

definition seen_from_end :: "nat \<Rightarrow> envelope_id \<Rightarrow> connection \<Rightarrow> bool" where
  "seen_from_end n i conn \<longleftrightarrow> (\<exists>xs ys. conn_seen conn = xs @ i # ys \<and> length ys \<le> n)"

lemma seen_from_end_mono: "seen_from_end n i conn \<Longrightarrow> n \<le> m \<Longrightarrow> seen_from_end m i conn"
  by (auto simp: seen_from_end_def intro: order_trans)

lemma seen_from_end_mem: "seen_from_end n i conn \<Longrightarrow> i \<in> set (conn_seen conn)"
  by (auto simp: seen_from_end_def)

lemma seen_from_end_note:
  assumes "seen_from_end n i conn" and "Suc n < MAX_SEEN_ENVELOPES"
  shows "seen_from_end (Suc n) i (note_seen j conn)"
proof -
  obtain xs ys where seen: "conn_seen conn = xs @ i # ys" "length ys \<le> n"
    using assms(1) by (auto simp: seen_from_end_def)
  show ?thesis
  proof (cases "length (conn_seen conn) = MAX_SEEN_ENVELOPES")
    case True
    with seen assms(2) have "xs \<noteq> []" by auto
    with seen True have "conn_seen (note_seen j conn) = tl xs @ i # (ys @ [j])"
      by (simp add: note_seen_def)
    with seen(2) show ?thesis unfolding seen_from_end_def by fastforce
  next
    case False
    with seen have "conn_seen (note_seen j conn) = xs @ i # (ys @ [j])"
      by (simp add: note_seen_def)
    with seen(2) show ?thesis unfolding seen_from_end_def by fastforce
  qed
qed

lemma seen_from_end_new: "seen_from_end 0 i (note_seen i conn)"
  by (auto simp: seen_from_end_def note_seen_def Let_def)

lemma seen_from_end_cong:
  "conn_seen conn' = conn_seen conn \<Longrightarrow> seen_from_end n i conn' = seen_from_end n i conn"
  by (simp add: seen_from_end_def)

lemma note_seen_cong:
  "conn_seen conn' = conn_seen conn \<Longrightarrow> conn_seen (note_seen i conn') = conn_seen (note_seen i conn)"
  by (simp add: note_seen_def)

lemma conn_apply_seen:
  assumes app: "conn_apply c op conn = (res, conn')"
  shows "conn_seen conn' = conn_seen conn \<or> (\<exists>j. conn_seen conn' = conn_seen (note_seen j conn))"
proof (cases res)
  case (Inr acts)
  show ?thesis
  proof (cases op)
    case (OpReceive env)
    with app Inr have "receive c env conn = (Inr acts, conn')" by simp
    then show ?thesis
      by (rule receive_cases) (use receive_body_pins note_seen_cong in blast)+
  qed (use app Inr in \<open>auto simp: begin_offer_Inr answer_Inr conn_close_Inr
      transport_connected_def transport_failed_def split: if_splits\<close>)
qed (use app in \<open>auto dest: conn_apply_error\<close>)

lemma seen_from_end_apply:
  assumes "conn_apply c op conn = (res, conn')" and "seen_from_end n i conn"
    and "Suc n < MAX_SEEN_ENVELOPES"
  shows "seen_from_end (Suc n) i conn'"
  using conn_apply_seen [OF assms(1)]
proof (elim disjE exE)
  assume "conn_seen conn' = conn_seen conn"
  from seen_from_end_cong [OF this] show ?thesis
    using seen_from_end_mono [OF assms(2), of "Suc n"] by simp
next
  fix j assume "conn_seen conn' = conn_seen (note_seen j conn)"
  from seen_from_end_cong [OF this] show ?thesis
    using seen_from_end_note [OF assms(2,3)] by simp
qed

lemma seen_from_end_run:
  "seen_from_end n i conn \<Longrightarrow> n + length ops < MAX_SEEN_ENVELOPES \<Longrightarrow>
     seen_from_end (n + length ops) i (conn_run c ops conn)"
proof (induction ops arbitrary: n conn)
  case (Cons op ops)
  have "seen_from_end (Suc n) i (snd (conn_apply c op conn))"
    using Cons.prems by (intro seen_from_end_apply [OF prod.collapse [symmetric]]) auto
  from Cons.IH [OF this] Cons.prems show ?case by simp
qed simp

lemma conn_run_pins: "same_pins conn (conn_run c ops conn)"
proof (induction ops arbitrary: conn)
  case (Cons op ops)
  then show ?case
    using conn_apply_pins [of c op conn, OF prod.collapse [symmetric]] by (simp add: same_pins_def)
qed (simp add: same_pins_def)

lemma receive_seen:
  assumes "validate_inbound c conn env = Inr ()" and "env_id c env = Inr i"
    and "i \<in> set (conn_seen conn)"
  shows "receive c env conn = (Inr [], conn)"
  using assms by (simp add: receive_def)

lemma conn_run_phase: "phase_step\<^sup>*\<^sup>* (conn_phase conn) (conn_phase (conn_run c ops conn))"
proof (induction ops arbitrary: conn)
  case (Cons op ops)
  show ?case
    using conn_apply_phase [of c op conn, OF prod.collapse [symmetric]] Cons.IH [of "snd (conn_apply c op conn)"]
    by (auto intro: converse_rtranclp_into_rtranclp)
qed simp

subsection \<open>Acceptance\<close>

definition body_admissible :: "connection \<Rightarrow> body \<Rightarrow> bool" where
  "body_admissible conn b \<longleftrightarrow>
     (case b of
        Offer _ _ \<Rightarrow> conn_phase conn = Idle
      | Answer offer_id _ _ \<Rightarrow> conn_phase conn = OfferSent \<and> map_option neg_offer (conn_negotiation conn) = Some offer_id
      | Candidate parent _ _ \<Rightarrow> conn_phase conn \<notin> {Idle, Closed} \<and>
          (\<exists>ids. conn_negotiation conn = Some ids \<and> (parent = neg_offer ids \<or> neg_answer ids = Some parent))
      | Close _ \<Rightarrow> conn_phase conn \<notin> {Idle, Closed}
      | CfrControl _ \<Rightarrow> conn_phase conn = Established)"

fun body_actions :: "envelope_id \<Rightarrow> endpoint_identity \<Rightarrow> body \<Rightarrow> action list" where
  "body_actions i re (Offer binding description) = [ApplyOffer binding description]"
| "body_actions i re (Answer offer_id binding description) = [ApplyAnswer binding description]"
| "body_actions i re (Candidate parent sequence cand) = [AddCandidate sequence cand]"
| "body_actions i re (Close reason) = [CloseTransport reason]"
| "body_actions i re (CfrControl payload) = [DeliverCfr i re payload]"

lemma body_actions_deliver:
  "DeliverCfr j re' p \<in> set (body_actions i re b) \<longleftrightarrow> b = CfrControl p \<and> j = i \<and> re' = re"
  by (cases b) auto

lemma negotiating_iff: "negotiating p \<longleftrightarrow> p \<notin> {Idle, Closed}"
  by (cases p) (simp_all add: negotiating_def)

lemma receive_body_iff:
  "(\<exists>conn'. receive_body i re b conn = (Inr acts, conn')) \<longleftrightarrow>
     body_admissible conn b \<and> acts = body_actions i re b"
  by (cases b; cases "conn_negotiation conn")
    (auto simp: receive_body_def body_admissible_def or_bail_def validate_candidate_parent_def
      negotiating_iff Let_def split: if_splits)

lemma receive_accepts_iff:
  "(\<exists>conn'. receive c env conn = (Inr acts, conn')) \<longleftrightarrow>
     validate_inbound c conn env = Inr () \<and>
     (\<exists>i. env_id c env = Inr i \<and>
        (if i \<in> set (conn_seen conn) then acts = []
         else body_admissible conn (env_body env) \<and> acts = body_actions i (env_sender env) (env_body env)))"
  unfolding receive_Inr receive_body_iff [symmetric] by (auto split: if_splits)

lemma receive_deliver:
  assumes "receive c env conn = (Inr acts, conn')" and "DeliverCfr i re payload \<in> set acts"
  shows "validate_inbound c conn env = Inr ()" "env_id c env = Inr i" "i \<notin> set (conn_seen conn)"
    "conn_phase conn = Established" "env_body env = CfrControl payload" "re = env_sender env"
    "acts = [DeliverCfr i re payload]"
proof -
  have "\<exists>conn'. receive c env conn = (Inr acts, conn')" using assms(1) by blast
  then show "validate_inbound c conn env = Inr ()" "env_id c env = Inr i" "i \<notin> set (conn_seen conn)"
    "conn_phase conn = Established" "env_body env = CfrControl payload" "re = env_sender env"
    "acts = [DeliverCfr i re payload]"
    using assms(2) unfolding receive_accepts_iff
    by (auto simp: body_actions_deliver body_admissible_def split: if_splits)
qed

subsection \<open>Eviction from the replay window\<close>

definition last_n :: "nat \<Rightarrow> 'a list \<Rightarrow> 'a list" where
  "last_n n xs = drop (length xs - n) xs"

lemma note_seen_last_n:
  "length (conn_seen conn) \<le> MAX_SEEN_ENVELOPES \<Longrightarrow>
     conn_seen (note_seen i conn) = last_n MAX_SEEN_ENVELOPES (conn_seen conn @ [i])"
  by (auto simp: note_seen_def last_n_def drop_Suc MAX_SEEN_ENVELOPES_def)

lemma last_n_append: "last_n n (last_n n xs @ ys) = last_n n (xs @ ys)"
  by (cases "n \<le> length xs") (auto simp: last_n_def add.commute)

lemma length_last_n: "length (last_n n xs) \<le> n"
  by (simp add: last_n_def)

lemma set_last_n: "set (last_n n xs) \<subseteq> set xs"
  by (simp add: last_n_def set_drop_subset)

definition control_envelope :: "crypto \<Rightarrow> connection \<Rightarrow> envelope \<Rightarrow> bool" where
  "control_envelope c conn env \<longleftrightarrow>
     validate_inbound c conn env = Inr () \<and> (\<exists>payload. env_body env = CfrControl payload)"

lemma receive_control:
  assumes "control_envelope c conn env" and "conn_phase conn = Established"
    and "env_id c env = Inr i" and "i \<notin> set (conn_seen conn)"
  shows "receive c env conn = (Inr (body_actions i (env_sender env) (env_body env)), note_seen i conn)"
  using assms by (auto simp: control_envelope_def receive_def receive_body_def)

lemma control_envelope_note [simp]: "control_envelope c (note_seen i conn) = control_envelope c conn"
  by (simp add: fun_eq_iff control_envelope_def validate_inbound_def)

lemma control_envelope_pins:
  "same_pins conn conn' \<Longrightarrow> control_envelope c conn' env = control_envelope c conn env"
  by (simp add: same_pins_def control_envelope_def validate_inbound_def)

lemma control_run:
  assumes "list_all2 (\<lambda>e i. control_envelope c ref e \<and> env_id c e = Inr i) envs is"
    and "same_pins ref conn"
    and "conn_phase conn = Established" and "length (conn_seen conn) \<le> MAX_SEEN_ENVELOPES"
    and "distinct is" and "set is \<inter> set (conn_seen conn) = {}"
  shows "conn_seen (conn_run c (map OpReceive envs) conn) = last_n MAX_SEEN_ENVELOPES (conn_seen conn @ is) \<and>
    conn_phase (conn_run c (map OpReceive envs) conn) = Established"
  using assms
proof (induction envs "is" arbitrary: conn rule: list_all2_induct)
  case Nil
  then show ?case by (simp add: last_n_def)
next
  case (Cons e envs i "is")
  let ?conn = "note_seen i conn"
  have "receive c e conn = (Inr (body_actions i (env_sender e) (env_body e)), ?conn)"
    using Cons.hyps Cons.prems by (intro receive_control) (auto simp: control_envelope_pins)
  then have step: "snd (receive c e conn) = ?conn" by simp
  have seen: "conn_seen ?conn = last_n MAX_SEEN_ENVELOPES (conn_seen conn @ [i])"
    using Cons.prems by (simp add: note_seen_last_n)
  have "set (conn_seen ?conn) \<subseteq> insert i (set (conn_seen conn))"
    using set_last_n [of MAX_SEEN_ENVELOPES "conn_seen conn @ [i]"] by (simp add: seen)
  then have "set is \<inter> set (conn_seen ?conn) = {}"
    using Cons.prems by auto
  moreover have "same_pins ref ?conn" using Cons.prems by (simp add: same_pins_def)
  moreover have "length (conn_seen ?conn) \<le> MAX_SEEN_ENVELOPES" by (simp add: seen length_last_n)
  ultimately show ?case
    using Cons.IH [of ?conn] Cons.prems step by (simp add: seen last_n_append)
qed

lemma evicted_replay:
  assumes acc: "receive c env conn = (Inr [DeliverCfr i re payload], conn1)"
    and inv: "conn_inv conn" and len: "length envs = MAX_SEEN_ENVELOPES"
    and envs: "list_all2 (\<lambda>e j. control_envelope c conn e \<and> env_id c e = Inr j) envs is"
    and fresh: "distinct (i # is)" "set is \<inter> set (conn_seen conn) = {}"
  shows "fst (receive c env (conn_run c (map OpReceive envs) conn1)) = Inr [DeliverCfr i re payload]"
proof -
  note acc' = receive_deliver [OF acc, of i re payload, simplified]
  have valid: "validate_inbound c conn env = Inr ()" and ident: "env_id c env = Inr i"
    and i: "i \<notin> set (conn_seen conn)" and est: "conn_phase conn = Established"
    and body: "env_body env = CfrControl payload" and re: "re = env_sender env"
    using acc' by simp_all
  have ctl: "control_envelope c conn env" using valid body by (simp add: control_envelope_def)
  have conn1: "conn1 = note_seen i conn"
    using receive_control [OF ctl est ident i] acc by simp
  have len1: "length (conn_seen conn) \<le> MAX_SEEN_ENVELOPES" using inv by (simp add: conn_inv_def)
  have seen1: "conn_seen conn1 = last_n MAX_SEEN_ENVELOPES (conn_seen conn @ [i])"
    using len1 by (simp add: conn1 note_seen_last_n)
  let ?conn2 = "conn_run c (map OpReceive envs) conn1"
  have disj: "set is \<inter> set (conn_seen conn1) = {}"
    using set_last_n [of MAX_SEEN_ENVELOPES "conn_seen conn @ [i]"] fresh unfolding seen1 by fastforce
  have len2: "length (conn_seen conn1) \<le> MAX_SEEN_ENVELOPES" by (simp add: seen1 length_last_n)
  have "same_pins conn conn1" "conn_phase conn1 = Established" "distinct is"
    using est fresh by (simp_all add: conn1 same_pins_def)
  with control_run [OF envs _ _ len2 _ disj]
  have run: "conn_seen ?conn2 = last_n MAX_SEEN_ENVELOPES (conn_seen conn1 @ is)" "conn_phase ?conn2 = Established"
    by simp_all
  have "length is = MAX_SEEN_ENVELOPES" using envs len by (simp add: list_all2_lengthD)
  with run have "conn_seen ?conn2 = is" by (simp add: last_n_def)
  then have "i \<notin> set (conn_seen ?conn2)" using fresh by simp
  moreover have "control_envelope c ?conn2 env"
    using ctl by (simp add: control_envelope_pins [OF conn_run_pins] conn1)
  ultimately show ?thesis
    using receive_control [of c ?conn2 env i] run ident body re by simp
qed

subsection \<open>A concrete exchange\<close>

definition demo_connection :: "u8 \<Rightarrow> u8 \<Rightarrow> connection" where
  "demo_connection l r = \<lparr> conn_federation = FederationId (filled 1), conn_attempt = AttemptId (filled 2),
     conn_local = demo_identity l, conn_remote = demo_identity r, conn_phase = Idle,
     conn_negotiation = None, conn_seen = [] \<rparr>"

lemma demo_connection_new:
  "connection_new (FederationId (filled 1)) (AttemptId (filled 2)) (demo_identity 3) (demo_identity 4) =
     Inr (demo_connection 3 4)"
  "connection_new (FederationId (filled 1)) (AttemptId (filled 2)) (demo_identity 4) (demo_identity 3) =
     Inr (demo_connection 4 3)"
  by (simp_all add: connection_new_def demo_connection_def)

definition demo_signed :: "body \<Rightarrow> envelope" where
  "demo_signed b = projr (sign (demo_signer 3) (FederationId (filled 1)) (AttemptId (filled 2)) (demo_identity 4) b)"

lemma demo_signed_eq:
  "body_ok b \<Longrightarrow> sign (demo_signer 3) (FederationId (filled 1)) (AttemptId (filled 2)) (demo_identity 4) b =
     Inr (demo_signed b)"
  using sign_ok [of b "demo_signer 3" "FederationId (filled 1)" "AttemptId (filled 2)" "demo_identity 4"]
  by (auto simp: demo_signed_def)

definition demo_established :: connection where
  "demo_established = (demo_connection 4 3)\<lparr> conn_phase := Established,
     conn_negotiation := Some \<lparr> neg_offer = EnvelopeId (filled 7), neg_answer = Some (EnvelopeId (filled 8)) \<rparr> \<rparr>"

lemma demo_established_inv: "conn_inv demo_established"
  by (simp add: demo_established_def demo_connection_def conn_inv_def)

lemma demo_signed_valid:
  assumes "body_ok b"
  shows "validate_inbound demo_crypto demo_established (demo_signed b) = Inr ()"
    "env_body (demo_signed b) = b"
  using sign_fields [OF demo_signed_eq [OF assms]] sign_verifies [OF demo_signer_honest demo_signed_eq [OF assms]]
  by (simp_all add: validate_inbound_Inr demo_established_def demo_connection_def)

lemma demo_hash:
  "blake3_hash demo_crypto (envelope_bytes env) =
     padded (kind_u8 (body_kind (env_body env)) # body_bytes (env_body env) @
       bytes_list (env_classical_signature env) @ bytes_list (env_post_quantum_signature env))"
proof -
  have "envelope_bytes env ! 4 = kind_u8 (body_kind (env_body env))"
    by (simp add: envelope_bytes_def transcript_def nth_append)
  moreover have "drop 4021 (envelope_bytes env) = body_bytes (env_body env) @
      bytes_list (env_classical_signature env) @ bytes_list (env_post_quantum_signature env)"
    by (simp add: envelope_bytes_def transcript_def drop_Cons')
  ultimately show ?thesis by (simp add: demo_crypto_def)
qed

lemma demo_id:
  "body_ok b \<Longrightarrow> env_id demo_crypto (demo_signed b) =
     Inr (EnvelopeId (blake3_hash demo_crypto (envelope_bytes (demo_signed b))))"
  by (simp add: env_id_eq demo_signed_valid)

definition demo_payload :: "nat \<Rightarrow> u8 list" where
  "demo_payload n = [of_nat (n div 256), of_nat (n mod 256)]"

definition demo_control_id :: "nat \<Rightarrow> envelope_id" where
  "demo_control_id n = EnvelopeId (blake3_hash demo_crypto (envelope_bytes (demo_signed (CfrControl (demo_payload n)))))"

lemma demo_payload_ok [simp]: "body_ok (CfrControl (demo_payload n))"
  by (simp add: demo_payload_def bound_defs)

lemma length_demo_payload [simp]: "length (demo_payload n) = 2"
  by (simp add: demo_payload_def)

lemma demo_payload_inj: "m < 65536 \<Longrightarrow> n < 65536 \<Longrightarrow> demo_payload m = demo_payload n \<Longrightarrow> m = n"
proof -
  assume mn: "m < 65536" "n < 65536" and eq: "demo_payload m = demo_payload n"
  have "unat (of_nat (k div 256) :: u8) = k div 256" "unat (of_nat (k mod 256) :: u8) = k mod 256"
    if "k < 65536" for k :: nat
    using that by (simp_all add: unat_of_nat less_mult_imp_div_less)
  with mn eq have "m div 256 = n div 256" "m mod 256 = n mod 256"
    unfolding demo_payload_def by (metis list.inject)+
  then show "m = n" by (metis div_mult_mod_eq)
qed

lemma demo_control_id_inj: "inj_on demo_control_id {..<65536}"
proof (rule inj_onI)
  fix m n :: nat
  assume mn: "m \<in> {..<65536}" "n \<in> {..<65536}" and eq: "demo_control_id m = demo_control_id n"
  have "take 7 (bytes_list (envelope_id_bytes (demo_control_id k))) =
      5 # to_be_bytes (2 :: u32) @ demo_payload k" for k
    using demo_signed_valid(2) [OF demo_payload_ok, of k]
    by (simp add: demo_control_id_def demo_hash len_prefixed_def min_def take_Cons')
  with eq have "demo_payload m = demo_payload n" by (metis list.inject same_append_eq)
  with mn show "m = n" using demo_payload_inj by auto
qed

lemma demo_control_id_eq: "m < 65536 \<Longrightarrow> n < 65536 \<Longrightarrow> demo_control_id m = demo_control_id n \<longleftrightarrow> m = n"
  using inj_on_eq_iff [OF demo_control_id_inj] by simp

definition demo_control :: "nat \<Rightarrow> envelope" where
  "demo_control n = demo_signed (CfrControl (demo_payload n))"

lemma demo_control:
  "control_envelope demo_crypto demo_established (demo_control n)"
  "env_id demo_crypto (demo_control n) = Inr (demo_control_id n)"
  "env_sender (demo_control n) = demo_identity 3"
  "env_body (demo_control n) = CfrControl (demo_payload n)"
  using demo_signed_valid [OF demo_payload_ok, of n] demo_id [OF demo_payload_ok, of n]
    sign_fields(3) [OF demo_signed_eq [OF demo_payload_ok, of n]]
  by (auto simp: control_envelope_def demo_control_def demo_control_id_def)

lemma demo_control_decodes: "decode_verified demo_crypto (envelope_bytes (demo_control n)) = Inr (demo_control n)"
proof -
  have "verify demo_crypto (demo_control n) = Inr ()"
    using demo_control(1) [of n] by (auto simp: control_envelope_def validate_inbound_Inr)
  then show ?thesis by (simp add: decode_verified_iff encode_iff verify_iff)
qed

lemma demo_receive:
  "receive demo_crypto (demo_control n) demo_established =
     (Inr [DeliverCfr (demo_control_id n) (demo_identity 3) (demo_payload n)],
      note_seen (demo_control_id n) demo_established)"
  using receive_control [OF demo_control(1) _ demo_control(2), of n]
  by (simp add: demo_established_def demo_connection_def demo_control)

lemma demo_id_kind:
  assumes "body_ok b" and "body_ok b'" and "body_kind b \<noteq> body_kind b'"
  shows "env_id demo_crypto (demo_signed b) \<noteq> env_id demo_crypto (demo_signed b')"
proof -
  have hd: "hd (bytes_list (blake3_hash demo_crypto (envelope_bytes (demo_signed b)))) = kind_u8 (body_kind b)"
    if "body_ok b" for b
    using demo_signed_valid(2) [OF that] by (simp add: demo_hash)
  have "kind_u8 (body_kind b) \<noteq> kind_u8 (body_kind b')"
    using assms(3) by (metis kind_try_from_u8 sum.inject(2))
  with hd [OF assms(1)] hd [OF assms(2)] show ?thesis
    using assms(1,2) by (auto simp: demo_id)
qed

subsection \<open>The handshake\<close>

lemma receive_fresh:
  assumes "validate_inbound c conn env = Inr ()" and "env_id c env = Inr i"
    and "i \<notin> set (conn_seen conn)"
    and "receive_body i (env_sender env) (env_body env) conn = (Inr acts, conn1)"
  shows "receive c env conn = (Inr acts, note_seen i conn1)"
  using assms by (auto simp: receive_Inr)

lemma signed_validates:
  assumes "honest_signer c s" and "sign s f a r b = Inr env"
    and "conn_federation conn = f" "conn_attempt conn = a" "conn_local conn = r"
    and "conn_remote conn = signer_endpoint s"
  shows "validate_inbound c conn env = Inr ()"
    and "env_id c env = Inr (EnvelopeId (blake3_hash c (envelope_bytes env)))"
  using assms sign_fields [OF assms(2)] sign_verifies [OF assms(1,2)]
  by (auto simp: validate_inbound_Inr intro: verified_id)

subsection \<open>Properties\<close>

text \<open>
  C13.  In every state a connection can reach, under any interleaving of its operations and any
  received envelopes: the local and the remote identity differ; the replay window holds at most
  \<open>MAX_SEEN_ENVELOPES\<close> identifiers, all distinct; an idle connection has seen nothing; and the
  negotiation identifiers match the phase (none when idle, an offer only before the answer, an
  offer and an answer from then on).
\<close>

theorem connection_invariant: "conn_reach c conn \<Longrightarrow> conn_inv conn"
  by (rule conn_reach_inv)

theorem connection_invariant_witness:
  "conn_reach demo_crypto (demo_connection 3 4) \<and> conn_inv (demo_connection 3 4)"
proof -
  have "conn_reach demo_crypto (demo_connection 3 4)"
    by (rule conn_init [OF demo_connection_new(1)])
  with connection_invariant [OF this] show ?thesis by simp
qed

text \<open>
  Every failing operation leaves the connection exactly as it was, also \<open>close\<close>, which sets
  the phase before it signs.
\<close>

theorem connection_error_atomic: "conn_apply c op conn = (Inl e, conn') \<Longrightarrow> conn' = conn"
  by (rule conn_apply_error)

theorem connection_error_atomic_witness:
  "\<exists>conn'. conn_apply demo_crypto OpConnected (demo_connection 3 4) = (Inl InvalidState, conn') \<and>
     conn' = demo_connection 3 4"
proof -
  have "conn_apply demo_crypto OpConnected (demo_connection 3 4) = (Inl InvalidState, demo_connection 3 4)"
    by (simp add: transport_connected_def demo_connection_def)
  with connection_error_atomic [OF this] show ?thesis by blast
qed

text \<open>
  C14.  The implementation refines the phase diagram: along any sequence of operations the phase
  moves only along \<open>phase_step\<close> (offer before answer before connection, each at most once, and
  closed is final), and the pinned federation, attempt, local and remote identity never change.
\<close>

theorem connection_phase_refinement:
  "phase_step\<^sup>*\<^sup>* (conn_phase conn) (conn_phase (conn_run c ops conn)) \<and>
   conn_federation (conn_run c ops conn) = conn_federation conn \<and>
   conn_attempt (conn_run c ops conn) = conn_attempt conn \<and>
   conn_local (conn_run c ops conn) = conn_local conn \<and>
   conn_remote (conn_run c ops conn) = conn_remote conn"
  using conn_run_phase conn_run_pins by (simp add: same_pins_def)

text \<open>
  C2.  A CFR payload is delivered only from an authenticated envelope: the connection is
  established, the envelope carries the pinned federation, attempt, sender and recipient, its
  body is exactly the delivered payload, its identifier is the delivered one, it was not seen
  before, and both signatures of the pinned remote identity verify over its transcript.
\<close>

theorem connection_delivery_authentic:
  assumes "receive c env conn = (Inr acts, conn')" and "DeliverCfr i re payload \<in> set acts"
  shows "conn_phase conn = Established \<and> re = conn_remote conn \<and>
     env_federation env = conn_federation conn \<and> env_attempt env = conn_attempt conn \<and>
     env_sender env = conn_remote conn \<and> env_recipient env = conn_local conn \<and>
     env_body env = CfrControl payload \<and> env_id c env = Inr i \<and> i \<notin> set (conn_seen conn) \<and>
     (\<exists>t. signed_bytes env = Inr t \<and>
        verify_classical c (conn_remote conn) t (env_classical_signature env) = Inr () \<and>
        verify_post_quantum c (conn_remote conn) t (env_post_quantum_signature env) = Inr ())"
  using receive_deliver [OF assms] by (auto simp: validate_inbound_Inr verify_iff signed_bytes_eq)

theorem connection_delivery_authentic_witness:
  "\<exists>acts conn'. receive demo_crypto (demo_control 9) demo_established = (Inr acts, conn') \<and>
     DeliverCfr (demo_control_id 9) (demo_identity 3) (demo_payload 9) \<in> set acts \<and>
     env_sender (demo_control 9) = conn_remote demo_established"
  using connection_delivery_authentic [OF demo_receive list.set_intros(1), of 9] demo_receive [of 9]
  by auto

text \<open>
  Exactly which envelopes \<open>receive\<close> accepts and what it answers: the binding checks and both
  signatures must pass; an identifier in the replay window gives no action; any other envelope
  must be admissible in the current phase (offer when idle, answer to the pending offer,
  candidate of the active negotiation, close of a live attempt, payload when established), and
  then exactly the action of its body is emitted.
\<close>

theorem connection_receive_accepts:
  "(\<exists>conn'. receive c env conn = (Inr acts, conn')) \<longleftrightarrow>
     env_federation env = conn_federation conn \<and> env_attempt env = conn_attempt conn \<and>
     env_sender env = conn_remote conn \<and> env_recipient env = conn_local conn \<and> verify c env = Inr () \<and>
     (\<exists>i. env_id c env = Inr i \<and>
        (if i \<in> set (conn_seen conn) then acts = []
         else body_admissible conn (env_body env) \<and> acts = body_actions i (env_sender env) (env_body env)))"
  unfolding receive_accepts_iff validate_inbound_Inr by auto

text \<open>
  C15.  Replay protection inside the window: after an envelope has been accepted, and after any
  further sequence of fewer than \<open>MAX_SEEN_ENVELOPES\<close> operations, receiving it again succeeds
  without any action and without changing the connection.
\<close>

theorem connection_replay_window:
  assumes "receive c env conn = (Inr acts, conn1)" and "acts \<noteq> []"
    and "length ops < MAX_SEEN_ENVELOPES"
  shows "receive c env (conn_run c ops conn1) = (Inr [], conn_run c ops conn1)"
  using assms(1)
proof (cases rule: receive_cases)
  case (fresh i conn0)
  have "seen_from_end (0 + length ops) i (conn_run c ops conn1)"
    using assms(3) fresh seen_from_end_new by (intro seen_from_end_run) auto
  moreover have "validate_inbound c conn env = Inr ()"
    using assms(1) by (auto simp: receive_Inr)
  moreover have "same_pins conn (conn_run c ops conn1)"
    using conn_run_pins [of conn1 c ops] receive_body_pins [OF fresh(3)] fresh(4) by (simp add: same_pins_def)
  ultimately show ?thesis
    using fresh(1) by (intro receive_seen) (auto simp: validate_inbound_Inr same_pins_def dest: seen_from_end_mem)
qed (use assms in simp)

theorem connection_replay_window_witness:
  "\<exists>conn1. receive demo_crypto (demo_control 9) demo_established =
       (Inr [DeliverCfr (demo_control_id 9) (demo_identity 3) (demo_payload 9)], conn1) \<and>
     receive demo_crypto (demo_control 9) (conn_run demo_crypto [OpReceive (demo_control 8)] conn1) =
       (Inr [], conn_run demo_crypto [OpReceive (demo_control 8)] conn1)"
  using connection_replay_window [OF demo_receive, of 9 "[OpReceive (demo_control 8)]"] demo_receive [of 9]
  by (simp add: MAX_SEEN_ENVELOPES_def)

text \<open>
  C40.  The window is the limit of the protection: once \<open>MAX_SEEN_ENVELOPES\<close> further payload
  envelopes with fresh identifiers have been accepted, the first one has been evicted, and
  receiving it again delivers its payload a second time.
\<close>

theorem connection_replay_evicted:
  assumes "receive c env conn = (Inr [DeliverCfr i re payload], conn1)"
    and "conn_inv conn" and "length envs = MAX_SEEN_ENVELOPES"
    and "list_all2 (\<lambda>e j. control_envelope c conn e \<and> env_id c e = Inr j) envs is"
    and "distinct (i # is)" and "set is \<inter> set (conn_seen conn) = {}"
  shows "fst (receive c env (conn_run c (map OpReceive envs) conn1)) = Inr [DeliverCfr i re payload]"
  by (rule evicted_replay [OF assms])

theorem connection_replay_evicted_witness:
  "\<exists>conn1. receive demo_crypto (demo_control 1024) demo_established =
       (Inr [DeliverCfr (demo_control_id 1024) (demo_identity 3) (demo_payload 1024)], conn1) \<and>
     fst (receive demo_crypto (demo_control 1024)
        (conn_run demo_crypto (map OpReceive (map demo_control [0..<1024])) conn1)) =
       Inr [DeliverCfr (demo_control_id 1024) (demo_identity 3) (demo_payload 1024)]"
proof -
  have "list_all2 (\<lambda>e j. control_envelope demo_crypto demo_established e \<and> env_id demo_crypto e = Inr j)
      (map demo_control [0..<1024]) (map demo_control_id [0..<1024])"
    by (simp add: list_all2_conv_all_nth demo_control)
  moreover have "distinct (demo_control_id 1024 # map demo_control_id [0..<1024])"
    by (auto simp: distinct_map inj_on_def demo_control_id_eq)
  ultimately show ?thesis
    using connection_replay_evicted [OF demo_receive demo_established_inv, of "map demo_control [0..<1024]" _ 1024]
      demo_receive [of 1024]
    by (auto simp: MAX_SEEN_ENVELOPES_def demo_established_def demo_connection_def simp del: upt_conv_Cons)
qed

text \<open>
  C6.  The handshake completes and carries payloads: two fresh connections with mirrored pins and
  honest signers exchange offer and answer, both reach \<open>Established\<close> when their transports
  connect, every message is accepted with exactly the action for its body, and a payload sent by
  the offerer is delivered unchanged to the answerer with the offerer's identity.  The offer and
  the payload envelope must not collide under the hash.
\<close>

theorem connection_handshake:
  assumes "honest_signer c sa" and "honest_signer c sb"
    and "connection_new f a (signer_endpoint sa) (signer_endpoint sb) = Inr alice0"
    and "connection_new f a (signer_endpoint sb) (signer_endpoint sa) = Inr bob0"
    and "sign sa f a (signer_endpoint sb) (Offer ob od) = Inr offer"
    and "sign sa f a (signer_endpoint sb) (CfrControl payload) = Inr ctl"
    and "env_id c offer \<noteq> env_id c ctl"
    and "length ad \<le> MAX_DESCRIPTION_BYTES"
  shows "\<exists>alice1 bob1 ans bob2 alice2 alice3 bob3 bob4 i.
     begin_offer c sa ob od alice0 = (Inr [OpenControlChannel, Send offer], alice1) \<and>
     receive c offer bob0 = (Inr [ApplyOffer ob od], bob1) \<and>
     answer c sb ab ad bob1 = (Inr (Send ans), bob2) \<and>
     receive c ans alice1 = (Inr [ApplyAnswer ab ad], alice2) \<and>
     transport_connected alice2 = (Inr [], alice3) \<and> transport_connected bob2 = (Inr [], bob3) \<and>
     conn_phase alice3 = Established \<and> conn_phase bob3 = Established \<and>
     cfr_control sa payload alice3 = Inr (Send ctl) \<and>
     receive c ctl bob3 = (Inr [DeliverCfr i (signer_endpoint sa) payload], bob4)"
proof -
  let ?id = "\<lambda>env. EnvelopeId (blake3_hash c (envelope_bytes env))"
  note fields = sign_fields [OF assms(5)] sign_fields [OF assms(6)]
  have new: "conn_federation alice0 = f" "conn_attempt alice0 = a" "conn_local alice0 = signer_endpoint sa"
    "conn_remote alice0 = signer_endpoint sb" "conn_phase alice0 = Idle" "conn_seen alice0 = []"
    "conn_federation bob0 = f" "conn_attempt bob0 = a" "conn_local bob0 = signer_endpoint sb"
    "conn_remote bob0 = signer_endpoint sa" "conn_phase bob0 = Idle" "conn_seen bob0 = []"
    using assms(3,4) by (auto simp: connection_new_def split: if_splits)
  define alice1 where "alice1 = alice0\<lparr> conn_phase := OfferSent,
    conn_negotiation := Some \<lparr> neg_offer = ?id offer, neg_answer = None \<rparr> \<rparr>"
  define bob1 where "bob1 = note_seen (?id offer) (bob0\<lparr> conn_phase := OfferReceived,
    conn_negotiation := Some \<lparr> neg_offer = ?id offer, neg_answer = None \<rparr> \<rparr>)"
  have ids: "env_id c offer = Inr (?id offer)" "env_id c ctl = Inr (?id ctl)"
    using fields by (simp_all add: env_id_eq)
  obtain ans where ans: "sign sb f a (signer_endpoint sa) (Answer (?id offer) ab ad) = Inr ans"
    using sign_ok [of "Answer (?id offer) ab ad"] assms(8) by (force simp: bound_defs)
  note ans_fields = sign_fields [OF ans]
  have ans_id: "env_id c ans = Inr (?id ans)" using ans_fields by (simp add: env_id_eq)
  define bob2 where "bob2 = bob1\<lparr> conn_phase := AnswerSent,
    conn_negotiation := Some \<lparr> neg_offer = ?id offer, neg_answer = Some (?id ans) \<rparr> \<rparr>"
  define alice2 where "alice2 = note_seen (?id ans) (alice1\<lparr> conn_phase := AnswerReceived,
    conn_negotiation := Some \<lparr> neg_offer = ?id offer, neg_answer = Some (?id ans) \<rparr> \<rparr>)"
  have s1: "begin_offer c sa ob od alice0 = (Inr [OpenControlChannel, Send offer], alice1)"
    using new assms(5) ids by (simp add: begin_offer_Inr conn_sign_def alice1_def)
  have s2: "receive c offer bob0 = (Inr [ApplyOffer ob od], bob1)"
    unfolding bob1_def using signed_validates [OF assms(1,5), of bob0] new fields ids
    by (intro receive_fresh) (simp_all add: receive_body_def Let_def)
  have s3: "answer c sb ab ad bob1 = (Inr (Send ans), bob2)"
    using new ans ans_id by (simp add: answer_Inr conn_sign_def bob1_def bob2_def)
  have s4: "receive c ans alice1 = (Inr [ApplyAnswer ab ad], alice2)"
    unfolding alice2_def using signed_validates [OF assms(2) ans, of alice1] new ans_fields
    by (intro receive_fresh) (simp_all add: receive_body_def alice1_def Let_def)
  let ?alice3 = "alice2\<lparr> conn_phase := Established \<rparr>" and ?bob3 = "bob2\<lparr> conn_phase := Established \<rparr>"
  have s5: "transport_connected alice2 = (Inr [], ?alice3)" "transport_connected bob2 = (Inr [], ?bob3)"
    by (simp_all add: transport_connected_def alice2_def bob2_def)
  have s6: "cfr_control sa payload ?alice3 = Inr (Send ctl)"
    using new assms(6) by (simp add: cfr_control_Inr conn_sign_def alice2_def alice1_def)
  have "receive c ctl ?bob3 = (Inr [DeliverCfr (?id ctl) (signer_endpoint sa) payload], note_seen (?id ctl) ?bob3)"
    using signed_validates [OF assms(1,6), of ?bob3] new fields ids assms(7)
    by (intro receive_fresh)
      (simp_all add: receive_body_def bob2_def bob1_def note_seen_def MAX_SEEN_ENVELOPES_def)
  with s1 s2 s3 s4 s5 s6 show ?thesis
    by (intro exI conjI) (assumption | simp)+
qed

theorem connection_handshake_witness:
  "\<exists>alice1 bob1 ans bob2 alice2 alice3 bob3 bob4 i.
     begin_offer demo_crypto (demo_signer 3) (WebRtcBinding (filled 9)) [118, 61, 48] (demo_connection 3 4) =
       (Inr [OpenControlChannel, Send (demo_signed demo_offer)], alice1) \<and>
     receive demo_crypto (demo_signed demo_offer) (demo_connection 4 3) =
       (Inr [ApplyOffer (WebRtcBinding (filled 9)) [118, 61, 48]], bob1) \<and>
     answer demo_crypto (demo_signer 4) (WebRtcBinding (filled 6)) [1] bob1 = (Inr (Send ans), bob2) \<and>
     receive demo_crypto ans alice1 = (Inr [ApplyAnswer (WebRtcBinding (filled 6)) [1]], alice2) \<and>
     transport_connected alice2 = (Inr [], alice3) \<and> transport_connected bob2 = (Inr [], bob3) \<and>
     conn_phase alice3 = Established \<and> conn_phase bob3 = Established \<and>
     cfr_control (demo_signer 3) (demo_payload 9) alice3 = Inr (Send (demo_control 9)) \<and>
     receive demo_crypto (demo_control 9) bob3 = (Inr [DeliverCfr i (demo_identity 3) (demo_payload 9)], bob4)"
proof -
  have "env_id demo_crypto (demo_signed demo_offer) \<noteq> env_id demo_crypto (demo_control 9)"
    unfolding demo_control_def by (rule demo_id_kind) (simp_all add: demo_offer_def bound_defs)
  then show ?thesis
    using connection_handshake [where sa = "demo_signer 3" and sb = "demo_signer 4" and
        f = "FederationId (filled 1)" and a = "AttemptId (filled 2)" and offer = "demo_signed demo_offer" and
        ctl = "demo_control 9" and ad = "[1]" and ab = "WebRtcBinding (filled 6)",
        OF demo_signer_honest demo_signer_honest]
      demo_connection_new demo_signed_eq [OF demo_offer_ok] demo_signed_eq [OF demo_payload_ok, of 9]
    by (simp add: demo_control_def demo_offer_def bound_defs)
qed

end
