(* ===== verification/Transport.thy ===== *)
theory Transport
  imports Connection
begin

text \<open>
  The engine-neutral transport contract (\<open>libfcp/src/transport\<close>): the adapter trait, the dispatcher
  that splits connection actions between the platform and the application, the events an engine
  reports, and the queue-backed adapter.

  A \<open>WebRtcAdapter\<close> is the record of its five methods over its state.  The locale
  \<open>logging_adapter\<close> is what a driver of the dispatcher relies on, and \<open>CommandQueue\<close> is its
  interpretation.
\<close>

subsection \<open>Definitions\<close>

record ('a, 'e) webrtc_adapter =
  adapter_apply_offer :: "webrtc_binding \<Rightarrow> u8 list \<Rightarrow> 'a \<Rightarrow> ('e + unit) \<times> 'a"
  adapter_apply_answer :: "webrtc_binding \<Rightarrow> u8 list \<Rightarrow> 'a \<Rightarrow> ('e + unit) \<times> 'a"
  adapter_add_candidate :: "u32 \<Rightarrow> u8 list \<Rightarrow> 'a \<Rightarrow> ('e + unit) \<times> 'a"
  adapter_open_control_channel :: "control_channel_config \<Rightarrow> 'a \<Rightarrow> ('e + unit) \<times> 'a"
  adapter_close :: "close_code \<Rightarrow> 'a \<Rightarrow> ('e + unit) \<times> 'a"

datatype adapter_event = EventConnected | ControlBinary "u8 list" | EventFailed | EventClosed

datatype application_action =
    AppSend envelope
  | AppDeliverCfr envelope_id endpoint_identity "u8 list"

definition apply_event :: "crypto \<Rightarrow> adapter_event \<Rightarrow> connection \<Rightarrow> (error + action list) \<times> connection" where
  "apply_event c event conn =
     (case event of
        EventConnected \<Rightarrow> transport_connected conn
      | ControlBinary wire \<Rightarrow> or_bail conn (decode_verified c wire) (\<lambda>env. receive c env conn)
      | EventFailed \<Rightarrow>
          (case transport_failed conn of (Inl e, conn) \<Rightarrow> (Inl e, conn) | (Inr _, conn) \<Rightarrow> (Inr [], conn))
      | EventClosed \<Rightarrow>
          (case transport_failed conn of (Inl e, conn) \<Rightarrow> (Inl e, conn) | (Inr _, conn) \<Rightarrow> (Inr [], conn)))"

definition platform_call :: "('e + unit) \<times> 'a \<Rightarrow> ('e + application_action option) \<times> 'a" where
  "platform_call r = (case r of (Inl e, a) \<Rightarrow> (Inl e, a) | (Inr _, a) \<Rightarrow> (Inr None, a))"

definition dispatch ::
  "('a, 'e) webrtc_adapter \<Rightarrow> action \<Rightarrow> 'a \<Rightarrow> ('e + application_action option) \<times> 'a" where
  "dispatch A action a =
     (case action of
        Send env \<Rightarrow> (Inr (Some (AppSend env)), a)
      | ApplyOffer binding description \<Rightarrow> platform_call (adapter_apply_offer A binding description a)
      | ApplyAnswer binding description \<Rightarrow> platform_call (adapter_apply_answer A binding description a)
      | AddCandidate sequence cand \<Rightarrow> platform_call (adapter_add_candidate A sequence cand a)
      | OpenControlChannel \<Rightarrow> platform_call (adapter_open_control_channel A CONTROL_CHANNEL a)
      | DeliverCfr i remote payload \<Rightarrow> (Inr (Some (AppDeliverCfr i remote payload)), a)
      | CloseTransport reason \<Rightarrow> platform_call (adapter_close A reason a))"

datatype native_command =
    CmdApplyOffer webrtc_binding "u8 list"
  | CmdApplyAnswer webrtc_binding "u8 list"
  | CmdAddCandidate u32 "u8 list"
  | CmdOpenControlChannel control_channel_config
  | CmdClose close_code

record command_queue =
  queue_commands :: "native_command list"

definition take_commands :: "command_queue \<Rightarrow> native_command list \<times> command_queue" where
  "take_commands q = (queue_commands q, q\<lparr> queue_commands := [] \<rparr>)"

definition queue_push :: "native_command \<Rightarrow> command_queue \<Rightarrow> ('e + unit) \<times> command_queue" where
  "queue_push cmd q = (Inr (), q\<lparr> queue_commands := queue_commands q @ [cmd] \<rparr>)"

definition command_queue_adapter :: "(command_queue, 'e) webrtc_adapter" where
  "command_queue_adapter =
     \<lparr> adapter_apply_offer = (\<lambda>binding description. queue_push (CmdApplyOffer binding description)),
       adapter_apply_answer = (\<lambda>binding description. queue_push (CmdApplyAnswer binding description)),
       adapter_add_candidate = (\<lambda>sequence cand. queue_push (CmdAddCandidate sequence cand)),
       adapter_open_control_channel = (\<lambda>configuration. queue_push (CmdOpenControlChannel configuration)),
       adapter_close = (\<lambda>reason. queue_push (CmdClose reason)) \<rparr>"

text \<open>A driver hands the actions of one call to the dispatcher in order and stops at an error.\<close>

fun dispatch_all ::
  "('a, 'e) webrtc_adapter \<Rightarrow> action list \<Rightarrow> 'a \<Rightarrow> ('e + application_action list) \<times> 'a" where
  "dispatch_all A [] a = (Inr [], a)"
| "dispatch_all A (act # acts) a =
     (case dispatch A act a of
        (Inl e, a) \<Rightarrow> (Inl e, a)
      | (Inr out, a) \<Rightarrow>
          (case dispatch_all A acts a of
             (Inl e, a) \<Rightarrow> (Inl e, a)
           | (Inr outs, a) \<Rightarrow> (Inr ((case out of None \<Rightarrow> [] | Some x \<Rightarrow> [x]) @ outs), a)))"

subsection \<open>Platform and application actions\<close>

fun platform_command :: "action \<Rightarrow> native_command list" where
  "platform_command (ApplyOffer binding description) = [CmdApplyOffer binding description]"
| "platform_command (ApplyAnswer binding description) = [CmdApplyAnswer binding description]"
| "platform_command (AddCandidate sequence cand) = [CmdAddCandidate sequence cand]"
| "platform_command OpenControlChannel = [CmdOpenControlChannel CONTROL_CHANNEL]"
| "platform_command (CloseTransport reason) = [CmdClose reason]"
| "platform_command _ = []"

fun application_part :: "action \<Rightarrow> application_action list" where
  "application_part (Send env) = [AppSend env]"
| "application_part (DeliverCfr i remote payload) = [AppDeliverCfr i remote payload]"
| "application_part _ = []"

locale logging_adapter =
  fixes A :: "('a, 'e) webrtc_adapter"
    and log :: "'a \<Rightarrow> native_command list"
  assumes log_offer: "adapter_apply_offer A b d a = (Inr u, a') \<Longrightarrow> log a' = log a @ [CmdApplyOffer b d]"
    and log_answer: "adapter_apply_answer A b d a = (Inr u, a') \<Longrightarrow> log a' = log a @ [CmdApplyAnswer b d]"
    and log_candidate: "adapter_add_candidate A n d a = (Inr u, a') \<Longrightarrow> log a' = log a @ [CmdAddCandidate n d]"
    and log_open: "adapter_open_control_channel A cfg a = (Inr u, a') \<Longrightarrow> log a' = log a @ [CmdOpenControlChannel cfg]"
    and log_close: "adapter_close A r a = (Inr u, a') \<Longrightarrow> log a' = log a @ [CmdClose r]"
begin

lemma platform_call_Inr: "platform_call r = (Inr out, a') \<longleftrightarrow> (\<exists>u. r = (Inr u, a')) \<and> out = None"
  by (cases r; cases "fst r"; auto simp: platform_call_def)

lemma dispatch_log:
  assumes "dispatch A act a = (Inr out, a')"
  shows "log a' = log a @ platform_command act" "(case out of None \<Rightarrow> [] | Some x \<Rightarrow> [x]) = application_part act"
  using assms log_offer log_answer log_candidate log_open log_close
  by (cases act; fastforce simp: dispatch_def platform_call_Inr)+

lemma dispatch_all_log:
  assumes "dispatch_all A acts a = (Inr outs, a')"
  shows "log a' = log a @ concat (map platform_command acts) \<and> outs = concat (map application_part acts)"
  using assms
proof (induction acts arbitrary: a outs)
  case (Cons act acts)
  from Cons.prems obtain out a1 outs1 where "dispatch A act a = (Inr out, a1)"
    and "dispatch_all A acts a1 = (Inr outs1, a')" and "outs = (case out of None \<Rightarrow> [] | Some x \<Rightarrow> [x]) @ outs1"
    by (auto split: prod.splits sum.splits)
  with Cons.IH dispatch_log show ?case by simp
qed simp

end

interpretation queue: logging_adapter "command_queue_adapter :: (command_queue, 'e) webrtc_adapter" queue_commands
  by unfold_locales (auto simp: command_queue_adapter_def queue_push_def)

lemma queue_dispatch_ok:
  "\<exists>out q'. dispatch (command_queue_adapter :: (command_queue, 'e) webrtc_adapter) act q = (Inr out, q')"
  by (cases act) (simp_all add: dispatch_def platform_call_def command_queue_adapter_def queue_push_def)

lemma queue_dispatch_all_ok:
  "\<exists>outs q'. dispatch_all (command_queue_adapter :: (command_queue, 'e) webrtc_adapter) acts q = (Inr outs, q')"
proof (induction acts arbitrary: q)
  case (Cons act acts)
  obtain out q1 where "dispatch (command_queue_adapter :: (command_queue, 'e) webrtc_adapter) act q = (Inr out, q1)"
    using queue_dispatch_ok by blast
  moreover obtain outs q2 where
    "dispatch_all (command_queue_adapter :: (command_queue, 'e) webrtc_adapter) acts q1 = (Inr outs, q2)"
    using Cons.IH by blast
  ultimately show ?case by simp
qed simp

lemma apply_event_op:
  "apply_event c EventConnected conn = conn_apply c OpConnected conn"
  "apply_event c EventFailed conn = conn_apply c OpFailed conn"
  "apply_event c EventClosed conn = conn_apply c OpFailed conn"
  "apply_event c (ControlBinary w) conn = or_bail conn (decode_verified c w) (\<lambda>env. conn_apply c (OpReceive env) conn)"
  by (simp_all add: apply_event_def transport_failed_def)

lemma wire_delivery:
  assumes "honest_signer c s" and env: "sign s f a (conn_local peer) (CfrControl payload) = Inr env"
    and "conn_federation peer = f" "conn_attempt peer = a" "conn_remote peer = signer_endpoint s"
    and "conn_phase peer = Established" "env_id c env \<notin> Inr ` set (conn_seen peer)"
  shows "encode env = Inr (envelope_bytes env)"
    and "\<exists>i peer'. apply_event c (ControlBinary (envelope_bytes env)) peer =
       (Inr [DeliverCfr i (signer_endpoint s) payload], peer')"
proof -
  note fields = sign_fields [OF env]
  show "encode env = Inr (envelope_bytes env)" using fields by (simp add: encode_eq)
  then have "decode_verified c (envelope_bytes env) = Inr env"
    using sign_verifies [OF assms(1) env] by (simp add: decode_verified_iff)
  moreover have "control_envelope c peer env" "env_id c env = Inr (EnvelopeId (blake3_hash c (envelope_bytes env)))"
    using signed_validates [OF assms(1) env, of peer] assms fields by (auto simp: control_envelope_def)
  ultimately show "\<exists>i peer'. apply_event c (ControlBinary (envelope_bytes env)) peer =
       (Inr [DeliverCfr i (signer_endpoint s) payload], peer')"
    using receive_control [of c peer env] assms(6,7) fields by (auto simp: apply_event_def)
qed

subsection \<open>Properties\<close>

text \<open>
  Dispatching over the command queue loses, reorders and duplicates nothing: it never fails,
  the queue receives exactly the platform commands of the actions, in their order and with the
  fixed control-channel configuration, the application receives exactly the rest in order, and
  \<open>take_commands\<close> drains what was queued.
\<close>

theorem transport_dispatch_order:
  "\<exists>q'. dispatch_all (command_queue_adapter :: (command_queue, 'e) webrtc_adapter) acts q =
       (Inr (concat (map application_part acts)), q') \<and>
     take_commands q' =
       (queue_commands q @ concat (map platform_command acts), \<lparr> queue_commands = [] \<rparr>)"
proof -
  obtain outs q' where run: "dispatch_all (command_queue_adapter :: (command_queue, 'e) webrtc_adapter) acts q = (Inr outs, q')"
    using queue_dispatch_all_ok by blast
  from queue.dispatch_all_log [OF run] run show ?thesis
    by (simp add: take_commands_def)
qed

text \<open>
  From wire to delivery: when a binary control message makes a payload reach the application,
  the message is the unique canonical encoding of an envelope of the pinned peer for this
  endpoint, federation and attempt, both signatures verify over its signed prefix, the connection
  is established, and the delivered identifier is the hash of the message itself.
\<close>

theorem transport_event_authentic:
  assumes "apply_event c (ControlBinary w) conn = (Inr acts, conn')" and "DeliverCfr i remote payload \<in> set acts"
  shows "\<exists>env. encode env = Inr w \<and> i = EnvelopeId (blake3_hash c w) \<and>
     env_body env = CfrControl payload \<and> remote = conn_remote conn \<and> conn_phase conn = Established \<and>
     env_federation env = conn_federation conn \<and> env_attempt env = conn_attempt conn \<and>
     env_sender env = conn_remote conn \<and> env_recipient env = conn_local conn \<and> verify c env = Inr ()"
proof -
  obtain env where env: "decode_verified c w = Inr env" and got: "receive c env conn = (Inr acts, conn')"
    using assms(1) by (auto simp: apply_event_def or_bail_Inr)
  note deliver = receive_deliver [OF got assms(2)]
  have enc: "encode env = Inr w" using env by (simp add: decode_verified_iff)
  then have "i = EnvelopeId (blake3_hash c w)"
    using deliver(2) by (simp add: env_id_def)
  with enc deliver show ?thesis by (auto simp: validate_inbound_Inr)
qed

theorem transport_event_authentic_witness:
  "\<exists>w acts conn'. apply_event demo_crypto (ControlBinary w) demo_established = (Inr acts, conn') \<and>
     DeliverCfr (demo_control_id 9) (demo_identity 3) (demo_payload 9) \<in> set acts \<and>
     demo_control_id 9 = EnvelopeId (blake3_hash demo_crypto w)"
proof -
  have event: "apply_event demo_crypto (ControlBinary (envelope_bytes (demo_control 9))) demo_established =
      (Inr [DeliverCfr (demo_control_id 9) (demo_identity 3) (demo_payload 9)],
       note_seen (demo_control_id 9) demo_established)"
    by (simp add: apply_event_def demo_control_decodes demo_receive)
  from transport_event_authentic [OF event list.set_intros(1)] event show ?thesis by fastforce
qed

end
