(* ===== verification/Webrtc.thy ===== *)
theory Webrtc
  imports Transport
begin

text \<open>
  The concrete WebRTC session (\<open>libfcp-webrtc\<close>): \<open>session.rs\<close> and its modules \<open>engine\<close>,
  \<open>control\<close> and \<open>sdp\<close>.

  The WebRTC engine is a parameter: a record of the operations the session calls, over an engine
  state.  An operation that awaits the engine lets the engine's callbacks and the control-channel
  pumps run meanwhile; this is the parameter \<open>others\<close>, which every theorem restricts to those steps.
  Sending on a full bounded channel suspends the sender until the application takes an item, and the result
  \<open>None\<close> is an operation that stays suspended: the application holds the session meanwhile, so it
  cannot drain the channel.
\<close>

subsection \<open>Data\<close>

datatype 'x webrtc_error =
    FcpError error
  | EngineError 'x
  | InvalidAction string
  | DescriptionEncoding
  | CandidateEncoding
  | Poisoned
  | ControlChannelUnavailable
  | SessionGone

datatype session_event =
    SessionConnected
  | SessionDeliverCfr envelope_id endpoint_identity "u8 list"
  | SessionClosed close_code
  | SessionFailed

definition ENGINE_EVENT_CAPACITY :: nat where "ENGINE_EVENT_CAPACITY = 128"
definition SIGNAL_EVENT_CAPACITY :: nat where "SIGNAL_EVENT_CAPACITY = 128"
definition MAX_STAGED_LOCAL_CANDIDATES :: nat where "MAX_STAGED_LOCAL_CANDIDATES = 64"

text \<open>What the session uses of the engine and of its data channels.\<close>

record ('g, 'd, 'k, 'h, 'x) engine =
  create_data_channel :: "control_channel_config \<Rightarrow> 'g \<Rightarrow> ('x + 'h) \<times> 'g"
  create_offer :: "'g \<Rightarrow> ('x + 'd) \<times> 'g"
  create_answer :: "'g \<Rightarrow> ('x + 'd) \<times> 'g"
  set_local_description :: "'d \<Rightarrow> 'g \<Rightarrow> ('x + unit) \<times> 'g"
  local_description :: "'g \<Rightarrow> u8 list option"
  offer_description :: "u8 list \<Rightarrow> 'x + 'd"
  answer_description :: "u8 list \<Rightarrow> 'x + 'd"
  set_remote_description :: "'d \<Rightarrow> 'g \<Rightarrow> ('x + unit) \<times> 'g"
  candidate_from_json :: "u8 list \<Rightarrow> 'k option"
  add_ice_candidate :: "'k \<Rightarrow> 'g \<Rightarrow> ('x + unit) \<times> 'g"
  close_peer :: "'g \<Rightarrow> ('x + unit) \<times> 'g"
  channel_send :: "'h \<Rightarrow> u8 list \<Rightarrow> 'g \<Rightarrow> ('x + unit) \<times> 'g"
  channel_close :: "'h \<Rightarrow> 'g \<Rightarrow> ('x + unit) \<times> 'g"
  h_label :: "'h \<Rightarrow> 'x + string"
  h_protocol :: "'h \<Rightarrow> 'x + string"
  h_ordered :: "'h \<Rightarrow> 'x + bool"
  h_max_packet_life_time :: "'h \<Rightarrow> 'x + nat option"
  h_max_retransmits :: "'h \<Rightarrow> 'x + nat option"

datatype session_lock = ConnectionLock | SignalsLock | StagedLock

text \<open>
  A spawned task waits for its channel, or has actions left to pass on and perhaps \<open>Connected\<close> after them, or
  has set the terminal flag and sends \<open>Failed\<close>, or has returned.
\<close>

datatype task_state = TaskWaiting | TaskHandling "action list" bool | TaskFailing | TaskEnded

record ('g, 'h) session =
  ws_engine :: 'g
  ws_connection :: connection
  ws_signer :: signer
  ws_signals :: "envelope list"
  ws_events :: "session_event list"
  ws_control :: "'h option"
  ws_sequence :: u32
  ws_staged :: "(u32 \<times> u8 list) list"
  ws_terminal :: bool
  ws_tasks :: "('h option \<times> task_state) list"
  ws_dropped :: bool
  ws_poisoned :: "session_lock list"

subsection \<open>Descriptions\<close>

text \<open>\<open>core::str::from_utf8\<close> accepts exactly the well-formed byte sequences of UTF-8.\<close>

definition cont :: "u8 \<Rightarrow> bool" where
  "cont b \<longleftrightarrow> 0x80 \<le> b \<and> b \<le> 0xBF"

fun utf8_ok :: "u8 list \<Rightarrow> bool" where
  "utf8_ok [] = True"
| "utf8_ok (a # bs) =
     (if a < 0x80 then utf8_ok bs
      else if 0xC2 \<le> a \<and> a \<le> 0xDF then (case bs of b # rest \<Rightarrow> cont b \<and> utf8_ok rest | _ \<Rightarrow> False)
      else if 0xE0 \<le> a \<and> a \<le> 0xEF then
        (case bs of b # d # rest \<Rightarrow>
           cont b \<and> (a = 0xE0 \<longrightarrow> 0xA0 \<le> b) \<and> (a = 0xED \<longrightarrow> b \<le> 0x9F) \<and> cont d \<and> utf8_ok rest
         | _ \<Rightarrow> False)
      else if 0xF0 \<le> a \<and> a \<le> 0xF4 then
        (case bs of b # d # e # rest \<Rightarrow>
           cont b \<and> (a = 0xF0 \<longrightarrow> 0x90 \<le> b) \<and> (a = 0xF4 \<longrightarrow> b \<le> 0x8F) \<and> cont d \<and> cont e \<and> utf8_ok rest
         | _ \<Rightarrow> False)
      else False)"

text \<open>\<open>str::lines\<close>: a line ends with a line feed, which is removed with a carriage return before it.\<close>

definition strip_cr :: "u8 list \<Rightarrow> u8 list" where
  "strip_cr line = (if line \<noteq> [] \<and> last line = 13 then butlast line else line)"

function text_lines :: "u8 list \<Rightarrow> u8 list list" where
  "text_lines xs =
     (if xs = [] then []
      else case dropWhile (\<lambda>b. b \<noteq> 10) xs of
             [] \<Rightarrow> [xs]
           | _ # rest \<Rightarrow> strip_cr (takeWhile (\<lambda>b. b \<noteq> 10) xs) # text_lines rest)"
  by pat_completeness auto
termination
proof (relation "measure length")
  fix xs :: "u8 list" and b rest
  assume "dropWhile (\<lambda>b. b \<noteq> 10) xs = b # rest"
  then show "(rest, xs) \<in> measure length"
    using length_dropWhile_le [of "\<lambda>b. b \<noteq> 10" xs] by simp
qed simp

declare text_lines.simps [simp del]

definition strip_prefix_bytes :: "u8 list \<Rightarrow> u8 list \<Rightarrow> u8 list option" where
  "strip_prefix_bytes p line = (if take (length p) line = p then Some (drop (length p) line) else None)"

definition dtls_fingerprint :: "u8 list \<Rightarrow> 'x webrtc_error + u8 list" where
  "dtls_fingerprint description =
     (if \<not> utf8_ok description then Inl DescriptionEncoding
      else case List.map_filter (strip_prefix_bytes (ascii ''a=fingerprint:'')) (text_lines description) of
             [] \<Rightarrow> Inl (InvalidAction ''SDP contains no DTLS fingerprint'')
           | fp # _ \<Rightarrow> Inr fp)"

subsection \<open>Channels\<close>

definition lock_ok :: "session_lock \<Rightarrow> ('g, 'h) session \<Rightarrow> bool" where
  "lock_ok l s \<longleftrightarrow> l \<notin> set (ws_poisoned s)"

text \<open>\<open>try_send\<close> fails on a full channel or one whose receiver is gone; \<open>send\<close> suspends on a full one.\<close>

definition try_send_signal :: "envelope \<Rightarrow> ('g, 'h) session \<Rightarrow> bool \<times> ('g, 'h) session" where
  "try_send_signal env s =
     (if ws_dropped s \<or> length (ws_signals s) \<ge> SIGNAL_EVENT_CAPACITY then (False, s)
      else (True, s\<lparr>ws_signals := ws_signals s @ [env]\<rparr>))"

definition emit_signal :: "envelope \<Rightarrow> ('g, 'h) session \<Rightarrow> bool option \<times> ('g, 'h) session" where
  "emit_signal env s =
     (if \<not> lock_ok SignalsLock s \<or> ws_dropped s then (Some False, s)
      else if length (ws_signals s) \<ge> SIGNAL_EVENT_CAPACITY then (None, s)
      else (Some True, s\<lparr>ws_signals := ws_signals s @ [env]\<rparr>))"

definition emit_event :: "session_event \<Rightarrow> ('g, 'h) session \<Rightarrow> bool option \<times> ('g, 'h) session" where
  "emit_event event s =
     (if ws_dropped s then (Some False, s)
      else if length (ws_events s) \<ge> ENGINE_EVENT_CAPACITY then (None, s)
      else (Some True, s\<lparr>ws_events := ws_events s @ [event]\<rparr>))"

definition emit_terminal :: "session_event \<Rightarrow> ('g, 'h) session \<Rightarrow> bool option \<times> ('g, 'h) session" where
  "emit_terminal event s =
     (if ws_terminal s then (Some True, s) else emit_event event (s\<lparr>ws_terminal := True\<rparr>))"

subsection \<open>Candidates\<close>

fun signal_from_action :: "action \<Rightarrow> envelope option" where
  "signal_from_action (Send env) = Some env"
| "signal_from_action _ = None"

definition stage_candidate :: "u32 \<Rightarrow> u8 list \<Rightarrow> ('g, 'h) session \<Rightarrow> ('g, 'h) session" where
  "stage_candidate sequence cand s =
     (if \<not> lock_ok StagedLock s then s
      else let staged = (if length (ws_staged s) = MAX_STAGED_LOCAL_CANDIDATES then tl (ws_staged s) else ws_staged s)
           in s\<lparr>ws_staged := staged @ [(sequence, cand)]\<rparr>)"

definition emit_or_stage_candidate :: "u32 \<Rightarrow> u8 list \<Rightarrow> ('g, 'h) session \<Rightarrow> ('g, 'h) session" where
  "emit_or_stage_candidate sequence cand s =
     (if \<not> lock_ok ConnectionLock s then s
      else case Option.bind (case candidate (ws_signer s) sequence cand (ws_connection s) of Inl _ \<Rightarrow> None | Inr a \<Rightarrow> Some a)
                  signal_from_action of
             Some signal \<Rightarrow> if lock_ok SignalsLock s then snd (try_send_signal signal s) else s
           | None \<Rightarrow> stage_candidate sequence cand s)"

definition flush_staged_candidates :: "('g, 'h) session \<Rightarrow> ('x webrtc_error + unit) \<times> ('g, 'h) session" where
  "flush_staged_candidates s =
     (if \<not> lock_ok StagedLock s then (Inl Poisoned, s)
      else (Inr (), foldl (\<lambda>s (sequence, cand). emit_or_stage_candidate sequence cand s) (s\<lparr>ws_staged := []\<rparr>) (ws_staged s)))"

definition try_take_signal :: "('g, 'h) session \<Rightarrow> envelope option \<times> ('g, 'h) session" where
  "try_take_signal s =
     (case ws_signals s of
        [] \<Rightarrow> (None, s)
      | signal # rest \<Rightarrow>
          (Some signal, snd (flush_staged_candidates (s\<lparr>ws_signals := rest\<rparr>) :: (unit webrtc_error + unit) \<times> ('g, 'h) session)))"

definition try_take_event :: "('g, 'h) session \<Rightarrow> session_event option \<times> ('g, 'h) session" where
  "try_take_event s = (case ws_events s of [] \<Rightarrow> (None, s) | e # rest \<Rightarrow> (Some e, s\<lparr>ws_events := rest\<rparr>))"

subsection \<open>Callbacks of the engine\<close>

definition on_ice_candidate :: "u8 list option \<Rightarrow> ('g, 'h) session \<Rightarrow> ('g, 'h) session" where
  "on_ice_candidate json s =
     (case json of None \<Rightarrow> s
      | Some cand \<Rightarrow> emit_or_stage_candidate (ws_sequence s) cand (s\<lparr>ws_sequence := ws_sequence s + 1\<rparr>))"

definition fail_task :: "('g, 'h) session \<Rightarrow> task_state \<times> ('g, 'h) session" where
  "fail_task s = (if ws_terminal s then (TaskEnded, s) else (TaskFailing, s\<lparr>ws_terminal := True\<rparr>))"

definition spawn_task :: "'h option \<Rightarrow> task_state \<Rightarrow> ('g, 'h) session \<Rightarrow> ('g, 'h) session" where
  "spawn_task h t s = s\<lparr>ws_tasks := ws_tasks s @ [(h, t)]\<rparr>"

definition on_connection_state_change :: "bool \<Rightarrow> ('g, 'h) session \<Rightarrow> ('g, 'h) session" where
  "on_connection_state_change failed s =
     (if failed then (case fail_task s of (t, s) \<Rightarrow> spawn_task None t s) else s)"

definition spawn_control_pump :: "'h \<Rightarrow> ('g, 'h) session \<Rightarrow> ('g, 'h) session" where
  "spawn_control_pump h s = spawn_task (Some h) TaskWaiting s"

definition install_local_control_channel :: "'h \<Rightarrow> ('g, 'h) session \<Rightarrow> ('g, 'h) session" where
  "install_local_control_channel h s = spawn_control_pump h (s\<lparr>ws_control := Some h\<rparr>)"

definition control_channel_accepted :: "('g, 'd, 'k, 'h, 'x) engine \<Rightarrow> 'h \<Rightarrow> bool option" where
  "control_channel_accepted E h =
     (case (h_label E h, h_protocol E h, h_ordered E h) of
        (Inr label, Inr protocol, Inr ordered) \<Rightarrow>
          let reliable = (h_max_packet_life_time E h = Inr None \<and> h_max_retransmits E h = Inr None) in
          Some (label = channel_label CONTROL_CHANNEL \<and> protocol = channel_protocol CONTROL_CHANNEL \<and> ordered \<and> reliable)
      | _ \<Rightarrow> None)"

definition install_remote_control_channel ::
  "('g, 'd, 'k, 'h, 'x) engine \<Rightarrow> 'h \<Rightarrow> ('g, 'h) session \<Rightarrow> ('g, 'h) session" where
  "install_remote_control_channel E h s =
     (case control_channel_accepted E h of
        None \<Rightarrow> s
      | Some accepted \<Rightarrow>
          if \<not> accepted then s\<lparr>ws_engine := snd (channel_close E h (ws_engine s))\<rparr>
          else spawn_control_pump h (s\<lparr>ws_control := Some h\<rparr>))"

subsection \<open>The control-channel pump\<close>

datatype channel_event = OnOpen | OnMessage "u8 list" | OnClose | OtherEvent

definition pump_apply ::
  "crypto \<Rightarrow> adapter_event \<Rightarrow> bool \<Rightarrow> ('g, 'h) session \<Rightarrow> task_state \<times> ('g, 'h) session" where
  "pump_apply c event connected s =
     (if \<not> lock_ok ConnectionLock s then (TaskEnded, s)
      else case apply_event c event (ws_connection s) of
             (Inl _, conn) \<Rightarrow> (TaskEnded, s\<lparr>ws_connection := conn\<rparr>)
           | (Inr actions, conn) \<Rightarrow> (TaskHandling actions connected, s\<lparr>ws_connection := conn\<rparr>))"

fun pump_poll :: "crypto \<Rightarrow> channel_event option \<Rightarrow> ('g, 'h) session \<Rightarrow> task_state \<times> ('g, 'h) session" where
  "pump_poll c (Some OnOpen) s = pump_apply c EventConnected True s"
| "pump_poll c (Some (OnMessage wire)) s = pump_apply c (ControlBinary wire) False s"
| "pump_poll c (Some OnClose) s = fail_task s"
| "pump_poll c None s = fail_task s"
| "pump_poll c (Some OtherEvent) s = (TaskWaiting, s)"

text \<open>One action of the loop body.  A task whose channel is full stays where it is.\<close>

definition pump_action :: "action \<Rightarrow> ('g, 'h) session \<Rightarrow> bool option \<times> ('g, 'h) session" where
  "pump_action a s =
     (case a of
        DeliverCfr i remote payload \<Rightarrow> emit_event (SessionDeliverCfr i remote payload) s
      | Send env \<Rightarrow> emit_signal env s
      | _ \<Rightarrow> (Some True, s))"

fun task_step :: "task_state \<Rightarrow> ('g, 'h) session \<Rightarrow> task_state \<times> ('g, 'h) session" where
  "task_step TaskWaiting s = (TaskWaiting, s)"
| "task_step TaskEnded s = (TaskEnded, s)"
| "task_step TaskFailing s =
     (case emit_event SessionFailed s of (None, s) \<Rightarrow> (TaskFailing, s) | (Some _, s) \<Rightarrow> (TaskEnded, s))"
| "task_step (TaskHandling (a # actions) connected) s =
     (case pump_action a s of
        (None, s) \<Rightarrow> (TaskHandling (a # actions) connected, s)
      | (Some sent, s) \<Rightarrow> (if sent then TaskHandling actions connected else TaskEnded, s))"
| "task_step (TaskHandling [] True) s =
     (case emit_event SessionConnected s of
        (None, s) \<Rightarrow> (TaskHandling [] True, s)
      | (Some sent, s) \<Rightarrow> (if sent then TaskWaiting else TaskEnded, s))"
| "task_step (TaskHandling [] False) s = (TaskWaiting, s)"

definition put_task :: "nat \<Rightarrow> task_state \<times> ('g, 'h) session \<Rightarrow> ('g, 'h) session" where
  "put_task i r = (case r of (t, s) \<Rightarrow> s\<lparr>ws_tasks := (ws_tasks s)[i := (fst (ws_tasks s ! i), t)]\<rparr>)"

text \<open>What runs beside the application: the callbacks of the engine and the spawned tasks.\<close>

inductive background :: "crypto \<Rightarrow> ('g, 'd, 'k, 'h, 'x) engine \<Rightarrow> ('g, 'h) session \<Rightarrow> ('g, 'h) session \<Rightarrow> bool"
  for c and E :: "('g, 'd, 'k, 'h, 'x) engine" where
  bg_engine: "background c E s (s\<lparr>ws_engine := g\<rparr>)"
| bg_candidate: "background c E s (on_ice_candidate json s)"
| bg_state: "background c E s (on_connection_state_change failed s)"
| bg_channel: "background c E s (install_remote_control_channel E h s)"
| bg_poll: "i < length (ws_tasks s) \<Longrightarrow> ws_tasks s ! i = (Some h, TaskWaiting) \<Longrightarrow> background c E s (put_task i (pump_poll c event s))"
| bg_task: "i < length (ws_tasks s) \<Longrightarrow> ws_tasks s ! i = (h, t) \<Longrightarrow> background c E s (put_task i (task_step t s))"

subsection \<open>The operations of the application\<close>

type_synonym ('g, 'h, 'x, 'r) session_run = "('g, 'h) session \<Rightarrow> ('x webrtc_error + 'r) option \<times> ('g, 'h) session"

definition ok :: "'r \<Rightarrow> ('g, 'h, 'x, 'r) session_run" where
  "ok x s = (Some (Inr x), s)"

definition fail :: "'x webrtc_error \<Rightarrow> ('g, 'h, 'x, 'r) session_run" where
  "fail e s = (Some (Inl e), s)"

definition lift_result :: "('e \<Rightarrow> 'x webrtc_error) \<Rightarrow> 'e + 'r \<Rightarrow> ('g, 'h, 'x, 'r) session_run" where
  "lift_result f r = (case r of Inl e \<Rightarrow> fail (f e) | Inr x \<Rightarrow> ok x)"

definition and_do :: "('g, 'h, 'x, 'a) session_run \<Rightarrow> ('a \<Rightarrow> ('g, 'h, 'x, 'r) session_run) \<Rightarrow> ('g, 'h, 'x, 'r) session_run" where
  "and_do m k s =
     (case m s of
        (None, s) \<Rightarrow> (None, s)
      | (Some (Inl e), s) \<Rightarrow> (Some (Inl e), s)
      | (Some (Inr x), s) \<Rightarrow> k x s)"

definition engine_call ::
  "(('g, 'h) session \<Rightarrow> ('g, 'h) session) \<Rightarrow> ('g \<Rightarrow> ('x + 'r) \<times> 'g) \<Rightarrow> ('g, 'h, 'x, 'r) session_run" where
  "engine_call others f s = (case f (ws_engine s) of (r, g) \<Rightarrow> lift_result EngineError r (others (s\<lparr>ws_engine := g\<rparr>)))"

text \<open>A connection operation holds the lock; once it is released the tasks can use the connection again.\<close>

definition with_connection ::
  "(('g, 'h) session \<Rightarrow> ('g, 'h) session) \<Rightarrow> (connection \<Rightarrow> (error + 'r) \<times> connection) \<Rightarrow> ('g, 'h, 'x, 'r) session_run" where
  "with_connection others f s =
     (if \<not> lock_ok ConnectionLock s then fail Poisoned s
      else case f (ws_connection s) of (r, conn) \<Rightarrow> lift_result FcpError r (others (s\<lparr>ws_connection := conn\<rparr>)))"

definition verified_description ::
  "crypto \<Rightarrow> string \<Rightarrow> webrtc_binding \<Rightarrow> u8 list \<Rightarrow> (u8 list \<Rightarrow> 'x + 'd) \<Rightarrow> 'x webrtc_error + 'd" where
  "verified_description c message binding description parse =
     and_then (dtls_fingerprint description) (\<lambda>fingerprint.
     if binding \<noteq> derive c description fingerprint then Inl (InvalidAction message)
     else if \<not> utf8_ok description then Inl DescriptionEncoding
     else map_sum EngineError id (parse description))"

definition process_action ::
  "crypto \<Rightarrow> ('g, 'd, 'k, 'h, 'x) engine \<Rightarrow> (('g, 'h) session \<Rightarrow> ('g, 'h) session) \<Rightarrow> action \<Rightarrow> ('g, 'h, 'x, unit) session_run" where
  "process_action c E others action s =
     (case action of
        Send env \<Rightarrow>
          if \<not> lock_ok SignalsLock s then fail Poisoned s
          else (case try_send_signal env s of (sent, s) \<Rightarrow>
            if sent then ok () s else fail (InvalidAction ''signaling consumer is not draining events'') s)
      | ApplyOffer binding description \<Rightarrow>
          and_do (lift_result id (verified_description c ''offer binding does not match engine description'' binding description
              (offer_description E))) (\<lambda>d. engine_call others (set_remote_description E d)) s
      | ApplyAnswer binding description \<Rightarrow>
          and_do (lift_result id (verified_description c ''answer binding does not match engine description'' binding description
              (answer_description E))) (\<lambda>d. engine_call others (set_remote_description E d)) s
      | AddCandidate _ cand \<Rightarrow>
          (case candidate_from_json E cand of
             None \<Rightarrow> fail CandidateEncoding s
           | Some k \<Rightarrow> engine_call others (add_ice_candidate E k) s)
      | OpenControlChannel \<Rightarrow> ok () s
      | DeliverCfr i remote payload \<Rightarrow>
          (case emit_event (SessionDeliverCfr i remote payload) s of
             (None, s) \<Rightarrow> (None, s)
           | (Some sent, s) \<Rightarrow> if sent then ok () s else fail SessionGone s)
      | CloseTransport reason \<Rightarrow>
          (case emit_terminal (SessionClosed reason) s of
             (None, s) \<Rightarrow> (None, s)
           | (Some sent, s) \<Rightarrow> if sent then engine_call others (close_peer E) s else fail SessionGone s))"

fun process_actions ::
  "crypto \<Rightarrow> ('g, 'd, 'k, 'h, 'x) engine \<Rightarrow> (('g, 'h) session \<Rightarrow> ('g, 'h) session) \<Rightarrow> action list \<Rightarrow> ('g, 'h, 'x, unit) session_run" where
  "process_actions c E others [] = ok ()"
| "process_actions c E others (action # pending) =
     and_do (process_action c E others action) (\<lambda>_. process_actions c E others pending)"

definition accept_signal ::
  "crypto \<Rightarrow> ('g, 'd, 'k, 'h, 'x) engine \<Rightarrow> (('g, 'h) session \<Rightarrow> ('g, 'h) session) \<Rightarrow> u8 list \<Rightarrow> ('g, 'h, 'x, unit) session_run" where
  "accept_signal c E others wire =
     and_do (lift_result FcpError (decode_verified c wire)) (\<lambda>env.
     and_do (with_connection others (receive c env)) (\<lambda>actions.
     process_actions c E others actions))"

text \<open>The description the engine has set, with its binding: the common part of offering and answering.\<close>

definition local_binding ::
  "crypto \<Rightarrow> ('g, 'd, 'k, 'h, 'x) engine \<Rightarrow> string \<Rightarrow> ('g, 'h, 'x, webrtc_binding \<times> u8 list) session_run" where
  "local_binding c E message s =
     (case local_description E (ws_engine s) of
        None \<Rightarrow> fail (InvalidAction message) s
      | Some description \<Rightarrow>
          lift_result id (map_sum id (\<lambda>fp. (derive c description fp, description)) (dtls_fingerprint description)) s)"

definition first_signal :: "string \<Rightarrow> ('g, 'h, 'x, envelope) session_run" where
  "first_signal message s =
     (case flush_staged_candidates s of
        (Inl e, s) \<Rightarrow> fail e s
      | (Inr _, s) \<Rightarrow>
          (case try_take_signal s of
             (None, s) \<Rightarrow> fail (InvalidAction message) s
           | (Some signal, s) \<Rightarrow> ok signal s))"

definition session_begin_offer ::
  "crypto \<Rightarrow> ('g, 'd, 'k, 'h, 'x) engine \<Rightarrow> (('g, 'h) session \<Rightarrow> ('g, 'h) session) \<Rightarrow> ('g, 'h, 'x, envelope) session_run" where
  "session_begin_offer c E others =
     and_do (engine_call others (create_data_channel E CONTROL_CHANNEL)) (\<lambda>h s.
     and_do (engine_call others (create_offer E)) (\<lambda>d.
     and_do (engine_call others (set_local_description E d)) (\<lambda>_.
     and_do (local_binding c E ''local offer unavailable'') (\<lambda>(binding, description) s.
     and_do (with_connection others (begin_offer c (ws_signer s) binding description)) (\<lambda>actions.
     and_do (process_actions c E others actions) (\<lambda>_.
     first_signal ''local offer was not emitted'')) s))) (install_local_control_channel h s))"

definition session_answer ::
  "crypto \<Rightarrow> ('g, 'd, 'k, 'h, 'x) engine \<Rightarrow> (('g, 'h) session \<Rightarrow> ('g, 'h) session) \<Rightarrow> ('g, 'h, 'x, envelope) session_run" where
  "session_answer c E others =
     and_do (engine_call others (create_answer E)) (\<lambda>d.
     and_do (engine_call others (set_local_description E d)) (\<lambda>_.
     and_do (local_binding c E ''local answer unavailable'') (\<lambda>(binding, description) s.
     and_do (with_connection others (answer c (ws_signer s) binding description)) (\<lambda>action.
     and_do (process_actions c E others [action]) (\<lambda>_.
     first_signal ''local answer was not emitted'')) s)))"

definition session_send_cfr ::
  "('g, 'd, 'k, 'h, 'x) engine \<Rightarrow> (('g, 'h) session \<Rightarrow> ('g, 'h) session) \<Rightarrow> u8 list \<Rightarrow> ('g, 'h, 'x, unit) session_run" where
  "session_send_cfr E others payload s =
     and_do (with_connection others (\<lambda>conn. (cfr_control (ws_signer s) payload conn, conn))) (\<lambda>action s.
     case signal_from_action action of
       None \<Rightarrow> fail (InvalidAction ''CFR control must be a signed envelope'') s
     | Some env \<Rightarrow>
         (case ws_control s of
            None \<Rightarrow> fail ControlChannelUnavailable s
          | Some h \<Rightarrow>
              and_do (lift_result FcpError (encode env)) (\<lambda>wire. engine_call others (channel_send E h wire)) s)) s"

definition session_begin_close ::
  "(('g, 'h) session \<Rightarrow> ('g, 'h) session) \<Rightarrow> close_code \<Rightarrow> ('g, 'h, 'x, envelope) session_run" where
  "session_begin_close others reason s =
     and_do (with_connection others (conn_close (ws_signer s) reason)) (\<lambda>action.
     case signal_from_action action of
       None \<Rightarrow> fail (InvalidAction ''FCP close must produce a signaling envelope'')
     | Some env \<Rightarrow> ok env) s"

definition session_close ::
  "('g, 'd, 'k, 'h, 'x) engine \<Rightarrow> (('g, 'h) session \<Rightarrow> ('g, 'h) session) \<Rightarrow> ('g, 'h, 'x, unit) session_run" where
  "session_close E others = engine_call others (close_peer E)"

definition session_new ::
  "('x + 'g) \<Rightarrow> federation_id \<Rightarrow> attempt_id \<Rightarrow> signer \<Rightarrow> endpoint_identity \<Rightarrow> 'x webrtc_error + ('g, 'h) session" where
  "session_new built federation attempt s remote =
     and_then (map_sum FcpError id (connection_new federation attempt (signer_endpoint s) remote)) (\<lambda>conn.
     and_then (map_sum EngineError id built) (\<lambda>g.
     Inr \<lparr>ws_engine = g, ws_connection = conn, ws_signer = s, ws_signals = [], ws_events = [], ws_control = None, ws_sequence = 0,
       ws_staged = [], ws_terminal = False, ws_tasks = [], ws_dropped = False, ws_poisoned = []\<rparr>))"

text \<open>
  The sessions an application can come to, with the events it has taken so far, from one that holds a connection and
  has done nothing yet, which is what \<open>session_new\<close> returns.  The application may call any
  operation in any order, drop the session while tasks still run, and a panic elsewhere may poison a lock.
\<close>

definition interleaving :: "crypto \<Rightarrow> ('g, 'd, 'k, 'h, 'x) engine \<Rightarrow> (('g, 'h) session \<Rightarrow> ('g, 'h) session) \<Rightarrow> bool" where
  "interleaving c E others \<longleftrightarrow> (\<forall>s. (background c E)\<^sup>*\<^sup>* s (others s))"

definition session_fresh :: "('g, 'h) session \<Rightarrow> bool" where
  "session_fresh s \<longleftrightarrow> conn_inv (ws_connection s) \<and> ws_signals s = [] \<and> ws_events s = [] \<and> ws_staged s = [] \<and>
     ws_tasks s = [] \<and> \<not> ws_terminal s"

inductive session_reach ::
  "crypto \<Rightarrow> ('g, 'd, 'k, 'h, 'x) engine \<Rightarrow> session_event list \<Rightarrow> ('g, 'h) session \<Rightarrow> bool"
  for c and E :: "('g, 'd, 'k, 'h, 'x) engine" where
  reach_new: "session_fresh s \<Longrightarrow> session_reach c E [] s"
| reach_background: "session_reach c E taken s \<Longrightarrow> background c E s s' \<Longrightarrow> session_reach c E taken s'"
| reach_offer: "session_reach c E taken s \<Longrightarrow> interleaving c E others \<Longrightarrow> session_begin_offer c E others s = (r1, s') \<Longrightarrow> session_reach c E taken s'"
| reach_answer: "session_reach c E taken s \<Longrightarrow> interleaving c E others \<Longrightarrow> session_answer c E others s = (r2, s') \<Longrightarrow> session_reach c E taken s'"
| reach_accept: "session_reach c E taken s \<Longrightarrow> interleaving c E others \<Longrightarrow> accept_signal c E others wire s = (r3, s') \<Longrightarrow> session_reach c E taken s'"
| reach_send: "session_reach c E taken s \<Longrightarrow> interleaving c E others \<Longrightarrow> session_send_cfr E others payload s = (r4, s') \<Longrightarrow> session_reach c E taken s'"
| reach_begin_close: "session_reach c E taken s \<Longrightarrow> interleaving c E others \<Longrightarrow>
    session_begin_close others reason s = ((r5 :: ('x webrtc_error + envelope) option), s') \<Longrightarrow> session_reach c E taken s'"
| reach_close: "session_reach c E taken s \<Longrightarrow> interleaving c E others \<Longrightarrow> session_close E others s = (r6, s') \<Longrightarrow> session_reach c E taken s'"
| reach_signal: "session_reach c E taken s \<Longrightarrow> try_take_signal s = (r7, s') \<Longrightarrow> session_reach c E taken s'"
| reach_event: "session_reach c E taken s \<Longrightarrow> try_take_event s = (Some e, s') \<Longrightarrow> session_reach c E (taken @ [e]) s'"
| reach_drop: "session_reach c E taken s \<Longrightarrow> session_reach c E taken (s\<lparr>ws_dropped := True\<rparr>)"
| reach_poison: "session_reach c E taken s \<Longrightarrow> session_reach c E taken (s\<lparr>ws_poisoned := l # ws_poisoned s\<rparr>)"

subsection \<open>The session invariant\<close>

definition authentic :: "crypto \<Rightarrow> connection \<Rightarrow> envelope_id \<Rightarrow> endpoint_identity \<Rightarrow> u8 list \<Rightarrow> bool" where
  "authentic c pins i remote payload \<longleftrightarrow> remote = conn_remote pins \<and> (\<exists>env. env_id c env = Inr i \<and> env_body env = CfrControl payload \<and>
     env_federation env = conn_federation pins \<and> env_attempt env = conn_attempt pins \<and> env_sender env = conn_remote pins \<and>
     env_recipient env = conn_local pins \<and> verify c env = Inr ())"

fun event_ok :: "crypto \<Rightarrow> connection \<Rightarrow> session_event \<Rightarrow> bool" where
  "event_ok c pins (SessionDeliverCfr i remote payload) = authentic c pins i remote payload"
| "event_ok c pins _ = True"

fun action_ok :: "crypto \<Rightarrow> connection \<Rightarrow> action \<Rightarrow> bool" where
  "action_ok c pins (DeliverCfr i remote payload) = authentic c pins i remote payload"
| "action_ok c pins _ = True"

fun task_ok :: "crypto \<Rightarrow> connection \<Rightarrow> 'h option \<times> task_state \<Rightarrow> bool" where
  "task_ok c pins (_, TaskHandling actions _) = list_all (action_ok c pins) actions"
| "task_ok c pins _ = True"

fun is_terminal :: "session_event \<Rightarrow> bool" where
  "is_terminal (SessionClosed _) = True"
| "is_terminal SessionFailed = True"
| "is_terminal _ = False"

definition failing :: "'h option \<times> task_state \<Rightarrow> bool" where
  "failing t \<longleftrightarrow> snd t = TaskFailing"

definition terminals :: "session_event list \<Rightarrow> ('g, 'h) session \<Rightarrow> nat" where
  "terminals taken s = length (filter is_terminal (taken @ ws_events s)) + length (filter failing (ws_tasks s))"

definition session_inv :: "crypto \<Rightarrow> connection \<Rightarrow> session_event list \<Rightarrow> ('g, 'h) session \<Rightarrow> bool" where
  "session_inv c pins taken s \<longleftrightarrow> conn_inv (ws_connection s) \<and> same_pins pins (ws_connection s) \<and>
     length (ws_signals s) \<le> SIGNAL_EVENT_CAPACITY \<and> length (ws_events s) \<le> ENGINE_EVENT_CAPACITY \<and>
     length (ws_staged s) \<le> MAX_STAGED_LOCAL_CANDIDATES \<and>
     list_all (event_ok c pins) (taken @ ws_events s) \<and> list_all (task_ok c pins) (ws_tasks s) \<and>
     terminals taken s \<le> of_bool (ws_terminal s)"

lemma session_inv_frame:
  "session_inv c pins taken (s\<lparr>ws_engine := g\<rparr>) = session_inv c pins taken s"
  "session_inv c pins taken (s\<lparr>ws_control := h\<rparr>) = session_inv c pins taken s"
  "session_inv c pins taken (s\<lparr>ws_sequence := n\<rparr>) = session_inv c pins taken s"
  "session_inv c pins taken (s\<lparr>ws_dropped := b\<rparr>) = session_inv c pins taken s"
  "session_inv c pins taken (s\<lparr>ws_poisoned := l\<rparr>) = session_inv c pins taken s"
  by (simp_all add: session_inv_def terminals_def)

lemma session_inv_connection:
  assumes "session_inv c pins taken s" and "conn_apply c op (ws_connection s) = (r, conn)"
  shows "session_inv c pins taken (s\<lparr>ws_connection := conn\<rparr>)"
  using assms conn_apply_pins [OF assms(2)] conn_apply_inv [OF _ assms(2)] by (auto simp: session_inv_def terminals_def same_pins_def)

lemma session_inv_signal:
  "session_inv c pins taken s \<Longrightarrow> session_inv c pins taken (snd (try_send_signal env s))"
  "session_inv c pins taken s \<Longrightarrow> session_inv c pins taken (snd (emit_signal env s))"
  by (auto simp: session_inv_def terminals_def try_send_signal_def emit_signal_def)

lemma session_inv_event:
  assumes "session_inv c pins taken s" and "event_ok c pins e" and "\<not> is_terminal e"
  shows "session_inv c pins taken (snd (emit_event e s))"
  using assms by (auto simp: session_inv_def terminals_def emit_event_def)

lemma session_inv_terminal:
  assumes "session_inv c pins taken s" and "event_ok c pins e"
  shows "session_inv c pins taken (snd (emit_terminal e s))"
  using assms by (cases "ws_terminal s") (auto simp: session_inv_def terminals_def emit_terminal_def emit_event_def)

lemma session_inv_staged: "session_inv c pins taken s \<Longrightarrow> session_inv c pins taken (s\<lparr>ws_staged := []\<rparr>)"
  by (auto simp: session_inv_def terminals_def)

lemma session_inv_candidate: "session_inv c pins taken s \<Longrightarrow> session_inv c pins taken (emit_or_stage_candidate sequence cand s)"
  by (auto simp: emit_or_stage_candidate_def stage_candidate_def session_inv_signal Let_def split: option.splits)
    (auto simp: session_inv_def terminals_def MAX_STAGED_LOCAL_CANDIDATES_def)

lemma session_inv_candidates:
  "session_inv c pins taken s \<Longrightarrow>
   session_inv c pins taken (foldl (\<lambda>s (sequence, cand). emit_or_stage_candidate sequence cand s) s staged)"
  by (induction staged arbitrary: s) (auto simp: session_inv_candidate)

lemma session_inv_flush: "session_inv c pins taken s \<Longrightarrow> session_inv c pins taken (snd (flush_staged_candidates s))"
  by (simp add: flush_staged_candidates_def session_inv_candidates session_inv_staged)

lemma session_inv_take_signal: "session_inv c pins taken s \<Longrightarrow> session_inv c pins taken (snd (try_take_signal s))"
  by (auto simp: try_take_signal_def intro!: session_inv_flush split: list.split)
    (auto simp: session_inv_def terminals_def)

lemma session_inv_take_event:
  "session_inv c pins taken s \<Longrightarrow> try_take_event s = (Some e, s') \<Longrightarrow> session_inv c pins (taken @ [e]) s'"
  by (auto simp: try_take_event_def session_inv_def terminals_def split: list.splits)

lemma session_inv_spawn: "session_inv c pins taken s \<Longrightarrow> task_ok c pins (h, t) \<Longrightarrow> t \<noteq> TaskFailing \<Longrightarrow>
    session_inv c pins taken (spawn_task h t s)"
  by (auto simp: session_inv_def terminals_def spawn_task_def failing_def)

lemma session_inv_state_change: "session_inv c pins taken s \<Longrightarrow> session_inv c pins taken (on_connection_state_change failed s)"
  by (cases "ws_terminal s") (auto simp: session_inv_def terminals_def on_connection_state_change_def fail_task_def spawn_task_def failing_def)

lemma session_inv_channel: "session_inv c pins taken s \<Longrightarrow> session_inv c pins taken (install_remote_control_channel E h s)"
  "session_inv c pins taken s \<Longrightarrow> session_inv c pins taken (install_local_control_channel h s)"
  by (auto simp: install_remote_control_channel_def install_local_control_channel_def spawn_control_pump_def session_inv_frame
      intro!: session_inv_spawn split: option.split)

lemma session_inv_ice: "session_inv c pins taken s \<Longrightarrow> session_inv c pins taken (on_ice_candidate json s)"
  by (auto simp: on_ice_candidate_def session_inv_frame intro!: session_inv_candidate split: option.split)

text \<open>Replacing the state of one task.\<close>

lemma filter_update_count:
  "i < length xs \<Longrightarrow> length (filter P (xs[i := x])) + of_bool (P (xs ! i)) = length (filter P xs) + of_bool (P x)"
proof (induction xs arbitrary: i)
  case (Cons y ys)
  then show ?case by (cases i) auto
qed simp

lemma session_inv_put:
  assumes "session_inv c pins taken s" and "i < length (ws_tasks s)" and "task_ok c pins (h, t)" and "t \<noteq> TaskFailing"
  shows "session_inv c pins taken (put_task i (t, s))"
proof -
  have "length (filter failing ((ws_tasks s)[i := (fst (ws_tasks s ! i), t)])) \<le> length (filter failing (ws_tasks s))"
    using filter_update_count [OF assms(2), of failing "(fst (ws_tasks s ! i), t)"] assms(4) by (simp add: failing_def)
  moreover have "task_ok c pins (fst (ws_tasks s ! i), t)" using assms(3) by (cases t) auto
  then have "list_all (task_ok c pins) ((ws_tasks s)[i := (fst (ws_tasks s ! i), t)])"
    using assms(1) by (auto simp: session_inv_def list_all_iff dest!: set_update_subset_insert [THEN subsetD])
  ultimately show ?thesis using assms(1) by (auto simp: session_inv_def terminals_def put_task_def)
qed

lemma session_inv_fail:
  assumes "session_inv c pins taken s" and "i < length (ws_tasks s)" and "ws_tasks s ! i = (h, TaskWaiting)"
  shows "session_inv c pins taken (put_task i (fail_task s))"
proof (cases "ws_terminal s")
  case True
  then show ?thesis using session_inv_put [OF assms(1,2), of h TaskEnded] by (simp add: fail_task_def)
next
  case False
  have "length (filter failing ((ws_tasks s)[i := (h, TaskFailing)])) = Suc (length (filter failing (ws_tasks s)))"
    using filter_update_count [OF assms(2), of failing "(h, TaskFailing)"] assms(3) by (simp add: failing_def)
  moreover have "list_all (task_ok c pins) ((ws_tasks s)[i := (h, TaskFailing)])"
    using assms(1) by (auto simp: session_inv_def list_all_iff dest!: set_update_subset_insert [THEN subsetD])
  ultimately show ?thesis using assms False by (auto simp: session_inv_def terminals_def put_task_def fail_task_def)
qed

lemma receive_actions:
  assumes "receive c env conn = (Inr actions, conn')" and "same_pins pins conn"
  shows "list_all (action_ok c pins) actions"
proof -
  have "action_ok c pins a" if mem: "a \<in> set actions" for a
  proof (cases a)
    case (DeliverCfr i re payload)
    with mem have "DeliverCfr i re payload \<in> set actions" by simp
    from receive_deliver [OF assms(1) this] assms(2) DeliverCfr show ?thesis
      by (auto simp: authentic_def validate_inbound_Inr same_pins_def)
  qed simp_all
  then show ?thesis by (simp add: list_all_iff)
qed

lemma apply_event_actions:
  assumes "apply_event c event conn = (Inr actions, conn')" and "same_pins pins conn"
  shows "list_all (action_ok c pins) actions"
  using assms receive_actions [OF _ assms(2)]
  by (cases event) (auto simp: apply_event_def or_bail_Inr transport_connected_def split: if_splits prod.splits sum.splits)

lemma apply_event_apply: "apply_event c event conn = (r0, conn') \<Longrightarrow> conn' = conn \<or> (\<exists>op r. conn_apply c op conn = (r, conn'))"
proof (cases event)
  case (ControlBinary w)
  assume event: "apply_event c event conn = (r0, conn')"
  show ?thesis
  proof (cases "decode_verified c w")
    case (Inr env)
    then have "conn_apply c (OpReceive env) conn = (r0, conn')" using event ControlBinary by (simp add: apply_event_op)
    then show ?thesis by blast
  qed (use event ControlBinary in \<open>auto simp: apply_event_op\<close>)
qed (metis apply_event_op)+

lemma session_inv_pump:
  assumes inv: "session_inv c pins taken s" and i: "i < length (ws_tasks s)"
  shows "session_inv c pins taken (put_task i (pump_apply c event connected s))"
proof -
  obtain r conn where ev: "apply_event c event (ws_connection s) = (r, conn)" by fastforce
  have inv': "session_inv c pins taken (s\<lparr>ws_connection := conn\<rparr>)"
    using apply_event_apply [OF ev] inv session_inv_connection [OF inv] by auto
  have put: "session_inv c pins taken (put_task i (t, s\<lparr>ws_connection := conn\<rparr>))" if "task_ok c pins (None :: unit option, t)" "t \<noteq> TaskFailing" for t
    using session_inv_put [OF inv', of i None t] that i by (cases t) simp_all
  have "list_all (action_ok c pins) actions" if "r = Inr actions" for actions
    using apply_event_actions [of c event _ actions conn pins] ev that inv by (simp add: session_inv_def)
  then show ?thesis
    using ev session_inv_put [OF inv i, of None TaskEnded] by (cases r) (simp_all add: pump_apply_def put)
qed

lemma session_inv_poll:
  assumes "session_inv c pins taken s" and "i < length (ws_tasks s)" and "ws_tasks s ! i = (Some h, TaskWaiting)"
  shows "session_inv c pins taken (put_task i (pump_poll c event s))"
  using session_inv_pump [OF assms(1,2)] session_inv_fail [OF assms] session_inv_put [OF assms(1,2), of None TaskWaiting]
  by (cases "(c, event, s)" rule: pump_poll.cases) simp_all

lemma emits_keep_tasks [simp]: "ws_tasks (snd (emit_event e s)) = ws_tasks s" "ws_tasks (snd (emit_signal env s)) = ws_tasks s"
  by (simp_all add: emit_event_def emit_signal_def)

lemma put_task_same: "i < length (ws_tasks s) \<Longrightarrow> ws_tasks s ! i = (h, t) \<Longrightarrow> put_task i (t, s) = s"
  using list_update_id [of "ws_tasks s" i] by (simp add: put_task_def)

lemma session_inv_fail_sent:
  assumes "session_inv c pins taken s" and "i < length (ws_tasks s)" and "ws_tasks s ! i = (h, TaskFailing)"
    and "length (ws_events s) < ENGINE_EVENT_CAPACITY"
  shows "session_inv c pins taken (put_task i (TaskEnded, s\<lparr>ws_events := ws_events s @ [SessionFailed]\<rparr>))"
proof -
  have "Suc (length (filter failing ((ws_tasks s)[i := (h, TaskEnded)]))) = length (filter failing (ws_tasks s))"
    using filter_update_count [OF assms(2), of failing "(h, TaskEnded)"] assms(3) by (simp add: failing_def)
  moreover have "list_all (task_ok c pins) ((ws_tasks s)[i := (h, TaskEnded)])"
    using assms(1) by (auto simp: session_inv_def list_all_iff dest!: set_update_subset_insert [THEN subsetD])
  ultimately show ?thesis using assms by (auto simp: session_inv_def terminals_def put_task_def)
qed

lemma session_inv_pump_action:
  assumes "session_inv c pins taken s" and "action_ok c pins a" and "pump_action a s = (r, s')"
  shows "session_inv c pins taken s' \<and> ws_tasks s' = ws_tasks s \<and> (r = None \<longrightarrow> s' = s)"
proof (cases a)
  case (DeliverCfr i re payload)
  then show ?thesis using assms session_inv_event [OF assms(1), of "SessionDeliverCfr i re payload"]
    by (auto simp: pump_action_def emit_event_def split: if_splits)
next
  case (Send env)
  then show ?thesis using assms session_inv_signal(2) [OF assms(1), of env]
    by (auto simp: pump_action_def emit_signal_def split: if_splits)
qed (use assms in \<open>auto simp: pump_action_def\<close>)

lemma session_inv_task:
  assumes inv: "session_inv c pins taken s" and i: "i < length (ws_tasks s)" and t: "ws_tasks s ! i = (h, t)"
  shows "session_inv c pins taken (put_task i (task_step t s))"
proof (cases "(t, s)" rule: task_step.cases)
  case (3 s1)
  then show ?thesis
    using inv i t session_inv_fail_sent [OF inv i] session_inv_put [OF inv i, of None TaskEnded] put_task_same [OF i t]
    by (auto simp: emit_event_def)
next
  case (4 a actions connected s1)
  obtain r s' where act: "pump_action a s = (r, s')" by fastforce
  have ok: "list_all (action_ok c pins) (a # actions)"
    using inv i t 4 nth_mem [OF i] by (auto simp: session_inv_def list_all_iff)
  have s': "session_inv c pins taken s'" "ws_tasks s' = ws_tasks s" "r = None \<longrightarrow> s' = s"
    using session_inv_pump_action [OF inv _ act] ok by simp_all
  have put: "session_inv c pins taken (put_task i (t', s'))" if "task_ok c pins (None :: unit option, t')" "t' \<noteq> TaskFailing" for t'
    using session_inv_put [OF s'(1), of i None t'] that i s'(2) by (cases t') simp_all
  show ?thesis
  proof (cases r)
    case None
    then show ?thesis using 4 act s' put_task_same [OF i t] inv by simp
  next
    case (Some sent)
    then show ?thesis using 4 act put [of "TaskHandling actions connected"] put [of TaskEnded] ok by simp
  qed
next
  case (5 s1)
  have "session_inv c pins taken (s\<lparr>ws_events := ws_events s @ [SessionConnected]\<rparr>)" if "length (ws_events s) < ENGINE_EVENT_CAPACITY"
    using inv that by (auto simp: session_inv_def terminals_def)
  from session_inv_put [OF this, of i None TaskWaiting] show ?thesis
    using 5 i t session_inv_put [OF inv i, of None TaskEnded] put_task_same [OF i t] inv by (auto simp: emit_event_def)
qed (use session_inv_put [OF inv i, of None TaskWaiting] session_inv_put [OF inv i, of None TaskEnded] in auto)

lemma session_inv_background: "background c E s s' \<Longrightarrow> session_inv c pins taken s \<Longrightarrow> session_inv c pins taken s'"
  by (induction rule: background.induct)
    (simp_all add: session_inv_frame session_inv_ice session_inv_state_change session_inv_channel session_inv_poll session_inv_task)

lemma session_inv_others: "interleaving c E others \<Longrightarrow> session_inv c pins taken s \<Longrightarrow> session_inv c pins taken (others s)"
proof -
  assume "session_inv c pins taken s" and "interleaving c E others"
  then have "(background c E)\<^sup>*\<^sup>* s (others s)" by (simp add: interleaving_def)
  then show ?thesis using \<open>session_inv c pins taken s\<close>
    by (induction rule: rtranclp_induct) (blast intro: session_inv_background)+
qed

subsection \<open>The operations keep the invariant\<close>

definition keeps :: "(('g, 'h) session \<Rightarrow> bool) \<Rightarrow> ('g, 'h, 'x, 'r) session_run \<Rightarrow> bool" where
  "keeps P m \<longleftrightarrow> (\<forall>s. P s \<longrightarrow> P (snd (m s)))"

named_theorems keeps_intros

lemma keeps_pure [keeps_intros]: "keeps P (ok x)" "keeps P (fail e)" "keeps P (lift_result f r)"
  by (auto simp: keeps_def ok_def fail_def lift_result_def split: sum.split)

lemma keeps_and_do_if:
  assumes "keeps P m" and "\<And>s x s'. P s \<Longrightarrow> m s = (Some (Inr x), s') \<Longrightarrow> keeps P (k x)"
  shows "keeps P (and_do m k)"
  unfolding keeps_def
proof (intro allI impI)
  fix s assume P: "P s"
  obtain r s' where m: "m s = (r, s')" by fastforce
  have "P s'" using assms(1) P m by (auto simp: keeps_def)
  then show "P (snd (and_do m k s))" using m assms(2) [OF P] by (auto simp: and_do_def keeps_def split: option.split sum.split)
qed

lemma keeps_and_do [keeps_intros]: "keeps P m \<Longrightarrow> (\<And>x. keeps P (k x)) \<Longrightarrow> keeps P (and_do m k)"
  by (rule keeps_and_do_if)

lemma keeps_state: "(\<And>s0. keeps P (f s0)) \<Longrightarrow> keeps P (\<lambda>s. f s s)"
  by (simp add: keeps_def)

lemma keeps_at: "(\<And>s. m s = f s s) \<Longrightarrow> (\<And>s0. keeps P (f s0)) \<Longrightarrow> keeps P m"
  by (simp add: keeps_def)

lemma keeps_pair: "(\<And>x y. keeps P (k x y)) \<Longrightarrow> keeps P (case p of (x, y) \<Rightarrow> k x y)"
  by (cases p) simp

lemma keeps_after: "keeps P m \<Longrightarrow> (\<And>s. P s \<Longrightarrow> P (g s)) \<Longrightarrow> keeps P (\<lambda>s. m (g s))"
  by (simp add: keeps_def)

lemma keeps_install_local:
  "keeps (session_inv c pins taken) m \<Longrightarrow> keeps (session_inv c pins taken) (\<lambda>s. m (install_local_control_channel h s))"
  by (erule keeps_after) (rule session_inv_channel(2))

lemma keeps_engine_call:
  assumes "interleaving c E others"
  shows "keeps (session_inv c pins taken) (engine_call others f)"
  using session_inv_others [OF assms]
  by (auto simp: keeps_def engine_call_def lift_result_def ok_def fail_def session_inv_frame split: prod.split sum.split)

lemma keeps_with_connection:
  assumes "interleaving c E others" and "\<And>conn r conn'. f conn = (r, conn') \<Longrightarrow> conn' = conn \<or> (\<exists>op r'. conn_apply c op conn = (r', conn'))"
  shows "keeps (session_inv c pins taken) (with_connection others f)"
  unfolding keeps_def
proof (intro allI impI)
  fix s :: "('a, 'd) session" assume inv: "session_inv c pins taken s"
  obtain r conn where f: "f (ws_connection s) = (r, conn)" by fastforce
  have "session_inv c pins taken (s\<lparr>ws_connection := conn\<rparr>)"
    using assms(2) [OF f] inv session_inv_connection [OF inv] by auto
  from session_inv_others [OF assms(1) this] show "session_inv c pins taken (snd (with_connection others f s))"
    using f inv by (auto simp: with_connection_def lift_result_def ok_def fail_def split: sum.split)
qed

lemma connection_ops_apply:
  "begin_offer c sg b d conn = (r1, conn') \<Longrightarrow> conn_apply c (OpBeginOffer sg b d) conn = (r1, conn')"
  "answer c sg b d conn = (r2, conn') \<Longrightarrow> \<exists>r'. conn_apply c (OpAnswer sg b d) conn = (r', conn')"
  "conn_close sg reason conn = (r3, conn') \<Longrightarrow> \<exists>r'. conn_apply c (OpClose sg reason) conn = (r', conn')"
  "receive c env conn = (r4, conn') \<Longrightarrow> conn_apply c (OpReceive env) conn = (r4, conn')"
  by simp_all

lemma keeps_process_action:
  assumes "interleaving c E others" and "action_ok c pins a"
  shows "keeps (session_inv c pins taken) (process_action c E others a)"
proof (cases a)
  case (Send env)
  show ?thesis unfolding keeps_def
  proof (intro allI impI)
    fix s :: "('a, 'd) session" assume "session_inv c pins taken s"
    from session_inv_signal(1) [OF this, of env] \<open>session_inv c pins taken s\<close>
    show "session_inv c pins taken (snd (process_action c E others a s))"
      by (auto simp: Send process_action_def ok_def fail_def split: prod.split)
  qed
next
  case (DeliverCfr i re payload)
  show ?thesis unfolding keeps_def
  proof (intro allI impI)
    fix s :: "('a, 'd) session" assume "session_inv c pins taken s"
    from session_inv_event [OF this, of "SessionDeliverCfr i re payload"] assms(2)
    show "session_inv c pins taken (snd (process_action c E others a s))"
      by (auto simp: DeliverCfr process_action_def ok_def fail_def split: prod.split option.split)
  qed
next
  case (CloseTransport reason)
  show ?thesis unfolding keeps_def
  proof (intro allI impI)
    fix s :: "('a, 'd) session" assume "session_inv c pins taken s"
    from session_inv_terminal [OF this, of "SessionClosed reason"] keeps_engine_call [OF assms(1), of pins taken "close_peer E"]
    show "session_inv c pins taken (snd (process_action c E others a s))"
      by (auto simp: CloseTransport process_action_def fail_def keeps_def split: prod.split option.split)
  qed
next
  case (AddCandidate n cand)
  then show ?thesis using keeps_engine_call [OF assms(1)]
    by (auto simp: process_action_def keeps_def fail_def split: option.split)
next
  case (ApplyOffer b d)
  have "process_action c E others a = and_do (lift_result id (verified_description c
      ''offer binding does not match engine description'' b d (offer_description E))) (\<lambda>d. engine_call others (set_remote_description E d))"
    by (simp add: fun_eq_iff process_action_def ApplyOffer)
  then show ?thesis by (auto intro!: keeps_intros keeps_engine_call [OF assms(1)])
next
  case (ApplyAnswer b d)
  have "process_action c E others a = and_do (lift_result id (verified_description c
      ''answer binding does not match engine description'' b d (answer_description E))) (\<lambda>d. engine_call others (set_remote_description E d))"
    by (simp add: fun_eq_iff process_action_def ApplyAnswer)
  then show ?thesis by (auto intro!: keeps_intros keeps_engine_call [OF assms(1)])
qed (auto simp: process_action_def keeps_def ok_def)

lemma keeps_process_actions:
  assumes "interleaving c E others"
  shows "list_all (action_ok c pins) actions \<Longrightarrow> keeps (session_inv c pins taken) (process_actions c E others actions)"
  by (induction actions) (auto intro!: keeps_intros keeps_process_action [OF assms])

lemma with_connection_Inr:
  "with_connection others f s = (Some (Inr x), s') \<Longrightarrow> \<exists>conn'. f (ws_connection s) = (Inr x, conn')"
  by (auto simp: with_connection_def lift_result_def ok_def fail_def split: if_splits prod.splits sum.splits)

lemma keeps_accept_signal:
  assumes E: "interleaving c E others"
  shows "keeps (session_inv c pins taken) (accept_signal c E others wire)"
proof -
  have "keeps (session_inv c pins taken) (and_do (with_connection others (receive c env)) (process_actions c E others))" for env
  proof (rule keeps_and_do_if)
    show "keeps (session_inv c pins taken) (with_connection others (receive c env))"
      using E by (rule keeps_with_connection) (blast dest: connection_ops_apply(4))
    show "keeps (session_inv c pins taken) (process_actions c E others actions)"
      if inv: "session_inv c pins taken s" and run: "with_connection others (receive c env) s = (Some (Inr actions), s')" for actions s s'
    proof -
      have "same_pins pins (ws_connection s)" using inv unfolding session_inv_def by (elim conjE)
      then have "list_all (action_ok c pins) actions" using with_connection_Inr [OF run] by (blast intro: receive_actions)
      then show ?thesis by (rule keeps_process_actions [OF E])
    qed
  qed
  then show ?thesis unfolding accept_signal_def by (rule keeps_and_do [OF keeps_pure(3)])
qed

lemma keeps_local_binding [keeps_intros]: "keeps (session_inv c pins taken) (local_binding c' E message)"
  by (auto simp: keeps_def local_binding_def lift_result_def ok_def fail_def split: option.split sum.split)

lemma keeps_first_signal [keeps_intros]: "keeps (session_inv c pins taken) (first_signal message :: ('a, 'b, 'c, envelope) session_run)"
  unfolding keeps_def
proof (intro allI impI)
  fix s :: "('a, 'b) session" assume inv: "session_inv c pins taken s"
  obtain r :: "'c webrtc_error + unit" and s1 where flush: "flush_staged_candidates s = (r, s1)" by fastforce
  obtain r2 s2 where take2: "try_take_signal s1 = (r2, s2)" by fastforce
  from flush have "s1 = snd (flush_staged_candidates s :: ('c webrtc_error + unit) \<times> _)" by simp
  then have s1: "session_inv c pins taken s1" by (simp only: session_inv_flush [OF inv])
  moreover have "session_inv c pins taken s2" using session_inv_take_signal [OF s1] take2 by simp
  ultimately show "session_inv c pins taken (snd ((first_signal message :: ('a, 'b, 'c, envelope) session_run) s))"
    by (simp add: first_signal_def flush take2 ok_def fail_def split: sum.split option.split)
qed

lemma offer_actions:
  "with_connection others (begin_offer c sg b d) s = (Some (Inr actions), s') \<Longrightarrow> list_all (action_ok c pins) actions"
  by (drule with_connection_Inr) (auto simp: begin_offer_Inr)

lemma answer_action: "with_connection others (answer c sg b d) s = (Some (Inr action), s') \<Longrightarrow> action_ok c pins action"
  by (drule with_connection_Inr) (auto simp: answer_Inr)

lemma keeps_begin_offer:
  assumes E: "interleaving c E others"
  shows "keeps (session_inv c pins taken) (session_begin_offer c E others)"
proof -
  have offer: "keeps (session_inv c pins taken) (and_do (with_connection others (begin_offer c sg b d)) (\<lambda>actions.
     and_do (process_actions c E others actions) (\<lambda>_. first_signal message)))" for sg b d message
  proof (rule keeps_and_do_if)
    show "keeps (session_inv c pins taken) (with_connection others (begin_offer c sg b d))"
      using E by (rule keeps_with_connection) (blast dest: connection_ops_apply(1))
    show "keeps (session_inv c pins taken) (and_do (process_actions c E others actions) (\<lambda>_. first_signal message))"
      if run: "with_connection others (begin_offer c sg b d) s = (Some (Inr actions), s')" for actions s s'
      by (intro keeps_and_do keeps_first_signal keeps_process_actions [OF E] offer_actions [OF run])
  qed
  show ?thesis unfolding session_begin_offer_def
    by (intro keeps_and_do keeps_engine_call [OF E] keeps_install_local keeps_local_binding
        keeps_pair keeps_state [of _ "\<lambda>s. and_do (with_connection _ (begin_offer _ (ws_signer s) _ _)) _"] offer)
qed

lemma keeps_answer:
  assumes E: "interleaving c E others"
  shows "keeps (session_inv c pins taken) (session_answer c E others)"
proof -
  have answer: "keeps (session_inv c pins taken) (and_do (with_connection others (answer c sg b d)) (\<lambda>action.
     and_do (process_actions c E others [action]) (\<lambda>_. first_signal message)))" for sg b d message
  proof (rule keeps_and_do_if)
    show "keeps (session_inv c pins taken) (with_connection others (answer c sg b d))"
      using E by (rule keeps_with_connection) (blast dest: connection_ops_apply(2))
    show "keeps (session_inv c pins taken) (and_do (process_actions c E others [action]) (\<lambda>_. first_signal message))"
      if run: "with_connection others (answer c sg b d) s = (Some (Inr action), s')" for action s s'
      using answer_action [OF run] by (intro keeps_and_do keeps_first_signal keeps_process_actions [OF E]) simp
  qed
  show ?thesis unfolding session_answer_def
    by (intro keeps_and_do keeps_engine_call [OF E] keeps_local_binding
        keeps_pair keeps_state [of _ "\<lambda>s. and_do (with_connection _ (answer _ (ws_signer s) _ _)) _"] answer)
qed

lemma keeps_send_cfr:
  assumes E: "interleaving c E others"
  shows "keeps (session_inv c pins taken) (session_send_cfr E others payload)"
proof (rule keeps_at [OF session_send_cfr_def], rule keeps_and_do)
  show "keeps (session_inv c pins taken) (with_connection others (\<lambda>conn. (cfr_control (ws_signer s0) payload conn, conn)))" for s0
    using E by (rule keeps_with_connection) simp
  have send: "keeps (session_inv c pins taken) (and_do (lift_result FcpError r) (\<lambda>wire. engine_call others (channel_send E h wire)))" for r h
    by (intro keeps_intros keeps_engine_call [OF E])
  show "keeps (session_inv c pins taken) (\<lambda>s.
     case signal_from_action action of
       None \<Rightarrow> fail (InvalidAction ''CFR control must be a signed envelope'') s
     | Some env \<Rightarrow>
         (case ws_control s of
            None \<Rightarrow> fail ControlChannelUnavailable s
          | Some h \<Rightarrow>
              and_do (lift_result FcpError (encode env)) (\<lambda>wire. engine_call others (channel_send E h wire)) s))" for action
    using send unfolding keeps_def by (simp add: fail_def split: option.split)
qed

lemma keeps_begin_close:
  assumes E: "interleaving c E others"
  shows "keeps (session_inv c pins taken) (session_begin_close others reason)"
proof (rule keeps_at [OF session_begin_close_def], rule keeps_and_do)
  show "keeps (session_inv c pins taken) (with_connection others (conn_close (ws_signer s0) reason))" for s0
    using E by (rule keeps_with_connection) (blast dest: connection_ops_apply(3))
  show "keeps (session_inv c pins taken) (case signal_from_action action of
       None \<Rightarrow> fail (InvalidAction ''FCP close must produce a signaling envelope'')
     | Some env \<Rightarrow> ok env)" for action
    by (auto split: option.split intro: keeps_intros)
qed

lemma keepsD: "keeps P m \<Longrightarrow> m s = (r, s') \<Longrightarrow> P s \<Longrightarrow> P s'"
  by (auto simp: keeps_def dest: spec [of _ s])

lemma session_new_fresh:
  "session_new built federation attempt sg remote = Inr s \<Longrightarrow>
   session_fresh s \<and> connection_new federation attempt (signer_endpoint sg) remote = Inr (ws_connection s)"
  by (cases "connection_new federation attempt (signer_endpoint sg) remote"; cases built)
    (auto simp: session_new_def session_fresh_def intro: conn_new_inv)

lemma session_fresh_inv: "session_fresh s \<Longrightarrow> session_inv c (ws_connection s) [] s"
  by (simp add: session_fresh_def session_inv_def terminals_def same_pins_def)

lemma session_reach_inv: "session_reach c E taken s \<Longrightarrow> \<exists>pins. session_inv c pins taken s"
proof (induction rule: session_reach.induct)
  case (reach_new s)
  from session_fresh_inv [OF this] show ?case by blast
next
  case (reach_background taken s s')
  then show ?case by (blast intro: session_inv_background)
next
  case (reach_offer taken s others r1 s')
  then show ?case using keepsD [OF keeps_begin_offer [OF reach_offer(2)] reach_offer(3)] by blast
next
  case (reach_answer taken s others r2 s')
  then show ?case using keepsD [OF keeps_answer [OF reach_answer(2)] reach_answer(3)] by blast
next
  case (reach_accept taken s others wire r3 s')
  then show ?case using keepsD [OF keeps_accept_signal [OF reach_accept(2)] reach_accept(3)] by blast
next
  case (reach_send taken s others payload r4 s')
  then show ?case using keepsD [OF keeps_send_cfr [OF reach_send(2)] reach_send(3)] by blast
next
  case (reach_begin_close taken s others reason r5 s')
  then show ?case using keepsD [OF keeps_begin_close [OF reach_begin_close(2)] reach_begin_close(3)] by blast
next
  case (reach_close taken s others r6 s')
  then show ?case using keepsD [OF keeps_engine_call [OF reach_close(2)] reach_close(3) [unfolded session_close_def]] by blast
next
  case (reach_signal taken s r7 s')
  then have "s' = snd (try_take_signal s)" by simp
  then show ?case using reach_signal.IH by (auto intro: session_inv_take_signal)
next
  case (reach_event taken s e s')
  then show ?case by (blast intro: session_inv_take_event)
qed (simp_all add: session_inv_frame)

subsection \<open>Returning\<close>

lemma receive_single: "receive c env conn = (Inr acts, conn') \<Longrightarrow> length acts \<le> 1"
  by (erule receive_cases) (auto simp: receive_body_def or_bail_Inr Let_def split: body.splits if_splits)

lemma process_action_returns:
  "length (ws_events s) < ENGINE_EVENT_CAPACITY \<Longrightarrow> \<exists>r s'. process_action c E others a s = (Some r, s')"
  by (auto simp: process_action_def ok_def fail_def and_do_def engine_call_def lift_result_def emit_event_def emit_terminal_def
      split: action.split prod.split sum.split option.split)

lemma accept_signal_room:
  assumes quiet: "\<And>s. length (ws_events (others s)) \<le> length (ws_events s)" and room: "length (ws_events s) < ENGINE_EVENT_CAPACITY"
  shows "\<exists>r s'. accept_signal c E others wire s = (Some r, s')"
proof (cases "decode_verified c wire")
  case (Inr env)
  obtain r conn where recv: "receive c env (ws_connection s) = (r, conn)" by fastforce
  define s1 where "s1 = others (s\<lparr>ws_connection := conn\<rparr>)"
  have room1: "length (ws_events s1) < ENGINE_EVENT_CAPACITY"
    using quiet [of "s\<lparr>ws_connection := conn\<rparr>"] room by (simp add: s1_def)
  show ?thesis
  proof (cases r)
    case (Inr acts)
    have "\<exists>r s'. process_actions c E others acts s1 = (Some r, s')"
    proof (cases acts)
      case (Cons a rest)
      then have "rest = []" using receive_single recv Inr by fastforce
      obtain r2 s2 where "process_action c E others a s1 = (Some r2, s2)" using process_action_returns [OF room1] by blast
      then show ?thesis by (simp add: Cons \<open>rest = []\<close> and_do_def ok_def split: sum.split)
    qed (simp add: ok_def)
    then show ?thesis
      using \<open>decode_verified c wire = Inr env\<close> recv Inr
      by (auto simp: accept_signal_def and_do_def lift_result_def with_connection_def ok_def fail_def s1_def)
  qed (auto simp: accept_signal_def and_do_def lift_result_def with_connection_def ok_def fail_def Inr recv)
qed (simp add: accept_signal_def and_do_def lift_result_def fail_def)

lemma dtls_fingerprint_utf8: "dtls_fingerprint d = Inr fp \<Longrightarrow> utf8_ok d"
  by (simp add: dtls_fingerprint_def split: if_splits)

lemma verified_description_Inr:
  "verified_description c message b d parse = Inr x \<Longrightarrow>
   \<exists>fp. dtls_fingerprint d = (Inr fp :: 'x webrtc_error + _) \<and> b = derive c d fp \<and> parse d = (Inr x :: 'x + 'd)"
  by (auto simp: verified_description_def and_then_eq_Inr split: if_splits sum.splits) (cases "parse d"; simp)+

subsection \<open>A sample session\<close>

definition demo_engine :: "(nat, u8 list, unit, unit, unit) engine" where
  "demo_engine = \<lparr>create_data_channel = (\<lambda>_ g. (Inr (), g)), create_offer = (\<lambda>g. (Inr [], g)), create_answer = (\<lambda>g. (Inr [], g)),
     set_local_description = (\<lambda>_ g. (Inr (), g)), local_description = (\<lambda>_. None), offer_description = Inr, answer_description = Inr,
     set_remote_description = (\<lambda>_ g. (Inr (), g + 1)), candidate_from_json = (\<lambda>_. None), add_ice_candidate = (\<lambda>_ g. (Inr (), g)),
     close_peer = (\<lambda>g. (Inr (), g)), channel_send = (\<lambda>_ _ g. (Inr (), g)), channel_close = (\<lambda>_ g. (Inr (), g)),
     h_label = (\<lambda>_. Inr (channel_label CONTROL_CHANNEL)), h_protocol = (\<lambda>_. Inr (channel_protocol CONTROL_CHANNEL)), h_ordered = (\<lambda>_. Inr True),
     h_max_packet_life_time = (\<lambda>_. Inr None), h_max_retransmits = (\<lambda>_. Inr None)\<rparr>"

definition demo_session :: "(nat, unit) session" where
  "demo_session = \<lparr>ws_engine = 0, ws_connection = demo_established, ws_signer = demo_signer 4, ws_signals = [], ws_events = [],
     ws_control = None, ws_sequence = 0, ws_staged = [], ws_terminal = False, ws_tasks = [], ws_dropped = False, ws_poisoned = []\<rparr>"

definition demo_delivery :: session_event where
  "demo_delivery = SessionDeliverCfr (demo_control_id 9) (demo_identity 3) (demo_payload 9)"

definition demo_delivered :: "(nat, unit) session" where
  "demo_delivered = demo_session\<lparr>ws_connection := note_seen (demo_control_id 9) demo_established, ws_control := Some (),
     ws_tasks := [(Some (), TaskHandling [] False)], ws_events := [demo_delivery]\<rparr>"

text \<open>The peer's channel is installed, the pump reads a control message from it and passes it on.\<close>

lemma demo_delivered_reach: "session_reach demo_crypto demo_engine [] demo_delivered"
proof -
  define s1 where "s1 = demo_session\<lparr>ws_control := Some (), ws_tasks := [(Some (), TaskWaiting)]\<rparr>"
  define s2 where "s2 = s1\<lparr>ws_connection := note_seen (demo_control_id 9) demo_established,
    ws_tasks := [(Some (), TaskHandling [DeliverCfr (demo_control_id 9) (demo_identity 3) (demo_payload 9)] False)]\<rparr>"
  have "session_reach demo_crypto demo_engine [] demo_session"
    by (rule reach_new) (simp add: session_fresh_def demo_session_def demo_established_inv)
  moreover have "install_remote_control_channel demo_engine () demo_session = s1"
    by (simp add: install_remote_control_channel_def control_channel_accepted_def demo_engine_def spawn_control_pump_def
        spawn_task_def s1_def demo_session_def)
  ultimately have "session_reach demo_crypto demo_engine [] s1" using bg_channel reach_background by metis
  moreover have "put_task 0 (pump_poll demo_crypto (Some (OnMessage (envelope_bytes (demo_control 9)))) s1) = s2"
    by (simp add: put_task_def pump_apply_def lock_ok_def apply_event_def demo_control_decodes demo_receive s1_def s2_def demo_session_def)
  moreover have "0 < length (ws_tasks s1)" "ws_tasks s1 ! 0 = (Some (), TaskWaiting)" by (simp_all add: s1_def)
  ultimately have "session_reach demo_crypto demo_engine [] s2" using bg_poll reach_background by metis
  moreover have "put_task 0 (task_step (TaskHandling [DeliverCfr (demo_control_id 9) (demo_identity 3) (demo_payload 9)] False) s2) = demo_delivered"
    by (simp add: put_task_def pump_action_def emit_event_def s1_def s2_def demo_session_def demo_delivered_def demo_delivery_def
        ENGINE_EVENT_CAPACITY_def)
  moreover have "0 < length (ws_tasks s2)"
    "ws_tasks s2 ! 0 = (Some (), TaskHandling [DeliverCfr (demo_control_id 9) (demo_identity 3) (demo_payload 9)] False)"
    by (simp_all add: s2_def)
  ultimately show ?thesis using bg_task reach_background by metis
qed

subsection \<open>Properties\<close>

text \<open>
  C27.  Whatever the application, the engine's callbacks and the control-channel pumps do, in whatever order: the
  session's connection keeps its invariant, the signal and event channels and the staged candidates
  stay within their capacities, and the application sees at most one terminal event (\<open>Closed\<close> or \<open>Failed\<close>),
  none while the terminal flag is clear.
\<close>

theorem webrtc_session_bounds:
  assumes "session_reach c E taken s"
  shows "conn_inv (ws_connection s) \<and> length (ws_signals s) \<le> 128 \<and> length (ws_events s) \<le> 128 \<and> length (ws_staged s) \<le> 64 \<and>
    length (filter is_terminal (taken @ ws_events s)) \<le> (if ws_terminal s then 1 else 0)"
proof -
  obtain pins where inv: "session_inv c pins taken s" using session_reach_inv [OF assms] by (elim exE)
  then have "terminals taken s \<le> of_bool (ws_terminal s)" unfolding session_inv_def by (elim conjE)
  then have "length (filter is_terminal (taken @ ws_events s)) \<le> (if ws_terminal s then 1 else 0)"
    by (cases "ws_terminal s") (simp_all add: terminals_def)
  with inv show ?thesis
    by (simp add: session_inv_def SIGNAL_EVENT_CAPACITY_def ENGINE_EVENT_CAPACITY_def MAX_STAGED_LOCAL_CANDIDATES_def)
qed

theorem webrtc_session_bounds_witness:
  "session_reach demo_crypto demo_engine [] demo_delivered \<and> length (ws_events demo_delivered) = 1 \<and>
   length (filter is_terminal ([] @ ws_events demo_delivered)) = 0"
  using webrtc_session_bounds [OF demo_delivered_reach] demo_delivered_reach
  by (simp add: demo_delivered_def demo_session_def)

text \<open>
  C26.  A CFR payload is given to the application only for a control envelope that the pinned remote endpoint signed
  for this federation, attempt and local endpoint, and under that envelope's identifier: for every event
  taken or still queued, whatever messages the engine handed in over the control channel or the signalling path.
\<close>

theorem webrtc_delivery_authentic:
  assumes "session_reach c E taken s" and "SessionDeliverCfr i remote payload \<in> set (taken @ ws_events s)"
  shows "remote = conn_remote (ws_connection s) \<and> (\<exists>env. env_id c env = Inr i \<and> env_body env = CfrControl payload \<and>
     env_federation env = conn_federation (ws_connection s) \<and> env_attempt env = conn_attempt (ws_connection s) \<and>
     env_sender env = conn_remote (ws_connection s) \<and> env_recipient env = conn_local (ws_connection s) \<and> verify c env = Inr ())"
proof -
  obtain pins where inv: "session_inv c pins taken s" using session_reach_inv [OF assms(1)] by (elim exE)
  then have "list_all (event_ok c pins) (taken @ ws_events s)" unfolding session_inv_def by (elim conjE)
  moreover have pins: "same_pins pins (ws_connection s)" using inv unfolding session_inv_def by (elim conjE)
  ultimately have "event_ok c pins (SessionDeliverCfr i remote payload)" using assms(2) unfolding list_all_iff by blast
  with pins show ?thesis by (simp add: authentic_def same_pins_def)
qed

theorem webrtc_delivery_authentic_witness:
  "session_reach demo_crypto demo_engine [] demo_delivered \<and> demo_delivery \<in> set (ws_events demo_delivered) \<and>
   demo_identity 3 = conn_remote (ws_connection demo_delivered) \<and>
   (\<exists>env. env_id demo_crypto env = Inr (demo_control_id 9) \<and> verify demo_crypto env = Inr ())"
proof -
  have "SessionDeliverCfr (demo_control_id 9) (demo_identity 3) (demo_payload 9) \<in> set ([] @ ws_events demo_delivered)"
    by (simp add: demo_delivered_def demo_delivery_def)
  from webrtc_delivery_authentic [OF demo_delivered_reach this] demo_delivered_reach this show ?thesis
    unfolding demo_delivery_def by auto
qed

text \<open>
  C28.  The engine is given a remote description only when the binding of the verified envelope is the one derived
  from that very description and the DTLS fingerprint in it: if applying an offer or an answer succeeds, or
  changes anything of the session, the description is UTF-8, has a fingerprint and matches its binding.
\<close>

theorem webrtc_description_bound:
  fixes E :: "('g, 'd, 'k, 'h, 'x) engine"
  assumes "a = ApplyOffer b d \<or> a = ApplyAnswer b d" and "process_action c E others a s = (r, s')"
    and "r = Some (Inr ()) \<or> s' \<noteq> s"
  shows "\<exists>fp. dtls_fingerprint d = (Inr fp :: 'x webrtc_error + u8 list) \<and> b = derive c d fp \<and> utf8_ok d"
proof -
  obtain message parse where run: "process_action c E others a s =
      and_do (lift_result id (verified_description c message b d (parse :: u8 list \<Rightarrow> 'x + 'd))) (\<lambda>d. engine_call others (set_remote_description E d)) s"
    using assms(1) by (auto simp: process_action_def)
  have "\<exists>x. verified_description c message b d parse = Inr x"
    using assms(2,3) unfolding run
    by (cases "verified_description c message b d parse") (auto simp: and_do_def lift_result_def fail_def)
  then show ?thesis by (auto dest!: verified_description_Inr intro: dtls_fingerprint_utf8)
qed

definition demo_sdp :: "u8 list" where
  "demo_sdp = ascii ''v=0'' @ [13, 10] @ ascii ''a=fingerprint:sha-256 AB''"

lemma demo_sdp_fingerprint: "dtls_fingerprint demo_sdp = (Inr (ascii ''sha-256 AB'') :: unit webrtc_error + u8 list)"
  by code_simp

theorem webrtc_description_bound_witness:
  "process_action demo_crypto demo_engine id (ApplyOffer (derive demo_crypto demo_sdp (ascii ''sha-256 AB'')) demo_sdp) demo_session =
     (Some (Inr ()), demo_session\<lparr>ws_engine := 1\<rparr>) \<and>
   (\<exists>fp. dtls_fingerprint demo_sdp = (Inr fp :: unit webrtc_error + u8 list) \<and> utf8_ok demo_sdp)"
proof -
  have run: "process_action demo_crypto demo_engine id (ApplyOffer (derive demo_crypto demo_sdp (ascii ''sha-256 AB'')) demo_sdp) demo_session =
     (Some (Inr ()), demo_session\<lparr>ws_engine := 1\<rparr>)"
    using dtls_fingerprint_utf8 [OF demo_sdp_fingerprint]
    by (simp add: process_action_def verified_description_def demo_sdp_fingerprint and_do_def lift_result_def ok_def engine_call_def
        demo_engine_def demo_session_def)
  from webrtc_description_bound [OF _ this] run show ?thesis by blast
qed

text \<open>
  C29.  Accepting a signal returns, with a result or an error, whatever the bytes: if the event channel has room for one
  event, and the tasks running meanwhile do not fill it.  An accepted envelope needs at most that one slot.
\<close>

theorem webrtc_accept_signal_returns:
  assumes "\<And>s. length (ws_events (others s)) \<le> length (ws_events s)" and "length (ws_events s) < ENGINE_EVENT_CAPACITY"
  shows "\<exists>r s'. accept_signal c E others wire s = (Some r, s')"
  using assms by (rule accept_signal_room)

theorem webrtc_accept_signal_returns_witness:
  "\<exists>r s'. accept_signal demo_crypto demo_engine id (envelope_bytes (demo_control 9)) demo_session = (Some r, s')"
  by (rule webrtc_accept_signal_returns) (simp_all add: demo_session_def ENGINE_EVENT_CAPACITY_def)

end
