(* ===== verification/BTree.thy ===== *)
theory BTree
  imports Main
begin

text \<open>
  \<open>BTreeMap\<close> of the Rust standard library, as far as this code uses it: an association list that is
  strictly ascending in its keys.  \<open>ordered_map\<close> is the contract the clients of the map rely on;
  what they build from it (a map filled in a loop, a traversal in key order) is proved inside the
  locale, and the list operations are its interpretation.
\<close>

subsection \<open>Operations\<close>

type_synonym ('k, 'v) btree_map = "('k \<times> 'v) list"

definition btree_new :: "('k, 'v) btree_map" where
  "btree_new = []"

fun btree_insert :: "'k::linorder \<Rightarrow> 'v \<Rightarrow> ('k, 'v) btree_map \<Rightarrow> ('k, 'v) btree_map" where
  "btree_insert k v [] = [(k, v)]"
| "btree_insert k v ((k', v') # m) =
     (if k < k' then (k, v) # (k', v') # m
      else if k = k' then (k, v) # m
      else (k', v') # btree_insert k v m)"

fun btree_remove :: "'k::linorder \<Rightarrow> ('k, 'v) btree_map \<Rightarrow> ('k, 'v) btree_map" where
  "btree_remove k [] = []"
| "btree_remove k ((k', v') # m) = (if k = k' then m else (k', v') # btree_remove k m)"

fun btree_get :: "('k::linorder, 'v) btree_map \<Rightarrow> 'k \<Rightarrow> 'v option" where
  "btree_get [] k = None"
| "btree_get ((k', v') # m) k = (if k = k' then Some v' else btree_get m k)"

definition btree_keys :: "('k, 'v) btree_map \<Rightarrow> 'k list" where
  "btree_keys m = map fst m"

definition btree_ok :: "('k::linorder, 'v) btree_map \<Rightarrow> bool" where
  "btree_ok m \<longleftrightarrow> sorted_wrt (<) (map fst m)"

subsection \<open>The contract\<close>

locale ordered_map =
  fixes new :: "'m"
    and get :: "'m \<Rightarrow> 'k::linorder \<Rightarrow> 'v option"
    and put :: "'k \<Rightarrow> 'v \<Rightarrow> 'm \<Rightarrow> 'm"
    and del :: "'k \<Rightarrow> 'm \<Rightarrow> 'm"
    and keys :: "'m \<Rightarrow> 'k list"
    and ok :: "'m \<Rightarrow> bool"
  assumes ok_new: "ok new"
    and ok_put: "ok m \<Longrightarrow> ok (put k v m)"
    and ok_del: "ok m \<Longrightarrow> ok (del k m)"
    and get_new: "get new = Map.empty"
    and get_put: "ok m \<Longrightarrow> get (put k v m) = (get m)(k \<mapsto> v)"
    and get_del: "ok m \<Longrightarrow> get (del k m) = (get m)(k := None)"
    and keys_sorted: "ok m \<Longrightarrow> sorted_wrt (<) (keys m)"
    and keys_set: "ok m \<Longrightarrow> set (keys m) = dom (get m)"
begin

lemma ok_fold: "ok m \<Longrightarrow> ok (fold (\<lambda>(k, v). put k v) kvs m)"
  by (induction kvs arbitrary: m) (auto simp: ok_put)

lemma get_fold: "ok m \<Longrightarrow> get (fold (\<lambda>(k, v). put k v) kvs m) = get m ++ map_of (rev kvs)"
proof (induction kvs arbitrary: m)
  case (Cons kv kvs)
  then show ?case by (cases kv) (simp add: ok_put get_put map_add_upd_left fun_eq_iff map_add_def split: option.splits)
qed simp

lemma get_fold_distinct:
  assumes "distinct (map fst kvs)"
  shows "get (fold (\<lambda>(k, v). put k v) kvs new) k = Some v \<longleftrightarrow> (k, v) \<in> set kvs"
  using assms by (simp add: get_fold ok_new get_new map_of_eq_Some_iff rev_map [symmetric])

lemma keys_fold:
  assumes "ok m"
  shows "set (keys (fold (\<lambda>(k, v). put k v) kvs m)) = dom (get m) \<union> fst ` set kvs"
  using assms by (simp add: keys_set ok_fold get_fold dom_map_of_conv_image_fst Un_commute)

lemma keys_unique: "ok m \<Longrightarrow> ok m' \<Longrightarrow> get m = get m' \<Longrightarrow> keys m = keys m'"
  by (metis keys_set keys_sorted sorted_list_of_set.idem_if_sorted_distinct strict_sorted_iff)

end

subsection \<open>The list operations satisfy it\<close>

lemma btree_insert_keys: "fst ` set (btree_insert k v m) = insert k (fst ` set m)"
  by (induction m rule: btree_insert.induct) auto

lemma btree_ok_Cons:
  "btree_ok ((k, v) # m) \<longleftrightarrow> btree_ok m \<and> (\<forall>k' \<in> fst ` set m. k < k')"
  by (auto simp: btree_ok_def)

lemma btree_ok_insert: "btree_ok m \<Longrightarrow> btree_ok (btree_insert k v m)"
  by (induction m rule: btree_insert.induct) (auto simp: btree_ok_Cons btree_insert_keys simp flip: btree_ok_def)

lemma btree_remove_subset: "set (btree_remove k m) \<subseteq> set m"
  by (induction m rule: btree_remove.induct) auto

lemma btree_ok_remove: "btree_ok m \<Longrightarrow> btree_ok (btree_remove k m)"
proof (induction m rule: btree_remove.induct)
  case (2 k k' v' m)
  then show ?case using btree_remove_subset [of k m] by (auto simp: btree_ok_Cons)
qed simp

lemma btree_get_map_of: "btree_get m = map_of m"
proof
  show "btree_get m k = map_of m k" for k
    by (induction m k rule: btree_get.induct) auto
qed

lemma btree_get_insert: "btree_ok m \<Longrightarrow> btree_get (btree_insert k v m) = (btree_get m)(k \<mapsto> v)"
  by (induction m rule: btree_insert.induct) (auto simp: btree_ok_Cons fun_eq_iff)

lemma btree_get_remove: "btree_ok m \<Longrightarrow> btree_get (btree_remove k m) = (btree_get m)(k := None)"
proof (induction m rule: btree_remove.induct)
  case (2 k k' v' m)
  then have "k' \<notin> dom (btree_get m)"
    by (auto simp: btree_ok_Cons btree_get_map_of dom_map_of_conv_image_fst)
  with 2 show ?case by (auto simp: btree_ok_Cons fun_eq_iff domIff)
qed (simp add: fun_eq_iff)

lemma dom_btree_get: "dom (btree_get m) = fst ` set m"
  by (simp add: btree_get_map_of dom_map_of_conv_image_fst)

interpretation btree: ordered_map btree_new btree_get btree_insert btree_remove btree_keys btree_ok
  by unfold_locales
    (simp_all add: btree_ok_insert btree_ok_remove btree_get_insert btree_get_remove dom_btree_get,
     simp_all add: btree_new_def btree_ok_def btree_keys_def fun_eq_iff)

end
