(* ===== verification/Configuration.thy ===== *)
theory Configuration
  imports Wire
begin

text \<open>
  Signed federation configurations (\<open>libfcp-core/src/configuration.rs\<close>): the member bindings,
  their validation, the canonical snapshot and the parser.  The parser indexes slices with
  \<open>wire[a..b]\<close>, so its results carry a \<open>fault\<close>; that it never panics is a theorem.
\<close>

subsection \<open>Definitions\<close>

definition FEDERATION_CONFIG_MARKER :: "4 bytes" where
  "FEDERATION_CONFIG_MARKER = padded [0x46, 0x43, 0x46, 0x47]"

definition FEDERATION_CONFIG_VERSION :: u8 where
  "FEDERATION_CONFIG_VERSION = 1"

definition MAX_FEDERATION_MEMBERS :: nat where
  "MAX_FEDERATION_MEMBERS = 1024"

definition IDENTITY_BYTES :: nat where
  "IDENTITY_BYTES = 32 + 1952"

definition MEMBER_BYTES :: nat where
  "MEMBER_BYTES = 32 + IDENTITY_BYTES"

definition FIXED_HEADER_BYTES :: nat where
  "FIXED_HEADER_BYTES = 4 + 1 + 32 + IDENTITY_BYTES + 8 + 2"

definition SIGNATURE_BYTES :: nat where
  "SIGNATURE_BYTES = 64 + 3309"

lemmas config_consts =
  IDENTITY_BYTES_def MEMBER_BYTES_def FIXED_HEADER_BYTES_def SIGNATURE_BYTES_def MAX_FEDERATION_MEMBERS_def

datatype federation_member =
  FederationMember (member_cfr_identity: "32 bytes") (member_endpoint: endpoint_identity)

record federation_configuration =
  cfg_federation :: federation_id
  cfg_authority :: endpoint_identity
  cfg_epoch :: u64
  cfg_members :: "federation_member list"

record signed_federation_configuration =
  sfc_configuration :: federation_configuration
  sfc_classical_signature :: "64 bytes"
  sfc_post_quantum_signature :: "3309 bytes"

fun validate_members :: "32 bytes set \<Rightarrow> endpoint_identity set \<Rightarrow> federation_member list \<Rightarrow> error + unit" where
  "validate_members identities endpoints [] = Inr ()"
| "validate_members identities endpoints (m # ms) =
     (if member_cfr_identity m \<in> identities then Inl DuplicateFederationMember
      else if member_endpoint m \<in> endpoints then Inl DuplicateFederationMember
      else validate_members (insert (member_cfr_identity m) identities) (insert (member_endpoint m) endpoints) ms)"

definition config_validate :: "federation_configuration \<Rightarrow> error + unit" where
  "config_validate cfg =
     (if length (cfg_members cfg) > MAX_FEDERATION_MEMBERS then Inl TooManyFederationMembers
      else validate_members {} {} (cfg_members cfg))"

definition config_new ::
  "federation_id \<Rightarrow> endpoint_identity \<Rightarrow> u64 \<Rightarrow> federation_member list \<Rightarrow> error + federation_configuration" where
  "config_new federation authority epoch members =
     (let cfg = \<lparr> cfg_federation = federation, cfg_authority = authority, cfg_epoch = epoch,
                  cfg_members = members \<rparr>
      in and_then (config_validate cfg) (\<lambda>_. Inr cfg))"

definition config_write_identity :: "u8 list \<Rightarrow> endpoint_identity \<Rightarrow> u8 list" where
  "config_write_identity bs identity =
     (bs @ bytes_list (endpoint_key_bytes (classical identity))) @ bytes_list (post_quantum identity)"

definition u16_try_from :: "nat \<Rightarrow> u16 option" where
  "u16_try_from n = (if n < 2 ^ 16 then Some (of_nat n) else None)"

definition config_signed_bytes :: "federation_configuration \<Rightarrow> error + u8 list" where
  "config_signed_bytes cfg =
     and_then (config_validate cfg) (\<lambda>_.
     and_then (ok_or TooManyFederationMembers (u16_try_from (length (cfg_members cfg)))) (\<lambda>member_count.
     let bs = bytes_list FEDERATION_CONFIG_MARKER;
         bs = bs @ [FEDERATION_CONFIG_VERSION];
         bs = bs @ bytes_list (federation_bytes (cfg_federation cfg));
         bs = config_write_identity bs (cfg_authority cfg);
         bs = bs @ to_be_bytes (cfg_epoch cfg);
         bs = bs @ to_be_bytes member_count
     in Inr (fold (\<lambda>m bs. config_write_identity (bs @ bytes_list (member_cfr_identity m)) (member_endpoint m))
               (cfg_members cfg) bs)))"

definition map_configuration_classical_error :: "error \<Rightarrow> error" where
  "map_configuration_classical_error e =
     (case e of BadSenderKey \<Rightarrow> BadConfigurationAuthority
      | BadSignature \<Rightarrow> BadConfigurationSignature
      | other \<Rightarrow> other)"

definition map_configuration_pq_error :: "error \<Rightarrow> error" where
  "map_configuration_pq_error e =
     (case e of BadPostQuantumKey \<Rightarrow> BadConfigurationAuthority
      | BadPostQuantumSignature \<Rightarrow> BadConfigurationSignature
      | BadPostQuantumSignatureEncoding \<Rightarrow> BadConfigurationSignature
      | other \<Rightarrow> other)"

definition config_sign :: "federation_configuration \<Rightarrow> signer \<Rightarrow> error + signed_federation_configuration" where
  "config_sign cfg s =
     (if cfg_authority cfg \<noteq> signer_endpoint s then Inl WrongConfigurationAuthority
      else and_then (config_signed_bytes cfg) (\<lambda>transcript.
        Inr \<lparr> sfc_configuration = cfg, sfc_classical_signature = sign_classical s transcript,
              sfc_post_quantum_signature = sign_post_quantum s transcript \<rparr>))"

definition config_verify :: "crypto \<Rightarrow> signed_federation_configuration \<Rightarrow> error + unit" where
  "config_verify c sc =
     and_then (config_signed_bytes (sfc_configuration sc)) (\<lambda>transcript.
     let authority = cfg_authority (sfc_configuration sc) in
     and_then (map_err map_configuration_classical_error
       (verify_classical c authority transcript (sfc_classical_signature sc))) (\<lambda>_.
     map_err map_configuration_pq_error
       (verify_post_quantum c authority transcript (sfc_post_quantum_signature sc))))"

definition config_encode :: "signed_federation_configuration \<Rightarrow> error + u8 list" where
  "config_encode sc =
     and_then (config_signed_bytes (sfc_configuration sc)) (\<lambda>wire.
     Inr ((wire @ bytes_list (sfc_classical_signature sc)) @ bytes_list (sfc_post_quantum_signature sc)))"

definition config_read_identity :: "u8 list \<Rightarrow> error fault + endpoint_identity" where
  "config_read_identity bs =
     (if length bs \<noteq> IDENTITY_BYTES then Inl (Err Truncated) else
      and_then (index_range bs 0 32) (\<lambda>k.
      and_then (ok_or (Err Truncated) (try_into k)) (\<lambda>key.
      and_then (index_range bs 32 (length bs)) (\<lambda>q.
      and_then (ok_or (Err Truncated) (try_into q)) (\<lambda>pq.
      Inr (EndpointIdentity (EndpointKey key) pq))))))"

definition parse_member :: "u8 list \<Rightarrow> error fault + federation_member" where
  "parse_member bs =
     (if length bs \<noteq> MEMBER_BYTES then Inl (Err Truncated) else
      and_then (index_range bs 0 32) (\<lambda>k.
      and_then (ok_or (Err Truncated) (try_into k)) (\<lambda>cfr_identity.
      and_then (index_range bs 32 (length bs)) (\<lambda>e.
      and_then (config_read_identity e) (\<lambda>endpoint.
      Inr (FederationMember cfr_identity endpoint))))))"

record parsed_configuration =
  parsed_federation :: federation_id
  parsed_authority :: endpoint_identity
  parsed_epoch :: u64
  parsed_member_bytes :: "u8 list"
  parsed_signature_offset :: nat

definition parse_wire :: "u8 list \<Rightarrow> error fault + parsed_configuration" where
  "parse_wire wire =
     (if length wire < FIXED_HEADER_BYTES + SIGNATURE_BYTES then Inl (Err Truncated) else
      and_then (index_range wire 0 4) (\<lambda>marker.
      if marker \<noteq> bytes_list FEDERATION_CONFIG_MARKER then Inl (Err BadConfigurationMarker) else
      and_then (index_at wire 4) (\<lambda>version.
      if version \<noteq> FEDERATION_CONFIG_VERSION then Inl (Err UnsupportedConfigurationVersion) else
      and_then (index_range wire 5 37) (\<lambda>bs.
      and_then (ok_or (Err Truncated) (try_into bs)) (\<lambda>federation.
      and_then (index_range wire 37 (37 + IDENTITY_BYTES)) (\<lambda>bs.
      and_then (config_read_identity bs) (\<lambda>authority.
      let epoch_start = 37 + IDENTITY_BYTES in
      and_then (index_range wire epoch_start (epoch_start + 8)) (\<lambda>bs.
      and_then (ok_or (Err Truncated) (try_into bs)) (\<lambda>epoch_bytes :: 8 bytes.
      let epoch = from_be_bytes (bytes_list epoch_bytes); count_start = epoch_start + 8 in
      and_then (index_range wire count_start (count_start + 2)) (\<lambda>bs.
      and_then (ok_or (Err Truncated) (try_into bs)) (\<lambda>count_bytes :: 2 bytes.
      let count = unat (from_be_bytes (bytes_list count_bytes) :: u16) in
      if count > MAX_FEDERATION_MEMBERS then Inl (Err TooManyFederationMembers) else
      and_then (ok_or (Err TooManyFederationMembers) (checked_mul count MEMBER_BYTES)) (\<lambda>member_bytes_len.
      and_then (ok_or (Err TooManyFederationMembers) (checked_add FIXED_HEADER_BYTES member_bytes_len)) (\<lambda>signature_offset.
      and_then (ok_or (Err TooManyFederationMembers) (checked_add signature_offset SIGNATURE_BYTES)) (\<lambda>expected.
      if length wire < expected then Inl (Err Truncated)
      else if length wire > expected then Inl (Err TrailingBytes)
      else and_then (index_range wire FIXED_HEADER_BYTES signature_offset) (\<lambda>member_bytes.
      Inr \<lparr> parsed_federation = FederationId federation, parsed_authority = authority,
            parsed_epoch = epoch, parsed_member_bytes = member_bytes,
            parsed_signature_offset = signature_offset \<rparr>)))))))))))))))"

definition config_decode_verified :: "crypto \<Rightarrow> u8 list \<Rightarrow> error fault + signed_federation_configuration" where
  "config_decode_verified c wire =
     and_then (parse_wire wire) (\<lambda>parsed.
     let authority = parsed_authority parsed; offset = parsed_signature_offset parsed in
     and_then (index_range wire offset (offset + 64)) (\<lambda>bs.
     and_then (ok_or (Err Truncated) (try_into bs)) (\<lambda>classical_signature.
     and_then (index_range wire (offset + 64) (length wire)) (\<lambda>bs.
     and_then (ok_or (Err Truncated) (try_into bs)) (\<lambda>post_quantum_signature.
     and_then (index_range wire 0 offset) (\<lambda>signed.
     and_then (lift_err (map_err map_configuration_classical_error
       (verify_classical c authority signed classical_signature))) (\<lambda>_.
     and_then (lift_err (map_err map_configuration_pq_error
       (verify_post_quantum c authority signed post_quantum_signature))) (\<lambda>_.
     and_then (try_map parse_member (chunks_exact MEMBER_BYTES (parsed_member_bytes parsed))) (\<lambda>members.
     and_then (lift_err (config_new (parsed_federation parsed) authority (parsed_epoch parsed) members)) (\<lambda>cfg.
     Inr \<lparr> sfc_configuration = cfg, sfc_classical_signature = classical_signature,
           sfc_post_quantum_signature = post_quantum_signature \<rparr>))))))))))"

subsection \<open>The snapshot as a byte string\<close>

definition member_wire :: "federation_member \<Rightarrow> u8 list" where
  "member_wire m = bytes_list (member_cfr_identity m) @ identity_bytes (member_endpoint m)"

definition config_header :: "federation_id \<Rightarrow> endpoint_identity \<Rightarrow> u64 \<Rightarrow> u16 \<Rightarrow> u8 list" where
  "config_header f a e n = bytes_list (federation_bytes f) @ identity_bytes a @ to_be_bytes e @ to_be_bytes n"

definition config_transcript :: "federation_configuration \<Rightarrow> u8 list" where
  "config_transcript cfg =
     bytes_list FEDERATION_CONFIG_MARKER @ [FEDERATION_CONFIG_VERSION] @
     config_header (cfg_federation cfg) (cfg_authority cfg) (cfg_epoch cfg) (of_nat (length (cfg_members cfg))) @
     concat (map member_wire (cfg_members cfg))"

lemma length_member_wire [simp]: "length (member_wire m) = 2016"
  by (simp add: member_wire_def)

lemma length_members_wire [simp]: "length (concat (map member_wire ms)) = 2016 * length ms"
  by (induction ms) simp_all

lemma config_write_identity_eq [simp]: "config_write_identity bs i = bs @ identity_bytes i"
  by (simp add: config_write_identity_def identity_bytes_def)

lemma fold_members:
  "fold (\<lambda>m bs. bs @ bytes_list (member_cfr_identity m) @ identity_bytes (member_endpoint m)) ms bs =
     bs @ concat (map member_wire ms)"
  by (induction ms arbitrary: bs) (simp_all add: member_wire_def)

abbreviation config_ok :: "federation_configuration \<Rightarrow> bool" where
  "config_ok cfg \<equiv> config_validate cfg = Inr ()"

lemma validate_members_iff:
  "validate_members I E ms = Inr () \<longleftrightarrow>
     distinct (map member_cfr_identity ms) \<and> distinct (map member_endpoint ms) \<and>
     member_cfr_identity ` set ms \<inter> I = {} \<and> member_endpoint ` set ms \<inter> E = {}"
  by (induction I E ms rule: validate_members.induct) auto

lemma config_ok_iff:
  "config_ok cfg \<longleftrightarrow> length (cfg_members cfg) \<le> MAX_FEDERATION_MEMBERS \<and>
     distinct (map member_cfr_identity (cfg_members cfg)) \<and> distinct (map member_endpoint (cfg_members cfg))"
  by (auto simp: config_validate_def validate_members_iff)

lemma config_signed_bytes_eq: "config_ok cfg \<Longrightarrow> config_signed_bytes cfg = Inr (config_transcript cfg)"
proof -
  assume ok: "config_ok cfg"
  then have "length (cfg_members cfg) < 65536" by (simp add: config_ok_iff config_consts)
  then show ?thesis
    using ok by (simp add: config_signed_bytes_def fold_members config_transcript_def config_header_def
        u16_try_from_def Let_def)
qed

lemma config_signed_bytes_iff: "config_signed_bytes cfg = Inr t \<longleftrightarrow> config_ok cfg \<and> t = config_transcript cfg"
proof (cases "config_validate cfg")
  case (Inl e)
  then show ?thesis by (simp add: config_signed_bytes_def)
qed (auto simp: config_signed_bytes_eq)

definition config_wire :: "signed_federation_configuration \<Rightarrow> u8 list" where
  "config_wire sc = config_transcript (sfc_configuration sc) @ bytes_list (sfc_classical_signature sc) @
     bytes_list (sfc_post_quantum_signature sc)"

lemma config_encode_iff: "config_encode sc = Inr w \<longleftrightarrow> config_ok (sfc_configuration sc) \<and> w = config_wire sc"
  by (auto simp: config_encode_def and_then_eq_Inr config_signed_bytes_iff config_wire_def)

subsection \<open>Parsing\<close>

lemma config_read_identity_bytes [simp]: "config_read_identity (identity_bytes i) = Inr i"
  by (cases i) (simp add: config_read_identity_def config_consts identity_bytes_def)

lemma parse_member_wire [simp]: "parse_member (member_wire m) = Inr m"
  by (cases m) (simp add: parse_member_def config_consts member_wire_def)

lemma identity_of_length:
  assumes "length bs = 1984"
  obtains i where "bs = identity_bytes i"
proof -
  obtain k :: "32 bytes" where "take 32 bs = bytes_list k"
    using bytes_of_length [of "take 32 bs", where 'n = 32] assms by auto
  moreover obtain q :: "1952 bytes" where "drop 32 bs = bytes_list q"
    using bytes_of_length [of "drop 32 bs", where 'n = 1952] assms by auto
  ultimately have "bs = identity_bytes (EndpointIdentity (EndpointKey k) q)"
    using append_take_drop_id [of 32 bs] by (simp add: identity_bytes_def)
  with that show thesis by blast
qed

lemma members_of_length:
  "length bs = 2016 * n \<Longrightarrow> \<exists>ms. bs = concat (map member_wire ms) \<and> length ms = n"
proof (induction n arbitrary: bs)
  case (Suc n)
  obtain k :: "32 bytes" where k: "take 32 bs = bytes_list k"
    using bytes_of_length [of "take 32 bs", where 'n = 32] Suc.prems by auto
  obtain i where i: "take 1984 (drop 32 bs) = identity_bytes i"
    using identity_of_length [of "take 1984 (drop 32 bs)"] Suc.prems by auto
  obtain ms where ms: "drop 2016 bs = concat (map member_wire ms)" "length ms = n"
    using Suc.IH [of "drop 2016 bs"] Suc.prems by auto
  have "bs = take 32 bs @ take 1984 (drop 32 bs) @ drop 2016 bs"
    using append_take_drop_id [of 1984 "drop 32 bs"] append_take_drop_id [of 32 bs] by simp
  with k i ms have "bs = concat (map member_wire (FederationMember k i # ms))"
    by (simp add: member_wire_def)
  with ms(2) show ?case by (metis length_Cons)
qed simp

definition config_prefix :: "4 bytes \<Rightarrow> u8 \<Rightarrow> federation_id \<Rightarrow> endpoint_identity \<Rightarrow> u64 \<Rightarrow> u16 \<Rightarrow> u8 list" where
  "config_prefix mk v f a e n = bytes_list mk @ [v] @ config_header f a e n"

lemma length_config_prefix [simp]: "length (config_prefix mk v f a e n) = 2031"
  by (simp add: config_prefix_def config_header_def)

lemma config_prefix_of_length:
  assumes "length bs = 2031"
  obtains mk v f a e n where "bs = config_prefix mk v f a e n"
proof -
  obtain mk :: "4 bytes" where mk: "take 4 bs = bytes_list mk"
    using bytes_of_length [of "take 4 bs", where 'n = 4] assms by auto
  obtain f :: "32 bytes" where f: "take 32 (drop 5 bs) = bytes_list f"
    using bytes_of_length [of "take 32 (drop 5 bs)", where 'n = 32] assms by auto
  obtain a where a: "take 1984 (drop 37 bs) = identity_bytes a"
    using identity_of_length [of "take 1984 (drop 37 bs)"] assms by auto
  have e: "to_be_bytes (from_be_bytes (take 8 (drop 2021 bs)) :: u64) = take 8 (drop 2021 bs)"
    using assms by (intro to_from_be_bytes) simp_all
  have n: "to_be_bytes (from_be_bytes (drop 2029 bs) :: u16) = drop 2029 bs"
    using assms by (intro to_from_be_bytes) simp_all
  have v: "take 1 (drop 4 bs) = [bs ! 4]"
    using assms by (simp add: take_Suc_conv_app_nth)
  have "bs = take 4 bs @ take 1 (drop 4 bs) @ take 32 (drop 5 bs) @ take 1984 (drop 37 bs) @
      take 8 (drop 2021 bs) @ drop 2029 bs"
    using append_take_drop_id [of 4 bs] append_take_drop_id [of 1 "drop 4 bs"]
      append_take_drop_id [of 32 "drop 5 bs"] append_take_drop_id [of 1984 "drop 37 bs"]
      append_take_drop_id [of 8 "drop 2021 bs"] by simp
  with mk f a e n v have "bs = config_prefix mk (bs ! 4) (FederationId f) a
      (from_be_bytes (take 8 (drop 2021 bs))) (from_be_bytes (drop 2029 bs))"
    by (simp add: config_prefix_def config_header_def)
  with that show thesis by blast
qed

lemma config_prefix_parts [simp]:
  "take 4 (config_prefix mk v f a e n) = bytes_list mk"
  "(config_prefix mk v f a e n @ rest) ! 4 = v"
  "take 32 (drop 5 (config_prefix mk v f a e n)) = bytes_list (federation_bytes f)"
  "take 1984 (drop 37 (config_prefix mk v f a e n)) = identity_bytes a"
  "take 8 (drop 2021 (config_prefix mk v f a e n)) = to_be_bytes e"
  "drop 2029 (config_prefix mk v f a e n) = to_be_bytes n"
  by (simp_all add: config_prefix_def config_header_def nth_append drop_Cons')

lemma try_into_be [simp]:
  "try_into (to_be_bytes (e :: u64)) = Some (padded (to_be_bytes e) :: 8 bytes)"
  "try_into (to_be_bytes (n :: u16)) = Some (padded (to_be_bytes n) :: 2 bytes)"
  by (simp_all add: try_into_def)

lemma parse_wire_prefix:
  "parse_wire (config_prefix mk v f a e n @ rest) =
     (if length rest < 3373 then Inl (Err Truncated)
      else if mk \<noteq> FEDERATION_CONFIG_MARKER then Inl (Err BadConfigurationMarker)
      else if v \<noteq> FEDERATION_CONFIG_VERSION then Inl (Err UnsupportedConfigurationVersion)
      else if unat n > 1024 then Inl (Err TooManyFederationMembers)
      else if length rest < 2016 * unat n + 3373 then Inl (Err Truncated)
      else if length rest > 2016 * unat n + 3373 then Inl (Err TrailingBytes)
      else Inr \<lparr> parsed_federation = f, parsed_authority = a, parsed_epoch = e,
             parsed_member_bytes = take (2016 * unat n) rest,
             parsed_signature_offset = 2031 + 2016 * unat n \<rparr>)"
  unfolding parse_wire_def
  by (simp add: config_consts checked_mul_def checked_add_def USIZE_BITS_def Let_def mult.commute)

lemma config_parse_members: "try_map parse_member (chunks_exact MEMBER_BYTES (concat (map member_wire ms))) = Inr ms"
  by (simp add: chunks_exact_concat config_consts try_map_map)

lemma sfc_of_wire:
  assumes "length bs = 2016 * unat n + 3373"
  obtains ms and cs :: "64 bytes" and ps :: "3309 bytes"
  where "bs = concat (map member_wire ms) @ bytes_list cs @ bytes_list ps" and "n = of_nat (length ms)"
    and "length ms = unat n"
proof -
  let ?k = "2016 * unat n"
  obtain ms where ms: "take ?k bs = concat (map member_wire ms)" "length ms = unat n"
    using members_of_length [of "take ?k bs" "unat n"] assms by auto
  obtain cs :: "64 bytes" where cs: "take 64 (drop ?k bs) = bytes_list cs"
    using bytes_of_length [of "take 64 (drop ?k bs)", where 'n = 64] assms by auto
  obtain ps :: "3309 bytes" where ps: "drop 64 (drop ?k bs) = bytes_list ps"
    using bytes_of_length [of "drop 64 (drop ?k bs)", where 'n = 3309] assms by auto
  have "bs = take ?k bs @ take 64 (drop ?k bs) @ drop 64 (drop ?k bs)"
    by (simp only: append_take_drop_id)
  then have "bs = concat (map member_wire ms) @ bytes_list cs @ bytes_list ps"
    unfolding ms(1) cs ps .
  from that [OF this _ ms(2)] show thesis by (simp add: ms(2))
qed

lemma config_transcript_prefix:
  "config_transcript cfg =
     config_prefix FEDERATION_CONFIG_MARKER FEDERATION_CONFIG_VERSION (cfg_federation cfg) (cfg_authority cfg)
       (cfg_epoch cfg) (of_nat (length (cfg_members cfg))) @ concat (map member_wire (cfg_members cfg))"
  by (simp add: config_transcript_def config_prefix_def)

lemma config_decode_wire:
  assumes "length (cfg_members (sfc_configuration sc)) \<le> MAX_FEDERATION_MEMBERS"
  shows "config_decode_verified c (config_wire sc) =
     (let t = config_transcript (sfc_configuration sc); authority = cfg_authority (sfc_configuration sc) in
      and_then (lift_err (map_err map_configuration_classical_error
        (verify_classical c authority t (sfc_classical_signature sc)))) (\<lambda>_.
      and_then (lift_err (map_err map_configuration_pq_error
        (verify_post_quantum c authority t (sfc_post_quantum_signature sc)))) (\<lambda>_.
      and_then (lift_err (config_validate (sfc_configuration sc))) (\<lambda>_. Inr sc))))"
proof -
  let ?cfg = "sfc_configuration sc"
  let ?ms = "cfg_members ?cfg"
  have un: "unat (of_nat (length ?ms) :: u16) = length ?ms"
    using assms by (simp add: unat_of_nat config_consts)
  have len: "length ?ms \<le> 1024" using assms by (simp add: config_consts)
  let ?p = "config_prefix FEDERATION_CONFIG_MARKER FEDERATION_CONFIG_VERSION (cfg_federation ?cfg)
     (cfg_authority ?cfg) (cfg_epoch ?cfg) (of_nat (length ?ms))"
  have w: "config_wire sc = ?p @ concat (map member_wire ?ms) @
      bytes_list (sfc_classical_signature sc) @ bytes_list (sfc_post_quantum_signature sc)"
    by (simp add: config_wire_def config_transcript_prefix)
  let ?t = "config_transcript ?cfg"
  have lt: "length ?t = 2031 + 2016 * length ?ms"
    by (simp add: config_transcript_prefix)
  have parse: "parse_wire (config_wire sc) = Inr \<lparr> parsed_federation = cfg_federation ?cfg,
      parsed_authority = cfg_authority ?cfg, parsed_epoch = cfg_epoch ?cfg,
      parsed_member_bytes = concat (map member_wire ?ms), parsed_signature_offset = length ?t \<rparr>"
    unfolding w parse_wire_prefix un using len lt by simp
  have slices: "index_range (config_wire sc) (length ?t) (length ?t + 64) = Inr (bytes_list (sfc_classical_signature sc))"
    "index_range (config_wire sc) (length ?t + 64) (length (config_wire sc)) = Inr (bytes_list (sfc_post_quantum_signature sc))"
    "index_range (config_wire sc) 0 (length ?t) = Inr ?t"
    by (simp_all add: config_wire_def)
  have eta: "\<lparr> sfc_configuration = ?cfg, sfc_classical_signature = sfc_classical_signature sc,
       sfc_post_quantum_signature = sfc_post_quantum_signature sc \<rparr> = sc"
    "\<lparr> cfg_federation = cfg_federation ?cfg, cfg_authority = cfg_authority ?cfg, cfg_epoch = cfg_epoch ?cfg,
       cfg_members = ?ms \<rparr> = ?cfg"
    by simp_all
  have new: "config_new (cfg_federation ?cfg) (cfg_authority ?cfg) (cfg_epoch ?cfg) ?ms =
      and_then (config_validate ?cfg) (\<lambda>_. Inr ?cfg)"
    by (simp only: config_new_def eta Let_def)
  show ?thesis
    unfolding config_decode_verified_def parse
    by (cases "config_validate ?cfg")
      (simp_all only: and_then_Inr and_then_Inl Let_def parsed_configuration.simps slices ok_or_simps
        try_into_bytes_list config_parse_members new eta map_err_simps)
qed

lemma parse_wire_cases:
  obtains e where "parse_wire w = Inl (Err e)"
  | sc where "w = config_wire sc" "length (cfg_members (sfc_configuration sc)) \<le> MAX_FEDERATION_MEMBERS"
proof (cases "length w < 2031")
  case True
  then have "parse_wire w = Inl (Err Truncated)" by (simp add: parse_wire_def config_consts)
  with that(1) show thesis .
next
  case False
  then have "length (take 2031 w) = 2031" by simp
  then obtain mk v f a e n where "take 2031 w = config_prefix mk v f a e n"
    by (rule config_prefix_of_length)
  then obtain rest where w: "w = config_prefix mk v f a e n @ rest"
    by (metis append_take_drop_id)
  show thesis
  proof (cases "mk = FEDERATION_CONFIG_MARKER \<and> v = FEDERATION_CONFIG_VERSION \<and> unat n \<le> 1024 \<and>
      length rest = 2016 * unat n + 3373")
    case True
    then have len: "length rest = 2016 * unat n + 3373" by blast
    obtain ms and cs :: "64 bytes" and ps :: "3309 bytes"
      where rest: "rest = concat (map member_wire ms) @ bytes_list cs @ bytes_list ps"
        and n: "n = of_nat (length ms)" "length ms = unat n"
      using sfc_of_wire [OF len] .
    let ?sc = "\<lparr> sfc_configuration = \<lparr> cfg_federation = f, cfg_authority = a, cfg_epoch = e, cfg_members = ms \<rparr>,
      sfc_classical_signature = cs, sfc_post_quantum_signature = ps \<rparr>"
    have "w = config_wire ?sc"
      using True by (simp add: w rest n(1) config_wire_def config_transcript_prefix)
    moreover have "length ms \<le> MAX_FEDERATION_MEMBERS"
      using True n(2) by (simp add: config_consts)
    ultimately show thesis using that(2) [of ?sc] by simp
  next
    case False
    have "\<exists>e. parse_wire w = Inl (Err e)"
      unfolding w parse_wire_prefix using False by (auto simp: not_less)
    with that(1) show thesis by blast
  qed
qed

lemma config_decode_iff:
  "config_decode_verified c w = Inr sc \<longleftrightarrow> config_encode sc = Inr w \<and> config_verify c sc = Inr ()"
proof
  assume dec: "config_decode_verified c w = Inr sc"
  then obtain sc' where w: "w = config_wire sc'" and len: "length (cfg_members (sfc_configuration sc')) \<le> MAX_FEDERATION_MEMBERS"
    by (cases w rule: parse_wire_cases) (auto simp: config_decode_verified_def)
  from dec show "config_encode sc = Inr w \<and> config_verify c sc = Inr ()"
    unfolding w config_decode_wire [OF len]
    by (auto simp: and_then_eq_Inr map_err_eq_Inr config_encode_iff config_verify_def config_signed_bytes_eq Let_def)
next
  assume enc: "config_encode sc = Inr w \<and> config_verify c sc = Inr ()"
  then have ok: "config_ok (sfc_configuration sc)" and w: "w = config_wire sc"
    by (auto simp: config_encode_iff)
  then have "length (cfg_members (sfc_configuration sc)) \<le> MAX_FEDERATION_MEMBERS" by (simp add: config_ok_iff)
  from config_decode_wire [OF this] show "config_decode_verified c w = Inr sc"
    using enc ok by (auto simp: w config_verify_def config_signed_bytes_eq and_then_eq_Inr map_err_eq_Inr Let_def)
qed

lemma config_decode_no_panic: "config_decode_verified c w \<noteq> Inl Panic"
proof (cases w rule: parse_wire_cases)
  case (2 sc)
  have "map_err Err r \<noteq> Inl Panic" for r :: "error + 'a" by (cases r) simp_all
  then show ?thesis
    unfolding 2(1) config_decode_wire [OF 2(2)] by (auto simp: and_then_eq_Inl Let_def)
qed (simp add: config_decode_verified_def)

lemma config_transcript_inject:
  assumes "config_ok cfg" and "config_ok cfg'" and "config_transcript cfg = config_transcript cfg'"
  shows "cfg = cfg'"
proof -
  let ?c = "\<lparr> ed25519_key_from_bytes = (\<lambda>_. True), ed25519_verify_strict = (\<lambda>_ _ _. True),
     mldsa_key_try_from = (\<lambda>_. True), mldsa_signature_try_from = (\<lambda>_. True),
     mldsa_verify = (\<lambda>_ _ _. True), blake3_hash = (\<lambda>_. filled 0) \<rparr>"
  let ?sc = "\<lambda>cfg. \<lparr> sfc_configuration = cfg, sfc_classical_signature = filled 0, sfc_post_quantum_signature = filled 0 \<rparr>"
  have "config_decode_verified ?c (config_wire (?sc cfg)) = Inr (?sc cfg)" if "config_ok cfg" for cfg
    using that by (simp add: config_decode_iff config_encode_iff config_verify_def config_signed_bytes_eq
        verify_classical_def verify_post_quantum_def)
  from this [OF assms(1)] this [OF assms(2)] show ?thesis
    using assms(3) by (simp add: config_wire_def)
qed

lemma config_sign_eq:
  "config_sign cfg s = Inr sc \<longleftrightarrow> cfg_authority cfg = signer_endpoint s \<and> config_ok cfg \<and>
     sc = \<lparr> sfc_configuration = cfg, sfc_classical_signature = sign_classical s (config_transcript cfg),
            sfc_post_quantum_signature = sign_post_quantum s (config_transcript cfg) \<rparr>"
  by (auto simp: config_sign_def and_then_eq_Inr config_signed_bytes_iff)

lemma config_sign_verifies:
  "honest_signer c s \<Longrightarrow> config_sign cfg s = Inr sc \<Longrightarrow> config_verify c sc = Inr ()"
  by (auto simp: config_sign_eq config_verify_def config_signed_bytes_eq honest_signerD)

subsection \<open>The contract of an authority\<close>

text \<open>
  What a client relies on when it receives a snapshot from the authority it pinned: everything the
  authority publishes verifies and is for its federation and under its identity.
\<close>

locale configuration_authority =
  fixes c :: crypto
    and federation :: federation_id
    and authority :: endpoint_identity
    and published :: "signed_federation_configuration \<Rightarrow> bool"
  assumes published_verifies: "published sc \<Longrightarrow> config_verify c sc = Inr ()"
    and published_federation: "published sc \<Longrightarrow> cfg_federation (sfc_configuration sc) = federation"
    and published_authority: "published sc \<Longrightarrow> cfg_authority (sfc_configuration sc) = authority"
begin

lemma published_wire:
  assumes "published sc"
  shows "config_encode sc = Inr (config_wire sc)" "config_decode_verified c (config_wire sc) = Inr sc"
proof -
  have "config_ok (sfc_configuration sc)"
    using published_verifies [OF assms] by (auto simp: config_verify_def and_then_eq_Inr config_signed_bytes_iff)
  then show "config_encode sc = Inr (config_wire sc)" by (simp add: config_encode_iff)
  then show "config_decode_verified c (config_wire sc) = Inr sc"
    using published_verifies [OF assms] by (simp add: config_decode_iff)
qed

end

subsection \<open>A concrete configuration\<close>

definition demo_members :: "federation_member list" where
  "demo_members = [FederationMember (filled 13) (demo_identity 3), FederationMember (filled 14) (demo_identity 4)]"

definition demo_configuration :: "u64 \<Rightarrow> federation_configuration" where
  "demo_configuration epoch = \<lparr> cfg_federation = FederationId (filled 1), cfg_authority = demo_identity 7,
     cfg_epoch = epoch, cfg_members = demo_members \<rparr>"

lemma filled_eq [simp]: "(filled a :: 'n::len bytes) = filled b \<longleftrightarrow> a = b"
proof
  assume "(filled a :: 'n bytes) = filled b"
  then have "hd (bytes_list (filled a :: 'n bytes)) = hd (bytes_list (filled b :: 'n bytes))" by simp
  then show "a = b" by simp
qed simp

lemma demo_configuration_ok [simp]: "config_ok (demo_configuration n)"
  by (simp add: config_ok_iff demo_configuration_def demo_members_def config_consts)

subsection \<open>Properties\<close>

text \<open>
  C24.  Parsing and printing of signed configurations are inverse: \<open>decode_verified\<close> accepts exactly
  the encodings of configurations whose two authority signatures verify, and returns the
  configuration.  The format is canonical although the parser has no canonicity check.
\<close>

theorem configuration_decode_encode:
  "config_decode_verified c w = Inr sc \<longleftrightarrow> config_encode sc = Inr w \<and> config_verify c sc = Inr ()"
  by (rule config_decode_iff)

text \<open>
  The configuration parser never panics: every slice expression of \<open>parse_wire\<close>,
  \<open>decode_verified\<close>, \<open>parse_member\<close> and \<open>read_identity\<close> is in bounds on every input.
\<close>

theorem configuration_no_panic: "config_decode_verified c w \<noteq> Inl Panic"
  by (rule config_decode_no_panic)

text \<open>
  An accepted configuration is well-formed and authentic: at most \<open>MAX_FEDERATION_MEMBERS\<close>
  members, no CFR identity and no endpoint bound twice, and both signatures of the embedded
  authority verify over its canonical bytes.
\<close>

theorem configuration_accepted_valid:
  assumes "config_decode_verified c w = Inr sc"
  shows "length (cfg_members (sfc_configuration sc)) \<le> MAX_FEDERATION_MEMBERS \<and>
     distinct (map member_cfr_identity (cfg_members (sfc_configuration sc))) \<and>
     distinct (map member_endpoint (cfg_members (sfc_configuration sc))) \<and>
     (\<exists>t. config_signed_bytes (sfc_configuration sc) = Inr t \<and>
        verify_classical c (cfg_authority (sfc_configuration sc)) t (sfc_classical_signature sc) = Inr () \<and>
        verify_post_quantum c (cfg_authority (sfc_configuration sc)) t (sfc_post_quantum_signature sc) = Inr ())"
proof -
  from assms have "config_encode sc = Inr w" "config_verify c sc = Inr ()"
    by (simp_all add: config_decode_iff)
  then show ?thesis
    by (auto simp: config_encode_iff config_verify_def and_then_eq_Inr map_err_eq_Inr config_signed_bytes_eq
        config_ok_iff Let_def)
qed

theorem configuration_accepted_valid_witness:
  "\<exists>w sc. config_decode_verified demo_crypto w = Inr sc \<and> sfc_configuration sc = demo_configuration 5 \<and>
     distinct (map member_endpoint (cfg_members (sfc_configuration sc)))"
proof -
  obtain sc where sc: "config_sign (demo_configuration 5) (demo_signer 7) = Inr sc"
    by (simp add: config_sign_eq) (simp add: demo_configuration_def)
  then have "config_encode sc = Inr (config_wire sc)" "sfc_configuration sc = demo_configuration 5"
    by (auto simp: config_encode_iff config_sign_eq)
  moreover from this have "config_decode_verified demo_crypto (config_wire sc) = Inr sc"
    using config_sign_verifies [OF demo_signer_honest sc] by (simp add: config_decode_iff)
  ultimately show ?thesis
    using configuration_accepted_valid by blast
qed

text \<open>
  The signed snapshot is unambiguous: configurations with the same signed bytes are equal, so
  a signature on one never authorises another.
\<close>

theorem configuration_transcript_unambiguous:
  "config_signed_bytes cfg = Inr t \<Longrightarrow> config_signed_bytes cfg' = Inr t \<Longrightarrow> cfg = cfg'"
  by (auto simp: config_signed_bytes_iff intro: config_transcript_inject)

theorem configuration_transcript_unambiguous_witness:
  "\<exists>t. config_signed_bytes (demo_configuration 5) = Inr t \<and>
     config_signed_bytes \<lparr> cfg_federation = FederationId (filled 1), cfg_authority = demo_identity 7,
       cfg_epoch = 5, cfg_members = demo_members \<rparr> = Inr t \<and>
     demo_configuration 5 = \<lparr> cfg_federation = FederationId (filled 1), cfg_authority = demo_identity 7,
       cfg_epoch = 5, cfg_members = demo_members \<rparr>"
proof -
  have "config_signed_bytes (demo_configuration 5) = Inr (config_transcript (demo_configuration 5))"
    by (simp add: config_signed_bytes_eq)
  moreover from this have "config_signed_bytes \<lparr> cfg_federation = FederationId (filled 1),
       cfg_authority = demo_identity 7, cfg_epoch = 5, cfg_members = demo_members \<rparr> =
     Inr (config_transcript (demo_configuration 5))"
    by (simp add: demo_configuration_def)
  ultimately show ?thesis using configuration_transcript_unambiguous by blast
qed

end
