(* ===== verification/Server.thy ===== *)
theory Server
  imports Configuration
begin

text \<open>
  The configuration publisher (\<open>libfcp-server/src/server.rs\<close>): one federation's authority identity,
  the current snapshot, its replacement at strictly newer epochs, and publication.  It is an
  interpretation of \<open>configuration_authority\<close>, the contract clients rely on.
\<close>

subsection \<open>Definitions\<close>

datatype server_error = NonIncreasingEpoch | ServerCore error

record ('sk, 'psk) federation_server =
  srv_signer :: "('sk, 'psk) signing_identity"
  srv_configuration :: federation_configuration

definition server_new ::
  "('sk, 'psk) key_ops \<Rightarrow> federation_id \<Rightarrow> ('sk, 'psk) signing_identity \<Rightarrow>
     server_error + ('sk, 'psk) federation_server" where
  "server_new ops federation si =
     (let authority = signing_identity_endpoint ops si in
      and_then (map_err ServerCore (config_new federation authority 0 [])) (\<lambda>cfg.
      Inr \<lparr> srv_signer = si, srv_configuration = cfg \<rparr>))"

definition server_authority :: "('sk, 'psk) federation_server \<Rightarrow> endpoint_identity" where
  "server_authority srv = cfg_authority (srv_configuration srv)"

definition server_federation :: "('sk, 'psk) federation_server \<Rightarrow> federation_id" where
  "server_federation srv = cfg_federation (srv_configuration srv)"

definition server_epoch :: "('sk, 'psk) federation_server \<Rightarrow> u64" where
  "server_epoch srv = cfg_epoch (srv_configuration srv)"

definition replace_members ::
  "u64 \<Rightarrow> federation_member list \<Rightarrow> ('sk, 'psk) federation_server \<Rightarrow>
     (server_error + unit) \<times> ('sk, 'psk) federation_server" where
  "replace_members epoch members srv =
     (if epoch \<le> cfg_epoch (srv_configuration srv) then (Inl NonIncreasingEpoch, srv) else
      or_bail srv (map_err ServerCore
        (config_new (cfg_federation (srv_configuration srv)) (cfg_authority (srv_configuration srv)) epoch members))
        (\<lambda>cfg. (Inr (), srv\<lparr> srv_configuration := cfg \<rparr>)))"

definition publish ::
  "('sk, 'psk) key_ops \<Rightarrow> ('sk, 'psk) federation_server \<Rightarrow> server_error + signed_federation_configuration" where
  "publish ops srv =
     map_err ServerCore (config_sign (srv_configuration srv) (signing_identity_signer ops (srv_signer srv)))"

inductive server_reach ::
  "('sk, 'psk) key_ops \<Rightarrow> federation_id \<Rightarrow> ('sk, 'psk) signing_identity \<Rightarrow> ('sk, 'psk) federation_server \<Rightarrow> bool"
  for ops f si where
  server_init: "server_new ops f si = Inr srv \<Longrightarrow> server_reach ops f si srv"
| server_step: "server_reach ops f si srv \<Longrightarrow> replace_members epoch members srv = (res, srv') \<Longrightarrow>
     server_reach ops f si srv'"

subsection \<open>Lemmas\<close>

lemma config_new_iff:
  "config_new f a e ms = Inr cfg \<longleftrightarrow>
     cfg = \<lparr> cfg_federation = f, cfg_authority = a, cfg_epoch = e, cfg_members = ms \<rparr> \<and> config_ok cfg"
  by (auto simp: config_new_def and_then_eq_Inr Let_def)

lemma replace_members_cases:
  obtains (rejected) err where "replace_members epoch members srv = (Inl err, srv)"
  | (replaced) cfg where "replace_members epoch members srv = (Inr (), srv\<lparr> srv_configuration := cfg \<rparr>)"
      "server_epoch srv < epoch" "config_ok cfg"
      "cfg = \<lparr> cfg_federation = server_federation srv, cfg_authority = server_authority srv,
               cfg_epoch = epoch, cfg_members = members \<rparr>"
proof (cases "config_new (server_federation srv) (server_authority srv) epoch members")
  case (Inl e)
  then show thesis
    using rejected by (cases "epoch \<le> server_epoch srv")
      (auto simp: replace_members_def server_epoch_def server_federation_def server_authority_def)
next
  case (Inr cfg)
  show thesis
  proof (cases "epoch \<le> server_epoch srv")
    case True
    then show thesis using rejected by (simp add: replace_members_def server_epoch_def)
  next
    case False
    with Inr have "replace_members epoch members srv = (Inr (), srv\<lparr> srv_configuration := cfg \<rparr>)"
      by (simp add: replace_members_def server_epoch_def server_federation_def server_authority_def)
    then show thesis using Inr False by (intro replaced [of cfg]) (auto simp: config_new_iff)
  qed
qed

definition server_inv ::
  "('sk, 'psk) key_ops \<Rightarrow> federation_id \<Rightarrow> ('sk, 'psk) signing_identity \<Rightarrow> ('sk, 'psk) federation_server \<Rightarrow> bool" where
  "server_inv ops f si srv \<longleftrightarrow>
     srv_signer srv = si \<and> server_federation srv = f \<and> server_authority srv = signing_identity_endpoint ops si \<and>
     config_ok (srv_configuration srv)"

lemma server_new_ok:
  "\<exists>srv. server_new ops f si = Inr srv \<and> server_epoch srv = 0 \<and> cfg_members (srv_configuration srv) = []"
  by (simp add: server_new_def config_new_def config_validate_def server_epoch_def)

lemma server_reach_inv: "server_reach ops f si srv \<Longrightarrow> server_inv ops f si srv"
proof (induction rule: server_reach.induct)
  case (server_init srv)
  then show ?case
    by (auto simp: server_new_def and_then_eq_Inr map_err_eq_Inr config_new_iff server_inv_def
        server_federation_def server_authority_def)
next
  case (server_step srv epoch members res srv')
  then show ?case
    by (cases epoch members srv rule: replace_members_cases)
      (auto simp: server_inv_def server_federation_def server_authority_def)
qed

lemma publish_ok:
  assumes "server_reach ops f si srv"
  shows "\<exists>sc. publish ops srv = Inr sc \<and> sfc_configuration sc = srv_configuration srv \<and>
     config_sign (srv_configuration srv) (signing_identity_signer ops si) = Inr sc"
proof -
  have "server_inv ops f si srv" using assms by (rule server_reach_inv)
  then show ?thesis
    by (auto simp: publish_def server_inv_def map_err_eq_Inr config_sign_eq server_authority_def
        signing_identity_signer_def)
qed

definition server_published ::
  "crypto \<Rightarrow> ('sk, 'psk) key_ops \<Rightarrow> federation_id \<Rightarrow> ('sk, 'psk) signing_identity \<Rightarrow>
     signed_federation_configuration \<Rightarrow> bool" where
  "server_published c ops f si sc \<longleftrightarrow>
     signs_correctly c ops si \<and> (\<exists>srv. server_reach ops f si srv \<and> publish ops srv = Inr sc)"

interpretation server: configuration_authority c f "signing_identity_endpoint ops si" "server_published c ops f si"
  for c f and ops :: "('sk, 'psk) key_ops" and si
proof
  fix sc assume "server_published c ops f si sc"
  then obtain srv where correct: "signs_correctly c ops si" and reach: "server_reach ops f si srv"
    and pub: "publish ops srv = Inr sc"
    by (auto simp: server_published_def)
  have inv: "server_inv ops f si srv" using reach by (rule server_reach_inv)
  have sign: "config_sign (srv_configuration srv) (signing_identity_signer ops si) = Inr sc"
    and cfg: "sfc_configuration sc = srv_configuration srv"
    using publish_ok [OF reach] pub by auto
  show "config_verify c sc = Inr ()"
    using config_sign_verifies [OF signing_identity_honest [OF correct] sign] .
  show "cfg_federation (sfc_configuration sc) = f"
    "cfg_authority (sfc_configuration sc) = signing_identity_endpoint ops si"
    using inv cfg by (simp_all add: server_inv_def server_federation_def server_authority_def)
qed

lemma validate_members_cases:
  "validate_members I E ms = Inr () \<or> validate_members I E ms = Inl DuplicateFederationMember"
  by (induction I E ms rule: validate_members.induct) auto

lemma config_new_eq:
  "config_new f a e ms =
     (if length ms > MAX_FEDERATION_MEMBERS then Inl TooManyFederationMembers
      else if distinct (map member_cfr_identity ms) \<and> distinct (map member_endpoint ms)
      then Inr \<lparr> cfg_federation = f, cfg_authority = a, cfg_epoch = e, cfg_members = ms \<rparr>
      else Inl DuplicateFederationMember)"
  using validate_members_cases [of "{}" "{}" ms] validate_members_iff [of "{}" "{}" ms]
  by (auto simp: config_new_def config_validate_def)

subsection \<open>A concrete server\<close>

definition demo_ops :: "(u8, u8) key_ops" where
  "demo_ops = \<lparr> ed25519_verifying_key = (\<lambda>n. filled n), ed25519_sign = (\<lambda>n m. padded (n # m)),
     mldsa_verifying_key = (\<lambda>n. filled n), mldsa_sign = (\<lambda>n m. padded (n # m)) \<rparr>"

definition demo_signing :: "u8 \<Rightarrow> (u8, u8) signing_identity" where
  "demo_signing n = \<lparr> si_classical = n, si_post_quantum = n \<rparr>"

lemma demo_signs_correctly: "signs_correctly demo_crypto demo_ops (demo_signing n)"
  by (simp add: signs_correctly_def demo_crypto_def demo_ops_def demo_signing_def)

lemma demo_signing_endpoint: "signing_identity_endpoint demo_ops (demo_signing n) = demo_identity n"
  by (simp add: signing_identity_endpoint_def demo_ops_def demo_signing_def demo_identity_def)

definition demo_server :: "(u8, u8) federation_server" where
  "demo_server = \<lparr> srv_signer = demo_signing 7, srv_configuration = demo_configuration 5 \<rparr>"

lemma demo_server_reach: "server_reach demo_ops (FederationId (filled 1)) (demo_signing 7) demo_server"
proof -
  let ?srv = "\<lparr> srv_signer = demo_signing 7, srv_configuration = \<lparr> cfg_federation = FederationId (filled 1),
    cfg_authority = demo_identity 7, cfg_epoch = 0, cfg_members = [] \<rparr> \<rparr>"
  have "server_new demo_ops (FederationId (filled 1)) (demo_signing 7) = Inr ?srv"
    by (simp add: server_new_def config_new_eq demo_signing_endpoint config_consts)
  then have "server_reach demo_ops (FederationId (filled 1)) (demo_signing 7) ?srv" by (rule server_init)
  moreover have "replace_members 5 demo_members ?srv = (Inr (), demo_server)"
    by (simp add: replace_members_def config_new_eq demo_server_def demo_configuration_def demo_members_def config_consts)
  ultimately show ?thesis by (rule server_step)
qed

subsection \<open>Properties\<close>

text \<open>
  The complete behaviour of \<open>replace_members\<close>: an epoch that does not advance, too many
  members, or a CFR identity or endpoint bound twice is rejected with the corresponding error
  and leaves the server as it was; otherwise the snapshot is replaced at the new epoch, under the
  same federation and authority.
\<close>

theorem server_replace_members:
  "replace_members epoch members srv =
     (if epoch \<le> server_epoch srv then (Inl NonIncreasingEpoch, srv)
      else if length members > MAX_FEDERATION_MEMBERS then (Inl (ServerCore TooManyFederationMembers), srv)
      else if distinct (map member_cfr_identity members) \<and> distinct (map member_endpoint members)
      then (Inr (), srv\<lparr> srv_configuration := \<lparr> cfg_federation = server_federation srv,
              cfg_authority = server_authority srv, cfg_epoch = epoch, cfg_members = members \<rparr> \<rparr>)
      else (Inl (ServerCore DuplicateFederationMember), srv))"
  by (simp add: replace_members_def config_new_eq server_epoch_def server_federation_def server_authority_def)

text \<open>
  Publication never fails and is always accepted: from any state a server can reach,
  \<open>publish\<close> returns a signed snapshot of its current configuration, under the federation and
  authority it was created with, and \<open>decode_verified\<close> accepts its encoding, provided the
  signature algorithms verify what they sign.
\<close>

theorem server_publish_accepted:
  assumes "server_reach ops f si srv" and "signs_correctly c ops si"
  shows "\<exists>sc w. publish ops srv = Inr sc \<and> sfc_configuration sc = srv_configuration srv \<and>
     cfg_federation (sfc_configuration sc) = f \<and>
     cfg_authority (sfc_configuration sc) = signing_identity_endpoint ops si \<and>
     config_encode sc = Inr w \<and> config_decode_verified c w = Inr sc"
proof -
  obtain sc where sc: "publish ops srv = Inr sc" "sfc_configuration sc = srv_configuration srv"
    using publish_ok [OF assms(1)] by blast
  then have pub: "server_published c ops f si sc"
    using assms by (auto simp: server_published_def)
  show ?thesis
    using sc server.published_wire [OF pub] server.published_federation [OF pub]
      server.published_authority [OF pub]
    by auto
qed

theorem server_publish_accepted_witness:
  "\<exists>sc w. publish demo_ops demo_server = Inr sc \<and> sfc_configuration sc = demo_configuration 5 \<and>
     config_encode sc = Inr w \<and> config_decode_verified demo_crypto w = Inr sc"
  using server_publish_accepted [OF demo_server_reach demo_signs_correctly]
  by (auto simp: demo_server_def)

end
