(* ===== verification/Client.thy ===== *)
theory Client
  imports BTree Connection Server
begin

text \<open>
  The federation client (\<open>libfcp/src\<close>): the application-approved bindings (\<open>bindings.rs\<close>), the
  federation-pinned directory of peer connections (\<open>directory.rs\<close>), the routing of CFR messages
  (\<open>bridge.rs\<close>) and the client itself (\<open>client.rs\<close>).

  The CFR protocol is third-party code.  Its public key type is the type variable \<open>'sig\<close> with its
  order, \<open>SigPublic::from_bytes\<close> is the argument \<open>sig_from_bytes\<close>, and \<open>Conference::handle\<close> is the
  argument \<open>handle\<close>; of a \<open>Message\<close> only the recipient and the payload are used.
\<close>

subsection \<open>Definitions\<close>

datatype client_error =
    MissingBinding
  | MissingConnection
  | MismatchedConnection
  | Fcp error
  | ClientWrongFederation
  | WrongAuthority
  | StaleConfiguration
  | MissingLocalMember
  | WrongLocalEndpoint

datatype 'sig recipient = Peer 'sig | Everyone

record 'sig message =
  msg_to :: "'sig recipient"
  msg_payload :: "u8 list"

type_synonym 'sig cfr_endpoint_bindings = "('sig, endpoint_identity) btree_map"

definition bindings_new :: "'sig cfr_endpoint_bindings" where
  "bindings_new = btree_new"

definition bindings_bind ::
  "'sig::linorder \<Rightarrow> endpoint_identity \<Rightarrow> 'sig cfr_endpoint_bindings \<Rightarrow>
     endpoint_identity option \<times> 'sig cfr_endpoint_bindings" where
  "bindings_bind identity endpoint b = (btree_get b identity, btree_insert identity endpoint b)"

definition bindings_unbind ::
  "'sig::linorder \<Rightarrow> 'sig cfr_endpoint_bindings \<Rightarrow> endpoint_identity option \<times> 'sig cfr_endpoint_bindings" where
  "bindings_unbind identity b = (btree_get b identity, btree_remove identity b)"

definition bindings_endpoint :: "'sig::linorder cfr_endpoint_bindings \<Rightarrow> 'sig \<Rightarrow> endpoint_identity option" where
  "bindings_endpoint b identity = btree_get b identity"

definition bindings_identities :: "'sig cfr_endpoint_bindings \<Rightarrow> 'sig list" where
  "bindings_identities b = btree_keys b"

record peer_connections =
  dir_federation :: federation_id
  dir_local :: endpoint_identity
  dir_entries :: "(endpoint_identity, connection) btree_map"

definition directory_new :: "federation_id \<Rightarrow> endpoint_identity \<Rightarrow> peer_connections" where
  "directory_new federation local = \<lparr> dir_federation = federation, dir_local = local, dir_entries = btree_new \<rparr>"

definition directory_insert ::
  "connection \<Rightarrow> peer_connections \<Rightarrow> (client_error + connection option) \<times> peer_connections" where
  "directory_insert conn dir =
     (if conn_federation conn \<noteq> dir_federation dir \<or> conn_local conn \<noteq> dir_local dir
      then (Inl MismatchedConnection, dir)
      else (Inr (btree_get (dir_entries dir) (conn_remote conn)),
            dir\<lparr> dir_entries := btree_insert (conn_remote conn) conn (dir_entries dir) \<rparr>))"

definition directory_remove ::
  "endpoint_identity \<Rightarrow> peer_connections \<Rightarrow> connection option \<times> peer_connections" where
  "directory_remove endpoint dir =
     (btree_get (dir_entries dir) endpoint,
      dir\<lparr> dir_entries := btree_remove endpoint (dir_entries dir) \<rparr>)"

definition directory_get :: "peer_connections \<Rightarrow> endpoint_identity \<Rightarrow> connection option" where
  "directory_get dir endpoint = btree_get (dir_entries dir) endpoint"

definition route_one ::
  "'sig::linorder message \<Rightarrow> signer \<Rightarrow> 'sig cfr_endpoint_bindings \<Rightarrow> peer_connections \<Rightarrow> 'sig \<Rightarrow>
     client_error + action list" where
  "route_one message s bindings connections identity =
     and_then (ok_or MissingBinding (bindings_endpoint bindings identity)) (\<lambda>endpoint.
     and_then (ok_or MissingConnection (directory_get connections endpoint)) (\<lambda>conn.
     and_then (map_err Fcp (cfr_control s (msg_payload message) conn)) (\<lambda>act.
     Inr [act])))"

fun route_each ::
  "'sig::linorder message \<Rightarrow> signer \<Rightarrow> 'sig cfr_endpoint_bindings \<Rightarrow> peer_connections \<Rightarrow>
     'sig list \<Rightarrow> action list \<Rightarrow> client_error + action list" where
  "route_each message s bindings connections [] actions = Inr actions"
| "route_each message s bindings connections (identity # rest) actions =
     and_then (route_one message s bindings connections identity) (\<lambda>acts.
     route_each message s bindings connections rest (actions @ acts))"

definition route_outbound ::
  "'sig::linorder message \<Rightarrow> signer \<Rightarrow> 'sig cfr_endpoint_bindings \<Rightarrow> peer_connections \<Rightarrow>
     client_error + action list" where
  "route_outbound message s bindings connections =
     (case msg_to message of
        Peer identity \<Rightarrow> route_one message s bindings connections identity
      | Everyone \<Rightarrow> route_each message s bindings connections (bindings_identities bindings) [])"

definition deliver_inbound :: "('conf \<Rightarrow> u8 list \<Rightarrow> 'res \<times> 'conf) \<Rightarrow> 'conf \<Rightarrow> u8 list \<Rightarrow> 'res \<times> 'conf" where
  "deliver_inbound handle conference payload = handle conference payload"

record 'sig client_configuration =
  pol_federation :: federation_id
  pol_authority :: endpoint_identity
  pol_local_cfr_identity :: 'sig
  pol_local_endpoint :: endpoint_identity

record 'sig federation_client =
  cl_policy :: "'sig client_configuration"
  cl_accepted_epoch :: "u64 option"
  cl_bindings :: "'sig cfr_endpoint_bindings"
  cl_connections :: peer_connections

definition client_new :: "'sig client_configuration \<Rightarrow> 'sig federation_client" where
  "client_new policy =
     \<lparr> cl_policy = policy, cl_accepted_epoch = None, cl_bindings = bindings_new,
       cl_connections = directory_new (pol_federation policy) (pol_local_endpoint policy) \<rparr>"

fun bind_members ::
  "(32 bytes \<Rightarrow> 'sig::linorder) \<Rightarrow> 'sig client_configuration \<Rightarrow> federation_member list \<Rightarrow>
     'sig cfr_endpoint_bindings \<Rightarrow> bool \<Rightarrow> client_error + ('sig cfr_endpoint_bindings \<times> bool)" where
  "bind_members sig_from_bytes policy [] next_bindings local_member_seen = Inr (next_bindings, local_member_seen)"
| "bind_members sig_from_bytes policy (m # ms) next_bindings local_member_seen =
     (let identity = sig_from_bytes (member_cfr_identity m) in
      if identity = pol_local_cfr_identity policy then
        if member_endpoint m \<noteq> pol_local_endpoint policy then Inl WrongLocalEndpoint
        else bind_members sig_from_bytes policy ms next_bindings True
      else bind_members sig_from_bytes policy ms
             (snd (bindings_bind identity (member_endpoint m) next_bindings)) local_member_seen)"

definition apply_configuration ::
  "crypto \<Rightarrow> (32 bytes \<Rightarrow> 'sig::linorder) \<Rightarrow> signed_federation_configuration \<Rightarrow> 'sig federation_client \<Rightarrow>
     (client_error + unit) \<times> 'sig federation_client" where
  "apply_configuration c sig_from_bytes snapshot cl =
     or_bail cl (map_err Fcp (config_verify c snapshot)) (\<lambda>_.
     let configuration = sfc_configuration snapshot in
     if cfg_federation configuration \<noteq> pol_federation (cl_policy cl) then (Inl ClientWrongFederation, cl)
     else if cfg_authority configuration \<noteq> pol_authority (cl_policy cl) then (Inl WrongAuthority, cl)
     else if (case cl_accepted_epoch cl of None \<Rightarrow> False | Some accepted \<Rightarrow> cfg_epoch configuration \<le> accepted)
     then (Inl StaleConfiguration, cl)
     else or_bail cl (bind_members sig_from_bytes (cl_policy cl) (cfg_members configuration) bindings_new False)
       (\<lambda>(next_bindings, local_member_seen).
        if \<not> local_member_seen then (Inl MissingLocalMember, cl)
        else let cl = cl\<lparr> cl_bindings := next_bindings \<rparr>;
                 cl = cl\<lparr> cl_accepted_epoch := Some (cfg_epoch configuration) \<rparr>
             in (Inr (), cl)))"

definition insert_connection ::
  "connection \<Rightarrow> 'sig federation_client \<Rightarrow> (client_error + connection option) \<times> 'sig federation_client" where
  "insert_connection conn cl =
     (let (res, dir) = directory_insert conn (cl_connections cl) in (res, cl\<lparr> cl_connections := dir \<rparr>))"

definition remove_connection ::
  "endpoint_identity \<Rightarrow> 'sig federation_client \<Rightarrow> connection option \<times> 'sig federation_client" where
  "remove_connection endpoint cl =
     (let (res, dir) = directory_remove endpoint (cl_connections cl) in (res, cl\<lparr> cl_connections := dir \<rparr>))"

definition client_route_outbound ::
  "'sig::linorder message \<Rightarrow> signer \<Rightarrow> 'sig federation_client \<Rightarrow> client_error + action list" where
  "client_route_outbound message s cl = route_outbound message s (cl_bindings cl) (cl_connections cl)"

definition client_deliver_inbound ::
  "('conf \<Rightarrow> u8 list \<Rightarrow> 'res \<times> 'conf) \<Rightarrow> 'sig federation_client \<Rightarrow> 'conf \<Rightarrow> u8 list \<Rightarrow> 'res \<times> 'conf" where
  "client_deliver_inbound handle cl conference payload = deliver_inbound handle conference payload"

subsection \<open>Operations in sequence\<close>

datatype client_op =
    ApplyConfiguration signed_federation_configuration
  | InsertConnection connection
  | RemoveConnection endpoint_identity

fun client_apply ::
  "crypto \<Rightarrow> (32 bytes \<Rightarrow> 'sig::linorder) \<Rightarrow> client_op \<Rightarrow> 'sig federation_client \<Rightarrow> 'sig federation_client" where
  "client_apply c sigf (ApplyConfiguration snapshot) cl = snd (apply_configuration c sigf snapshot cl)"
| "client_apply c sigf (InsertConnection conn) cl = snd (insert_connection conn cl)"
| "client_apply c sigf (RemoveConnection endpoint) cl = snd (remove_connection endpoint cl)"

inductive client_reach ::
  "crypto \<Rightarrow> (32 bytes \<Rightarrow> 'sig::linorder) \<Rightarrow> 'sig client_configuration \<Rightarrow> 'sig federation_client \<Rightarrow> bool"
  for c sigf policy where
  client_init: "client_reach c sigf policy (client_new policy)"
| client_step: "client_reach c sigf policy cl \<Longrightarrow> client_reach c sigf policy (client_apply c sigf op cl)"

subsection \<open>Applying a configuration\<close>

definition remote_bindings ::
  "(32 bytes \<Rightarrow> 'sig) \<Rightarrow> 'sig client_configuration \<Rightarrow> federation_member list \<Rightarrow> ('sig \<times> endpoint_identity) list" where
  "remote_bindings sigf policy ms =
     map (\<lambda>m. (sigf (member_cfr_identity m), member_endpoint m))
       (filter (\<lambda>m. sigf (member_cfr_identity m) \<noteq> pol_local_cfr_identity policy) ms)"

definition local_members ::
  "(32 bytes \<Rightarrow> 'sig) \<Rightarrow> 'sig client_configuration \<Rightarrow> federation_member list \<Rightarrow> federation_member set" where
  "local_members sigf policy ms = {m \<in> set ms. sigf (member_cfr_identity m) = pol_local_cfr_identity policy}"

lemma bind_members_eq:
  "bind_members sigf policy ms b seen =
     (if \<forall>m \<in> local_members sigf policy ms. member_endpoint m = pol_local_endpoint policy
      then Inr (fold (\<lambda>(k, v). btree_insert k v) (remote_bindings sigf policy ms) b,
                seen \<or> local_members sigf policy ms \<noteq> {})
      else Inl WrongLocalEndpoint)"
  by (induction sigf policy ms b seen rule: bind_members.induct)
    (auto simp: local_members_def remote_bindings_def bindings_bind_def Let_def)

definition newer :: "u64 \<Rightarrow> u64 option \<Rightarrow> bool" where
  "newer e accepted = (case accepted of None \<Rightarrow> True | Some a \<Rightarrow> a < e)"

lemma newer_iff: "newer e accepted \<longleftrightarrow> \<not> (case accepted of None \<Rightarrow> False | Some a \<Rightarrow> e \<le> a)"
  by (auto simp: newer_def split: option.splits)

lemma apply_configuration_Inr:
  "apply_configuration c sigf sc cl = (Inr (), cl') \<longleftrightarrow>
     config_verify c sc = Inr () \<and>
     cfg_federation (sfc_configuration sc) = pol_federation (cl_policy cl) \<and>
     cfg_authority (sfc_configuration sc) = pol_authority (cl_policy cl) \<and>
     newer (cfg_epoch (sfc_configuration sc)) (cl_accepted_epoch cl) \<and>
     local_members sigf (cl_policy cl) (cfg_members (sfc_configuration sc)) \<noteq> {} \<and>
     (\<forall>m \<in> local_members sigf (cl_policy cl) (cfg_members (sfc_configuration sc)).
        member_endpoint m = pol_local_endpoint (cl_policy cl)) \<and>
     cl' = cl\<lparr> cl_accepted_epoch := Some (cfg_epoch (sfc_configuration sc)),
               cl_bindings := fold (\<lambda>(k, v). btree_insert k v)
                 (remote_bindings sigf (cl_policy cl) (cfg_members (sfc_configuration sc))) bindings_new \<rparr>"
  unfolding apply_configuration_def newer_iff
  by (auto simp: or_bail_Inr map_err_eq_Inr bind_members_eq Let_def split: if_splits)

lemma apply_configuration_Inl: "apply_configuration c sigf sc cl = (Inl e, cl') \<Longrightarrow> cl' = cl"
  unfolding apply_configuration_def
  by (auto simp: or_bail_Inl Let_def split: if_splits prod.splits)

lemma verified_config_ok: "config_verify c sc = Inr () \<Longrightarrow> config_ok (sfc_configuration sc)"
  by (auto simp: config_verify_def and_then_eq_Inr config_signed_bytes_iff)

lemma remote_bindings_distinct:
  assumes "inj sigf" and "config_ok cfg"
  shows "distinct (map fst (remote_bindings sigf policy (cfg_members cfg)))"
proof -
  have "distinct (map (sigf \<circ> member_cfr_identity) (cfg_members cfg))"
    using assms by (simp add: config_ok_iff distinct_map inj_on_def)
  then show ?thesis
    by (simp add: remote_bindings_def comp_def distinct_map_filter)
qed

lemma remote_bindings_set:
  "(k, e) \<in> set (remote_bindings sigf policy ms) \<longleftrightarrow>
     k \<noteq> pol_local_cfr_identity policy \<and>
     (\<exists>m \<in> set ms. sigf (member_cfr_identity m) = k \<and> member_endpoint m = e)"
  by (auto simp: remote_bindings_def)

lemma applied_bindings:
  assumes "inj sigf" and "apply_configuration c sigf sc cl = (Inr (), cl')"
  shows "bindings_endpoint (cl_bindings cl') k = Some e \<longleftrightarrow>
     k \<noteq> pol_local_cfr_identity (cl_policy cl) \<and>
     (\<exists>m \<in> set (cfg_members (sfc_configuration sc)). sigf (member_cfr_identity m) = k \<and> member_endpoint m = e)"
proof -
  from assms(2) have "config_verify c sc = Inr ()"
    and cl': "cl_bindings cl' = fold (\<lambda>(k, v). btree_insert k v)
       (remote_bindings sigf (cl_policy cl) (cfg_members (sfc_configuration sc))) btree_new"
    by (auto simp: apply_configuration_Inr bindings_new_def)
  then have "distinct (map fst (remote_bindings sigf (cl_policy cl) (cfg_members (sfc_configuration sc))))"
    using remote_bindings_distinct [OF assms(1) verified_config_ok] by blast
  then show ?thesis
    by (simp add: bindings_endpoint_def cl' btree.get_fold_distinct remote_bindings_set)
qed

subsection \<open>The client invariant\<close>

definition directory_inv :: "peer_connections \<Rightarrow> bool" where
  "directory_inv dir \<longleftrightarrow> btree_ok (dir_entries dir) \<and>
     (\<forall>ep conn. directory_get dir ep = Some conn \<longrightarrow>
        conn_remote conn = ep \<and> conn_federation conn = dir_federation dir \<and> conn_local conn = dir_local dir)"

definition client_inv :: "'sig::linorder client_configuration \<Rightarrow> 'sig federation_client \<Rightarrow> bool" where
  "client_inv policy cl \<longleftrightarrow>
     cl_policy cl = policy \<and> btree_ok (cl_bindings cl) \<and>
     bindings_endpoint (cl_bindings cl) (pol_local_cfr_identity policy) = None \<and>
     (cl_accepted_epoch cl = None \<longrightarrow> cl_bindings cl = bindings_new) \<and>
     directory_inv (cl_connections cl) \<and>
     dir_federation (cl_connections cl) = pol_federation policy \<and>
     dir_local (cl_connections cl) = pol_local_endpoint policy"

lemma directory_insert_inv: "directory_inv dir \<Longrightarrow> directory_inv (snd (directory_insert conn dir))"
  by (auto simp: directory_inv_def directory_insert_def directory_get_def btree.ok_put btree.get_put)

lemma directory_remove_inv: "directory_inv dir \<Longrightarrow> directory_inv (snd (directory_remove ep dir))"
  by (auto simp: directory_inv_def directory_remove_def directory_get_def btree.ok_del btree.get_del
      split: if_splits)

lemma directory_pins [simp]:
  "dir_federation (snd (directory_insert conn dir)) = dir_federation dir"
  "dir_local (snd (directory_insert conn dir)) = dir_local dir"
  "dir_federation (snd (directory_remove ep dir)) = dir_federation dir"
  "dir_local (snd (directory_remove ep dir)) = dir_local dir"
  by (simp_all add: directory_insert_def directory_remove_def)

lemma applied_bindings_ok:
  assumes "apply_configuration c sigf sc cl = (Inr (), cl')"
  shows "btree_ok (cl_bindings cl')"
    "bindings_endpoint (cl_bindings cl') (pol_local_cfr_identity (cl_policy cl)) = None"
proof -
  from assms have cl': "cl_bindings cl' = fold (\<lambda>(k, v). btree_insert k v)
       (remote_bindings sigf (cl_policy cl) (cfg_members (sfc_configuration sc))) btree_new"
    by (auto simp: apply_configuration_Inr bindings_new_def)
  show "btree_ok (cl_bindings cl')" by (simp add: cl' btree.ok_fold btree.ok_new)
  have "pol_local_cfr_identity (cl_policy cl) \<notin> fst ` set (remote_bindings sigf (cl_policy cl) (cfg_members (sfc_configuration sc)))"
    by (auto simp: remote_bindings_def)
  then show "bindings_endpoint (cl_bindings cl') (pol_local_cfr_identity (cl_policy cl)) = None"
    by (simp add: bindings_endpoint_def cl' btree.get_fold btree.ok_new btree.get_new map_of_eq_None_iff)
qed

lemma client_apply_inv: "client_inv policy cl \<Longrightarrow> client_inv policy (client_apply c sigf op cl)"
proof (cases op)
  case (ApplyConfiguration sc)
  assume inv: "client_inv policy cl"
  obtain res cl' where app: "apply_configuration c sigf sc cl = (res, cl')" by fastforce
  show ?thesis
  proof (cases res)
    case (Inr u)
    with app have ok: "apply_configuration c sigf sc cl = (Inr (), cl')" by simp
    then have "cl_policy cl' = cl_policy cl" "cl_connections cl' = cl_connections cl" "cl_accepted_epoch cl' \<noteq> None"
      by (auto simp: apply_configuration_Inr)
    with applied_bindings_ok [OF ok] inv show ?thesis
      by (auto simp: client_inv_def ApplyConfiguration ok)
  qed (use inv app ApplyConfiguration apply_configuration_Inl in fastforce)
qed (auto simp: client_inv_def insert_connection_def remove_connection_def case_prod_beta
    directory_insert_inv directory_remove_inv)

lemma client_reach_inv: "client_reach c sigf policy cl \<Longrightarrow> client_inv policy cl"
proof (induction rule: client_reach.induct)
  case client_init
  show ?case
    by (simp add: client_new_def client_inv_def directory_inv_def directory_new_def directory_get_def
        bindings_new_def bindings_endpoint_def btree.ok_new btree.get_new)
qed (rule client_apply_inv)

subsection \<open>Routing\<close>

definition routable :: "'sig::linorder message \<Rightarrow> signer \<Rightarrow> 'sig cfr_endpoint_bindings \<Rightarrow> peer_connections \<Rightarrow> 'sig \<Rightarrow> bool" where
  "routable message s bindings dir k \<longleftrightarrow>
     (\<exists>ep conn. bindings_endpoint bindings k = Some ep \<and> directory_get dir ep = Some conn \<and>
        conn_phase conn = Established \<and> conn_local conn = signer_endpoint s) \<and>
     length (msg_payload message) \<le> MAX_CFR_CONTROL_BYTES"

definition routed :: "'sig::linorder message \<Rightarrow> 'sig cfr_endpoint_bindings \<Rightarrow> peer_connections \<Rightarrow> signer \<Rightarrow> 'sig \<Rightarrow> action \<Rightarrow> bool" where
  "routed message bindings dir s k act \<longleftrightarrow>
     (\<exists>ep conn env. bindings_endpoint bindings k = Some ep \<and> directory_get dir ep = Some conn \<and>
        act = Send env \<and>
        sign s (conn_federation conn) (conn_attempt conn) (conn_remote conn) (CfrControl (msg_payload message)) = Inr env)"

lemma sign_control_iff:
  "(\<exists>env. sign s f a r (CfrControl payload) = Inr env) \<longleftrightarrow> length payload \<le> MAX_CFR_CONTROL_BYTES"
proof -
  have "body_ok (CfrControl payload) \<longleftrightarrow> length payload \<le> MAX_CFR_CONTROL_BYTES"
    by (auto simp: bound_defs)
  then show ?thesis using sign_ok sign_fields(6) by metis
qed

lemma sign_control_len: "sign s f a r (CfrControl payload) = Inr env \<Longrightarrow> length payload \<le> MAX_CFR_CONTROL_BYTES"
  using sign_control_iff by blast

lemma route_one_Inr:
  "route_one message s bindings dir k = Inr acts \<longleftrightarrow>
     routable message s bindings dir k \<and> (\<exists>act. acts = [act] \<and> routed message bindings dir s k act)"
  unfolding route_one_def routable_def routed_def
  by (auto simp: and_then_eq_Inr ok_or_eq_Inr map_err_eq_Inr cfr_control_Inr conn_sign_def dest: sign_control_len)

lemma route_each_Inr:
  "route_each message s bindings dir ks acts0 = Inr acts \<longleftrightarrow>
     (\<forall>k \<in> set ks. routable message s bindings dir k) \<and>
     (\<exists>acts'. acts = acts0 @ acts' \<and> list_all2 (routed message bindings dir s) ks acts')"
proof (induction ks arbitrary: acts0)
  case (Cons k ks)
  have "route_each message s bindings dir (k # ks) acts0 = Inr acts \<longleftrightarrow>
      (\<exists>act. routable message s bindings dir k \<and> routed message bindings dir s k act \<and>
         route_each message s bindings dir ks (acts0 @ [act]) = Inr acts)"
    by (auto simp: and_then_eq_Inr route_one_Inr)
  also have "\<dots> \<longleftrightarrow> (\<forall>k \<in> set (k # ks). routable message s bindings dir k) \<and>
     (\<exists>acts'. acts = acts0 @ acts' \<and> list_all2 (routed message bindings dir s) (k # ks) acts')"
    unfolding Cons.IH list_all2_Cons1 by auto
  finally show ?case .
qed auto

definition targets :: "'sig::linorder message \<Rightarrow> 'sig cfr_endpoint_bindings \<Rightarrow> 'sig list" where
  "targets message bindings =
     (case msg_to message of Peer k \<Rightarrow> [k] | Everyone \<Rightarrow> bindings_identities bindings)"

lemma route_outbound_Inr:
  "route_outbound message s bindings dir = Inr acts \<longleftrightarrow>
     (\<forall>k \<in> set (targets message bindings). routable message s bindings dir k) \<and>
     list_all2 (routed message bindings dir s) (targets message bindings) acts"
  by (cases "msg_to message")
    (auto simp: route_outbound_def targets_def route_one_Inr route_each_Inr list_all2_Cons1)

lemma routable_routed: "routable message s bindings dir k \<Longrightarrow> \<exists>act. routed message bindings dir s k act"
  unfolding routable_def routed_def using sign_control_iff by fast

lemma route_outbound_succeeds:
  "(\<exists>acts. route_outbound message s bindings dir = Inr acts) \<longleftrightarrow>
     (\<forall>k \<in> set (targets message bindings). routable message s bindings dir k)"
proof -
  have "\<exists>acts. list_all2 P ks acts" if "\<forall>k \<in> set ks. \<exists>act. P k act" for P :: "'a \<Rightarrow> action \<Rightarrow> bool" and ks
    using that by (induction ks) (auto simp: list_all2_Cons1)
  from this [of "targets message bindings" "routed message bindings dir s"] show ?thesis
    unfolding route_outbound_Inr using routable_routed by blast
qed

lemma routed_envelope:
  assumes "client_inv policy cl" and "routable message s (cl_bindings cl) (cl_connections cl) k"
    and "routed message (cl_bindings cl) (cl_connections cl) s k act"
  shows "\<exists>env. act = Send env \<and> bindings_endpoint (cl_bindings cl) k = Some (env_recipient env) \<and>
     env_federation env = pol_federation policy \<and> env_sender env = pol_local_endpoint policy \<and>
     env_body env = CfrControl (msg_payload message)"
proof -
  from assms(3) obtain ep conn env where b: "bindings_endpoint (cl_bindings cl) k = Some ep"
    and d: "directory_get (cl_connections cl) ep = Some conn" and act: "act = Send env"
    and env: "sign s (conn_federation conn) (conn_attempt conn) (conn_remote conn) (CfrControl (msg_payload message)) = Inr env"
    by (auto simp: routed_def)
  have "conn_remote conn = ep" "conn_federation conn = pol_federation policy" "conn_local conn = pol_local_endpoint policy"
    using assms(1) d by (auto simp: client_inv_def directory_inv_def)
  moreover have "signer_endpoint s = conn_local conn"
    using assms(2) b d by (auto simp: routable_def)
  ultimately show ?thesis using b act sign_fields [OF env] by simp
qed

subsection \<open>Snapshots of the pinned authority\<close>

context configuration_authority
begin

lemma published_applies:
  assumes "published sc" and "pol_federation (cl_policy cl) = federation" and "pol_authority (cl_policy cl) = authority"
    and "newer (cfg_epoch (sfc_configuration sc)) (cl_accepted_epoch cl)"
    and "m \<in> set (cfg_members (sfc_configuration sc))"
    and "sigf (member_cfr_identity m) = pol_local_cfr_identity (cl_policy cl)"
    and "member_endpoint m = pol_local_endpoint (cl_policy cl)" and "inj sigf"
  shows "\<exists>cl'. apply_configuration c sigf sc cl = (Inr (), cl')"
proof -
  let ?L = "local_members sigf (cl_policy cl) (cfg_members (sfc_configuration sc))"
  have ok: "config_ok (sfc_configuration sc)"
    using published_verifies [OF assms(1)] by (rule verified_config_ok)
  have L: "m \<in> ?L" using assms by (simp add: local_members_def)
  have "n = m" if "n \<in> ?L" for n
  proof -
    from that assms(6) have "sigf (member_cfr_identity n) = sigf (member_cfr_identity m)"
        and n: "n \<in> set (cfg_members (sfc_configuration sc))"
      by (simp_all add: local_members_def)
    then have "member_cfr_identity n = member_cfr_identity m"
      using \<open>inj sigf\<close> by (simp add: inj_eq)
    moreover have "inj_on member_cfr_identity (set (cfg_members (sfc_configuration sc)))"
      using ok by (simp add: config_ok_iff distinct_map)
    ultimately show "n = m" using n assms(5) by (simp add: inj_on_eq_iff)
  qed
  with L have "?L = {m}" by blast
  then show ?thesis
    unfolding apply_configuration_Inr
    using assms(2-4,7) published_verifies [OF assms(1)] published_federation [OF assms(1)] published_authority [OF assms(1)]
    by simp
qed

end

subsection \<open>Epochs\<close>

lemma apply_configuration_effect:
  "(case apply_configuration c sigf sc cl of
      (Inl e, cl') \<Rightarrow> cl' = cl
    | (Inr _, cl') \<Rightarrow> newer (cfg_epoch (sfc_configuration sc)) (cl_accepted_epoch cl) \<and>
        cl_accepted_epoch cl' = Some (cfg_epoch (sfc_configuration sc)) \<and> cl_policy cl' = cl_policy cl)"
proof (cases "apply_configuration c sigf sc cl" rule: prod.exhaust)
  case (Pair res cl')
  show ?thesis
  proof (cases res)
    case (Inl e)
    with Pair show ?thesis using apply_configuration_Inl by auto
  next
    case (Inr u)
    with Pair have "apply_configuration c sigf sc cl = (Inr (), cl')" by simp
    then obtain b where "newer (cfg_epoch (sfc_configuration sc)) (cl_accepted_epoch cl)"
      and "cl' = cl\<lparr> cl_accepted_epoch := Some (cfg_epoch (sfc_configuration sc)), cl_bindings := b \<rparr>"
      unfolding apply_configuration_Inr by blast
    then show ?thesis unfolding Pair Inr by simp
  qed
qed

definition epoch_le :: "u64 option \<Rightarrow> u64 option \<Rightarrow> bool" where
  "epoch_le a b = (case a of None \<Rightarrow> True | Some e \<Rightarrow> (case b of None \<Rightarrow> False | Some e' \<Rightarrow> e \<le> e'))"

lemma client_apply_effect:
  "cl_policy (client_apply c sigf op cl) = cl_policy cl \<and>
   epoch_le (cl_accepted_epoch cl) (cl_accepted_epoch (client_apply c sigf op cl))"
proof (cases op)
  case (ApplyConfiguration sc)
  then show ?thesis
    using apply_configuration_effect [where c = c and sigf = sigf and sc = sc and cl = cl]
    by (cases "apply_configuration c sigf sc cl"; cases "fst (apply_configuration c sigf sc cl)")
      (auto simp: epoch_le_def newer_def split: option.splits)
qed (auto simp: epoch_le_def insert_connection_def remove_connection_def case_prod_beta split: option.splits)

subsection \<open>A concrete client\<close>

definition demo_policy :: "32 bytes client_configuration" where
  "demo_policy = \<lparr> pol_federation = FederationId (filled 1), pol_authority = demo_identity 7,
     pol_local_cfr_identity = filled 13, pol_local_endpoint = demo_identity 3 \<rparr>"

definition demo_snapshot :: signed_federation_configuration where
  "demo_snapshot = projr (publish demo_ops demo_server)"

lemma demo_snapshot:
  "publish demo_ops demo_server = Inr demo_snapshot" "sfc_configuration demo_snapshot = demo_configuration 5"
  "server_published demo_crypto demo_ops (FederationId (filled 1)) (demo_signing 7) demo_snapshot"
proof -
  obtain sc where "publish demo_ops demo_server = Inr sc" "sfc_configuration sc = srv_configuration demo_server"
    using publish_ok [OF demo_server_reach] by blast
  then show "publish demo_ops demo_server = Inr demo_snapshot" "sfc_configuration demo_snapshot = demo_configuration 5"
    by (auto simp: demo_snapshot_def demo_server_def)
  then show "server_published demo_crypto demo_ops (FederationId (filled 1)) (demo_signing 7) demo_snapshot"
    using demo_server_reach demo_signs_correctly by (auto simp: server_published_def)
qed

definition demo_client0 :: "32 bytes federation_client" where
  "demo_client0 = client_new demo_policy"

definition demo_client :: "32 bytes federation_client" where
  "demo_client = snd (apply_configuration demo_crypto id demo_snapshot demo_client0)"

lemma demo_client_applies: "apply_configuration demo_crypto id demo_snapshot demo_client0 = (Inr (), demo_client)"
proof -
  have "\<exists>cl'. apply_configuration demo_crypto id demo_snapshot demo_client0 = (Inr (), cl')"
    by (rule server.published_applies [OF demo_snapshot(3), where m = "FederationMember (filled 13) (demo_identity 3)"])
      (simp_all add: demo_client0_def client_new_def demo_policy_def demo_snapshot(2) demo_configuration_def
        demo_members_def newer_def demo_signing_endpoint)
  then show ?thesis by (auto simp: demo_client_def)
qed

lemma demo_client_eq:
  "demo_client = \<lparr> cl_policy = demo_policy, cl_accepted_epoch = Some 5, cl_bindings = [(filled 14, demo_identity 4)],
     cl_connections = directory_new (FederationId (filled 1)) (demo_identity 3) \<rparr>"
proof -
  have "demo_client = demo_client0\<lparr> cl_accepted_epoch := Some (cfg_epoch (sfc_configuration demo_snapshot)),
     cl_bindings := fold (\<lambda>(k, v). btree_insert k v)
       (remote_bindings id (cl_policy demo_client0) (cfg_members (sfc_configuration demo_snapshot))) bindings_new \<rparr>"
    using demo_client_applies unfolding apply_configuration_Inr by (elim conjE)
  also have "\<dots> = \<lparr> cl_policy = demo_policy, cl_accepted_epoch = Some 5, cl_bindings = [(filled 14, demo_identity 4)],
     cl_connections = directory_new (FederationId (filled 1)) (demo_identity 3) \<rparr>"
    by (simp add: demo_snapshot(2) demo_configuration_def demo_members_def remote_bindings_def
      demo_client0_def client_new_def demo_policy_def bindings_new_def btree_new_def)
  finally show ?thesis .
qed

lemma demo_client_reach: "client_reach demo_crypto id demo_policy demo_client"
  using client_step [OF client_init, of demo_crypto id demo_policy "ApplyConfiguration demo_snapshot"]
  by (simp add: demo_client_def demo_client0_def)

definition demo_peer :: connection where
  "demo_peer = (demo_connection 3 4)\<lparr> conn_phase := Established,
     conn_negotiation := Some \<lparr> neg_offer = EnvelopeId (filled 7), neg_answer = Some (EnvelopeId (filled 8)) \<rparr> \<rparr>"

definition demo_routing_client :: "32 bytes federation_client" where
  "demo_routing_client = snd (insert_connection demo_peer demo_client)"

lemma demo_routing_reach: "client_reach demo_crypto id demo_policy demo_routing_client"
  using client_step [OF demo_client_reach, of "InsertConnection demo_peer"]
  by (simp add: demo_routing_client_def)

lemma demo_routing:
  "cl_bindings demo_routing_client = [(filled 14, demo_identity 4)]"
  "dir_entries (cl_connections demo_routing_client) = [(demo_identity 4, demo_peer)]"
  by (simp_all add: demo_routing_client_def demo_client_eq insert_connection_def directory_insert_def directory_new_def
      demo_peer_def demo_connection_def btree_new_def case_prod_beta)

definition demo_message :: "32 bytes message" where
  "demo_message = \<lparr> msg_to = Everyone, msg_payload = demo_payload 9 \<rparr>"

lemma demo_routable:
  "\<forall>k \<in> set (targets demo_message (cl_bindings demo_routing_client)).
     routable demo_message (demo_signer 3) (cl_bindings demo_routing_client) (cl_connections demo_routing_client) k"
  by (simp add: targets_def demo_message_def demo_routing bindings_identities_def btree_keys_def routable_def
      bindings_endpoint_def directory_get_def demo_peer_def demo_connection_def bound_defs)

subsection \<open>Properties\<close>

text \<open>
  C23.  A configuration is applied only when it verifies, is for the pinned federation, is signed by
  the pinned authority, is strictly newer than the last accepted one and binds the local
  participant to the local endpoint.  The bindings are then exactly its remote members (for an
  injective key encoding), its epoch is recorded, and nothing else of the client changes.
\<close>

theorem client_apply_configuration:
  assumes "apply_configuration c sigf sc cl = (Inr (), cl')" and "inj sigf"
  shows "config_verify c sc = Inr () \<and>
     cfg_federation (sfc_configuration sc) = pol_federation (cl_policy cl) \<and>
     cfg_authority (sfc_configuration sc) = pol_authority (cl_policy cl) \<and>
     (case cl_accepted_epoch cl of None \<Rightarrow> True | Some accepted \<Rightarrow> accepted < cfg_epoch (sfc_configuration sc)) \<and>
     (\<exists>m \<in> set (cfg_members (sfc_configuration sc)).
        sigf (member_cfr_identity m) = pol_local_cfr_identity (cl_policy cl) \<and>
        member_endpoint m = pol_local_endpoint (cl_policy cl)) \<and>
     (\<forall>k e. bindings_endpoint (cl_bindings cl') k = Some e \<longleftrightarrow>
        k \<noteq> pol_local_cfr_identity (cl_policy cl) \<and>
        (\<exists>m \<in> set (cfg_members (sfc_configuration sc)). sigf (member_cfr_identity m) = k \<and> member_endpoint m = e)) \<and>
     cl_accepted_epoch cl' = Some (cfg_epoch (sfc_configuration sc)) \<and>
     cl_policy cl' = cl_policy cl \<and> cl_connections cl' = cl_connections cl"
proof -
  from assms(1) obtain m where "m \<in> set (cfg_members (sfc_configuration sc))"
      "sigf (member_cfr_identity m) = pol_local_cfr_identity (cl_policy cl)"
      "member_endpoint m = pol_local_endpoint (cl_policy cl)"
    unfolding apply_configuration_Inr by (auto simp: local_members_def)
  with assms(1) applied_bindings [OF assms(2,1)] show ?thesis
    unfolding apply_configuration_Inr newer_def by auto
qed

theorem client_apply_configuration_witness:
  "apply_configuration demo_crypto id demo_snapshot demo_client0 = (Inr (), demo_client) \<and>
   cl_accepted_epoch demo_client = Some 5 \<and>
   bindings_endpoint (cl_bindings demo_client) (filled 14) = Some (demo_identity 4)"
  using client_apply_configuration [OF demo_client_applies inj_on_id] demo_client_applies
  by (simp add: demo_client_eq bindings_endpoint_def)

text \<open>
  Configuration updates are atomic and epochs only advance: a rejected snapshot leaves the
  client unchanged, and no operation ever lowers the accepted epoch or changes the pinned policy.
\<close>

theorem client_update_atomic:
  "(case apply_configuration c sigf sc cl of
      (Inl e, cl') \<Rightarrow> cl' = cl
    | (Inr _, cl') \<Rightarrow> newer (cfg_epoch (sfc_configuration sc)) (cl_accepted_epoch cl) \<and>
        cl_accepted_epoch cl' = Some (cfg_epoch (sfc_configuration sc)) \<and> cl_policy cl' = cl_policy cl) \<and>
   cl_policy (client_apply c sigf op cl) = cl_policy cl \<and>
   epoch_le (cl_accepted_epoch cl) (cl_accepted_epoch (client_apply c sigf op cl))"
  by (rule conjI [OF apply_configuration_effect client_apply_effect])

text \<open>
  C37.  In every state a client can reach: its policy is the one it was created with, the local
  participant is never among the remote bindings, there are no bindings before a configuration
  was accepted, and every connection in the directory is filed under its pinned remote endpoint
  and belongs to the client's federation and local endpoint.
\<close>

theorem client_invariant: "client_reach c sigf policy cl \<Longrightarrow> client_inv policy cl"
  by (rule client_reach_inv)

theorem client_invariant_witness:
  "client_reach demo_crypto id demo_policy demo_routing_client \<and> client_inv demo_policy demo_routing_client"
  using client_invariant [OF demo_routing_reach] demo_routing_reach by simp



text \<open>
  Routing succeeds exactly when it can: every target has a binding, the bound endpoint has a
  connection in the directory, that connection is established and owned by the signer, and the
  payload is within \<open>MAX_CFR_CONTROL_BYTES\<close>.  Otherwise no action at all is returned.
\<close>

theorem client_route_succeeds:
  "(\<exists>acts. client_route_outbound message s cl = Inr acts) \<longleftrightarrow>
     (\<forall>k. k \<in> set (targets message (cl_bindings cl)) \<longrightarrow>
        (\<exists>ep conn. bindings_endpoint (cl_bindings cl) k = Some ep \<and>
           directory_get (cl_connections cl) ep = Some conn \<and>
           conn_phase conn = Established \<and> conn_local conn = signer_endpoint s) \<and>
        length (msg_payload message) \<le> MAX_CFR_CONTROL_BYTES)"
  unfolding client_route_outbound_def route_outbound_succeeds routable_def by blast

theorem client_route_succeeds_witness:
  "targets demo_message (cl_bindings demo_routing_client) = [filled 14] \<and>
   (\<exists>acts. client_route_outbound demo_message (demo_signer 3) demo_routing_client = Inr acts)"
  using client_route_succeeds [of demo_message "demo_signer 3" demo_routing_client] demo_routable
  unfolding routable_def
  by (auto simp: targets_def demo_message_def demo_routing bindings_identities_def btree_keys_def)

end
