(* ===== verification/Ffi.thy ===== *)
theory Ffi
  imports Client "HOL-Library.Multiset"
begin

text \<open>
  The C ABI (\<open>libfcp-ffi\<close>): status codes, byte slices and owned buffers, the ordered action queue, and the
  exported functions over opaque handles.

  Memory is explicit.  What the library has allocated is a heap from addresses to buffers, signers,
  clients and connections; a handle is an address or null.  Using an address that is not allocated, or releasing a buffer
  with the wrong length, is undefined behaviour in the source and the result \<open>None\<close> here; that a
  host which follows the ownership rules never meets it is a theorem.  A pointer argument of the caller is an option:
  null, or the cell or readable bytes it points to.  A panic inside an exported function is a \<open>fault\<close>.
\<close>

subsection \<open>Status codes\<close>

type_synonym fcp_status = u32

definition ABI_VERSION :: u32 where "ABI_VERSION = 2"

definition FCP_STATUS_OK :: fcp_status where "FCP_STATUS_OK = 0"
definition FCP_STATUS_INVALID_ARGUMENT :: fcp_status where "FCP_STATUS_INVALID_ARGUMENT = 1"
definition FCP_STATUS_ABI_MISMATCH :: fcp_status where "FCP_STATUS_ABI_MISMATCH = 2"
definition FCP_STATUS_TOO_LARGE :: fcp_status where "FCP_STATUS_TOO_LARGE = 3"
definition FCP_STATUS_PROTOCOL :: fcp_status where "FCP_STATUS_PROTOCOL = 4"
definition FCP_STATUS_CONFIGURATION :: fcp_status where "FCP_STATUS_CONFIGURATION = 5"
definition FCP_STATUS_NO_ACTION :: fcp_status where "FCP_STATUS_NO_ACTION = 6"
definition FCP_STATUS_CLOSED :: fcp_status where "FCP_STATUS_CLOSED = 7"
definition FCP_STATUS_PANIC :: fcp_status where "FCP_STATUS_PANIC = 8"
definition FCP_STATUS_INTERNAL :: fcp_status where "FCP_STATUS_INTERNAL = 9"

lemmas fcp_status_defs = FCP_STATUS_OK_def FCP_STATUS_INVALID_ARGUMENT_def FCP_STATUS_ABI_MISMATCH_def FCP_STATUS_TOO_LARGE_def
  FCP_STATUS_PROTOCOL_def FCP_STATUS_CONFIGURATION_def FCP_STATUS_NO_ACTION_def FCP_STATUS_CLOSED_def FCP_STATUS_PANIC_def
  FCP_STATUS_INTERNAL_def

fun ffi_status :: "fcp_status fault + unit \<Rightarrow> fcp_status" where
  "ffi_status (Inr _) = FCP_STATUS_OK"
| "ffi_status (Inl (Err status)) = status"
| "ffi_status (Inl Panic) = FCP_STATUS_PANIC"

definition status_from_core :: "error \<Rightarrow> fcp_status" where
  "status_from_core e = FCP_STATUS_PROTOCOL"

fun status_from_client :: "client_error \<Rightarrow> fcp_status" where
  "status_from_client (Fcp e) = status_from_core e"
| "status_from_client ClientWrongFederation = FCP_STATUS_CONFIGURATION"
| "status_from_client WrongAuthority = FCP_STATUS_CONFIGURATION"
| "status_from_client StaleConfiguration = FCP_STATUS_CONFIGURATION"
| "status_from_client MissingLocalMember = FCP_STATUS_CONFIGURATION"
| "status_from_client WrongLocalEndpoint = FCP_STATUS_CONFIGURATION"
| "status_from_client MissingBinding = FCP_STATUS_INTERNAL"
| "status_from_client MissingConnection = FCP_STATUS_INTERNAL"
| "status_from_client MismatchedConnection = FCP_STATUS_INTERNAL"

definition fault_status :: "error fault \<Rightarrow> fcp_status fault" where
  "fault_status f = (case f of Panic \<Rightarrow> Panic | Err e \<Rightarrow> Err (status_from_core e))"

definition fcp_ffi_abi_version :: u32 where
  "fcp_ffi_abi_version = ABI_VERSION"

definition fcp_ffi_wire_version :: u32 where
  "fcp_ffi_wire_version = ucast FCP_WIRE_VERSION"

subsection \<open>Foreign input\<close>

record fcp_byte_slice =
  slice_data :: "u8 list option"
  slice_len :: nat

definition borrowed_bytes :: "fcp_byte_slice \<Rightarrow> fcp_status + u8 list" where
  "borrowed_bytes input =
     (if slice_len input = 0 then Inr []
      else case slice_data input of
             None \<Rightarrow> Inl FCP_STATUS_INVALID_ARGUMENT
           | Some bytes \<Rightarrow> Inr (take (slice_len input) bytes))"

definition copy_bounded :: "fcp_byte_slice \<Rightarrow> nat \<Rightarrow> fcp_status + u8 list" where
  "copy_bounded input maximum =
     (if slice_len input > maximum then Inl FCP_STATUS_TOO_LARGE else borrowed_bytes input)"

definition ffi_fixed :: "fcp_byte_slice \<Rightarrow> fcp_status + 'n::len bytes" where
  "ffi_fixed input =
     and_then (borrowed_bytes input) (\<lambda>bytes.
     if length bytes \<noteq> LENGTH('n) then Inl FCP_STATUS_INVALID_ARGUMENT else Inr (padded bytes))"

definition ffi_federation_id :: "fcp_byte_slice \<Rightarrow> fcp_status + federation_id" where
  "ffi_federation_id input = and_then (ffi_fixed input) (\<lambda>bytes. Inr (FederationId bytes))"

definition ffi_attempt_id :: "fcp_byte_slice \<Rightarrow> fcp_status + attempt_id" where
  "ffi_attempt_id input = and_then (ffi_fixed input) (\<lambda>bytes. Inr (AttemptId bytes))"

definition ffi_webrtc_binding :: "fcp_byte_slice \<Rightarrow> fcp_status + webrtc_binding" where
  "ffi_webrtc_binding input = and_then (ffi_fixed input) (\<lambda>bytes. Inr (WebRtcBinding bytes))"

definition ffi_endpoint_identity :: "fcp_byte_slice \<Rightarrow> fcp_status + endpoint_identity" where
  "ffi_endpoint_identity input =
     and_then (ffi_fixed input) (\<lambda>bytes :: 1984 bytes.
     Inr (EndpointIdentity (EndpointKey (padded (take 32 (bytes_list bytes)))) (padded (drop 32 (bytes_list bytes)))))"

subsection \<open>The heap\<close>

type_synonym addr = nat

record fcp_owned_buffer =
  buf_data :: "addr option"
  buf_len :: nat

definition empty_buffer :: fcp_owned_buffer where
  "empty_buffer = \<lparr>buf_data = None, buf_len = 0\<rparr>"

record queued =
  qa_kind :: u32
  qa_binding :: "32 bytes"
  qa_sequence :: u32
  qa_close_code :: u16
  qa_envelope_id :: "32 bytes"
  qa_remote_endpoint :: "endpoint_identity option"
  qa_payload :: "u8 list"

record fcp_action =
  act_kind :: u32
  act_binding :: "32 bytes"
  act_sequence :: u32
  act_close_code :: u16
  act_envelope_id :: "32 bytes"
  act_remote_endpoint :: fcp_owned_buffer
  act_payload :: fcp_owned_buffer

definition default_action :: fcp_action where
  "default_action = \<lparr>act_kind = 0, act_binding = filled 0, act_sequence = 0, act_close_code = 0, act_envelope_id = filled 0,
     act_remote_endpoint = empty_buffer, act_payload = empty_buffer\<rparr>"

record ('sk, 'psk) connection_state =
  cs_connection :: connection
  cs_signer :: "('sk, 'psk) signing_identity"
  cs_actions :: "queued list"
  cs_poisoned :: bool

record 'sig client_state =
  cc_client :: "'sig federation_client"
  cc_poisoned :: bool

record ('sk, 'psk, 'sig) ffi_heap =
  hp_next :: addr
  hp_buffers :: "addr \<rightharpoonup> u8 list"
  hp_signers :: "addr \<rightharpoonup> ('sk, 'psk) signing_identity"
  hp_clients :: "addr \<rightharpoonup> 'sig client_state"
  hp_connections :: "addr \<rightharpoonup> ('sk, 'psk) connection_state"

definition owned_buffer :: "u8 list \<Rightarrow> ('sk, 'psk, 'sig) ffi_heap \<Rightarrow> fcp_owned_buffer \<times> ('sk, 'psk, 'sig) ffi_heap" where
  "owned_buffer bytes hp =
     (if bytes = [] then (empty_buffer, hp)
      else (\<lparr>buf_data = Some (hp_next hp), buf_len = length bytes\<rparr>,
        hp\<lparr>hp_next := hp_next hp + 1, hp_buffers := (hp_buffers hp)(hp_next hp \<mapsto> bytes)\<rparr>))"

definition endpoint_bytes :: "endpoint_identity \<Rightarrow> u8 list" where
  "endpoint_bytes endpoint = bytes_list (endpoint_key_bytes (classical endpoint)) @ bytes_list (post_quantum endpoint)"

definition endpoint_buffer :: "endpoint_identity \<Rightarrow> ('sk, 'psk, 'sig) ffi_heap \<Rightarrow> fcp_owned_buffer \<times> ('sk, 'psk, 'sig) ffi_heap" where
  "endpoint_buffer endpoint = owned_buffer (endpoint_bytes endpoint)"

definition fcp_buffer_free ::
  "fcp_owned_buffer option \<Rightarrow> ('sk, 'psk, 'sig) ffi_heap \<Rightarrow> (fcp_owned_buffer option \<times> ('sk, 'psk, 'sig) ffi_heap) option" where
  "fcp_buffer_free buffer hp =
     (case buffer of
        None \<Rightarrow> Some (None, hp)
      | Some old \<Rightarrow>
          (case buf_data old of
             None \<Rightarrow> Some (Some empty_buffer, hp)
           | Some a \<Rightarrow>
               if buf_len old = 0 then Some (Some empty_buffer, hp)
               else if map_option length (hp_buffers hp a) = Some (buf_len old)
               then Some (Some empty_buffer, hp\<lparr>hp_buffers := (hp_buffers hp)(a := None)\<rparr>)
               else None))"

definition fcp_action_free ::
  "fcp_action option \<Rightarrow> ('sk, 'psk, 'sig) ffi_heap \<Rightarrow> (fcp_action option \<times> ('sk, 'psk, 'sig) ffi_heap) option" where
  "fcp_action_free action hp =
     (case action of
        None \<Rightarrow> Some (None, hp)
      | Some a \<Rightarrow>
          Option.bind (fcp_buffer_free (Some (act_remote_endpoint a)) hp) (\<lambda>(_, hp).
          Option.bind (fcp_buffer_free (Some (act_payload a)) hp) (\<lambda>(_, hp).
          Some (Some default_action, hp))))"

text \<open>A release takes the caller's slot: null, or a cell holding a handle, which is set to null.\<close>

definition free_handle :: "addr option option \<Rightarrow> (addr \<rightharpoonup> 'v) \<Rightarrow> (addr option option \<times> (addr \<rightharpoonup> 'v)) option" where
  "free_handle slot objects =
     (case slot of
        None \<Rightarrow> Some (None, objects)
      | Some None \<Rightarrow> Some (Some None, objects)
      | Some (Some handle) \<Rightarrow>
          (case objects handle of None \<Rightarrow> None | Some _ \<Rightarrow> Some (Some None, objects(handle := None))))"

definition required_handle :: "addr option \<Rightarrow> (addr \<rightharpoonup> 'v) \<Rightarrow> (fcp_status + addr \<times> 'v) option" where
  "required_handle handle objects =
     (case handle of
        None \<Rightarrow> Some (Inl FCP_STATUS_INVALID_ARGUMENT)
      | Some a \<Rightarrow> map_option (\<lambda>v. Inr (a, v)) (objects a))"

definition required_out :: "'v option \<Rightarrow> fcp_status + 'v" where
  "required_out out = ok_or FCP_STATUS_INVALID_ARGUMENT out"

definition lock_connection ::
  "addr option \<Rightarrow> ('sk, 'psk, 'sig) ffi_heap \<Rightarrow> (fcp_status + addr \<times> ('sk, 'psk) connection_state) option" where
  "lock_connection handle hp =
     map_option (\<lambda>r. and_then r (\<lambda>(a, st). if cs_poisoned st then Inl FCP_STATUS_CLOSED else Inr (a, st)))
       (required_handle handle (hp_connections hp))"

subsection \<open>The action queue\<close>

definition FCP_ACTION_SEND_ENVELOPE :: u32 where "FCP_ACTION_SEND_ENVELOPE = 1"
definition FCP_ACTION_APPLY_OFFER :: u32 where "FCP_ACTION_APPLY_OFFER = 2"
definition FCP_ACTION_APPLY_ANSWER :: u32 where "FCP_ACTION_APPLY_ANSWER = 3"
definition FCP_ACTION_ADD_CANDIDATE :: u32 where "FCP_ACTION_ADD_CANDIDATE = 4"
definition FCP_ACTION_OPEN_CONTROL_CHANNEL :: u32 where "FCP_ACTION_OPEN_CONTROL_CHANNEL = 5"
definition FCP_ACTION_DELIVER_CFR :: u32 where "FCP_ACTION_DELIVER_CFR = 6"
definition FCP_ACTION_CLOSE_TRANSPORT :: u32 where "FCP_ACTION_CLOSE_TRANSPORT = 7"

lemmas fcp_action_defs = FCP_ACTION_SEND_ENVELOPE_def FCP_ACTION_APPLY_OFFER_def FCP_ACTION_APPLY_ANSWER_def FCP_ACTION_ADD_CANDIDATE_def
  FCP_ACTION_OPEN_CONTROL_CHANNEL_def FCP_ACTION_DELIVER_CFR_def FCP_ACTION_CLOSE_TRANSPORT_def

fun queued_action :: "action \<Rightarrow> fcp_status + queued" where
  "queued_action (Send envelope) =
     and_then (map_err status_from_core (encode envelope)) (\<lambda>payload.
     Inr \<lparr>qa_kind = FCP_ACTION_SEND_ENVELOPE, qa_binding = filled 0, qa_sequence = 0, qa_close_code = 0, qa_envelope_id = filled 0,
       qa_remote_endpoint = None, qa_payload = payload\<rparr>)"
| "queued_action (ApplyOffer binding description) =
     Inr \<lparr>qa_kind = FCP_ACTION_APPLY_OFFER, qa_binding = binding_bytes binding, qa_sequence = 0, qa_close_code = 0, qa_envelope_id = filled 0,
       qa_remote_endpoint = None, qa_payload = description\<rparr>"
| "queued_action (ApplyAnswer binding description) =
     Inr \<lparr>qa_kind = FCP_ACTION_APPLY_ANSWER, qa_binding = binding_bytes binding, qa_sequence = 0, qa_close_code = 0, qa_envelope_id = filled 0,
       qa_remote_endpoint = None, qa_payload = description\<rparr>"
| "queued_action (AddCandidate sequence cand) =
     Inr \<lparr>qa_kind = FCP_ACTION_ADD_CANDIDATE, qa_binding = filled 0, qa_sequence = sequence, qa_close_code = 0, qa_envelope_id = filled 0,
       qa_remote_endpoint = None, qa_payload = cand\<rparr>"
| "queued_action OpenControlChannel =
     Inr \<lparr>qa_kind = FCP_ACTION_OPEN_CONTROL_CHANNEL, qa_binding = filled 0, qa_sequence = 0, qa_close_code = 0, qa_envelope_id = filled 0,
       qa_remote_endpoint = None, qa_payload = []\<rparr>"
| "queued_action (DeliverCfr i remote_endpoint payload) =
     Inr \<lparr>qa_kind = FCP_ACTION_DELIVER_CFR, qa_binding = filled 0, qa_sequence = 0, qa_close_code = 0, qa_envelope_id = envelope_id_bytes i,
       qa_remote_endpoint = Some remote_endpoint, qa_payload = payload\<rparr>"
| "queued_action (CloseTransport reason) =
     Inr \<lparr>qa_kind = FCP_ACTION_CLOSE_TRANSPORT, qa_binding = filled 0, qa_sequence = 0, qa_close_code = close_code_u16 reason,
       qa_envelope_id = filled 0, qa_remote_endpoint = None, qa_payload = []\<rparr>"

fun queue_actions :: "action list \<Rightarrow> queued list \<Rightarrow> (fcp_status + unit) \<times> queued list" where
  "queue_actions [] queue = (Inr (), queue)"
| "queue_actions (action # actions) queue =
     or_bail queue (queued_action action) (\<lambda>q. queue_actions actions (queue @ [q]))"

fun phase_code :: "phase \<Rightarrow> u32" where
  "phase_code Idle = 0"
| "phase_code OfferSent = 1"
| "phase_code OfferReceived = 2"
| "phase_code AnswerSent = 3"
| "phase_code AnswerReceived = 4"
| "phase_code Established = 5"
| "phase_code Closed = 6"

subsection \<open>Connections\<close>

record fcp_connection_options =
  co_federation :: fcp_byte_slice
  co_attempt :: fcp_byte_slice
  co_remote_endpoint :: fcp_byte_slice

definition fcp_connection_create ::
  "('sk, 'psk) key_ops \<Rightarrow> addr option \<Rightarrow> fcp_connection_options \<Rightarrow> addr option option \<Rightarrow> ('sk, 'psk, 'sig) ffi_heap \<Rightarrow>
     (fcp_status \<times> addr option option \<times> ('sk, 'psk, 'sig) ffi_heap) option" where
  "fcp_connection_create ops signer options out hp =
     map_option (\<lambda>handle.
       case and_then handle (\<lambda>(_, signer).
            and_then (ffi_federation_id (co_federation options)) (\<lambda>federation.
            and_then (ffi_attempt_id (co_attempt options)) (\<lambda>attempt.
            and_then (ffi_endpoint_identity (co_remote_endpoint options)) (\<lambda>remote.
            and_then (required_out out) (\<lambda>_.
            and_then (map_err status_from_core (connection_new federation attempt (signing_identity_endpoint ops signer) remote)) (\<lambda>connection.
            Inr \<lparr>cs_connection = connection, cs_signer = signer, cs_actions = [], cs_poisoned = False\<rparr>)))))) of
         Inl status \<Rightarrow> (status, out, hp)
       | Inr state \<Rightarrow> (FCP_STATUS_OK, Some (Some (hp_next hp)),
           hp\<lparr>hp_next := hp_next hp + 1, hp_connections := (hp_connections hp)(hp_next hp \<mapsto> state)\<rparr>))
     (required_handle signer (hp_signers hp))"

text \<open>
  The exported calls lock the connection, run on its state and release it.  The call bodies are the functions
  \<open>state_*\<close>; the state they leave behind on an early return is written back as well, as the guard does.
\<close>

definition on_connection ::
  "(('sk, 'psk) connection_state \<Rightarrow> (fcp_status + unit) \<times> ('sk, 'psk) connection_state) \<Rightarrow> addr option \<Rightarrow>
     ('sk, 'psk, 'sig) ffi_heap \<Rightarrow> (fcp_status \<times> ('sk, 'psk, 'sig) ffi_heap) option" where
  "on_connection f handle hp =
     map_option (\<lambda>locked.
       case locked of
         Inl status \<Rightarrow> (status, hp)
       | Inr (a, state) \<Rightarrow>
           (case f state of (r, state) \<Rightarrow>
              (ffi_status (lift_err r), hp\<lparr>hp_connections := (hp_connections hp)(a \<mapsto> state)\<rparr>)))
     (lock_connection handle hp)"

definition enqueue_result ::
  "(error + action list) \<times> connection \<Rightarrow> ('sk, 'psk) connection_state \<Rightarrow> (fcp_status + unit) \<times> ('sk, 'psk) connection_state" where
  "enqueue_result result state =
     (case result of (r, conn) \<Rightarrow>
        let state = state\<lparr>cs_connection := conn\<rparr> in
        or_bail state (map_err status_from_core r) (\<lambda>actions.
        case queue_actions actions (cs_actions state) of (r, queue) \<Rightarrow> (r, state\<lparr>cs_actions := queue\<rparr>)))"

definition state_begin_offer ::
  "crypto \<Rightarrow> ('sk, 'psk) key_ops \<Rightarrow> fcp_byte_slice \<Rightarrow> fcp_byte_slice \<Rightarrow> ('sk, 'psk) connection_state \<Rightarrow>
     (fcp_status + unit) \<times> ('sk, 'psk) connection_state" where
  "state_begin_offer c ops binding description state =
     or_bail state (ffi_webrtc_binding binding) (\<lambda>binding.
     or_bail state (copy_bounded description MAX_DESCRIPTION_BYTES) (\<lambda>description.
     enqueue_result (begin_offer c (signing_identity_signer ops (cs_signer state)) binding description (cs_connection state)) state))"

definition single :: "(error + action) \<times> connection \<Rightarrow> (error + action list) \<times> connection" where
  "single r = apfst (map_sum id (\<lambda>action. [action])) r"

definition state_answer ::
  "crypto \<Rightarrow> ('sk, 'psk) key_ops \<Rightarrow> fcp_byte_slice \<Rightarrow> fcp_byte_slice \<Rightarrow> ('sk, 'psk) connection_state \<Rightarrow>
     (fcp_status + unit) \<times> ('sk, 'psk) connection_state" where
  "state_answer c ops binding description state =
     or_bail state (ffi_webrtc_binding binding) (\<lambda>binding.
     or_bail state (copy_bounded description MAX_DESCRIPTION_BYTES) (\<lambda>description.
     enqueue_result (single (answer c (signing_identity_signer ops (cs_signer state)) binding description (cs_connection state))) state))"

definition state_candidate ::
  "('sk, 'psk) key_ops \<Rightarrow> u32 \<Rightarrow> fcp_byte_slice \<Rightarrow> ('sk, 'psk) connection_state \<Rightarrow> (fcp_status + unit) \<times> ('sk, 'psk) connection_state" where
  "state_candidate ops sequence cand state =
     or_bail state (copy_bounded cand MAX_CANDIDATE_BYTES) (\<lambda>cand.
     enqueue_result (single (candidate (signing_identity_signer ops (cs_signer state)) sequence cand (cs_connection state), cs_connection state)) state)"

definition state_cfr_control ::
  "('sk, 'psk) key_ops \<Rightarrow> fcp_byte_slice \<Rightarrow> ('sk, 'psk) connection_state \<Rightarrow> (fcp_status + unit) \<times> ('sk, 'psk) connection_state" where
  "state_cfr_control ops payload state =
     or_bail state (copy_bounded payload MAX_CFR_CONTROL_BYTES) (\<lambda>payload.
     enqueue_result (single (cfr_control (signing_identity_signer ops (cs_signer state)) payload (cs_connection state), cs_connection state)) state)"

definition state_close ::
  "('sk, 'psk) key_ops \<Rightarrow> u16 \<Rightarrow> ('sk, 'psk) connection_state \<Rightarrow> (fcp_status + unit) \<times> ('sk, 'psk) connection_state" where
  "state_close ops close_code state =
     enqueue_result (single (conn_close (signing_identity_signer ops (cs_signer state)) (CloseCode close_code) (cs_connection state))) state"

definition state_receive ::
  "crypto \<Rightarrow> fcp_byte_slice \<Rightarrow> ('sk, 'psk) connection_state \<Rightarrow> (fcp_status + unit) \<times> ('sk, 'psk) connection_state" where
  "state_receive c envelope state =
     or_bail state (copy_bounded envelope MAX_ENVELOPE_BYTES) (\<lambda>envelope.
     or_bail state (map_err status_from_core (decode_verified c envelope)) (\<lambda>envelope.
     enqueue_result (receive c envelope (cs_connection state)) state))"

definition state_transport_connected ::
  "('sk, 'psk) connection_state \<Rightarrow> (fcp_status + unit) \<times> ('sk, 'psk) connection_state" where
  "state_transport_connected state = enqueue_result (transport_connected (cs_connection state)) state"

definition state_transport_failed ::
  "('sk, 'psk) connection_state \<Rightarrow> (fcp_status + unit) \<times> ('sk, 'psk) connection_state" where
  "state_transport_failed state =
     (case transport_failed (cs_connection state) of (r, conn) \<Rightarrow> (map_err status_from_core r, state\<lparr>cs_connection := conn\<rparr>))"

definition fcp_connection_begin_offer where
  "fcp_connection_begin_offer c ops connection binding description = on_connection (state_begin_offer c ops binding description) connection"

definition fcp_connection_answer where
  "fcp_connection_answer c ops connection binding description = on_connection (state_answer c ops binding description) connection"

definition fcp_connection_candidate where
  "fcp_connection_candidate ops connection sequence cand = on_connection (state_candidate ops sequence cand) connection"

definition fcp_connection_cfr_control where
  "fcp_connection_cfr_control ops connection payload = on_connection (state_cfr_control ops payload) connection"

definition fcp_connection_close where
  "fcp_connection_close ops connection close_code = on_connection (state_close ops close_code) connection"

definition fcp_connection_receive where
  "fcp_connection_receive c connection envelope = on_connection (state_receive c envelope) connection"

definition fcp_connection_transport_connected where
  "fcp_connection_transport_connected connection = on_connection state_transport_connected connection"

definition fcp_connection_transport_failed where
  "fcp_connection_transport_failed connection = on_connection state_transport_failed connection"

definition action_of_queued :: "queued \<Rightarrow> ('sk, 'psk, 'sig) ffi_heap \<Rightarrow> fcp_action \<times> ('sk, 'psk, 'sig) ffi_heap" where
  "action_of_queued q hp =
     (case (case qa_remote_endpoint q of None \<Rightarrow> (empty_buffer, hp) | Some endpoint \<Rightarrow> endpoint_buffer endpoint hp) of
        (remote, hp) \<Rightarrow>
          (case owned_buffer (qa_payload q) hp of
             (payload, hp) \<Rightarrow>
               (\<lparr>act_kind = qa_kind q, act_binding = qa_binding q, act_sequence = qa_sequence q, act_close_code = qa_close_code q,
                  act_envelope_id = qa_envelope_id q, act_remote_endpoint = remote, act_payload = payload\<rparr>, hp)))"

definition fcp_connection_take_action ::
  "addr option \<Rightarrow> fcp_action option \<Rightarrow> ('sk, 'psk, 'sig) ffi_heap \<Rightarrow> (fcp_status \<times> fcp_action option \<times> ('sk, 'psk, 'sig) ffi_heap) option" where
  "fcp_connection_take_action connection out hp =
     (case required_out out of
        Inl status \<Rightarrow> Some (status, out, hp)
      | Inr _ \<Rightarrow>
          map_option (\<lambda>locked.
            case locked of
              Inl status \<Rightarrow> (status, out, hp)
            | Inr (a, state) \<Rightarrow>
                (case cs_actions state of
                   [] \<Rightarrow> (FCP_STATUS_NO_ACTION, out, hp)
                 | q # rest \<Rightarrow>
                     (case action_of_queued q (hp\<lparr>hp_connections := (hp_connections hp)(a \<mapsto> state\<lparr>cs_actions := rest\<rparr>)\<rparr>) of
                        (action, hp) \<Rightarrow> (FCP_STATUS_OK, Some action, hp))))
          (lock_connection connection hp))"

definition fcp_connection_phase ::
  "addr option \<Rightarrow> u32 option \<Rightarrow> ('sk, 'psk, 'sig) ffi_heap \<Rightarrow> (fcp_status \<times> u32 option) option" where
  "fcp_connection_phase connection out hp =
     (case required_out out of
        Inl status \<Rightarrow> Some (status, out)
      | Inr _ \<Rightarrow>
          map_option (\<lambda>locked.
            case locked of
              Inl status \<Rightarrow> (status, out)
            | Inr (a, state) \<Rightarrow> (FCP_STATUS_OK, Some (phase_code (conn_phase (cs_connection state)))))
          (lock_connection connection hp))"

definition fcp_connection_free ::
  "addr option option \<Rightarrow> ('sk, 'psk, 'sig) ffi_heap \<Rightarrow> (addr option option \<times> ('sk, 'psk, 'sig) ffi_heap) option" where
  "fcp_connection_free slot hp =
     map_option (\<lambda>(slot, objects). (slot, hp\<lparr>hp_connections := objects\<rparr>)) (free_handle slot (hp_connections hp))"

subsection \<open>Signers\<close>

text \<open>The key generators of the two libraries map the seeds read from the operating system to signing keys.\<close>

definition fcp_signer_generate ::
  "(32 bytes \<Rightarrow> 'sk) \<Rightarrow> (32 bytes \<Rightarrow> 'psk) \<Rightarrow> 32 bytes \<Rightarrow> 32 bytes \<Rightarrow> addr option option \<Rightarrow> ('sk, 'psk, 'sig) ffi_heap \<Rightarrow>
     fcp_status \<times> addr option option \<times> ('sk, 'psk, 'sig) ffi_heap" where
  "fcp_signer_generate ed25519_from_bytes mldsa_from_seed classical_seed post_quantum_seed out hp =
     (case required_out out of
        Inl status \<Rightarrow> (status, out, hp)
      | Inr _ \<Rightarrow>
          (FCP_STATUS_OK, Some (Some (hp_next hp)),
           hp\<lparr>hp_next := hp_next hp + 1, hp_signers := (hp_signers hp)(hp_next hp \<mapsto>
             \<lparr>si_classical = ed25519_from_bytes classical_seed, si_post_quantum = mldsa_from_seed post_quantum_seed\<rparr>)\<rparr>))"

definition fcp_signer_public_identity ::
  "('sk, 'psk) key_ops \<Rightarrow> addr option \<Rightarrow> fcp_owned_buffer option \<Rightarrow> ('sk, 'psk, 'sig) ffi_heap \<Rightarrow>
     (fcp_status \<times> fcp_owned_buffer option \<times> ('sk, 'psk, 'sig) ffi_heap) option" where
  "fcp_signer_public_identity ops signer out hp =
     map_option (\<lambda>handle.
       case and_then handle (\<lambda>(_, signer). and_then (required_out out) (\<lambda>_. Inr signer)) of
         Inl status \<Rightarrow> (status, out, hp)
       | Inr signer \<Rightarrow>
           (case endpoint_buffer (signing_identity_endpoint ops signer) hp of
              (buffer, hp) \<Rightarrow> (FCP_STATUS_OK, Some buffer, hp)))
     (required_handle signer (hp_signers hp))"

definition fcp_signer_free ::
  "addr option option \<Rightarrow> ('sk, 'psk, 'sig) ffi_heap \<Rightarrow> (addr option option \<times> ('sk, 'psk, 'sig) ffi_heap) option" where
  "fcp_signer_free slot hp =
     map_option (\<lambda>(slot, objects). (slot, hp\<lparr>hp_signers := objects\<rparr>)) (free_handle slot (hp_signers hp))"

subsection \<open>Clients and verification\<close>

record fcp_client_options =
  cl_federation :: fcp_byte_slice
  cl_authority :: fcp_byte_slice
  cl_local_cfr_identity :: fcp_byte_slice
  cl_local_endpoint :: fcp_byte_slice

definition fcp_client_create ::
  "(32 bytes \<Rightarrow> 'sig) \<Rightarrow> fcp_client_options \<Rightarrow> addr option option \<Rightarrow> ('sk, 'psk, 'sig) ffi_heap \<Rightarrow>
     fcp_status \<times> addr option option \<times> ('sk, 'psk, 'sig) ffi_heap" where
  "fcp_client_create sig_from_bytes options out hp =
     (case and_then (ffi_federation_id (cl_federation options)) (\<lambda>federation.
           and_then (ffi_endpoint_identity (cl_authority options)) (\<lambda>authority.
           and_then (ffi_fixed (cl_local_cfr_identity options)) (\<lambda>local_cfr_identity.
           and_then (ffi_endpoint_identity (cl_local_endpoint options)) (\<lambda>local_endpoint.
           and_then (required_out out) (\<lambda>_.
           Inr \<lparr>pol_federation = federation, pol_authority = authority, pol_local_cfr_identity = sig_from_bytes local_cfr_identity,
             pol_local_endpoint = local_endpoint\<rparr>))))) of
        Inl status \<Rightarrow> (status, out, hp)
      | Inr policy \<Rightarrow>
          (FCP_STATUS_OK, Some (Some (hp_next hp)),
           hp\<lparr>hp_next := hp_next hp + 1, hp_clients := (hp_clients hp)(hp_next hp \<mapsto> \<lparr>cc_client = client_new policy, cc_poisoned = False\<rparr>)\<rparr>))"

definition fcp_client_apply_configuration ::
  "crypto \<Rightarrow> (32 bytes \<Rightarrow> 'sig::linorder) \<Rightarrow> addr option \<Rightarrow> fcp_byte_slice \<Rightarrow> ('sk, 'psk, 'sig) ffi_heap \<Rightarrow>
     (fcp_status \<times> ('sk, 'psk, 'sig) ffi_heap) option" where
  "fcp_client_apply_configuration c sig_from_bytes client configuration hp =
     map_option (\<lambda>handle.
       case and_then (lift_err handle) (\<lambda>(a, state).
            and_then (lift_err (copy_bounded configuration MAX_ENVELOPE_BYTES)) (\<lambda>configuration.
            and_then (map_err fault_status (config_decode_verified c configuration)) (\<lambda>configuration.
            if cc_poisoned state then Inl (Err FCP_STATUS_CLOSED) else Inr (a, state, configuration)))) of
         Inl fault \<Rightarrow> (ffi_status (Inl fault), hp)
       | Inr (a, state, configuration) \<Rightarrow>
           (case apply_configuration c sig_from_bytes configuration (cc_client state) of (r, client) \<Rightarrow>
              (ffi_status (lift_err (map_err status_from_client r)), hp\<lparr>hp_clients := (hp_clients hp)(a \<mapsto> state\<lparr>cc_client := client\<rparr>)\<rparr>)))
     (required_handle client (hp_clients hp))"

definition fcp_client_accepted_epoch ::
  "addr option \<Rightarrow> u64 option \<Rightarrow> u8 option \<Rightarrow> ('sk, 'psk, 'sig) ffi_heap \<Rightarrow> (fcp_status \<times> u64 option \<times> u8 option) option" where
  "fcp_client_accepted_epoch client out_epoch out_present hp =
     map_option (\<lambda>handle.
       case and_then handle (\<lambda>(_, state).
            and_then (required_out out_epoch) (\<lambda>_.
            and_then (required_out out_present) (\<lambda>_.
            if cc_poisoned state then Inl FCP_STATUS_CLOSED else Inr (cl_accepted_epoch (cc_client state))))) of
         Inl status \<Rightarrow> (status, out_epoch, out_present)
       | Inr (Some epoch) \<Rightarrow> (FCP_STATUS_OK, Some epoch, Some 1)
       | Inr None \<Rightarrow> (FCP_STATUS_OK, Some 0, Some 0))
     (required_handle client (hp_clients hp))"

definition fcp_client_free ::
  "addr option option \<Rightarrow> ('sk, 'psk, 'sig) ffi_heap \<Rightarrow> (addr option option \<times> ('sk, 'psk, 'sig) ffi_heap) option" where
  "fcp_client_free slot hp =
     map_option (\<lambda>(slot, objects). (slot, hp\<lparr>hp_clients := objects\<rparr>)) (free_handle slot (hp_clients hp))"

definition fcp_envelope_verify :: "crypto \<Rightarrow> fcp_byte_slice \<Rightarrow> fcp_status" where
  "fcp_envelope_verify c envelope =
     ffi_status (lift_err (and_then (copy_bounded envelope MAX_ENVELOPE_BYTES) (\<lambda>envelope.
       and_then (map_err status_from_core (decode_verified c envelope)) (\<lambda>_. Inr ()))))"

definition fcp_configuration_verify :: "crypto \<Rightarrow> fcp_byte_slice \<Rightarrow> fcp_status" where
  "fcp_configuration_verify c configuration =
     ffi_status (and_then (lift_err (borrowed_bytes configuration)) (\<lambda>configuration.
       and_then (map_err fault_status (config_decode_verified c configuration)) (\<lambda>_. Inr ())))"

subsection \<open>The calls refine the state machine\<close>

datatype ffi_call =
    CallBeginOffer fcp_byte_slice fcp_byte_slice
  | CallAnswer fcp_byte_slice fcp_byte_slice
  | CallCandidate u32 fcp_byte_slice
  | CallCfrControl fcp_byte_slice
  | CallClose u16
  | CallReceive fcp_byte_slice
  | CallConnected
  | CallFailed

fun ffi_export ::
  "crypto \<Rightarrow> ('sk, 'psk) key_ops \<Rightarrow> ffi_call \<Rightarrow> addr option \<Rightarrow> ('sk, 'psk, 'sig) ffi_heap \<Rightarrow>
     (fcp_status \<times> ('sk, 'psk, 'sig) ffi_heap) option" where
  "ffi_export c ops (CallBeginOffer binding description) h = fcp_connection_begin_offer c ops h binding description"
| "ffi_export c ops (CallAnswer binding description) h = fcp_connection_answer c ops h binding description"
| "ffi_export c ops (CallCandidate sequence cand) h = fcp_connection_candidate ops h sequence cand"
| "ffi_export c ops (CallCfrControl payload) h = fcp_connection_cfr_control ops h payload"
| "ffi_export c ops (CallClose code) h = fcp_connection_close ops h code"
| "ffi_export c ops (CallReceive envelope) h = fcp_connection_receive c h envelope"
| "ffi_export c ops CallConnected h = fcp_connection_transport_connected h"
| "ffi_export c ops CallFailed h = fcp_connection_transport_failed h"

text \<open>The operation of the state machine a call stands for, or the status of a malformed argument.\<close>

fun core_op :: "crypto \<Rightarrow> signer \<Rightarrow> ffi_call \<Rightarrow> fcp_status + conn_op" where
  "core_op c s (CallBeginOffer binding description) =
     and_then (ffi_webrtc_binding binding) (\<lambda>b.
     and_then (copy_bounded description MAX_DESCRIPTION_BYTES) (\<lambda>d. Inr (OpBeginOffer s b d)))"
| "core_op c s (CallAnswer binding description) =
     and_then (ffi_webrtc_binding binding) (\<lambda>b.
     and_then (copy_bounded description MAX_DESCRIPTION_BYTES) (\<lambda>d. Inr (OpAnswer s b d)))"
| "core_op c s (CallCandidate sequence cand) =
     and_then (copy_bounded cand MAX_CANDIDATE_BYTES) (\<lambda>k. Inr (OpCandidate s sequence k))"
| "core_op c s (CallCfrControl payload) =
     and_then (copy_bounded payload MAX_CFR_CONTROL_BYTES) (\<lambda>p. Inr (OpCfrControl s p))"
| "core_op c s (CallClose code) = Inr (OpClose s (CloseCode code))"
| "core_op c s (CallReceive envelope) =
     and_then (copy_bounded envelope MAX_ENVELOPE_BYTES) (\<lambda>w.
     and_then (map_err status_from_core (decode_verified c w)) (\<lambda>env. Inr (OpReceive env)))"
| "core_op c s CallConnected = Inr OpConnected"
| "core_op c s CallFailed = Inr OpFailed"

definition state_call ::
  "crypto \<Rightarrow> ('sk, 'psk) key_ops \<Rightarrow> ffi_call \<Rightarrow> ('sk, 'psk) connection_state \<Rightarrow> (fcp_status + unit) \<times> ('sk, 'psk) connection_state" where
  "state_call c ops call st =
     or_bail st (core_op c (signing_identity_signer ops (cs_signer st)) call) (\<lambda>op.
     enqueue_result (conn_apply c op (cs_connection st)) st)"

lemma or_bail_nested: "or_bail st (and_then r f) k = or_bail st r (\<lambda>x. or_bail st (f x) k)"
  by (cases r) simp_all

lemma enqueue_failed:
  "enqueue_result (apfst (map_sum id (\<lambda>_ :: unit. [])) r) st =
     (case r of (r, conn) \<Rightarrow> (map_err status_from_core r, st\<lparr>cs_connection := conn\<rparr>))"
  by (cases r; cases "fst r") (simp_all add: enqueue_result_def)

lemma state_call_eq:
  "state_begin_offer c ops b d = state_call c ops (CallBeginOffer b d)"
  "state_answer c ops b d = state_call c ops (CallAnswer b d)"
  "state_candidate ops n k = state_call c ops (CallCandidate n k)"
  "state_cfr_control ops p = state_call c ops (CallCfrControl p)"
  "state_close ops code = state_call c ops (CallClose code)"
  "state_receive c w = state_call c ops (CallReceive w)"
  "state_transport_connected = state_call c ops CallConnected"
  "state_transport_failed = state_call c ops CallFailed"
  by (simp_all add: fun_eq_iff state_call_def state_begin_offer_def state_answer_def state_candidate_def state_cfr_control_def
      state_close_def state_receive_def state_transport_connected_def state_transport_failed_def or_bail_nested single_def
      enqueue_failed)

lemma ffi_export_eq: "ffi_export c ops call h hp = on_connection (state_call c ops call) h hp"
  by (cases call) (simp_all add: fcp_connection_begin_offer_def fcp_connection_answer_def fcp_connection_candidate_def
      fcp_connection_cfr_control_def fcp_connection_close_def fcp_connection_receive_def fcp_connection_transport_connected_def
      fcp_connection_transport_failed_def flip: state_call_eq)

lemma queue_actions_try_map: "try_map queued_action actions = Inr qs \<Longrightarrow> queue_actions actions queue = (Inr (), queue @ qs)"
  by (induction actions arbitrary: qs queue) (auto simp: and_then_eq_Inr)

text \<open>Every action of the state machine can be queued: what it signs is within the bounds.\<close>

lemma signed_queues: "conn_sign conn s b = Inr env \<Longrightarrow> \<exists>q. queued_action (Send env) = Inr q"
  by (auto simp: conn_sign_def sign_fields encode_eq)

lemma conn_apply_queues:
  assumes "conn_apply c op conn = (Inr actions, conn')"
  shows "\<exists>qs. try_map queued_action actions = Inr qs"
proof (cases op)
  case (OpReceive env)
  then show ?thesis using assms
    by (auto simp: receive_Inr receive_body_def or_bail_Inr Let_def split: if_splits body.splits)
qed (use assms in \<open>auto simp: begin_offer_Inr answer_Inr conn_close_Inr cfr_control_Inr candidate_def and_then_eq_Inr
    transport_connected_def transport_failed_def apfst_def map_prod_def Let_def
    dest!: signed_queues split: if_splits prod.splits sum.splits\<close>)

lemma state_call_cases:
  "state_call c ops call st =
     (case core_op c (signing_identity_signer ops (cs_signer st)) call of
        Inl status \<Rightarrow> (Inl status, st)
      | Inr op \<Rightarrow>
          (case conn_apply c op (cs_connection st) of
             (Inl e, _) \<Rightarrow> (Inl FCP_STATUS_PROTOCOL, st)
           | (Inr actions, conn) \<Rightarrow> (Inr (), st\<lparr>cs_connection := conn, cs_actions := cs_actions st @ projr (try_map queued_action actions)\<rparr>)))"
proof (cases "core_op c (signing_identity_signer ops (cs_signer st)) call")
  case (Inr op)
  obtain r conn where run: "conn_apply c op (cs_connection st) = (r, conn)" by fastforce
  show ?thesis
  proof (cases r)
    case (Inl e)
    then have "conn = cs_connection st" using run conn_apply_error by simp
    then show ?thesis using Inl Inr run by (simp add: state_call_def enqueue_result_def status_from_core_def)
  next
    case (Inr actions)
    then obtain qs where "try_map queued_action actions = Inr qs" using conn_apply_queues run by blast
    with queue_actions_try_map [OF this] show ?thesis
      using Inr \<open>core_op c _ call = Inr op\<close> run by (simp add: state_call_def enqueue_result_def)
  qed
qed (simp add: state_call_def)

subsection \<open>A host that follows the ownership rules\<close>

text \<open>
  The host keeps every handle in one slot and every returned record in one cell, passes them by reference, and
  releases them through the same slot or cell.  An index it has no slot for stands for a null pointer.
\<close>

record ('sk, 'psk, 'sig) host =
  hs_heap :: "('sk, 'psk, 'sig) ffi_heap"
  hs_signers :: "addr option list"
  hs_clients :: "addr option list"
  hs_connections :: "addr option list"
  hs_buffers :: "fcp_owned_buffer list"
  hs_actions :: "fcp_action list"

record ('sk, 'psk, 'sig) host_env =
  env_crypto :: crypto
  env_ops :: "('sk, 'psk) key_ops"
  env_ed25519_from_bytes :: "32 bytes \<Rightarrow> 'sk"
  env_mldsa_from_seed :: "32 bytes \<Rightarrow> 'psk"
  env_sig_from_bytes :: "32 bytes \<Rightarrow> 'sig"

datatype host_op =
    HostGenerate "32 bytes" "32 bytes"
  | HostIdentity nat
  | HostFreeSigner nat
  | HostCreateConnection nat fcp_connection_options
  | HostCall nat ffi_call
  | HostTakeAction nat
  | HostFreeConnection nat
  | HostCreateClient fcp_client_options
  | HostApply nat fcp_byte_slice
  | HostFreeClient nat
  | HostFreeBuffer nat
  | HostFreeAction nat

definition cell :: "'v list \<Rightarrow> nat \<Rightarrow> 'v option" where
  "cell xs i = (if i < length xs then Some (xs ! i) else None)"

definition slot_handle :: "addr option list \<Rightarrow> nat \<Rightarrow> addr option" where
  "slot_handle xs i = Option.bind (cell xs i) id"

definition store_cell :: "'v list \<Rightarrow> nat \<Rightarrow> 'v option \<Rightarrow> 'v list" where
  "store_cell xs i v = (case v of None \<Rightarrow> xs | Some v \<Rightarrow> xs[i := v])"

definition new_cell :: "'v list \<Rightarrow> 'v option \<Rightarrow> 'v list" where
  "new_cell xs v = (case v of None \<Rightarrow> xs | Some v \<Rightarrow> xs @ [v])"

fun host_step ::
  "('sk, 'psk, 'sig::linorder) host_env \<Rightarrow> host_op \<Rightarrow> ('sk, 'psk, 'sig) host \<Rightarrow> ('sk, 'psk, 'sig) host option" where
  "host_step e (HostGenerate seed seed') h =
     (case fcp_signer_generate (env_ed25519_from_bytes e) (env_mldsa_from_seed e) seed seed' (Some None) (hs_heap h) of
        (_, slot, hp) \<Rightarrow> Some (h\<lparr>hs_heap := hp, hs_signers := new_cell (hs_signers h) slot\<rparr>))"
| "host_step e (HostIdentity i) h =
     map_option (\<lambda>(_, buffer, hp). h\<lparr>hs_heap := hp, hs_buffers := new_cell (hs_buffers h) buffer\<rparr>)
       (fcp_signer_public_identity (env_ops e) (slot_handle (hs_signers h) i) (Some empty_buffer) (hs_heap h))"
| "host_step e (HostFreeSigner i) h =
     map_option (\<lambda>(slot, hp). h\<lparr>hs_heap := hp, hs_signers := store_cell (hs_signers h) i slot\<rparr>)
       (fcp_signer_free (cell (hs_signers h) i) (hs_heap h))"
| "host_step e (HostCreateConnection i options) h =
     map_option (\<lambda>(_, slot, hp). h\<lparr>hs_heap := hp, hs_connections := new_cell (hs_connections h) slot\<rparr>)
       (fcp_connection_create (env_ops e) (slot_handle (hs_signers h) i) options (Some None) (hs_heap h))"
| "host_step e (HostCall i call) h =
     map_option (\<lambda>(_, hp). h\<lparr>hs_heap := hp\<rparr>) (ffi_export (env_crypto e) (env_ops e) call (slot_handle (hs_connections h) i) (hs_heap h))"
| "host_step e (HostTakeAction i) h =
     map_option (\<lambda>(_, action, hp). h\<lparr>hs_heap := hp, hs_actions := new_cell (hs_actions h) action\<rparr>)
       (fcp_connection_take_action (slot_handle (hs_connections h) i) (Some default_action) (hs_heap h))"
| "host_step e (HostFreeConnection i) h =
     map_option (\<lambda>(slot, hp). h\<lparr>hs_heap := hp, hs_connections := store_cell (hs_connections h) i slot\<rparr>)
       (fcp_connection_free (cell (hs_connections h) i) (hs_heap h))"
| "host_step e (HostCreateClient options) h =
     (case fcp_client_create (env_sig_from_bytes e) options (Some None) (hs_heap h) of
        (_, slot, hp) \<Rightarrow> Some (h\<lparr>hs_heap := hp, hs_clients := new_cell (hs_clients h) slot\<rparr>))"
| "host_step e (HostApply i configuration) h =
     map_option (\<lambda>(_, hp). h\<lparr>hs_heap := hp\<rparr>)
       (fcp_client_apply_configuration (env_crypto e) (env_sig_from_bytes e) (slot_handle (hs_clients h) i) configuration (hs_heap h))"
| "host_step e (HostFreeClient i) h =
     map_option (\<lambda>(slot, hp). h\<lparr>hs_heap := hp, hs_clients := store_cell (hs_clients h) i slot\<rparr>)
       (fcp_client_free (cell (hs_clients h) i) (hs_heap h))"
| "host_step e (HostFreeBuffer i) h =
     map_option (\<lambda>(buffer, hp). h\<lparr>hs_heap := hp, hs_buffers := store_cell (hs_buffers h) i buffer\<rparr>)
       (fcp_buffer_free (cell (hs_buffers h) i) (hs_heap h))"
| "host_step e (HostFreeAction i) h =
     map_option (\<lambda>(action, hp). h\<lparr>hs_heap := hp, hs_actions := store_cell (hs_actions h) i action\<rparr>)
       (fcp_action_free (cell (hs_actions h) i) (hs_heap h))"

fun host_run :: "('sk, 'psk, 'sig::linorder) host_env \<Rightarrow> host_op list \<Rightarrow> ('sk, 'psk, 'sig) host \<Rightarrow> ('sk, 'psk, 'sig) host option" where
  "host_run e [] h = Some h"
| "host_run e (op # ops) h = Option.bind (host_step e op h) (host_run e ops)"

definition host_new :: "('sk, 'psk, 'sig) host" where
  "host_new = \<lparr>hs_heap = \<lparr>hp_next = 0, hp_buffers = Map.empty, hp_signers = Map.empty, hp_clients = Map.empty, hp_connections = Map.empty\<rparr>,
     hs_signers = [], hs_clients = [], hs_connections = [], hs_buffers = [], hs_actions = []\<rparr>"

text \<open>Ownership: the addresses the host holds are, each once, the allocated ones.\<close>

definition handle_addrs :: "addr option \<Rightarrow> addr multiset" where
  "handle_addrs h = (case h of None \<Rightarrow> {#} | Some a \<Rightarrow> {#a#})"

definition buffer_addrs :: "fcp_owned_buffer \<Rightarrow> addr multiset" where
  "buffer_addrs b = (if buf_len b = 0 then {#} else handle_addrs (buf_data b))"

definition action_buffers :: "fcp_action \<Rightarrow> fcp_owned_buffer list" where
  "action_buffers a = [act_remote_endpoint a, act_payload a]"

definition addrs_of :: "('r \<Rightarrow> addr multiset) \<Rightarrow> 'r list \<Rightarrow> addr multiset" where
  "addrs_of f xs = sum_list (map f xs)"

definition allocated :: "addr \<Rightarrow> (addr \<rightharpoonup> 'v) \<Rightarrow> addr multiset \<Rightarrow> bool" where
  "allocated next objects owned \<longleftrightarrow> finite (dom objects) \<and> dom objects \<subseteq> {..<next} \<and> owned = mset_set (dom objects)"

definition buffer_ok :: "(addr \<rightharpoonup> u8 list) \<Rightarrow> fcp_owned_buffer \<Rightarrow> bool" where
  "buffer_ok objects b \<longleftrightarrow> buf_len b = 0 \<or> (\<exists>a bytes. buf_data b = Some a \<and> objects a = Some bytes \<and> length bytes = buf_len b)"

definition buffers_inv :: "addr \<Rightarrow> (addr \<rightharpoonup> u8 list) \<Rightarrow> fcp_owned_buffer list \<Rightarrow> bool" where
  "buffers_inv n t rs \<longleftrightarrow> allocated n t (addrs_of buffer_addrs rs) \<and> list_all (buffer_ok t) rs"

definition host_records :: "('sk, 'psk, 'sig) host \<Rightarrow> fcp_owned_buffer list" where
  "host_records h = hs_buffers h @ concat (map action_buffers (hs_actions h))"

definition host_inv :: "('sk, 'psk, 'sig) host \<Rightarrow> bool" where
  "host_inv h \<longleftrightarrow>
     allocated (hp_next (hs_heap h)) (hp_signers (hs_heap h)) (addrs_of handle_addrs (hs_signers h)) \<and>
     allocated (hp_next (hs_heap h)) (hp_clients (hs_heap h)) (addrs_of handle_addrs (hs_clients h)) \<and>
     allocated (hp_next (hs_heap h)) (hp_connections (hs_heap h)) (addrs_of handle_addrs (hs_connections h)) \<and>
     buffers_inv (hp_next (hs_heap h)) (hp_buffers (hs_heap h)) (host_records h)"

lemma addrs_of_simps [simp]: "addrs_of f [] = {#}" "addrs_of f (x # xs) = f x + addrs_of f xs" "addrs_of f (xs @ ys) = addrs_of f xs + addrs_of f ys"
  by (simp_all add: addrs_of_def)

lemma addrs_of_perm: "mset xs = mset ys \<Longrightarrow> addrs_of f xs = addrs_of f ys"
  by (metis addrs_of_def mset_map sum_mset_sum_list)

lemma handle_addrs_simps [simp]: "handle_addrs None = {#}" "handle_addrs (Some a) = {#a#}"
  by (simp_all add: handle_addrs_def)

lemma empty_buffer_addrs [simp]: "buffer_addrs empty_buffer = {#}" "buffer_ok t empty_buffer"
  by (simp_all add: buffer_addrs_def empty_buffer_def buffer_ok_def)

lemma mset_cell:
  assumes "i < length xs"
  shows "mset xs = add_mset (xs ! i) (mset (take i xs @ drop (Suc i) xs))"
    and "mset (xs[i := v]) = add_mset v (mset (take i xs @ drop (Suc i) xs))"
proof -
  have "mset xs = mset (take i xs @ xs ! i # drop (Suc i) xs)" using assms by (simp only: id_take_nth_drop [symmetric])
  then show "mset xs = add_mset (xs ! i) (mset (take i xs @ drop (Suc i) xs))" by simp
  show "mset (xs[i := v]) = add_mset v (mset (take i xs @ drop (Suc i) xs))" using assms by (simp add: upd_conv_take_nth_drop)
qed

lemma allocated_simps:
  "allocated n t own \<Longrightarrow> allocated (Suc n) (t(n \<mapsto> v)) (add_mset n own)"
  "allocated n t own \<Longrightarrow> allocated (Suc n) t own"
  "allocated n t own \<Longrightarrow> a \<in> dom t \<Longrightarrow> allocated n (t(a \<mapsto> v)) own"
  by (auto simp: allocated_def less_Suc_eq insert_absorb) (subst mset_set.insert, auto)

lemma allocated_live: "allocated n t own \<Longrightarrow> a \<in># own \<Longrightarrow> a \<in> dom t"
  by (simp add: allocated_def)

lemma allocated_free: "allocated n t (add_mset a own) \<Longrightarrow> allocated n (t(a := None)) own \<and> a \<notin># own"
proof -
  assume own: "allocated n t (add_mset a own)"
  then have fin: "finite (dom t)" and sum: "add_mset a own = mset_set (dom t)" by (simp_all add: allocated_def)
  have a: "a \<in> dom t" using allocated_live [OF own] by simp
  have eq: "own = mset_set (dom t) - {#a#}" by (simp flip: sum)
  have "mset_set (dom t - {a}) = own" using fin a by (simp add: eq mset_set_Diff)
  with own fin show ?thesis by (auto simp: allocated_def)
qed

lemma free_handle_owned:
  assumes own: "allocated n t (addrs_of handle_addrs xs)"
  shows "\<exists>slot t'. free_handle (cell xs i) t = Some (slot, t') \<and> allocated n t' (addrs_of handle_addrs (store_cell xs i slot))"
proof (cases "\<exists>a. cell xs i = Some (Some a)")
  case True
  then obtain a where i: "i < length xs" and a: "xs ! i = Some a" by (auto simp: cell_def split: if_splits)
  let ?rest = "take i xs @ drop (Suc i) xs"
  have "addrs_of handle_addrs xs = addrs_of handle_addrs (Some a # ?rest)"
    using mset_cell(1) [OF i] a by (intro addrs_of_perm) simp
  then have own': "allocated n t (add_mset a (addrs_of handle_addrs ?rest))" using own by simp
  have "addrs_of handle_addrs (xs[i := None]) = addrs_of handle_addrs (None # ?rest)"
    using mset_cell(2) [OF i] by (intro addrs_of_perm) simp
  moreover obtain v where "t a = Some v" using allocated_live [OF own', of a] by auto
  ultimately show ?thesis using i a allocated_free [OF own'] by (auto simp: free_handle_def cell_def store_cell_def)
next
  case False
  then show ?thesis using own
    by (auto simp: free_handle_def cell_def store_cell_def list_update_id split: option.split if_splits) (metis list_update_id)
qed

lemma handle_owned: "slot_handle xs i = Some a \<Longrightarrow> a \<in># addrs_of handle_addrs xs"
proof -
  assume "slot_handle xs i = Some a"
  then have i: "i < length xs" and a: "xs ! i = Some a" by (auto simp: slot_handle_def cell_def split: if_splits)
  show ?thesis using mset_cell(1) [OF i] a addrs_of_perm [of xs "Some a # take i xs @ drop (Suc i) xs" handle_addrs] by simp
qed

lemma buffers_inv_perm: "mset rs = mset rs' \<Longrightarrow> buffers_inv n t rs = buffers_inv n t rs'"
  using addrs_of_perm [of rs rs' buffer_addrs] mset_eq_setD [of rs rs'] by (simp add: buffers_inv_def list_all_iff)

lemma buffers_inv_empty [simp]: "buffers_inv n t (empty_buffer # rs) = buffers_inv n t rs"
  by (simp add: buffers_inv_def)

lemma buffers_inv_mono: "buffers_inv n t rs \<Longrightarrow> buffers_inv (Suc n) t rs"
  by (simp add: buffers_inv_def allocated_simps)

lemma owned_buffer_inv:
  assumes "owned_buffer bytes hp = (b, hp')" and inv: "buffers_inv (hp_next hp) (hp_buffers hp) rs"
  shows "buffers_inv (hp_next hp') (hp_buffers hp') (b # rs)"
proof (cases "bytes = []")
  case False
  have fresh: "hp_next hp \<notin> dom (hp_buffers hp)" using inv by (auto simp: buffers_inv_def allocated_def)
  have "buffer_ok ((hp_buffers hp)(hp_next hp \<mapsto> bytes)) r" if "buffer_ok (hp_buffers hp) r" for r
    using that fresh by (auto simp: buffer_ok_def)
  then have "list_all (buffer_ok ((hp_buffers hp)(hp_next hp \<mapsto> bytes))) rs" using inv by (simp add: buffers_inv_def list_all_iff)
  moreover have "allocated (Suc (hp_next hp)) ((hp_buffers hp)(hp_next hp \<mapsto> bytes)) (add_mset (hp_next hp) (addrs_of buffer_addrs rs))"
    using inv by (simp add: buffers_inv_def allocated_simps(1))
  ultimately show ?thesis using assms(1) False
    by (auto simp: owned_buffer_def buffers_inv_def buffer_addrs_def buffer_ok_def)
qed (use assms in \<open>simp add: owned_buffer_def\<close>)

lemma owned_buffer_frame:
  assumes "owned_buffer bytes hp = (b, hp')"
  shows "hp_signers hp' = hp_signers hp" "hp_clients hp' = hp_clients hp" "hp_connections hp' = hp_connections hp"
    "hp_next hp \<le> hp_next hp'"
  using assms by (auto simp: owned_buffer_def split: if_splits)

lemma buffer_free_inv:
  assumes inv: "buffers_inv (hp_next hp) (hp_buffers hp) (b # rs)"
  shows "\<exists>t. fcp_buffer_free (Some b) hp = Some (Some empty_buffer, hp\<lparr>hp_buffers := t\<rparr>) \<and> buffers_inv (hp_next hp) t rs"
proof (cases "buf_len b = 0")
  case True
  then show ?thesis using inv
    by (auto simp: fcp_buffer_free_def buffers_inv_def buffer_addrs_def split: option.split intro!: exI [of _ "hp_buffers hp"])
next
  case False
  then obtain a bytes where a: "buf_data b = Some a" "hp_buffers hp a = Some bytes" "length bytes = buf_len b"
    using inv by (auto simp: buffers_inv_def buffer_ok_def)
  then have own: "allocated (hp_next hp) (hp_buffers hp) (add_mset a (addrs_of buffer_addrs rs))"
    using inv False by (simp add: buffers_inv_def buffer_addrs_def)
  have "buffer_ok ((hp_buffers hp)(a := None)) r" if r: "r \<in> set rs" and ok: "buffer_ok (hp_buffers hp) r" for r
  proof (cases "buf_len r = 0")
    case False
    have "buffer_addrs r \<subseteq># addrs_of buffer_addrs rs" using r by (induction rs) (auto simp: subset_mset.add_increasing subset_mset.add_increasing2)
    then have "buf_data r \<noteq> Some a" using allocated_free [OF own] False by (auto simp: buffer_addrs_def)
    then show ?thesis using ok by (auto simp: buffer_ok_def)
  qed (simp add: buffer_ok_def)
  then show ?thesis using False a inv allocated_free [OF own]
    by (auto simp: fcp_buffer_free_def buffers_inv_def list_all_iff intro!: exI [of _ "(hp_buffers hp)(a := None)"])
qed

lemma addrs_of_new_cell: "addrs_of f (new_cell xs (Some v)) = f v + addrs_of f xs"
  by (simp add: new_cell_def)

lemma host_inv_generate: "host_inv h \<Longrightarrow> \<exists>h'. host_step e (HostGenerate seed seed') h = Some h' \<and> host_inv h'"
  by (auto simp: host_inv_def fcp_signer_generate_def required_out_def host_records_def addrs_of_new_cell
      allocated_simps(1,2) buffers_inv_mono)

lemma host_inv_create_client: "host_inv h \<Longrightarrow> \<exists>h'. host_step e (HostCreateClient options) h = Some h' \<and> host_inv h'"
  by (auto simp: host_inv_def fcp_client_create_def required_out_def host_records_def addrs_of_new_cell
      allocated_simps(1,2) buffers_inv_mono split: sum.split)

lemma required_handle_owned:
  assumes "allocated n t (addrs_of handle_addrs xs)"
  obtains (null) "slot_handle xs i = None" "required_handle (slot_handle xs i) t = Some (Inl FCP_STATUS_INVALID_ARGUMENT)"
  | (live) a v where "slot_handle xs i = Some a" "t a = Some v" "required_handle (slot_handle xs i) t = Some (Inr (a, v))"
proof (cases "slot_handle xs i")
  case (Some a)
  then obtain v where "t a = Some v" using allocated_live [OF assms handle_owned [OF Some]] by auto
  then show ?thesis using Some live by (simp add: required_handle_def)
qed (use null in \<open>simp add: required_handle_def\<close>)

lemma host_inv_create_connection: "host_inv h \<Longrightarrow> \<exists>h'. host_step e (HostCreateConnection i options) h = Some h' \<and> host_inv h'"
proof -
  assume inv: "host_inv h"
  then have "allocated (hp_next (hs_heap h)) (hp_signers (hs_heap h)) (addrs_of handle_addrs (hs_signers h))" by (simp add: host_inv_def)
  then show ?thesis
    by (rule required_handle_owned [of _ _ _ i])
      (use inv in \<open>auto simp: host_inv_def fcp_connection_create_def required_out_def host_records_def addrs_of_new_cell
        allocated_simps(1,2) buffers_inv_mono split: sum.split\<close>)
qed

lemma host_inv_call: "host_inv h \<Longrightarrow> \<exists>h'. host_step e (HostCall i call) h = Some h' \<and> host_inv h'"
proof -
  assume inv: "host_inv h"
  then have "allocated (hp_next (hs_heap h)) (hp_connections (hs_heap h)) (addrs_of handle_addrs (hs_connections h))" by (simp add: host_inv_def)
  then show ?thesis
    by (rule required_handle_owned [of _ _ _ i])
      (use inv in \<open>auto simp: host_inv_def ffi_export_eq on_connection_def lock_connection_def host_records_def
        intro!: allocated_simps(3) split: sum.split prod.split\<close>)
qed

lemma host_inv_apply: "host_inv h \<Longrightarrow> \<exists>h'. host_step e (HostApply i configuration) h = Some h' \<and> host_inv h'"
proof -
  assume inv: "host_inv h"
  then have "allocated (hp_next (hs_heap h)) (hp_clients (hs_heap h)) (addrs_of handle_addrs (hs_clients h))" by (simp add: host_inv_def)
  then show ?thesis
    by (rule required_handle_owned [of _ _ _ i])
      (use inv in \<open>auto simp: host_inv_def fcp_client_apply_configuration_def host_records_def and_then_eq_Inr
        intro!: allocated_simps(3) split: sum.split prod.split\<close>)
qed

lemma host_inv_free_handle:
  "host_inv h \<Longrightarrow> \<exists>h'. host_step e (HostFreeSigner i) h = Some h' \<and> host_inv h'"
  "host_inv h \<Longrightarrow> \<exists>h'. host_step e (HostFreeClient i) h = Some h' \<and> host_inv h'"
  "host_inv h \<Longrightarrow> \<exists>h'. host_step e (HostFreeConnection i) h = Some h' \<and> host_inv h'"
  using free_handle_owned [of "hp_next (hs_heap h)" "hp_signers (hs_heap h)" "hs_signers h" i]
    free_handle_owned [of "hp_next (hs_heap h)" "hp_clients (hs_heap h)" "hs_clients h" i]
    free_handle_owned [of "hp_next (hs_heap h)" "hp_connections (hs_heap h)" "hs_connections h" i]
  by (auto simp: host_inv_def fcp_signer_free_def fcp_client_free_def fcp_connection_free_def host_records_def)

lemma allocated_mono: "allocated n t own \<Longrightarrow> n \<le> m \<Longrightarrow> allocated m t own"
  by (auto simp: allocated_def)

lemma host_inv_heap:
  assumes inv: "host_inv h"
    and frame: "hp_signers hp = hp_signers (hs_heap h)" "hp_clients hp = hp_clients (hs_heap h)" "hp_connections hp = hp_connections (hs_heap h)"
      "hp_next (hs_heap h) \<le> hp_next hp"
    and bufs: "buffers_inv (hp_next hp) (hp_buffers hp) (host_records h')"
    and h': "hs_heap h' = hp" "hs_signers h' = hs_signers h" "hs_clients h' = hs_clients h" "hs_connections h' = hs_connections h"
  shows "host_inv h'"
  using inv bufs by (simp add: host_inv_def h' frame allocated_mono [OF _ frame(4)])

lemma host_inv_new_buffer:
  assumes "host_inv h" and "owned_buffer bytes (hs_heap h) = (b, hp)"
  shows "host_inv (h\<lparr>hs_heap := hp, hs_buffers := hs_buffers h @ [b]\<rparr>)"
proof (rule host_inv_heap [OF assms(1) owned_buffer_frame [OF assms(2)]])
  have "buffers_inv (hp_next hp) (hp_buffers hp) (b # host_records h)"
    using owned_buffer_inv [OF assms(2)] assms(1) by (simp add: host_inv_def)
  then show "buffers_inv (hp_next hp) (hp_buffers hp) (host_records (h\<lparr>hs_heap := hp, hs_buffers := hs_buffers h @ [b]\<rparr>))"
    by (subst buffers_inv_perm [of _ "b # host_records h"]) (simp_all add: host_records_def)
qed simp_all

lemma host_inv_identity: "host_inv h \<Longrightarrow> \<exists>h'. host_step e (HostIdentity i) h = Some h' \<and> host_inv h'"
proof -
  assume inv: "host_inv h"
  then have own: "allocated (hp_next (hs_heap h)) (hp_signers (hs_heap h)) (addrs_of handle_addrs (hs_signers h))" by (simp add: host_inv_def)
  have empty: "host_inv (h\<lparr>hs_buffers := hs_buffers h @ [empty_buffer]\<rparr>)"
    using host_inv_new_buffer [OF inv, of "[]" empty_buffer "hs_heap h"] by (simp add: owned_buffer_def)
  show ?thesis
  proof (rule required_handle_owned [OF own, of i])
    fix a v assume req: "required_handle (slot_handle (hs_signers h) i) (hp_signers (hs_heap h)) = Some (Inr (a, v))"
    obtain b hp where "owned_buffer (endpoint_bytes (signing_identity_endpoint (env_ops e) v)) (hs_heap h) = (b, hp)" by fastforce
    with host_inv_new_buffer [OF inv this] req show ?thesis
      by (simp add: fcp_signer_public_identity_def required_out_def endpoint_buffer_def new_cell_def)
  qed (use empty in \<open>simp add: fcp_signer_public_identity_def new_cell_def\<close>)
qed

lemma host_inv_free_buffer: "host_inv h \<Longrightarrow> \<exists>h'. host_step e (HostFreeBuffer i) h = Some h' \<and> host_inv h'"
proof (cases "i < length (hs_buffers h)")
  case True
  assume inv: "host_inv h"
  let ?rest = "take i (hs_buffers h) @ drop (Suc i) (hs_buffers h) @ concat (map action_buffers (hs_actions h))"
  have "buffers_inv (hp_next (hs_heap h)) (hp_buffers (hs_heap h)) (hs_buffers h ! i # ?rest)"
    using inv mset_cell(1) [OF True] unfolding host_inv_def
    by (subst buffers_inv_perm [of _ "host_records h"]) (simp_all add: host_records_def)
  from buffer_free_inv [OF this] obtain t where
    free: "fcp_buffer_free (Some (hs_buffers h ! i)) (hs_heap h) = Some (Some empty_buffer, (hs_heap h)\<lparr>hp_buffers := t\<rparr>)"
    and rest: "buffers_inv (hp_next (hs_heap h)) t ?rest" by blast
  let ?h = "h\<lparr>hs_heap := (hs_heap h)\<lparr>hp_buffers := t\<rparr>, hs_buffers := (hs_buffers h)[i := empty_buffer]\<rparr>"
  have "buffers_inv (hp_next (hs_heap h)) t (host_records ?h)"
    using rest mset_cell(2) [OF True] by (subst buffers_inv_perm [of _ "empty_buffer # ?rest"]) (simp_all add: host_records_def)
  then have "host_inv ?h" by (intro host_inv_heap [OF inv]) simp_all
  then show ?thesis using free True by (simp add: cell_def store_cell_def)
qed (simp add: cell_def store_cell_def fcp_buffer_free_def)

lemma mset_concat_perm: "mset xs = mset ys \<Longrightarrow> mset (concat (map f xs)) = mset (concat (map f ys))"
proof -
  have "mset (concat (map f zs)) = sum_mset (image_mset (\<lambda>x. mset (f x)) (mset zs))" for zs by (induction zs) simp_all
  then show "mset xs = mset ys \<Longrightarrow> ?thesis" by simp
qed

lemma host_inv_free_action: "host_inv h \<Longrightarrow> \<exists>h'. host_step e (HostFreeAction i) h = Some h' \<and> host_inv h'"
proof (cases "i < length (hs_actions h)")
  case True
  assume inv: "host_inv h"
  let ?a = "hs_actions h ! i"
  let ?rest = "concat (map action_buffers (take i (hs_actions h) @ drop (Suc i) (hs_actions h))) @ hs_buffers h"
  have "mset (concat (map action_buffers (hs_actions h))) =
      mset (concat (map action_buffers (?a # take i (hs_actions h) @ drop (Suc i) (hs_actions h))))"
    using mset_cell(1) [OF True] by (intro mset_concat_perm) simp
  then have "buffers_inv (hp_next (hs_heap h)) (hp_buffers (hs_heap h)) (act_remote_endpoint ?a # act_payload ?a # ?rest)"
    using inv unfolding host_inv_def
    by (subst buffers_inv_perm [of _ "host_records h"]) (simp_all add: host_records_def action_buffers_def)
  from buffer_free_inv [OF this] obtain t1 where
    free1: "fcp_buffer_free (Some (act_remote_endpoint ?a)) (hs_heap h) = Some (Some empty_buffer, (hs_heap h)\<lparr>hp_buffers := t1\<rparr>)"
    and rest1: "buffers_inv (hp_next (hs_heap h)) t1 (act_payload ?a # ?rest)" by blast
  then have "buffers_inv (hp_next ((hs_heap h)\<lparr>hp_buffers := t1\<rparr>)) (hp_buffers ((hs_heap h)\<lparr>hp_buffers := t1\<rparr>)) (act_payload ?a # ?rest)"
    by simp
  from buffer_free_inv [OF this] obtain t where
    free: "fcp_buffer_free (Some (act_payload ?a)) ((hs_heap h)\<lparr>hp_buffers := t1\<rparr>) =
      Some (Some empty_buffer, (hs_heap h)\<lparr>hp_buffers := t1\<rparr>\<lparr>hp_buffers := t\<rparr>)"
    and "buffers_inv (hp_next ((hs_heap h)\<lparr>hp_buffers := t1\<rparr>)) t ?rest" by (elim exE conjE)
  then have rest: "buffers_inv (hp_next (hs_heap h)) t ?rest" by simp
  let ?h = "h\<lparr>hs_heap := (hs_heap h)\<lparr>hp_buffers := t\<rparr>, hs_actions := (hs_actions h)[i := default_action]\<rparr>"
  have "mset (concat (map action_buffers ((hs_actions h)[i := default_action]))) =
      mset (concat (map action_buffers (default_action # take i (hs_actions h) @ drop (Suc i) (hs_actions h))))"
    using mset_cell(2) [OF True] by (intro mset_concat_perm) simp
  then have "buffers_inv (hp_next (hs_heap h)) t (host_records ?h)"
    using rest by (subst buffers_inv_perm [of _ "empty_buffer # empty_buffer # ?rest"])
      (simp_all add: host_records_def action_buffers_def default_action_def)
  then have "host_inv ?h" by (intro host_inv_heap [OF inv]) simp_all
  then show ?thesis using free1 free True by (simp add: cell_def store_cell_def fcp_action_free_def)
qed (simp add: cell_def store_cell_def fcp_action_free_def)

lemma action_of_queued_inv:
  assumes "action_of_queued q hp = (a, hp')" and inv: "buffers_inv (hp_next hp) (hp_buffers hp) rs"
  shows "buffers_inv (hp_next hp') (hp_buffers hp') (action_buffers a @ rs) \<and> hp_signers hp' = hp_signers hp \<and>
    hp_clients hp' = hp_clients hp \<and> hp_connections hp' = hp_connections hp \<and> hp_next hp \<le> hp_next hp'"
proof -
  obtain remote hp1 where first: "(case qa_remote_endpoint q of None \<Rightarrow> owned_buffer [] hp
      | Some endpoint \<Rightarrow> owned_buffer (endpoint_bytes endpoint) hp) = (remote, hp1)" by fastforce
  then obtain bytes where own1: "owned_buffer bytes hp = (remote, hp1)" by (cases "qa_remote_endpoint q") auto
  obtain payload where own2: "owned_buffer (qa_payload q) hp1 = (payload, hp')" and a: "act_remote_endpoint a = remote" "act_payload a = payload"
    using assms(1) first by (cases "qa_remote_endpoint q") (auto simp: action_of_queued_def endpoint_buffer_def owned_buffer_def [of "[]"] split: prod.splits)
  have "buffers_inv (hp_next hp') (hp_buffers hp') (payload # remote # rs)"
    using owned_buffer_inv [OF own2 owned_buffer_inv [OF own1 inv]] .
  then have "buffers_inv (hp_next hp') (hp_buffers hp') (action_buffers a @ rs)"
    by (subst buffers_inv_perm [of _ "payload # remote # rs"]) (simp_all add: action_buffers_def a)
  then show ?thesis using owned_buffer_frame [OF own1] owned_buffer_frame [OF own2] by simp
qed

lemma host_inv_connection:
  assumes "host_inv h" and "a \<in> dom (hp_connections (hs_heap h))"
  shows "host_inv (h\<lparr>hs_heap := (hs_heap h)\<lparr>hp_connections := (hp_connections (hs_heap h))(a \<mapsto> st)\<rparr>\<rparr>)"
  using assms by (auto simp: host_inv_def host_records_def intro: allocated_simps(3))

lemma host_inv_new_action:
  assumes inv: "host_inv h" and q: "action_of_queued q (hs_heap h) = (a, hp)"
  shows "host_inv (h\<lparr>hs_heap := hp, hs_actions := hs_actions h @ [a]\<rparr>)"
proof -
  have bufs: "buffers_inv (hp_next (hs_heap h)) (hp_buffers (hs_heap h)) (host_records h)" using inv by (simp add: host_inv_def)
  note step = action_of_queued_inv [OF q bufs]
  show ?thesis
  proof (rule host_inv_heap [OF inv])
    show "buffers_inv (hp_next hp) (hp_buffers hp) (host_records (h\<lparr>hs_heap := hp, hs_actions := hs_actions h @ [a]\<rparr>))"
      using step by (subst buffers_inv_perm [of _ "action_buffers a @ host_records h"]) (simp_all add: host_records_def)
  qed (use step in simp_all)
qed

lemma host_inv_take_action: "host_inv h \<Longrightarrow> \<exists>h'. host_step e (HostTakeAction i) h = Some h' \<and> host_inv h'"
proof -
  assume inv: "host_inv h"
  then have own: "allocated (hp_next (hs_heap h)) (hp_connections (hs_heap h)) (addrs_of handle_addrs (hs_connections h))" by (simp add: host_inv_def)
  have unchanged: "host_inv (h\<lparr>hs_actions := hs_actions h @ [default_action]\<rparr>)"
    using inv by (intro host_inv_heap [OF inv])
      (simp_all add: host_inv_def, subst buffers_inv_perm [of _ "empty_buffer # empty_buffer # host_records h"],
       simp_all add: host_records_def action_buffers_def default_action_def)
  show ?thesis
  proof (rule required_handle_owned [OF own, of i])
    fix a st
    assume a: "hp_connections (hs_heap h) a = Some st"
      and req: "required_handle (slot_handle (hs_connections h) i) (hp_connections (hs_heap h)) = Some (Inr (a, st))"
    show ?thesis
    proof (cases "cs_actions st")
      case (Cons q rest)
      let ?h = "h\<lparr>hs_heap := (hs_heap h)\<lparr>hp_connections := (hp_connections (hs_heap h))(a \<mapsto> st\<lparr>cs_actions := rest\<rparr>)\<rparr>\<rparr>"
      have inv': "host_inv ?h" using a by (intro host_inv_connection [OF inv]) auto
      obtain act hp where q: "action_of_queued q (hs_heap ?h) = (act, hp)" by fastforce
      from host_inv_new_action [OF inv' q] q req Cons unchanged show ?thesis
        by (simp add: fcp_connection_take_action_def required_out_def lock_connection_def new_cell_def)
    qed (use unchanged req in \<open>simp add: fcp_connection_take_action_def required_out_def lock_connection_def new_cell_def\<close>)
  qed (use unchanged in \<open>simp add: fcp_connection_take_action_def required_out_def lock_connection_def new_cell_def\<close>)
qed

lemmas host_inv_steps = host_inv_generate host_inv_identity host_inv_free_handle host_inv_create_connection host_inv_call
  host_inv_take_action host_inv_create_client host_inv_apply host_inv_free_buffer host_inv_free_action

lemma host_step_inv: "host_inv h \<Longrightarrow> \<exists>h'. host_step e op h = Some h' \<and> host_inv h'"
  by (cases op) (simp_all only: host_inv_steps)

lemma host_run_inv: "host_inv h \<Longrightarrow> \<exists>h'. host_run e ops h = Some h' \<and> host_inv h'"
proof (induction ops arbitrary: h)
  case (Cons op ops)
  obtain h1 where "host_step e op h = Some h1" "host_inv h1" using host_step_inv [OF Cons.prems, of e op] by (elim exE conjE)
  then show ?case using Cons.IH by simp
qed simp

lemma host_inv_new: "host_inv host_new"
  by (simp add: host_inv_def host_new_def allocated_def buffers_inv_def host_records_def)

text \<open>Every address the host holds is held once, and they are exactly the allocated ones.\<close>

definition owns :: "('r \<Rightarrow> addr option) \<Rightarrow> 'r list \<Rightarrow> (addr \<rightharpoonup> 'v) \<Rightarrow> bool" where
  "owns f xs objects \<longleftrightarrow> distinct (List.map_filter f xs) \<and> set (List.map_filter f xs) = dom objects"

definition buffer_address :: "fcp_owned_buffer \<Rightarrow> addr option" where
  "buffer_address b = (if buf_len b = 0 then None else buf_data b)"

lemma addrs_of_filter: "(\<And>x. g x = handle_addrs (f x)) \<Longrightarrow> addrs_of g xs = mset (List.map_filter f xs)"
  by (induction xs) (auto simp: map_filter_simps split: option.split)

lemma allocated_owns:
  assumes "allocated n objects (addrs_of g xs)" and "\<And>x. g x = handle_addrs (f x)"
  shows "owns f xs objects"
proof -
  have "mset (List.map_filter f xs) = mset_set (dom objects)" and fin: "finite (dom objects)"
    using assms(1) addrs_of_filter [of g f, OF assms(2)] by (auto simp: allocated_def)
  then have "set (List.map_filter f xs) = dom objects" and "distinct (List.map_filter f xs)"
    by (metis finite_set_mset_mset_set set_mset_mset, metis distinct_count_atmost_1 count_mset_set set_mset_mset finite_set_mset_mset_set)
  then show ?thesis by (simp add: owns_def)
qed

lemma host_inv_owns:
  assumes "host_inv h"
  shows "owns id (hs_signers h) (hp_signers (hs_heap h))" "owns id (hs_clients h) (hp_clients (hs_heap h))"
    "owns id (hs_connections h) (hp_connections (hs_heap h))" "owns buffer_address (host_records h) (hp_buffers (hs_heap h))"
proof -
  have bufs: "buffer_addrs b = handle_addrs (buffer_address b)" for b by (simp add: buffer_addrs_def buffer_address_def)
  show "owns id (hs_signers h) (hp_signers (hs_heap h))" "owns id (hs_clients h) (hp_clients (hs_heap h))"
    "owns id (hs_connections h) (hp_connections (hs_heap h))" "owns buffer_address (host_records h) (hp_buffers (hs_heap h))"
    using assms by (auto simp: host_inv_def buffers_inv_def intro: allocated_owns [where g = handle_addrs] allocated_owns [OF _ bufs])
qed

subsection \<open>A sample connection\<close>

definition slice_of :: "u8 list \<Rightarrow> fcp_byte_slice" where
  "slice_of bytes = \<lparr>slice_data = (if bytes = [] then None else Some bytes), slice_len = length bytes\<rparr>"

lemma slice_of_bytes [simp]:
  "borrowed_bytes (slice_of bytes) = Inr bytes"
  "copy_bounded (slice_of bytes) m = (if length bytes > m then Inl FCP_STATUS_TOO_LARGE else Inr bytes)"
  by (simp_all add: slice_of_def borrowed_bytes_def copy_bounded_def)

definition demo_state :: "(u8, u8) connection_state" where
  "demo_state = \<lparr>cs_connection = demo_established, cs_signer = demo_signing 4, cs_actions = [], cs_poisoned = False\<rparr>"

definition demo_heap :: "(u8, u8, nat) ffi_heap" where
  "demo_heap = \<lparr>hp_next = 1, hp_buffers = Map.empty, hp_signers = Map.empty, hp_clients = Map.empty, hp_connections = [0 \<mapsto> demo_state]\<rparr>"

subsection \<open>Properties\<close>

text \<open>
  C21.  Each connection call of the C ABI refines the operation of the state machine it stands for.  On a live handle it
  has defined behaviour; a malformed or oversized argument is refused with its status and a rejected operation with
  \<open>FCP_STATUS_PROTOCOL\<close>, both leaving the whole heap as it was; otherwise the connection is the one the
  state machine leaves and exactly its actions, each of which can be encoded, are appended to the queue in order.
\<close>

theorem ffi_call_refines:
  assumes "hp_connections hp a = Some st" and "\<not> cs_poisoned st"
  shows "ffi_export c ops call (Some a) hp = Some
    (case core_op c (signing_identity_signer ops (cs_signer st)) call of
       Inl status \<Rightarrow> (status, hp)
     | Inr op \<Rightarrow>
         (case conn_apply c op (cs_connection st) of
            (Inl e, _) \<Rightarrow> (FCP_STATUS_PROTOCOL, hp)
          | (Inr actions, conn) \<Rightarrow> (FCP_STATUS_OK, hp\<lparr>hp_connections := (hp_connections hp)(a \<mapsto>
              st\<lparr>cs_connection := conn, cs_actions := cs_actions st @ projr (try_map queued_action actions)\<rparr>)\<rparr>))) \<and>
    (\<forall>op actions conn. conn_apply c op (cs_connection st) = (Inr actions, conn) \<longrightarrow> (\<exists>qs. try_map queued_action actions = Inr qs))"
proof -
  have "(hp_connections hp)(a \<mapsto> st) = hp_connections hp" using assms(1) by auto
  then show ?thesis using assms conn_apply_queues
    by (simp add: ffi_export_eq on_connection_def lock_connection_def required_handle_def state_call_cases split: sum.split prod.split)
qed

theorem ffi_call_refines_witness:
  "\<not> cs_poisoned demo_state \<and>
   ffi_export demo_crypto demo_ops (CallReceive (slice_of (envelope_bytes (demo_control 9)))) (Some 0) demo_heap =
     Some (FCP_STATUS_OK, demo_heap\<lparr>hp_connections := [0 \<mapsto> demo_state\<lparr>cs_connection := note_seen (demo_control_id 9) demo_established,
       cs_actions := projr (try_map queued_action [DeliverCfr (demo_control_id 9) (demo_identity 3) (demo_payload 9)])\<rparr>]\<rparr>)"
proof -
  have live: "hp_connections demo_heap 0 = Some demo_state" "\<not> cs_poisoned demo_state" by (simp_all add: demo_heap_def demo_state_def)
  have "length (envelope_bytes (demo_control 9)) \<le> MAX_ENVELOPE_BYTES" by (rule length_envelope_max) (simp only: demo_control demo_payload_ok)
  then have "core_op demo_crypto (signing_identity_signer demo_ops (cs_signer demo_state)) (CallReceive (slice_of (envelope_bytes (demo_control 9)))) =
      Inr (OpReceive (demo_control 9))"
    by (simp add: demo_control_decodes)
  with ffi_call_refines [OF live, of demo_crypto demo_ops "CallReceive (slice_of (envelope_bytes (demo_control 9)))"] live show ?thesis
    by (simp add: demo_receive demo_state_def demo_heap_def)
qed


end
