(* ===== verification/Wasm.thy ===== *)
theory Wasm
  imports Ffi
begin

text \<open>
  The browser facade (\<open>libfcp-wasm\<close>): the same state machine with an action queue, over byte arrays that JavaScript copies
  in and out.  An error is a \<open>JsError\<close>, of which only the fixed message is visible.  Every call of this
  facade behaves as the call of the C ABI on the same bytes.
\<close>

subsection \<open>Definitions\<close>

datatype js_error = JsError string

definition bounded :: "u8 list \<Rightarrow> nat \<Rightarrow> js_error + unit" where
  "bounded bytes maximum =
     (if length bytes > maximum then Inl (JsError ''FCP input exceeds its fixed public bound'') else Inr ())"

definition core_error :: "error \<Rightarrow> js_error" where
  "core_error e = JsError ''FCP canonical validation or state transition failed''"

definition core_fault :: "error fault \<Rightarrow> js_error fault" where
  "core_fault f = (case f of Panic \<Rightarrow> Panic | Err e \<Rightarrow> Err (core_error e))"

definition js_fixed :: "u8 list \<Rightarrow> js_error + 'n::len bytes" where
  "js_fixed bytes = ok_or (JsError ''FCP fixed-width value has an invalid byte length'') (try_into bytes)"

definition js_endpoint_identity :: "u8 list \<Rightarrow> js_error + endpoint_identity" where
  "js_endpoint_identity bytes =
     (if length bytes \<noteq> 1984 then Inl (JsError ''FCP endpoint identity has an invalid fixed width'')
      else and_then (js_fixed (take 32 bytes)) (\<lambda>key.
        Inr (EndpointIdentity (EndpointKey key) (padded (drop 32 bytes)))))"

definition abi_version :: u32 where "abi_version = 2"

definition wire_version :: u32 where "wire_version = ucast FCP_WIRE_VERSION"

definition verify_envelope :: "crypto \<Rightarrow> u8 list \<Rightarrow> js_error + unit" where
  "verify_envelope c envelope =
     and_then (bounded envelope MAX_ENVELOPE_BYTES) (\<lambda>_.
     map_err core_error (and_then (decode_verified c envelope) (\<lambda>_. Inr ())))"

definition verify_configuration :: "crypto \<Rightarrow> u8 list \<Rightarrow> js_error fault + unit" where
  "verify_configuration c configuration =
     map_err core_fault (and_then (config_decode_verified c configuration) (\<lambda>_. Inr ()))"

record wasm_action =
  wa_kind :: u8
  wa_binding :: "u8 list"
  wa_sequence :: u32
  wa_close_code :: u16
  wa_envelope_id :: "u8 list"
  wa_remote_endpoint :: "u8 list"
  wa_payload :: "u8 list"

fun convert_action :: "action \<Rightarrow> js_error + wasm_action" where
  "convert_action (Send envelope) =
     and_then (map_err core_error (encode envelope)) (\<lambda>payload.
     Inr \<lparr>wa_kind = 1, wa_binding = replicate 32 0, wa_sequence = 0, wa_close_code = 0, wa_envelope_id = replicate 32 0,
       wa_remote_endpoint = [], wa_payload = payload\<rparr>)"
| "convert_action (ApplyOffer binding description) =
     Inr \<lparr>wa_kind = 2, wa_binding = bytes_list (binding_bytes binding), wa_sequence = 0, wa_close_code = 0, wa_envelope_id = replicate 32 0,
       wa_remote_endpoint = [], wa_payload = description\<rparr>"
| "convert_action (ApplyAnswer binding description) =
     Inr \<lparr>wa_kind = 3, wa_binding = bytes_list (binding_bytes binding), wa_sequence = 0, wa_close_code = 0, wa_envelope_id = replicate 32 0,
       wa_remote_endpoint = [], wa_payload = description\<rparr>"
| "convert_action (AddCandidate sequence cand) =
     Inr \<lparr>wa_kind = 4, wa_binding = replicate 32 0, wa_sequence = sequence, wa_close_code = 0, wa_envelope_id = replicate 32 0,
       wa_remote_endpoint = [], wa_payload = cand\<rparr>"
| "convert_action OpenControlChannel =
     Inr \<lparr>wa_kind = 5, wa_binding = replicate 32 0, wa_sequence = 0, wa_close_code = 0, wa_envelope_id = replicate 32 0,
       wa_remote_endpoint = [], wa_payload = []\<rparr>"
| "convert_action (DeliverCfr i remote_endpoint payload) =
     Inr \<lparr>wa_kind = 6, wa_binding = replicate 32 0, wa_sequence = 0, wa_close_code = 0, wa_envelope_id = bytes_list (envelope_id_bytes i),
       wa_remote_endpoint = endpoint_bytes remote_endpoint, wa_payload = payload\<rparr>"
| "convert_action (CloseTransport reason) =
     Inr \<lparr>wa_kind = 7, wa_binding = replicate 32 0, wa_sequence = 0, wa_close_code = close_code_u16 reason, wa_envelope_id = replicate 32 0,
       wa_remote_endpoint = [], wa_payload = []\<rparr>"

record ('sk, 'psk) wasm_connection =
  wc_connection :: connection
  wc_signer :: "('sk, 'psk) signing_identity"
  wc_actions :: "wasm_action list"

fun enqueue :: "action list \<Rightarrow> wasm_action list \<Rightarrow> (js_error + unit) \<times> wasm_action list" where
  "enqueue [] queue = (Inr (), queue)"
| "enqueue (action # actions) queue = or_bail queue (convert_action action) (\<lambda>a. enqueue actions (queue @ [a]))"

definition wasm_signer_new :: "(32 bytes \<Rightarrow> 'sk) \<Rightarrow> (32 bytes \<Rightarrow> 'psk) \<Rightarrow> 32 bytes \<Rightarrow> 32 bytes \<Rightarrow> ('sk, 'psk) signing_identity" where
  "wasm_signer_new ed25519_from_bytes mldsa_from_seed classical_seed post_quantum_seed =
     \<lparr>si_classical = ed25519_from_bytes classical_seed, si_post_quantum = mldsa_from_seed post_quantum_seed\<rparr>"

definition wasm_public_identity :: "('sk, 'psk) key_ops \<Rightarrow> ('sk, 'psk) signing_identity \<Rightarrow> u8 list" where
  "wasm_public_identity ops s = endpoint_bytes (signing_identity_endpoint ops s)"

definition wasm_connection_new ::
  "('sk, 'psk) key_ops \<Rightarrow> ('sk, 'psk) signing_identity \<Rightarrow> u8 list \<Rightarrow> u8 list \<Rightarrow> u8 list \<Rightarrow> js_error + ('sk, 'psk) wasm_connection" where
  "wasm_connection_new ops s federation attempt remote_endpoint =
     and_then (js_fixed federation) (\<lambda>federation.
     and_then (js_fixed attempt) (\<lambda>attempt.
     and_then (js_endpoint_identity remote_endpoint) (\<lambda>remote.
     and_then (map_err core_error (connection_new (FederationId federation) (AttemptId attempt) (signing_identity_endpoint ops s) remote)) (\<lambda>conn.
     Inr \<lparr>wc_connection = conn, wc_signer = s, wc_actions = []\<rparr>))))"

text \<open>The common end of the calls: the connection is left as the operation leaves it and its actions are queued.\<close>

definition wasm_finish ::
  "(error + action list) \<times> connection \<Rightarrow> ('sk, 'psk) wasm_connection \<Rightarrow> (js_error + unit) \<times> ('sk, 'psk) wasm_connection" where
  "wasm_finish result w =
     (case result of (r, conn) \<Rightarrow>
        let w = w\<lparr>wc_connection := conn\<rparr> in
        or_bail w (map_err core_error r) (\<lambda>actions.
        case enqueue actions (wc_actions w) of (r, queue) \<Rightarrow> (r, w\<lparr>wc_actions := queue\<rparr>)))"

definition wasm_begin_offer ::
  "crypto \<Rightarrow> ('sk, 'psk) key_ops \<Rightarrow> u8 list \<Rightarrow> u8 list \<Rightarrow> ('sk, 'psk) wasm_connection \<Rightarrow> (js_error + unit) \<times> ('sk, 'psk) wasm_connection" where
  "wasm_begin_offer c ops binding description w =
     or_bail w (bounded description MAX_DESCRIPTION_BYTES) (\<lambda>_.
     or_bail w (js_fixed binding) (\<lambda>binding.
     wasm_finish (begin_offer c (signing_identity_signer ops (wc_signer w)) (WebRtcBinding binding) description (wc_connection w)) w))"

definition wasm_answer ::
  "crypto \<Rightarrow> ('sk, 'psk) key_ops \<Rightarrow> u8 list \<Rightarrow> u8 list \<Rightarrow> ('sk, 'psk) wasm_connection \<Rightarrow> (js_error + unit) \<times> ('sk, 'psk) wasm_connection" where
  "wasm_answer c ops binding description w =
     or_bail w (bounded description MAX_DESCRIPTION_BYTES) (\<lambda>_.
     or_bail w (js_fixed binding) (\<lambda>binding.
     wasm_finish (single (answer c (signing_identity_signer ops (wc_signer w)) (WebRtcBinding binding) description (wc_connection w))) w))"

definition wasm_add_candidate ::
  "('sk, 'psk) key_ops \<Rightarrow> u32 \<Rightarrow> u8 list \<Rightarrow> ('sk, 'psk) wasm_connection \<Rightarrow> (js_error + unit) \<times> ('sk, 'psk) wasm_connection" where
  "wasm_add_candidate ops sequence cand w =
     or_bail w (bounded cand MAX_CANDIDATE_BYTES) (\<lambda>_.
     wasm_finish (single (candidate (signing_identity_signer ops (wc_signer w)) sequence cand (wc_connection w), wc_connection w)) w)"

definition wasm_cfr_control ::
  "('sk, 'psk) key_ops \<Rightarrow> u8 list \<Rightarrow> ('sk, 'psk) wasm_connection \<Rightarrow> (js_error + unit) \<times> ('sk, 'psk) wasm_connection" where
  "wasm_cfr_control ops payload w =
     or_bail w (bounded payload MAX_CFR_CONTROL_BYTES) (\<lambda>_.
     wasm_finish (single (cfr_control (signing_identity_signer ops (wc_signer w)) payload (wc_connection w), wc_connection w)) w)"

definition wasm_close_with_code ::
  "('sk, 'psk) key_ops \<Rightarrow> u16 \<Rightarrow> ('sk, 'psk) wasm_connection \<Rightarrow> (js_error + unit) \<times> ('sk, 'psk) wasm_connection" where
  "wasm_close_with_code ops close_code w =
     wasm_finish (single (conn_close (signing_identity_signer ops (wc_signer w)) (CloseCode close_code) (wc_connection w))) w"

definition wasm_receive ::
  "crypto \<Rightarrow> u8 list \<Rightarrow> ('sk, 'psk) wasm_connection \<Rightarrow> (js_error + unit) \<times> ('sk, 'psk) wasm_connection" where
  "wasm_receive c envelope w =
     or_bail w (bounded envelope MAX_ENVELOPE_BYTES) (\<lambda>_.
     or_bail w (map_err core_error (decode_verified c envelope)) (\<lambda>envelope.
     wasm_finish (receive c envelope (wc_connection w)) w))"

definition wasm_transport_connected :: "('sk, 'psk) wasm_connection \<Rightarrow> (js_error + unit) \<times> ('sk, 'psk) wasm_connection" where
  "wasm_transport_connected w = wasm_finish (transport_connected (wc_connection w)) w"

definition wasm_transport_failed :: "('sk, 'psk) wasm_connection \<Rightarrow> (js_error + unit) \<times> ('sk, 'psk) wasm_connection" where
  "wasm_transport_failed w =
     (case transport_failed (wc_connection w) of (r, conn) \<Rightarrow> (map_err core_error r, w\<lparr>wc_connection := conn\<rparr>))"

definition wasm_take_action :: "('sk, 'psk) wasm_connection \<Rightarrow> wasm_action option \<times> ('sk, 'psk) wasm_connection" where
  "wasm_take_action w = (case wc_actions w of [] \<Rightarrow> (None, w) | a # rest \<Rightarrow> (Some a, w\<lparr>wc_actions := rest\<rparr>))"

fun wasm_phase_code :: "phase \<Rightarrow> u8" where
  "wasm_phase_code Idle = 0"
| "wasm_phase_code OfferSent = 1"
| "wasm_phase_code OfferReceived = 2"
| "wasm_phase_code AnswerSent = 3"
| "wasm_phase_code AnswerReceived = 4"
| "wasm_phase_code Established = 5"
| "wasm_phase_code Closed = 6"

definition wasm_phase :: "('sk, 'psk) wasm_connection \<Rightarrow> u8" where
  "wasm_phase w = wasm_phase_code (conn_phase (wc_connection w))"

subsection \<open>The two facades side by side\<close>

text \<open>One script of calls, run against either facade: what the caller sees of each call.\<close>

datatype facade_call =
    DoBeginOffer "u8 list" "u8 list"
  | DoAnswer "u8 list" "u8 list"
  | DoCandidate u32 "u8 list"
  | DoCfrControl "u8 list"
  | DoClose u16
  | DoReceive "u8 list"
  | DoConnected
  | DoFailed

fun ffi_call_of :: "facade_call \<Rightarrow> ffi_call" where
  "ffi_call_of (DoBeginOffer b d) = CallBeginOffer (slice_of b) (slice_of d)"
| "ffi_call_of (DoAnswer b d) = CallAnswer (slice_of b) (slice_of d)"
| "ffi_call_of (DoCandidate n k) = CallCandidate n (slice_of k)"
| "ffi_call_of (DoCfrControl p) = CallCfrControl (slice_of p)"
| "ffi_call_of (DoClose code) = CallClose code"
| "ffi_call_of (DoReceive w) = CallReceive (slice_of w)"
| "ffi_call_of DoConnected = CallConnected"
| "ffi_call_of DoFailed = CallFailed"

fun wasm_call :: "crypto \<Rightarrow> ('sk, 'psk) key_ops \<Rightarrow> facade_call \<Rightarrow> ('sk, 'psk) wasm_connection \<Rightarrow> (js_error + unit) \<times> ('sk, 'psk) wasm_connection" where
  "wasm_call c ops (DoBeginOffer b d) w = wasm_begin_offer c ops b d w"
| "wasm_call c ops (DoAnswer b d) w = wasm_answer c ops b d w"
| "wasm_call c ops (DoCandidate n k) w = wasm_add_candidate ops n k w"
| "wasm_call c ops (DoCfrControl p) w = wasm_cfr_control ops p w"
| "wasm_call c ops (DoClose code) w = wasm_close_with_code ops code w"
| "wasm_call c ops (DoReceive bytes) w = wasm_receive c bytes w"
| "wasm_call c ops DoConnected w = wasm_transport_connected w"
| "wasm_call c ops DoFailed w = wasm_transport_failed w"

definition js_action :: "queued \<Rightarrow> wasm_action" where
  "js_action q = \<lparr>wa_kind = ucast (qa_kind q), wa_binding = bytes_list (qa_binding q), wa_sequence = qa_sequence q,
     wa_close_code = qa_close_code q, wa_envelope_id = bytes_list (qa_envelope_id q),
     wa_remote_endpoint = (case qa_remote_endpoint q of None \<Rightarrow> [] | Some e \<Rightarrow> endpoint_bytes e), wa_payload = qa_payload q\<rparr>"

definition same_state :: "('sk, 'psk) connection_state \<Rightarrow> ('sk, 'psk) wasm_connection \<Rightarrow> bool" where
  "same_state st w \<longleftrightarrow> wc_connection w = cs_connection st \<and> wc_signer w = cs_signer st \<and> wc_actions w = map js_action (cs_actions st)"

lemma same_action: "queued_action a = Inr q \<Longrightarrow> convert_action a = Inr (js_action q)"
  by (cases a) (auto simp: js_action_def fcp_action_defs and_then_eq_Inr map_err_eq_Inr)

lemma enqueue_try_map: "try_map queued_action actions = Inr qs \<Longrightarrow> enqueue actions queue = (Inr (), queue @ map js_action qs)"
  by (induction actions arbitrary: qs queue) (auto simp: and_then_eq_Inr same_action)

fun js_op :: "crypto \<Rightarrow> signer \<Rightarrow> facade_call \<Rightarrow> js_error + conn_op" where
  "js_op c s (DoBeginOffer b d) =
     and_then (bounded d MAX_DESCRIPTION_BYTES) (\<lambda>_. and_then (js_fixed b) (\<lambda>b. Inr (OpBeginOffer s (WebRtcBinding b) d)))"
| "js_op c s (DoAnswer b d) =
     and_then (bounded d MAX_DESCRIPTION_BYTES) (\<lambda>_. and_then (js_fixed b) (\<lambda>b. Inr (OpAnswer s (WebRtcBinding b) d)))"
| "js_op c s (DoCandidate n k) = and_then (bounded k MAX_CANDIDATE_BYTES) (\<lambda>_. Inr (OpCandidate s n k))"
| "js_op c s (DoCfrControl p) = and_then (bounded p MAX_CFR_CONTROL_BYTES) (\<lambda>_. Inr (OpCfrControl s p))"
| "js_op c s (DoClose code) = Inr (OpClose s (CloseCode code))"
| "js_op c s (DoReceive bytes) =
     and_then (bounded bytes MAX_ENVELOPE_BYTES) (\<lambda>_. and_then (map_err core_error (decode_verified c bytes)) (\<lambda>env. Inr (OpReceive env)))"
| "js_op c s DoConnected = Inr OpConnected"
| "js_op c s DoFailed = Inr OpFailed"

lemma bounded_Inr: "bounded bytes m = Inr u \<longleftrightarrow> length bytes \<le> m"
  by (simp add: bounded_def not_less)

lemma fixed_same: "ffi_fixed (slice_of bytes) = Inr b \<longleftrightarrow> js_fixed bytes = Inr b"
  by (simp add: ffi_fixed_def js_fixed_def try_into_def)

text \<open>Both facades accept the same arguments and start the same operation.\<close>

lemma js_op_core: "js_op c s call = Inr op \<longleftrightarrow> core_op c s (ffi_call_of call) = Inr op"
  by (cases call) (auto simp: and_then_eq_Inr bounded_Inr ffi_webrtc_binding_def fixed_same map_err_eq_Inr)

lemma core_op_status: "core_op c s call = Inl status \<Longrightarrow> status \<noteq> FCP_STATUS_OK"
  by (cases call) (auto simp: and_then_eq_Inl ffi_webrtc_binding_def ffi_fixed_def copy_bounded_def borrowed_bytes_def fcp_status_defs
      map_err_def status_from_core_def split: if_splits option.splits sum.splits)

lemma wasm_failed:
  "wasm_finish (apfst (map_sum id (\<lambda>_ :: unit. [])) r) w =
     (case r of (r, conn) \<Rightarrow> (map_err core_error r, w\<lparr>wc_connection := conn\<rparr>))"
  by (cases r; cases "fst r") (simp_all add: wasm_finish_def)

lemma wasm_call_eq:
  "wasm_call c ops call w =
     or_bail w (js_op c (signing_identity_signer ops (wc_signer w)) call) (\<lambda>op. wasm_finish (conn_apply c op (wc_connection w)) w)"
  by (cases call) (simp_all add: wasm_begin_offer_def wasm_answer_def wasm_add_candidate_def wasm_cfr_control_def wasm_close_with_code_def
      wasm_receive_def wasm_transport_connected_def wasm_transport_failed_def or_bail_nested single_def wasm_failed)

lemma wasm_finish_cases:
  assumes "conn_apply c op (wc_connection w) = (r, conn)"
  shows "wasm_finish (r, conn) w =
    (case r of Inl e \<Rightarrow> (Inl (core_error e), w)
     | Inr actions \<Rightarrow> (Inr (), w\<lparr>wc_connection := conn, wc_actions := wc_actions w @ map js_action (projr (try_map queued_action actions))\<rparr>))"
proof (cases r)
  case (Inl e)
  then have "conn = wc_connection w" using assms conn_apply_error by simp
  then show ?thesis using Inl by (simp add: wasm_finish_def)
next
  case (Inr actions)
  then obtain qs where "try_map queued_action actions = Inr qs" using conn_apply_queues assms by blast
  with enqueue_try_map [OF this] Inr show ?thesis by (simp add: wasm_finish_def)
qed

lemma same_call:
  assumes "same_state st w"
  shows "(fst (wasm_call c ops call w) = Inr ()) = (fst (state_call c ops (ffi_call_of call) st) = Inr ()) \<and>
    same_state (snd (state_call c ops (ffi_call_of call) st)) (snd (wasm_call c ops call w)) \<and>
    cs_poisoned (snd (state_call c ops (ffi_call_of call) st)) = cs_poisoned st"
proof -
  have w: "wc_signer w = cs_signer st" "wc_connection w = cs_connection st" "wc_actions w = map js_action (cs_actions st)"
    using assms by (simp_all add: same_state_def)
  let ?core = "core_op c (signing_identity_signer ops (cs_signer st)) (ffi_call_of call)"
  let ?js = "js_op c (signing_identity_signer ops (cs_signer st)) call"
  show ?thesis
  proof (cases ?core)
    case (Inl e)
    then obtain e' where "?js = Inl e'" using js_op_core [of c _ call] by (cases ?js) fastforce+
    then show ?thesis using Inl assms by (simp add: wasm_call_eq state_call_cases w)
  next
    case (Inr op)
    then have js: "?js = Inr op" by (simp add: js_op_core)
    obtain r conn where run: "conn_apply c op (cs_connection st) = (r, conn)" by fastforce
    then show ?thesis using Inr js assms wasm_finish_cases [of c op w r conn]
      by (cases r) (simp_all add: wasm_call_eq state_call_cases w same_state_def)
  qed
qed

subsection \<open>Scripts\<close>

datatype script_step = DoCall facade_call | DoTake | DoPhase

datatype seen = Accepted | Rejected | Took wasm_action | NoAction | SeenPhase nat

definition buffer_bytes :: "('sk, 'psk, 'sig) ffi_heap \<Rightarrow> fcp_owned_buffer \<Rightarrow> u8 list" where
  "buffer_bytes hp b = (case Option.bind (buf_data b) (hp_buffers hp) of None \<Rightarrow> [] | Some bytes \<Rightarrow> bytes)"

definition action_seen :: "('sk, 'psk, 'sig) ffi_heap \<Rightarrow> fcp_action \<Rightarrow> wasm_action" where
  "action_seen hp a = \<lparr>wa_kind = ucast (act_kind a), wa_binding = bytes_list (act_binding a), wa_sequence = act_sequence a,
     wa_close_code = act_close_code a, wa_envelope_id = bytes_list (act_envelope_id a),
     wa_remote_endpoint = buffer_bytes hp (act_remote_endpoint a), wa_payload = buffer_bytes hp (act_payload a)\<rparr>"

fun ffi_script_step ::
  "crypto \<Rightarrow> ('sk, 'psk) key_ops \<Rightarrow> addr \<Rightarrow> script_step \<Rightarrow> ('sk, 'psk, 'sig) ffi_heap \<Rightarrow> (seen \<times> ('sk, 'psk, 'sig) ffi_heap) option" where
  "ffi_script_step c ops a (DoCall call) hp =
     map_option (\<lambda>(status, hp). (if status = FCP_STATUS_OK then Accepted else Rejected, hp)) (ffi_export c ops (ffi_call_of call) (Some a) hp)"
| "ffi_script_step c ops a DoTake hp =
     map_option (\<lambda>(status, out, hp).
       (case out of Some action \<Rightarrow> if status = FCP_STATUS_OK then Took (action_seen hp action) else NoAction | None \<Rightarrow> NoAction, hp))
     (fcp_connection_take_action (Some a) (Some default_action) hp)"
| "ffi_script_step c ops a DoPhase hp =
     map_option (\<lambda>(status, out). (case out of Some code \<Rightarrow> SeenPhase (unat code) | None \<Rightarrow> Rejected, hp)) (fcp_connection_phase (Some a) (Some 0) hp)"

fun wasm_script_step ::
  "crypto \<Rightarrow> ('sk, 'psk) key_ops \<Rightarrow> script_step \<Rightarrow> ('sk, 'psk) wasm_connection \<Rightarrow> seen \<times> ('sk, 'psk) wasm_connection" where
  "wasm_script_step c ops (DoCall call) w =
     (case wasm_call c ops call w of (r, w) \<Rightarrow> (if r = Inr () then Accepted else Rejected, w))"
| "wasm_script_step c ops DoTake w =
     (case wasm_take_action w of (None, w) \<Rightarrow> (NoAction, w) | (Some a, w) \<Rightarrow> (Took a, w))"
| "wasm_script_step c ops DoPhase w = (SeenPhase (unat (wasm_phase w)), w)"

fun ffi_script ::
  "crypto \<Rightarrow> ('sk, 'psk) key_ops \<Rightarrow> addr \<Rightarrow> script_step list \<Rightarrow> ('sk, 'psk, 'sig) ffi_heap \<Rightarrow> (seen list \<times> ('sk, 'psk, 'sig) ffi_heap) option" where
  "ffi_script c ops a [] hp = Some ([], hp)"
| "ffi_script c ops a (step # steps) hp =
     Option.bind (ffi_script_step c ops a step hp) (\<lambda>(seen, hp).
     map_option (\<lambda>(rest, hp). (seen # rest, hp)) (ffi_script c ops a steps hp))"

fun wasm_script ::
  "crypto \<Rightarrow> ('sk, 'psk) key_ops \<Rightarrow> script_step list \<Rightarrow> ('sk, 'psk) wasm_connection \<Rightarrow> seen list \<times> ('sk, 'psk) wasm_connection" where
  "wasm_script c ops [] w = ([], w)"
| "wasm_script c ops (step # steps) w =
     (case wasm_script_step c ops step w of (seen, w) \<Rightarrow>
        (case wasm_script c ops steps w of (rest, w) \<Rightarrow> (seen # rest, w)))"

definition facing :: "addr \<Rightarrow> ('sk, 'psk, 'sig) ffi_heap \<Rightarrow> ('sk, 'psk) wasm_connection \<Rightarrow> bool" where
  "facing a hp w \<longleftrightarrow> (\<exists>st. hp_connections hp a = Some st \<and> \<not> cs_poisoned st \<and> same_state st w)"

lemma action_of_queued_seen:
  assumes "action_of_queued q hp = (act, hp')"
  shows "action_seen hp' act = js_action q \<and> hp_connections hp' = hp_connections hp"
  using assms
  by (cases "qa_remote_endpoint q"; cases "qa_payload q = []"; cases "endpoint_bytes (the (qa_remote_endpoint q)) = []")
    (auto simp: action_of_queued_def owned_buffer_def endpoint_buffer_def action_seen_def js_action_def buffer_bytes_def empty_buffer_def)

lemma phase_codes: "unat (phase_code p) = unat (wasm_phase_code p)"
  by (cases p) simp_all

lemma lock_live:
  "hp_connections hp a = Some st \<Longrightarrow> \<not> cs_poisoned st \<Longrightarrow> lock_connection (Some a) hp = Some (Inr (a, st))"
  by (simp add: lock_connection_def required_handle_def)

lemma script_step_same:
  assumes "facing a hp w" and "wasm_script_step c ops step w = (seen, w')"
  shows "\<exists>hp'. ffi_script_step c ops a step hp = Some (seen, hp') \<and> facing a hp' w'"
proof -
  obtain st where st: "hp_connections hp a = Some st" "\<not> cs_poisoned st" "same_state st w" using assms(1) by (auto simp: facing_def)
  note lock = lock_live [OF st(1,2)]
  show ?thesis
  proof (cases step)
    case (DoCall call)
    obtain r st' where run: "state_call c ops (ffi_call_of call) st = (r, st')" by fastforce
    obtain r2 where js: "wasm_call c ops call w = (r2, w')" using assms(2) DoCall by (auto split: prod.splits)
    have same: "(r2 = Inr ()) = (r = Inr ())" "same_state st' w'" "\<not> cs_poisoned st'"
      using same_call [OF st(3), of c ops call] run js st(2) by auto
    have "ffi_status (lift_err r) = FCP_STATUS_OK \<longleftrightarrow> r = Inr ()"
      using run by (auto simp: state_call_cases core_op_status FCP_STATUS_PROTOCOL_def FCP_STATUS_OK_def split: sum.splits prod.splits)
        (metis core_op_status FCP_STATUS_OK_def)
    then show ?thesis using DoCall assms(2) js run same lock
      by (auto simp: ffi_export_eq on_connection_def facing_def)
  next
    case DoTake
    then show ?thesis
    proof (cases "cs_actions st")
      case Nil
      then show ?thesis using DoTake assms st lock
        by (auto simp: fcp_connection_take_action_def required_out_def wasm_take_action_def same_state_def FCP_STATUS_NO_ACTION_def FCP_STATUS_OK_def)
    next
      case (Cons q rest)
      obtain act hp' where q: "action_of_queued q (hp\<lparr>hp_connections := (hp_connections hp)(a \<mapsto> st\<lparr>cs_actions := rest\<rparr>)\<rparr>) = (act, hp')" by fastforce
      then show ?thesis using DoTake Cons assms(2) st lock action_of_queued_seen [OF q]
        by (auto simp: fcp_connection_take_action_def required_out_def wasm_take_action_def same_state_def facing_def)
    qed
  next
    case DoPhase
    then show ?thesis using assms st lock
      by (auto simp: fcp_connection_phase_def required_out_def wasm_phase_def same_state_def phase_codes)
  qed
qed

lemma script_same:
  assumes "facing a hp w" and "wasm_script c ops steps w = (seen, w')"
  shows "\<exists>hp'. ffi_script c ops a steps hp = Some (seen, hp') \<and> facing a hp' w'"
  using assms
proof (induction steps arbitrary: hp w seen w')
  case (Cons step steps)
  obtain s1 w1 rest where js: "wasm_script_step c ops step w = (s1, w1)" "wasm_script c ops steps w1 = (rest, w')" "seen = s1 # rest"
    using Cons.prems(2) by (auto split: prod.splits)
  obtain hp1 where one: "ffi_script_step c ops a step hp = Some (s1, hp1)" "facing a hp1 w1"
    using script_step_same [OF Cons.prems(1) js(1)] by (elim exE conjE)
  show ?case using Cons.IH [OF one(2) js(2)] one(1) js(3) by auto
qed simp

text \<open>Both constructors accept the same bytes, and start in corresponding states.\<close>

lemma endpoint_same: "ffi_endpoint_identity (slice_of bytes) = Inr e \<longleftrightarrow> js_endpoint_identity bytes = Inr e"
  by (auto simp: ffi_endpoint_identity_def js_endpoint_identity_def ffi_fixed_def js_fixed_def try_into_def and_then_eq_Inr)

text \<open>The exported public identity is accepted as a remote endpoint, and is that endpoint.\<close>

lemma endpoint_round_trip: "js_endpoint_identity (endpoint_bytes e) = Inr e"
proof -
  have "padded (bytes_list (post_quantum e)) = post_quantum e" by (simp flip: bytes_list_eq_iff)
  then show ?thesis by (cases e) (simp add: js_endpoint_identity_def endpoint_bytes_def js_fixed_def)
qed

lemma create_same:
  assumes "wasm_connection_new ops s federation attempt remote = Inr w" and "hp_signers hp n = Some s"
  shows "\<exists>hp'. fcp_connection_create ops (Some n) \<lparr>co_federation = slice_of federation, co_attempt = slice_of attempt,
      co_remote_endpoint = slice_of remote\<rparr> (Some None) hp = Some (FCP_STATUS_OK, Some (Some (hp_next hp)), hp') \<and> facing (hp_next hp) hp' w"
proof -
  obtain f a r conn where js: "js_fixed federation = Inr f" "js_fixed attempt = Inr a" "js_endpoint_identity remote = Inr r"
    "connection_new (FederationId f) (AttemptId a) (signing_identity_endpoint ops s) r = Inr conn"
    and w: "w = \<lparr>wc_connection = conn, wc_signer = s, wc_actions = []\<rparr>"
    using assms(1) by (auto simp: wasm_connection_new_def and_then_eq_Inr map_err_eq_Inr)
  have "ffi_federation_id (slice_of federation) = Inr (FederationId f)" "ffi_attempt_id (slice_of attempt) = Inr (AttemptId a)"
    "ffi_endpoint_identity (slice_of remote) = Inr r"
    using js by (simp_all add: ffi_federation_id_def ffi_attempt_id_def and_then_eq_Inr fixed_same endpoint_same)
  then show ?thesis using assms(2) js(4) w
    by (simp add: fcp_connection_create_def required_handle_def required_out_def facing_def same_state_def)
qed

subsection \<open>Properties\<close>

text \<open>
  C22.  The browser facade and the C ABI agree.  A connection created from the same bytes behaves the same through both: any
  script of calls, action reads and phase reads has defined behaviour in the C ABI and shows the caller the same results,
  call by call: the same calls are accepted, the same actions come out in the same order with the same bytes, and the
  phases are equal.
\<close>

theorem facades_agree:
  assumes "wasm_connection_new ops s federation attempt remote = Inr w" and "hp_signers hp n = Some s"
    and "wasm_script c ops steps w = (seen, w')"
  shows "\<exists>hp1 hp2. fcp_connection_create ops (Some n) \<lparr>co_federation = slice_of federation, co_attempt = slice_of attempt,
       co_remote_endpoint = slice_of remote\<rparr> (Some None) hp = Some (FCP_STATUS_OK, Some (Some (hp_next hp)), hp1) \<and>
     ffi_script c ops (hp_next hp) steps hp1 = Some (seen, hp2)"
proof -
  obtain hp1 where "fcp_connection_create ops (Some n) \<lparr>co_federation = slice_of federation, co_attempt = slice_of attempt,
       co_remote_endpoint = slice_of remote\<rparr> (Some None) hp = Some (FCP_STATUS_OK, Some (Some (hp_next hp)), hp1)"
    and "facing (hp_next hp) hp1 w"
    using create_same [OF assms(1,2)] by (elim exE conjE)
  then show ?thesis using script_same [OF _ assms(3)] by blast
qed

definition demo_wasm :: "(u8, u8) wasm_connection" where
  "demo_wasm = \<lparr>wc_connection = demo_connection 3 4, wc_signer = demo_signing 3, wc_actions = []\<rparr>"

theorem facades_agree_witness:
  "wasm_connection_new demo_ops (demo_signing 3) (bytes_list (filled 1 :: 32 bytes)) (bytes_list (filled 2 :: 16 bytes)) (endpoint_bytes (demo_identity 4)) =
     Inr demo_wasm \<and>
   (\<exists>hp1 hp2. fcp_connection_create demo_ops (Some 5) \<lparr>co_federation = slice_of (bytes_list (filled 1 :: 32 bytes)),
       co_attempt = slice_of (bytes_list (filled 2 :: 16 bytes)), co_remote_endpoint = slice_of (endpoint_bytes (demo_identity 4))\<rparr> (Some None)
       (demo_heap\<lparr>hp_next := 6, hp_signers := [5 \<mapsto> demo_signing 3]\<rparr>) = Some (FCP_STATUS_OK, Some (Some 6), hp1) \<and>
     ffi_script demo_crypto demo_ops 6 [DoPhase, DoCall DoConnected, DoTake] hp1 = Some ([SeenPhase 0, Rejected, NoAction], hp2))"
proof -
  have id: "js_endpoint_identity (endpoint_bytes (demo_identity 4)) = Inr (demo_identity 4)"
    by (rule endpoint_round_trip)
  have new: "wasm_connection_new demo_ops (demo_signing 3) (bytes_list (filled 1 :: 32 bytes)) (bytes_list (filled 2 :: 16 bytes))
      (endpoint_bytes (demo_identity 4)) = Inr demo_wasm"
    using demo_connection_new(1)
    by (simp only: wasm_connection_new_def js_fixed_def try_into_bytes_list ok_or_simps and_then_Inr id demo_signing_endpoint map_err_simps demo_wasm_def)
  have script: "wasm_script demo_crypto demo_ops [DoPhase, DoCall DoConnected, DoTake] demo_wasm = ([SeenPhase 0, Rejected, NoAction], demo_wasm)"
    by (simp add: demo_wasm_def demo_connection_def wasm_phase_def wasm_transport_connected_def wasm_finish_def transport_connected_def wasm_take_action_def)
  show ?thesis
    using facades_agree [OF new _ script, of "demo_heap\<lparr>hp_next := 6, hp_signers := [5 \<mapsto> demo_signing 3]\<rparr>" 5] new by simp
qed

end
