(* ===== verification/Fabric_Text.thy ===== *)
theory Fabric_Text
  imports Prelude
begin

text \<open>
  Rust string slices as far as the fabric crates use them.  A \<open>str\<close> is its list of Unicode scalar
  values; its length and its bytes are those of the UTF-8 encoding.  Character classes are the ones
  of the standard library: \<open>char::is_control\<close> is the category Cc, \<open>str::trim\<close> strips the property
  White\_Space, and the \<open>is_ascii\<close> tests are on bytes.
\<close>

type_synonym str = "nat list"

definition str_of :: "string \<Rightarrow> str" where
  "str_of s = map of_char s"

definition utf8 :: "nat \<Rightarrow> nat list" where
  "utf8 c =
     (if c < 0x80 then [c]
      else if c < 0x800 then [0xC0 + c div 64, 0x80 + c mod 64]
      else if c < 0x10000 then [0xE0 + c div 4096, 0x80 + c div 64 mod 64, 0x80 + c mod 64]
      else [0xF0 + c div 262144, 0x80 + c div 4096 mod 64, 0x80 + c div 64 mod 64, 0x80 + c mod 64])"

definition str_bytes :: "str \<Rightarrow> nat list" where
  "str_bytes s = concat (map utf8 s)"

definition str_len :: "str \<Rightarrow> nat" where
  "str_len s = length (str_bytes s)"

definition is_whitespace :: "nat \<Rightarrow> bool" where
  "is_whitespace c \<longleftrightarrow> 9 \<le> c \<and> c \<le> 13 \<or> c = 0x20 \<or> c = 0x85 \<or> c = 0xA0 \<or> c = 0x1680 \<or>
     0x2000 \<le> c \<and> c \<le> 0x200A \<or> c = 0x2028 \<or> c = 0x2029 \<or> c = 0x202F \<or> c = 0x205F \<or> c = 0x3000"

definition is_control :: "nat \<Rightarrow> bool" where
  "is_control c \<longleftrightarrow> c < 0x20 \<or> 0x7F \<le> c \<and> c < 0xA0"

definition is_ascii_lowercase :: "nat \<Rightarrow> bool" where
  "is_ascii_lowercase b \<longleftrightarrow> 97 \<le> b \<and> b \<le> 122"

definition is_ascii_uppercase :: "nat \<Rightarrow> bool" where
  "is_ascii_uppercase b \<longleftrightarrow> 65 \<le> b \<and> b \<le> 90"

definition is_ascii_digit :: "nat \<Rightarrow> bool" where
  "is_ascii_digit b \<longleftrightarrow> 48 \<le> b \<and> b \<le> 57"

definition is_ascii_alphanumeric :: "nat \<Rightarrow> bool" where
  "is_ascii_alphanumeric b \<longleftrightarrow> is_ascii_lowercase b \<or> is_ascii_uppercase b \<or> is_ascii_digit b"

definition to_ascii_lowercase :: "str \<Rightarrow> str" where
  "to_ascii_lowercase s = map (\<lambda>c. if is_ascii_uppercase c then c + 32 else c) s"

definition trim :: "str \<Rightarrow> str" where
  "trim s = rev (dropWhile is_whitespace (rev (dropWhile is_whitespace s)))"

definition starts_with :: "str \<Rightarrow> nat \<Rightarrow> bool" where
  "starts_with s c \<longleftrightarrow> s \<noteq> [] \<and> hd s = c"

definition ends_with :: "str \<Rightarrow> nat \<Rightarrow> bool" where
  "ends_with s c \<longleftrightarrow> s \<noteq> [] \<and> last s = c"

fun split_on :: "nat \<Rightarrow> str \<Rightarrow> str list" where
  "split_on c [] = [[]]"
| "split_on c (x # xs) =
     (if x = c then [] # split_on c xs else (x # hd (split_on c xs)) # tl (split_on c xs))"

fun split_once :: "nat \<Rightarrow> str \<Rightarrow> (str \<times> str) option" where
  "split_once c [] = None"
| "split_once c (x # xs) =
     (if x = c then Some ([], xs) else map_option (\<lambda>(a, b). (x # a, b)) (split_once c xs))"

fun contains_pair :: "nat \<Rightarrow> nat \<Rightarrow> str \<Rightarrow> bool" where
  "contains_pair a b (x # y # s) \<longleftrightarrow> x = a \<and> y = b \<or> contains_pair a b (y # s)"
| "contains_pair a b s \<longleftrightarrow> False"

subsection \<open>Lemmas\<close>

definition is_ascii :: "str \<Rightarrow> bool" where
  "is_ascii s \<longleftrightarrow> (\<forall>c \<in> set s. c < 0x80)"

lemma utf8_ascii: "c < 0x80 \<Longrightarrow> utf8 c = [c]"
  by (simp add: utf8_def)

lemma utf8_big: "c \<ge> 0x80 \<Longrightarrow> b \<in> set (utf8 c) \<Longrightarrow> b \<ge> 0x80"
  by (auto simp: utf8_def split: if_splits)

lemma utf8_Nil [simp]: "utf8 c \<noteq> []"
  by (simp add: utf8_def)

lemma str_bytes_ascii: "is_ascii s \<Longrightarrow> str_bytes s = s"
  by (induction s) (auto simp: str_bytes_def is_ascii_def utf8_ascii)

lemma str_len_ascii: "is_ascii s \<Longrightarrow> str_len s = length s"
  by (simp add: str_len_def str_bytes_ascii)

lemma bytes_pred_iff:
  assumes "\<And>b. P b \<Longrightarrow> b < 0x80"
  shows "(\<forall>b \<in> set (str_bytes s). P b) \<longleftrightarrow> (\<forall>c \<in> set s. P c)"
proof -
  have "(\<forall>b \<in> set (utf8 c). P b) \<longleftrightarrow> P c" for c
  proof (cases "c < 0x80")
    case False
    then have "\<not> P c" "\<forall>b \<in> set (utf8 c). \<not> P b"
      using assms utf8_big by (metis not_le)+
    then show ?thesis by (metis list.set_sel(1) utf8_Nil)
  qed (simp add: utf8_ascii)
  then show ?thesis by (auto simp: str_bytes_def)
qed

lemma ascii_class_bound:
  "is_ascii_lowercase b \<Longrightarrow> b < 0x80" "is_ascii_digit b \<Longrightarrow> b < 0x80" "is_ascii_alphanumeric b \<Longrightarrow> b < 0x80"
  by (auto simp: is_ascii_lowercase_def is_ascii_digit_def is_ascii_alphanumeric_def is_ascii_uppercase_def)

lemma split_on_Nil [simp]: "split_on c s \<noteq> []"
  by (cases s) auto

lemma split_on_chars: "c' \<in> set s \<Longrightarrow> c' = c \<or> (\<exists>part \<in> set (split_on c s). c' \<in> set part)"
proof (induction s)
  case (Cons x xs)
  obtain p ps where "split_on c xs = p # ps" by (cases "split_on c xs") auto
  with Cons show ?case by auto
qed simp

lemma split_once_append: "c \<notin> set a \<Longrightarrow> split_once c (a @ c # b) = Some (a, b)"
  by (induction a) auto

lemma split_once_Some: "split_once c s = Some (a, b) \<Longrightarrow> s = a @ c # b \<and> c \<notin> set a"
  by (induction s arbitrary: a b) (auto split: if_splits)

lemma trim_id:
  assumes "\<forall>c \<in> set s. \<not> is_whitespace c"
  shows "trim s = s"
proof -
  have "dropWhile is_whitespace xs = xs" if "set xs \<subseteq> set s" for xs
    using assms that by (cases xs) auto
  then show ?thesis by (simp add: trim_def)
qed

lemma split_on_snoc: "split_on c (s @ [c]) = split_on c s @ [[]]"
  by (induction s) auto

lemma ends_with_split: "ends_with s c \<Longrightarrow> [] \<in> set (split_on c s)"
  using split_on_snoc [of c "butlast s"] by (auto simp: ends_with_def dest: append_butlast_last_id)

end
