(* ===== verification/Fabric_Identity.thy ===== *)
theory Fabric_Identity
  imports Fabric_Text
begin

text \<open>
  Identifiers and canonical names of the authority domain (\<open>fcp-fabric-domain/src/ids.rs\<close> and
  \<open>identity.rs\<close>).  UUID generation, IDNA and Unicode normalisation are third-party code: a UUID is
  its sixteen bytes, \<open>domain_to_ascii\<close> and \<open>nfc\<close> are arguments of the parsers that call them.
\<close>

subsection \<open>Identifiers and revisions\<close>

type_synonym uuid = "16 bytes"

datatype tenant_id = TenantId (tenant_uuid: uuid)

datatype account_id = AccountId (account_uuid: uuid)

datatype audit_event_id = AuditEventId (audit_event_uuid: uuid)

datatype policy_version = PolicyVersion (policy_version_get: u64)

datatype policy_version_error = Exhausted

definition policy_version_next :: "policy_version \<Rightarrow> policy_version_error + policy_version" where
  "policy_version_next v =
     (if unat (policy_version_get v) + 1 < 2 ^ 64 then Inr (PolicyVersion (policy_version_get v + 1))
      else Inl Exhausted)"

subsection \<open>Names\<close>

datatype domain_error = InvalidDomain

datatype localpart_error = InvalidLocalpart

datatype user_address_error = InvalidAddress | LocalpartErr localpart_error | DomainErr domain_error

datatype domain_name = DomainName (domain_str: str)

datatype localpart = Localpart (localpart_str: str)

datatype user_address = UserAddress (address_localpart: localpart) (address_domain: domain_name)

definition domain_label_ok :: "str \<Rightarrow> bool" where
  "domain_label_ok label \<longleftrightarrow>
     \<not> (label = [] \<or> str_len label > 63 \<or> starts_with label 45 \<or> ends_with label 45 \<or>
        \<not> list_all (\<lambda>byte. is_ascii_alphanumeric byte \<or> byte = 45) (str_bytes label))"

definition domain_parse :: "(str \<Rightarrow> str option) \<Rightarrow> str \<Rightarrow> domain_error + domain_name" where
  "domain_parse domain_to_ascii input =
     (if input = [] \<or> trim input \<noteq> input then Inl InvalidDomain
      else if 47 \<in> set input \<or> 58 \<in> set input \<or> 64 \<in> set input \<or> ends_with input 46 then Inl InvalidDomain
      else and_then (ok_or InvalidDomain (domain_to_ascii input)) (\<lambda>ascii.
        let canonical = to_ascii_lowercase ascii in
        if str_len canonical > 253 \<or> 46 \<notin> set canonical then Inl InvalidDomain
        else if \<not> list_all domain_label_ok (split_on 46 canonical) then Inl InvalidDomain
        else Inr (DomainName canonical)))"

definition localpart_parse :: "(str \<Rightarrow> str) \<Rightarrow> str \<Rightarrow> localpart_error + localpart" where
  "localpart_parse nfc input =
     (let normalized = nfc input in
      if normalized = [] \<or> str_len normalized > 64 \<or> normalized \<noteq> input \<or>
         \<not> list_all (\<lambda>byte. is_ascii_lowercase byte \<or> is_ascii_digit byte \<or> byte = 46 \<or> byte = 95 \<or> byte = 45)
             (str_bytes normalized) \<or>
         starts_with normalized 46 \<or> ends_with normalized 46 \<or> contains_pair 46 46 normalized
      then Inl InvalidLocalpart
      else Inr (Localpart normalized))"

definition user_address_parse ::
  "(str \<Rightarrow> str) \<Rightarrow> (str \<Rightarrow> str option) \<Rightarrow> str \<Rightarrow> user_address_error + user_address" where
  "user_address_parse nfc domain_to_ascii input =
     and_then (ok_or InvalidAddress
       (case split_once 64 input of
          None \<Rightarrow> None
        | Some (lp, remainder) \<Rightarrow> if 64 \<in> set remainder then None else Some (lp, remainder))) (\<lambda>(lp, dom).
     and_then (map_err LocalpartErr (localpart_parse nfc lp)) (\<lambda>localpart.
     and_then (map_err DomainErr (domain_parse domain_to_ascii dom)) (\<lambda>domain.
     Inr (UserAddress localpart domain))))"

definition user_address_display :: "user_address \<Rightarrow> str" where
  "user_address_display a = localpart_str (address_localpart a) @ [64] @ domain_str (address_domain a)"

subsection \<open>What the libraries promise\<close>

text \<open>
  NFC leaves ASCII text unchanged, and IDNA conversion returns an already converted, lower-case
  domain unchanged.
\<close>

definition nfc_keeps_ascii :: "(str \<Rightarrow> str) \<Rightarrow> bool" where
  "nfc_keeps_ascii nfc \<longleftrightarrow> (\<forall>s. is_ascii s \<longrightarrow> nfc s = s)"

definition idna_idempotent :: "(str \<Rightarrow> str option) \<Rightarrow> bool" where
  "idna_idempotent f \<longleftrightarrow> (\<forall>s a. f s = Some a \<longrightarrow> f (to_ascii_lowercase a) = Some (to_ascii_lowercase a))"

subsection \<open>Domains\<close>

definition is_domain_char :: "nat \<Rightarrow> bool" where
  "is_domain_char c \<longleftrightarrow> is_ascii_lowercase c \<or> is_ascii_digit c \<or> c = 45 \<or> c = 46"

lemma lowercase_idem [simp]: "to_ascii_lowercase (to_ascii_lowercase s) = to_ascii_lowercase s"
  by (auto simp: to_ascii_lowercase_def is_ascii_uppercase_def)

lemma lowercase_no_upper: "c \<in> set (to_ascii_lowercase s) \<Longrightarrow> \<not> is_ascii_uppercase c"
  by (auto simp: to_ascii_lowercase_def is_ascii_uppercase_def)

lemma domain_label_chars:
  assumes "domain_label_ok label" and "c \<in> set label"
  shows "is_ascii_alphanumeric c \<or> c = 45"
proof -
  have "\<forall>b \<in> set (str_bytes label). is_ascii_alphanumeric b \<or> b = 45"
    using assms(1) by (simp add: domain_label_ok_def list_all_iff)
  moreover have "b < 0x80" if "is_ascii_alphanumeric b \<or> b = 45" for b
    using that ascii_class_bound(3) by fastforce
  ultimately show ?thesis
    using bytes_pred_iff [of "\<lambda>b. is_ascii_alphanumeric b \<or> b = 45" label] assms(2) by blast
qed

lemma domain_parse_iff:
  "domain_parse f input = Inr d \<longleftrightarrow>
     input \<noteq> [] \<and> trim input = input \<and> 47 \<notin> set input \<and> 58 \<notin> set input \<and> 64 \<notin> set input \<and>
     \<not> ends_with input 46 \<and>
     (\<exists>a. f input = Some a \<and> d = DomainName (to_ascii_lowercase a) \<and> str_len (to_ascii_lowercase a) \<le> 253 \<and>
        46 \<in> set (to_ascii_lowercase a) \<and> list_all domain_label_ok (split_on 46 (to_ascii_lowercase a)))"
proof (cases "f input")
  case (Some a)
  then show ?thesis
    unfolding domain_parse_def Let_def by (simp add: eq_commute [of _ d] not_less)
qed (simp add: domain_parse_def)

lemma domain_parse_chars:
  assumes "domain_parse f input = Inr d"
  shows "\<forall>c \<in> set (domain_str d). is_domain_char c"
proof
  fix c assume c: "c \<in> set (domain_str d)"
  from assms obtain a where d: "d = DomainName (to_ascii_lowercase a)"
    and labels: "list_all domain_label_ok (split_on 46 (to_ascii_lowercase a))"
    by (auto simp: domain_parse_iff)
  from c d have "c = 46 \<or> (\<exists>part \<in> set (split_on 46 (to_ascii_lowercase a)). c \<in> set part)"
    using split_on_chars by auto
  then have "c = 46 \<or> c = 45 \<or> is_ascii_alphanumeric c"
    using labels domain_label_chars by (auto simp: list_all_iff)
  then show "is_domain_char c"
    using c d lowercase_no_upper [of c a] by (auto simp: is_domain_char_def is_ascii_alphanumeric_def)
qed

lemma is_domain_char_facts:
  assumes "is_domain_char c"
  shows "c < 0x80" "c \<noteq> 47" "c \<noteq> 58" "c \<noteq> 64" "\<not> is_whitespace c"
  using assms by (auto simp: is_domain_char_def is_ascii_lowercase_def is_ascii_digit_def is_whitespace_def)

lemma domain_reparse:
  assumes "idna_idempotent f" and "domain_parse f input = Inr d"
  shows "domain_parse f (domain_str d) = Inr d"
proof -
  have chars: "\<forall>c \<in> set (domain_str d). is_domain_char c"
    using assms(2) by (rule domain_parse_chars)
  from assms(2) obtain a where d: "f input = Some a" "d = DomainName (to_ascii_lowercase a)"
    "str_len (to_ascii_lowercase a) \<le> 253" "46 \<in> set (to_ascii_lowercase a)"
    and labels: "list_all domain_label_ok (split_on 46 (to_ascii_lowercase a))"
    by (auto simp: domain_parse_iff)
  have "\<not> ends_with (domain_str d) 46"
    using labels ends_with_split [of "domain_str d" 46] d(2) by (auto simp: list_all_iff domain_label_ok_def)
  moreover have "f (domain_str d) = Some (domain_str d)"
    using assms(1) [unfolded idna_idempotent_def] d(1) unfolding d(2) domain_name.sel by blast
  moreover have "trim (domain_str d) = domain_str d"
    using chars is_domain_char_facts by (intro trim_id) blast
  moreover have "47 \<notin> set (domain_str d)" "58 \<notin> set (domain_str d)" "64 \<notin> set (domain_str d)"
    using chars is_domain_char_facts by blast+
  moreover have "domain_str d \<noteq> []" using d by auto
  ultimately show ?thesis
    using d labels by (simp add: domain_parse_iff)
qed

subsection \<open>Localparts\<close>

definition is_localpart_char :: "nat \<Rightarrow> bool" where
  "is_localpart_char c \<longleftrightarrow> is_ascii_lowercase c \<or> is_ascii_digit c \<or> c = 46 \<or> c = 95 \<or> c = 45"

lemma localpart_parse_iff:
  "localpart_parse nfc input = Inr lp \<longleftrightarrow>
     lp = Localpart input \<and> nfc input = input \<and> input \<noteq> [] \<and> length input \<le> 64 \<and>
     (\<forall>c \<in> set input. is_localpart_char c) \<and> hd input \<noteq> 46 \<and> last input \<noteq> 46 \<and> \<not> contains_pair 46 46 input"
proof -
  have bytes: "list_all (\<lambda>byte. is_ascii_lowercase byte \<or> is_ascii_digit byte \<or> byte = 46 \<or> byte = 95 \<or> byte = 45)
      (str_bytes input) \<longleftrightarrow> (\<forall>c \<in> set input. is_localpart_char c)"
    unfolding list_all_iff is_localpart_char_def
    by (rule bytes_pred_iff) (auto dest: ascii_class_bound)
  have "is_ascii input" if "\<forall>c \<in> set input. is_localpart_char c"
    using that by (auto simp: is_ascii_def is_localpart_char_def dest: ascii_class_bound)
  then show ?thesis
    using bytes by (auto simp: localpart_parse_def Let_def starts_with_def ends_with_def str_len_ascii)
qed

lemma localpart_ascii:
  assumes "\<forall>c \<in> set s. is_localpart_char c"
  shows "is_ascii s" "64 \<notin> set s"
  using assms by (auto simp: is_ascii_def is_localpart_char_def is_ascii_lowercase_def is_ascii_digit_def dest: ascii_class_bound)

subsection \<open>Addresses\<close>

lemma address_split:
  "(case split_once 64 input of
      None \<Rightarrow> None | Some (lp, remainder) \<Rightarrow> if 64 \<in> set remainder then None else Some (lp, remainder)) =
     Some (lp, dm) \<longleftrightarrow> input = lp @ 64 # dm \<and> 64 \<notin> set lp \<and> 64 \<notin> set dm"
proof
  assume "input = lp @ 64 # dm \<and> 64 \<notin> set lp \<and> 64 \<notin> set dm"
  then show "(case split_once 64 input of
      None \<Rightarrow> None | Some (lp, remainder) \<Rightarrow> if 64 \<in> set remainder then None else Some (lp, remainder)) =
     Some (lp, dm)"
    by (simp add: split_once_append)
qed (auto split: option.splits if_splits dest: split_once_Some)

lemma user_address_parse_iff:
  "user_address_parse nfc f input = Inr a \<longleftrightarrow>
     (\<exists>lp dm l d. input = lp @ 64 # dm \<and> 64 \<notin> set lp \<and> 64 \<notin> set dm \<and>
        localpart_parse nfc lp = Inr l \<and> domain_parse f dm = Inr d \<and> a = UserAddress l d)"
  unfolding user_address_parse_def
  by (auto simp: and_then_eq_Inr ok_or_eq_Inr map_err_eq_Inr address_split)

lemma address_reparse:
  assumes "idna_idempotent f" and "user_address_parse nfc f input = Inr a"
  shows "user_address_parse nfc f (user_address_display a) = Inr a"
proof -
  from assms(2) obtain lp dm l d where l: "localpart_parse nfc lp = Inr l"
    and d: "domain_parse f dm = Inr d" and a: "a = UserAddress l d"
    by (auto simp: user_address_parse_iff)
  have "l = Localpart lp" "64 \<notin> set lp"
    using l localpart_ascii(2) by (auto simp: localpart_parse_iff)
  moreover have "64 \<notin> set (domain_str d)"
    using domain_parse_chars [OF d] is_domain_char_facts(4) by blast
  ultimately show ?thesis
    using l domain_reparse [OF assms(1) d] by (auto simp: user_address_parse_iff user_address_display_def a)
qed

subsection \<open>The grammar of canonical names\<close>

lemma hd_split_on: "s \<noteq> [] \<Longrightarrow> hd (split_on c s) = [] \<longleftrightarrow> hd s = c"
  by (cases s) auto

lemma tl_segments_nonempty:
  "s \<noteq> [] \<Longrightarrow> (\<forall>part \<in> set (tl (split_on c s)). part \<noteq> []) \<longleftrightarrow> last s \<noteq> c \<and> \<not> contains_pair c c s"
proof (induction s)
  case (Cons x xs)
  show ?case
  proof (cases "xs = []")
    case False
    obtain p ps where ps: "split_on c xs = p # ps" by (cases "split_on c xs") auto
    have p: "p = [] \<longleftrightarrow> hd xs = c" using hd_split_on [OF False, of c] ps by simp
    have pair: "contains_pair c c (x # xs) \<longleftrightarrow> x = c \<and> hd xs = c \<or> contains_pair c c xs"
      using False by (cases xs) simp_all
    show ?thesis using Cons.IH [OF False] False p pair by (simp add: ps) blast
  qed simp
qed simp

lemma segments_nonempty_iff:
  assumes "s \<noteq> []"
  shows "(\<forall>part \<in> set (split_on c s). part \<noteq> []) \<longleftrightarrow> hd s \<noteq> c \<and> last s \<noteq> c \<and> \<not> contains_pair c c s"
  using tl_segments_nonempty [OF assms, of c] hd_split_on [OF assms, of c] by (cases "split_on c s") auto

text \<open>
  The reference grammar of a localpart: one or more atoms over lower-case letters, digits,
  \<open>_\<close> and \<open>-\<close>, separated by single dots, at most 64 characters in total.
\<close>

definition localpart_atom :: "str \<Rightarrow> bool" where
  "localpart_atom part \<longleftrightarrow>
     part \<noteq> [] \<and> list_all (\<lambda>c. is_ascii_lowercase c \<or> is_ascii_digit c \<or> c = 95 \<or> c = 45) part"

definition localpart_grammar :: "str \<Rightarrow> bool" where
  "localpart_grammar s \<longleftrightarrow> length s \<le> 64 \<and> list_all localpart_atom (split_on 46 s)"

lemma split_on_sep: "part \<in> set (split_on c s) \<Longrightarrow> c' \<in> set part \<Longrightarrow> c' \<in> set s \<and> c' \<noteq> c"
proof (induction s arbitrary: part)
  case (Cons x xs)
  obtain p ps where ps: "split_on c xs = p # ps" by (cases "split_on c xs") auto
  have "c' \<in> set p \<Longrightarrow> c' \<in> set xs \<and> c' \<noteq> c"
    "part \<in> set ps \<Longrightarrow> c' \<in> set xs \<and> c' \<noteq> c"
    using Cons.IH [of p] Cons.IH [of part] Cons.prems(2) ps by auto
  then show ?case using Cons.prems ps by (auto split: if_splits)
qed simp

lemma localpart_grammar_iff:
  "localpart_grammar s \<longleftrightarrow> s \<noteq> [] \<and> length s \<le> 64 \<and> (\<forall>c \<in> set s. is_localpart_char c) \<and>
     hd s \<noteq> 46 \<and> last s \<noteq> 46 \<and> \<not> contains_pair 46 46 s"
proof (cases "s = []")
  case False
  have "(\<forall>c \<in> set s. is_localpart_char c) \<longleftrightarrow>
      (\<forall>part \<in> set (split_on 46 s). \<forall>c \<in> set part. is_ascii_lowercase c \<or> is_ascii_digit c \<or> c = 95 \<or> c = 45)"
    (is "?L \<longleftrightarrow> ?R")
  proof
    assume ?L then show ?R
      using split_on_sep [of _ 46 s] unfolding is_localpart_char_def by blast
  next
    assume ?R then show ?L
      using split_on_chars [of _ s 46] unfolding is_localpart_char_def by blast
  qed
  then show ?thesis
    using segments_nonempty_iff [OF False, of 46] False
    by (auto simp: localpart_grammar_def localpart_atom_def list_all_iff)
qed (simp add: localpart_grammar_def localpart_atom_def)

lemma localpart_grammar_ascii: "localpart_grammar s \<Longrightarrow> is_ascii s"
  using localpart_ascii(1) by (simp add: localpart_grammar_iff)

lemma localpart_parse_grammar:
  assumes "nfc_keeps_ascii nfc"
  shows "localpart_parse nfc input = Inr lp \<longleftrightarrow> lp = Localpart input \<and> localpart_grammar input"
  using assms localpart_grammar_ascii [of input]
  by (auto simp: localpart_parse_iff localpart_grammar_iff nfc_keeps_ascii_def)

subsection \<open>Properties\<close>

text \<open>
  \<open>Localpart::parse\<close> accepts exactly the strings of the reference grammar (dot-separated
  non-empty atoms of at most 64 characters in total) and returns its input unchanged; every other
  input is \<open>LocalpartError::Invalid\<close>.  NFC is only assumed to leave ASCII text alone.
\<close>

theorem localpart_grammar_exact:
  assumes "nfc_keeps_ascii nfc"
  shows "localpart_parse nfc input =
    (if localpart_grammar input then Inr (Localpart input) else Inl InvalidLocalpart)"
proof (cases "localpart_parse nfc input")
  case (Inl e)
  then have "\<not> localpart_grammar input"
    using localpart_parse_grammar [OF assms, of input "Localpart input"] by simp
  then show ?thesis using Inl by (cases e) simp
next
  case (Inr lp)
  then show ?thesis using localpart_parse_grammar [OF assms] by simp
qed

theorem localpart_grammar_exact_witness:
  "nfc_keeps_ascii id \<and> localpart_parse id (str_of ''alice.b-2'') = Inr (Localpart (str_of ''alice.b-2'')) \<and>
   localpart_parse id (str_of ''alice..b'') = Inl InvalidLocalpart"
proof -
  have nfc: "nfc_keeps_ascii id" by (simp add: nfc_keeps_ascii_def)
  moreover have "localpart_grammar (str_of ''alice.b-2'')" "\<not> localpart_grammar (str_of ''alice..b'')"
    by code_simp+
  ultimately show ?thesis
    using localpart_grammar_exact [OF nfc, of "str_of ''alice.b-2''"] localpart_grammar_exact [OF nfc, of "str_of ''alice..b''"]
    by simp
qed

text \<open>
  C38.  A parsed user address is canonical: its displayed form parses back to the same address,
  contains only lower-case letters, digits, \<open>.\<close>, \<open>_\<close>, \<open>-\<close> and one \<open>@\<close>, and is at most
  \<open>64 + 1 + 253\<close> bytes long.  IDNA conversion is only assumed to fix its own lower-cased output.
\<close>

theorem user_address_canonical:
  assumes "idna_idempotent f" and "user_address_parse nfc f input = Inr a"
  shows "user_address_parse nfc f (user_address_display a) = Inr a \<and>
    (\<forall>c \<in> set (user_address_display a). is_localpart_char c \<or> c = 64) \<and>
    count_list (user_address_display a) 64 = 1 \<and> str_len (user_address_display a) \<le> 318"
proof -
  from assms(2) obtain lp dm l d where l: "localpart_parse nfc lp = Inr l"
    and d: "domain_parse f dm = Inr d" and a: "a = UserAddress l d"
    by (auto simp: user_address_parse_iff)
  have lp: "l = Localpart lp" "\<forall>c \<in> set lp. is_localpart_char c" "length lp \<le> 64"
    using l by (auto simp: localpart_parse_iff)
  have dc: "\<forall>c \<in> set (domain_str d). is_domain_char c"
    using d by (rule domain_parse_chars)
  have at: "64 \<notin> set lp" "64 \<notin> set (domain_str d)"
    using localpart_ascii(2) [OF lp(2)] dc is_domain_char_facts(4) by blast+
  have chars: "\<forall>c \<in> set (user_address_display a). is_localpart_char c \<or> c = 64"
    using lp dc by (auto simp: user_address_display_def a is_localpart_char_def is_domain_char_def)
  have "is_ascii (domain_str d)"
    using dc is_domain_char_facts(1) by (simp add: is_ascii_def)
  then have "length (domain_str d) \<le> 253"
    using d str_len_ascii by (auto simp: domain_parse_iff)
  moreover have "is_ascii (user_address_display a)"
    using localpart_ascii(1) [OF lp(2)] \<open>is_ascii (domain_str d)\<close> lp(1)
    by (auto simp: user_address_display_def a is_ascii_def)
  ultimately have "str_len (user_address_display a) \<le> 318"
    using lp by (simp add: str_len_ascii) (simp add: user_address_display_def a)
  moreover have "count_list (user_address_display a) 64 = 1"
    using at lp(1) by (simp add: user_address_display_def a count_list_0_iff)
  ultimately show ?thesis using address_reparse [OF assms] chars by blast
qed

theorem user_address_canonical_witness:
  "user_address_parse id (\<lambda>s. Some (to_ascii_lowercase s)) (str_of ''alice@Example.ORG'') =
     Inr (UserAddress (Localpart (str_of ''alice'')) (DomainName (str_of ''example.org''))) \<and>
   user_address_parse id (\<lambda>s. Some (to_ascii_lowercase s)) (str_of ''alice@example.org'') =
     Inr (UserAddress (Localpart (str_of ''alice'')) (DomainName (str_of ''example.org'')))"
proof -
  let ?f = "\<lambda>s. Some (to_ascii_lowercase s)"
  let ?a = "UserAddress (Localpart (str_of ''alice'')) (DomainName (str_of ''example.org''))"
  have "idna_idempotent ?f" by (simp add: idna_idempotent_def)
  moreover have parsed: "user_address_parse id ?f (str_of ''alice@Example.ORG'') = Inr ?a" by code_simp
  ultimately have "user_address_parse id ?f (user_address_display ?a) = Inr ?a"
    using user_address_canonical by blast
  moreover have "user_address_display ?a = str_of ''alice@example.org''" by code_simp
  ultimately show ?thesis using parsed by simp
qed

end
