(* ===== verification/Fabric_Policy.thy ===== *)
theory Fabric_Policy
  imports Fabric_Identity
begin

text \<open>
  Tenant-local authorization of the authority domain: account states, roles and permissions
  (\<open>fcp-fabric-domain/src/policy.rs\<close>), administration commands and their validation
  (\<open>administration.rs\<close>) and the audit vocabulary (\<open>audit.rs\<close>).
\<close>

subsection \<open>States, roles and permissions\<close>

datatype account_state = AccountActive | MfaEnrollmentRequired | AccountSuspended | Deactivated

definition permits_session :: "account_state \<Rightarrow> bool" where
  "permits_session s = (case s of AccountActive \<Rightarrow> True | _ \<Rightarrow> False)"

datatype role = Owner | Admin | Operator | Auditor | Member

datatype permission =
    ManageTenant
  | ManageRoles
  | ManageAccounts
  | PublishConfiguration
  | ManageFederation
  | ReadAudit
  | ManageOwnSecurity
  | UseApplication

fun role_grants :: "role \<Rightarrow> permission \<Rightarrow> bool" where
  "role_grants Owner p = True"
| "role_grants Admin p = (p \<in> {ManageAccounts, PublishConfiguration, ReadAudit, ManageOwnSecurity, UseApplication})"
| "role_grants Operator p = (p \<in> {PublishConfiguration, ReadAudit, ManageOwnSecurity, UseApplication})"
| "role_grants Auditor p = (p \<in> {ReadAudit, ManageOwnSecurity, UseApplication})"
| "role_grants Member p = (p \<in> {ManageOwnSecurity, UseApplication})"

datatype federation_trust_state = TrustPending | TrustActive | TrustSuspended | TrustRevoked

definition accepts_requests :: "federation_trust_state \<Rightarrow> bool" where
  "accepts_requests s = (case s of TrustActive \<Rightarrow> True | _ \<Rightarrow> False)"

datatype authorization_error = AccountUnavailable | AuthorizationDenied | AuthorizationStepUpRequired

record authorization_context =
  context_tenant :: tenant_id
  context_account :: account_id
  context_state :: account_state
  context_roles :: "role list"
  context_step_up :: bool

definition authorization_context_new ::
  "tenant_id \<Rightarrow> account_id \<Rightarrow> account_state \<Rightarrow> role list \<Rightarrow> bool \<Rightarrow> authorization_context" where
  "authorization_context_new tenant account state roles step_up =
     \<lparr>context_tenant = tenant, context_account = account, context_state = state,
      context_roles = roles, context_step_up = step_up\<rparr>"

definition authorization_require ::
  "authorization_context \<Rightarrow> permission \<Rightarrow> authorization_error + unit" where
  "authorization_require c permission =
     (if \<not> permits_session (context_state c) then Inl AccountUnavailable
      else if list_ex (\<lambda>r. role_grants r permission) (context_roles c) then Inr ()
      else Inl AuthorizationDenied)"

definition authorization_require_step_up :: "authorization_context \<Rightarrow> authorization_error + unit" where
  "authorization_require_step_up c =
     (if context_step_up c then Inr () else Inl AuthorizationStepUpRequired)"

subsection \<open>Administration commands\<close>

datatype administration_error =
    CrossTenantMutation
  | ActorUnavailable
  | PermissionDenied
  | StepUpRequired
  | InvalidCorrelationId
  | PrivilegedRoleRequiresDedicatedWorkflow
  | OwnerRoleRequiresDedicatedWorkflow

definition correlation_id_ok :: "str \<Rightarrow> bool" where
  "correlation_id_ok s \<longleftrightarrow> \<not> (s = [] \<or> str_len s > 128 \<or> list_ex is_control s)"

definition validate_correlation_id :: "str \<Rightarrow> administration_error + unit" where
  "validate_correlation_id s = (if correlation_id_ok s then Inr () else Inl InvalidCorrelationId)"

record administration_actor =
  actor_tenant :: tenant_id
  actor_account :: account_id
  actor_roles :: "role list"
  actor_step_up :: bool
  actor_state :: account_state

definition require_same_tenant :: "administration_actor \<Rightarrow> tenant_id \<Rightarrow> administration_error + unit" where
  "require_same_tenant a target = (if actor_tenant a = target then Inr () else Inl CrossTenantMutation)"

definition actor_require :: "administration_actor \<Rightarrow> permission \<Rightarrow> administration_error + unit" where
  "actor_require a permission =
     (if \<not> permits_session (actor_state a) then Inl ActorUnavailable
      else if list_ex (\<lambda>r. role_grants r permission) (actor_roles a) then Inr ()
      else Inl PermissionDenied)"

definition actor_require_step_up :: "administration_actor \<Rightarrow> administration_error + unit" where
  "actor_require_step_up a = (if actor_step_up a then Inr () else Inl StepUpRequired)"

record bootstrap_tenant_command =
  bootstrap_domain :: domain_name
  bootstrap_localpart :: localpart
  bootstrap_correlation :: str

definition bootstrap_validate :: "bootstrap_tenant_command \<Rightarrow> administration_error + unit" where
  "bootstrap_validate c = validate_correlation_id (bootstrap_correlation c)"

record bootstrap_result =
  result_tenant :: tenant_id
  result_owner :: account_id
  result_policy_version :: policy_version
  result_owner_state :: account_state

record invite_account_command =
  invite_tenant :: tenant_id
  invite_localpart :: localpart
  invite_role :: role
  invite_actor :: administration_actor
  invite_correlation :: str

definition invite_validate :: "invite_account_command \<Rightarrow> administration_error + unit" where
  "invite_validate c =
     and_then (require_same_tenant (invite_actor c) (invite_tenant c)) (\<lambda>_.
     and_then (actor_require (invite_actor c) ManageAccounts) (\<lambda>_.
     if invite_role c \<in> {Owner, Admin} then Inl PrivilegedRoleRequiresDedicatedWorkflow
     else validate_correlation_id (invite_correlation c)))"

record change_role_command =
  change_tenant :: tenant_id
  change_target :: account_id
  change_role_of :: role
  change_grant :: bool
  change_actor :: administration_actor
  change_correlation :: str

definition change_role_validate :: "change_role_command \<Rightarrow> administration_error + unit" where
  "change_role_validate c =
     and_then (require_same_tenant (change_actor c) (change_tenant c)) (\<lambda>_.
     and_then (actor_require (change_actor c) ManageRoles) (\<lambda>_.
     and_then (actor_require_step_up (change_actor c)) (\<lambda>_.
     if change_role_of c = Owner then Inl OwnerRoleRequiresDedicatedWorkflow
     else validate_correlation_id (change_correlation c))))"

subsection \<open>Audit vocabulary\<close>

datatype audit_action =
    TenantBootstrapped
  | AccountCreated
  | RoleChanged
  | PasswordChanged
  | MfaChanged
  | LoginTransactionIssued
  | LoginTransactionConsumed
  | SessionIssued
  | SessionRevoked
  | StepUpGranted
  | StepUpConsumed
  | WebauthnCeremonyIssued
  | WebauthnCeremonyConsumed
  | PasskeyChanged
  | FederationTrustChanged
  | FederationRequestEvaluated

subsection \<open>Roles are ordered by privilege\<close>

text \<open>
  The source derives \<open>Ord\<close> for \<open>Role\<close>, which orders the constructors as they are declared.
\<close>

fun role_rank :: "role \<Rightarrow> nat" where
  "role_rank Owner = 0"
| "role_rank Admin = 1"
| "role_rank Operator = 2"
| "role_rank Auditor = 3"
| "role_rank Member = 4"

lemma role_rank_inj: "role_rank r = role_rank r' \<longleftrightarrow> r = r'"
  by (cases r; cases r') simp_all

instantiation role :: linorder
begin

definition less_eq_role :: "role \<Rightarrow> role \<Rightarrow> bool" where
  "r \<le> r' \<longleftrightarrow> role_rank r \<le> role_rank r'"

definition less_role :: "role \<Rightarrow> role \<Rightarrow> bool" where
  "r < r' \<longleftrightarrow> role_rank r < role_rank r'"

instance
  by standard (auto simp: less_eq_role_def less_role_def role_rank_inj)

end

lemma role_grants_mono: "r \<le> r' \<Longrightarrow> role_grants r' p \<Longrightarrow> role_grants r p"
  by (cases r; cases r') (auto simp: less_eq_role_def)

lemma grants_manage_roles: "role_grants r ManageRoles \<longleftrightarrow> r = Owner"
  by (cases r) simp_all

lemma grants_manage_accounts: "role_grants r ManageAccounts \<longleftrightarrow> r \<le> Admin"
  by (cases r) (simp_all add: less_eq_role_def)

lemma permits_session_iff [simp]: "permits_session s \<longleftrightarrow> s = AccountActive"
  by (cases s) (simp_all add: permits_session_def)

subsection \<open>Validation\<close>

lemma invite_validate_iff:
  "invite_validate c = Inr () \<longleftrightarrow>
     actor_tenant (invite_actor c) = invite_tenant c \<and> actor_state (invite_actor c) = AccountActive \<and>
     (\<exists>r \<in> set (actor_roles (invite_actor c)). r \<le> Admin) \<and> Admin < invite_role c \<and>
     correlation_id_ok (invite_correlation c)"
proof -
  have "r \<notin> {Owner, Admin} \<longleftrightarrow> Admin < r" for r
    by (cases r) (simp_all add: less_role_def)
  then show ?thesis
    by (auto simp: invite_validate_def require_same_tenant_def actor_require_def validate_correlation_id_def
        and_then_eq_Inr list_ex_iff grants_manage_accounts)
qed

lemma change_role_validate_iff:
  "change_role_validate c = Inr () \<longleftrightarrow>
     actor_tenant (change_actor c) = change_tenant c \<and> actor_state (change_actor c) = AccountActive \<and>
     Owner \<in> set (actor_roles (change_actor c)) \<and> actor_step_up (change_actor c) \<and>
     change_role_of c \<noteq> Owner \<and> correlation_id_ok (change_correlation c)"
  by (auto simp: change_role_validate_def require_same_tenant_def actor_require_def actor_require_step_up_def
      validate_correlation_id_def and_then_eq_Inr list_ex_iff grants_manage_roles)

subsection \<open>Properties\<close>

text \<open>
  C31.  An administration command never moves privilege upwards.  An invitation passes validation
  exactly for an active owner or administrator of the same tenant who invites a role strictly below
  administrator; a role change exactly for an active owner of the same tenant with a step-up result
  on a role other than owner; both need a bounded correlation id.  So every role an accepted
  command names is at or below a role the actor holds.
\<close>

theorem administration_no_escalation:
  "(invite_validate i = Inr () \<longleftrightarrow>
      actor_tenant (invite_actor i) = invite_tenant i \<and> actor_state (invite_actor i) = AccountActive \<and>
      (\<exists>r \<in> set (actor_roles (invite_actor i)). r = Owner \<or> r = Admin) \<and>
      invite_role i \<in> {Operator, Auditor, Member} \<and> correlation_id_ok (invite_correlation i)) \<and>
   (change_role_validate c = Inr () \<longleftrightarrow>
      actor_tenant (change_actor c) = change_tenant c \<and> actor_state (change_actor c) = AccountActive \<and>
      Owner \<in> set (actor_roles (change_actor c)) \<and> actor_step_up (change_actor c) \<and>
      change_role_of c \<in> {Admin, Operator, Auditor, Member} \<and> correlation_id_ok (change_correlation c)) \<and>
   (invite_validate i = Inr () \<longrightarrow>
      (\<exists>held \<in> set (actor_roles (invite_actor i)). \<forall>p. role_grants (invite_role i) p \<longrightarrow> role_grants held p)) \<and>
   (change_role_validate c = Inr () \<longrightarrow>
      (\<exists>held \<in> set (actor_roles (change_actor c)). \<forall>p. role_grants (change_role_of c) p \<longrightarrow> role_grants held p))"
proof -
  have "r \<le> Admin \<longleftrightarrow> r = Owner \<or> r = Admin" "Admin < r \<longleftrightarrow> r \<in> {Operator, Auditor, Member}"
    "r \<noteq> Owner \<longleftrightarrow> r \<in> {Admin, Operator, Auditor, Member}" for r
    by (cases r; simp add: less_eq_role_def less_role_def)+
  note ranks = this
  have "\<exists>held \<in> set (actor_roles (invite_actor i)). \<forall>p. role_grants (invite_role i) p \<longrightarrow> role_grants held p"
    if valid: "invite_validate i = Inr ()"
  proof -
    obtain held where "held \<in> set (actor_roles (invite_actor i))" "held \<le> invite_role i"
      using valid unfolding invite_validate_iff by (meson le_less_trans less_imp_le)
    then show ?thesis using role_grants_mono by blast
  qed
  moreover have "\<exists>held \<in> set (actor_roles (change_actor c)). \<forall>p. role_grants (change_role_of c) p \<longrightarrow> role_grants held p"
    if "change_role_validate c = Inr ()"
    using that by (intro bexI [of _ Owner]) (simp_all add: change_role_validate_iff)
  ultimately show ?thesis
    using invite_validate_iff [of i, unfolded ranks] change_role_validate_iff [of c, unfolded ranks] by blast
qed

definition sample_actor :: "role list \<Rightarrow> bool \<Rightarrow> administration_actor" where
  "sample_actor roles step_up = \<lparr>actor_tenant = TenantId (filled 1),
     actor_account = AccountId (filled 2), actor_roles = roles, actor_step_up = step_up,
     actor_state = AccountActive\<rparr>"

definition sample_invite :: invite_account_command where
  "sample_invite = \<lparr>invite_tenant = TenantId (filled 1), invite_localpart = Localpart (str_of ''alice''),
     invite_role = Member, invite_actor = sample_actor [Admin] False, invite_correlation = str_of ''invite-1''\<rparr>"

definition sample_change :: change_role_command where
  "sample_change = \<lparr>change_tenant = TenantId (filled 1), change_target = AccountId (filled 3),
     change_role_of = Operator, change_grant = True, change_actor = sample_actor [Owner] True,
     change_correlation = str_of ''role-1''\<rparr>"

theorem administration_no_escalation_witness:
  "invite_validate sample_invite = Inr () \<and> change_role_validate sample_change = Inr () \<and>
   change_role_validate (sample_change\<lparr>change_actor := sample_actor [Admin] True\<rparr>) \<noteq> Inr ()"
  unfolding administration_no_escalation [of sample_invite sample_change, THEN conjunct1]
    administration_no_escalation [of sample_invite sample_change, THEN conjunct2, THEN conjunct1]
    administration_no_escalation [of sample_invite "sample_change\<lparr>change_actor := sample_actor [Admin] True\<rparr>",
      THEN conjunct2, THEN conjunct1]
  by code_simp

end
