(* ===== verification/Fabric_Totp.thy ===== *)
theory Fabric_Totp
  imports Fabric_Policy
begin

text \<open>
  TOTP enrollment, encrypted seeds and code verification (\<open>fcp-fabric-auth/src/totp.rs\<close>).
  AES-256-GCM, HMAC-SHA-256, the random generator and the textual form of UUIDs are third-party
  code: the record of primitives and the drawn random bytes are arguments.  A time stamp is its
  number of nanoseconds since the Unix epoch; an \<open>i64\<close> is an integer whose range the checked
  operations write out.
\<close>

unbundle bit_operations_syntax

subsection \<open>Times and checked arithmetic\<close>

type_synonym timestamp = int

definition unix_timestamp :: "timestamp \<Rightarrow> int" where
  "unix_timestamp t = t div 1000000000"

definition i64_range :: "int \<Rightarrow> bool" where
  "i64_range x \<longleftrightarrow> - (2 ^ 63) \<le> x \<and> x < 2 ^ 63"

definition i64_checked :: "int \<Rightarrow> int option" where
  "i64_checked x = (if i64_range x then Some x else None)"

definition i64_checked_div :: "int \<Rightarrow> int \<Rightarrow> int option" where
  "i64_checked_div a b = (if b = 0 then None else i64_checked (sgn a * sgn b * (\<bar>a\<bar> div \<bar>b\<bar>)))"

definition i64_checked_sub :: "int \<Rightarrow> int \<Rightarrow> int option" where
  "i64_checked_sub a b = i64_checked (a - b)"

definition i64_to_be_bytes :: "int \<Rightarrow> u8 list" where
  "i64_to_be_bytes x = to_be_bytes (word_of_int x :: 64 word)"

subsection \<open>Data\<close>

definition PERIOD_SECONDS :: int where "PERIOD_SECONDS = 30"

definition DIGITS :: nat where "DIGITS = 6"

datatype totp_error =
    InvalidKeyReference
  | InvalidIssuer
  | EncryptionFailed
  | DecryptionFailed
  | UnsupportedParameters
  | InvalidCodeFormat
  | InvalidTime
  | TotpVerificationFailed

datatype totp_key_reference = TotpKeyReference (key_reference_str: str)

definition totp_key_reference_new :: "str \<Rightarrow> totp_error + totp_key_reference" where
  "totp_key_reference_new s =
     (if s = [] \<or> str_len s > 256 \<or> list_ex is_control s then Inl InvalidKeyReference
      else Inr (TotpKeyReference s))"

datatype totp_data_encryption_key = TotpDataEncryptionKey (dek_bytes: "32 bytes")

record totp_binding =
  binding_tenant :: tenant_id
  binding_account :: account_id
  binding_factor :: uuid

record encrypted_totp_seed =
  seed_ciphertext :: "u8 list"
  seed_nonce :: "12 bytes"
  seed_key_reference :: totp_key_reference
  seed_digits :: nat
  seed_period :: int

record totp_provisioning =
  secret_base32 :: str
  provisioning_uri :: str

record totp_enrollment =
  enrolled_seed :: encrypted_totp_seed
  enrolled_provisioning :: totp_provisioning

datatype accepted_totp_step = AcceptedTotpStep (accepted_step: int)

text \<open>
  The primitives: authenticated encryption and decryption under key, nonce and associated data, the
  HMAC of a message under a key, and the hyphenated text of a UUID.
\<close>

record totp_primitives =
  aead_seal :: "32 bytes \<Rightarrow> 12 bytes \<Rightarrow> nat list \<Rightarrow> u8 list \<Rightarrow> u8 list option"
  aead_open :: "32 bytes \<Rightarrow> 12 bytes \<Rightarrow> nat list \<Rightarrow> u8 list \<Rightarrow> u8 list option"
  totp_hmac :: "u8 list \<Rightarrow> u8 list \<Rightarrow> 32 bytes"
  uuid_display :: "uuid \<Rightarrow> str"

subsection \<open>Operations\<close>

definition associated_data :: "('z) totp_primitives_scheme \<Rightarrow> totp_binding \<Rightarrow> nat list" where
  "associated_data P b =
     str_bytes (str_of ''fcp-fabric/totp/v1/'' @ uuid_display P (tenant_uuid (binding_tenant b)) @ str_of ''/'' @
       uuid_display P (account_uuid (binding_account b)) @ str_of ''/'' @ uuid_display P (binding_factor b))"

definition encrypt_seed ::
  "('z) totp_primitives_scheme \<Rightarrow> 12 bytes \<Rightarrow> totp_data_encryption_key \<Rightarrow> totp_key_reference \<Rightarrow> totp_binding \<Rightarrow>
   32 bytes \<Rightarrow> totp_error + encrypted_totp_seed" where
  "encrypt_seed P nonce key key_reference binding seed =
     and_then (ok_or EncryptionFailed
       (aead_seal P (dek_bytes key) nonce (associated_data P binding) (bytes_list seed))) (\<lambda>ciphertext.
     Inr \<lparr>seed_ciphertext = ciphertext, seed_nonce = nonce, seed_key_reference = key_reference,
          seed_digits = DIGITS, seed_period = PERIOD_SECONDS\<rparr>)"

definition decrypt_seed ::
  "('z) totp_primitives_scheme \<Rightarrow> totp_data_encryption_key \<Rightarrow> encrypted_totp_seed \<Rightarrow> totp_binding \<Rightarrow>
   totp_error + 32 bytes" where
  "decrypt_seed P key encrypted binding =
     and_then (ok_or DecryptionFailed
       (aead_open P (dek_bytes key) (seed_nonce encrypted) (associated_data P binding) (seed_ciphertext encrypted))) (\<lambda>plaintext.
     ok_or DecryptionFailed (try_into plaintext))"

definition code_for_step :: "('z) totp_primitives_scheme \<Rightarrow> 32 bytes \<Rightarrow> int \<Rightarrow> totp_error + nat" where
  "code_for_step P seed step =
     (let digest = bytes_list (totp_hmac P (bytes_list seed) (i64_to_be_bytes step));
          offset = unat (digest ! (length digest - 1) AND 0x0f) in
      and_then (ok_or TotpVerificationFailed
        (if offset + 4 \<le> length digest then Some (take 4 (drop offset digest)) else None)) (\<lambda>window.
      let truncated = (from_be_bytes [window ! 0, window ! 1, window ! 2, window ! 3] :: 32 word) AND 0x7fffffff in
      Inr (unat truncated mod 10 ^ DIGITS)))"

definition base32_alphabet :: str where
  "base32_alphabet = str_of ''ABCDEFGHIJKLMNOPQRSTUVWXYZ234567''"

function base32_drain :: "16 word \<Rightarrow> nat \<Rightarrow> str \<Rightarrow> str \<times> nat" where
  "base32_drain buffer bits out =
     (if bits \<ge> 5 then
        let index = unat (drop_bit (bits - 5) buffer AND 0x1f) in
        base32_drain buffer (bits - 5) (out @ [base32_alphabet ! index])
      else (out, bits))"
  by auto
termination
  by (relation "measure (\<lambda>(_, bits, _). bits)") auto

declare base32_drain.simps [simp del]

fun base32_loop :: "u8 list \<Rightarrow> 16 word \<Rightarrow> nat \<Rightarrow> str \<Rightarrow> 16 word \<times> nat \<times> str" where
  "base32_loop [] buffer bits out = (buffer, bits, out)"
| "base32_loop (byte # bytes) buffer bits out =
     (let buffer = push_bit 8 buffer OR ucast byte;
          (out, bits) = base32_drain buffer (bits + 8) out in
      base32_loop bytes buffer bits out)"

definition base32_no_padding :: "u8 list \<Rightarrow> str" where
  "base32_no_padding bytes =
     (case base32_loop bytes 0 0 [] of (buffer, bits, out) \<Rightarrow>
        if bits > 0 then out @ [base32_alphabet ! unat (push_bit (5 - bits) buffer AND 0x1f)] else out)"

definition begin_totp_enrollment ::
  "('z) totp_primitives_scheme \<Rightarrow> 32 bytes \<Rightarrow> 12 bytes \<Rightarrow> totp_data_encryption_key \<Rightarrow> totp_key_reference \<Rightarrow>
   totp_binding \<Rightarrow> user_address \<Rightarrow> str \<Rightarrow> totp_error + totp_enrollment" where
  "begin_totp_enrollment P seed nonce key key_reference binding address issuer =
     (if issuer = [] \<or> str_len issuer > 64 \<or> list_ex is_control issuer then Inl InvalidIssuer
      else and_then (encrypt_seed P nonce key key_reference binding seed) (\<lambda>encrypted_seed.
        let secret = base32_no_padding (bytes_list seed);
            label = issuer @ str_of '':'' @ localpart_str (address_localpart address) @ str_of ''%40'' @
                    domain_str (address_domain address);
            uri = str_of ''otpauth://totp/'' @ label @ str_of ''?secret='' @ secret @ str_of ''&issuer='' @ issuer @
                  str_of ''&algorithm=SHA256&digits=6&period=30'' in
        Inr \<lparr>enrolled_seed = encrypted_seed,
             enrolled_provisioning = \<lparr>secret_base32 = secret, provisioning_uri = uri\<rparr>\<rparr>))"

definition parse_u32 :: "str \<Rightarrow> nat option" where
  "parse_u32 s =
     (let body = (if length s > 1 \<and> hd s = 43 then tl s else s);
          v = foldl (\<lambda>acc c. acc * 10 + (c - 48)) 0 body in
      if body = [] \<or> \<not> list_all is_ascii_digit body \<or> v \<ge> 2 ^ 32 then None else Some v)"

fun try_steps ::
  "('z) totp_primitives_scheme \<Rightarrow> 32 bytes \<Rightarrow> str \<Rightarrow> int option \<Rightarrow> int list \<Rightarrow> totp_error + accepted_totp_step" where
  "try_steps P seed code last_accepted_step [] = Inl TotpVerificationFailed"
| "try_steps P seed code last_accepted_step (step # steps) =
     (if Some step = last_accepted_step then try_steps P seed code last_accepted_step steps
      else and_then (code_for_step P seed step) (\<lambda>expected.
        and_then (ok_or InvalidCodeFormat (parse_u32 code)) (\<lambda>supplied.
        if expected = supplied then Inr (AcceptedTotpStep step)
        else try_steps P seed code last_accepted_step steps)))"

definition verify_totp ::
  "('z) totp_primitives_scheme \<Rightarrow> totp_data_encryption_key \<Rightarrow> encrypted_totp_seed \<Rightarrow> totp_binding \<Rightarrow> str \<Rightarrow>
   timestamp \<Rightarrow> int option \<Rightarrow> totp_error + accepted_totp_step" where
  "verify_totp P key encrypted binding code now last_accepted_step =
     (if seed_digits encrypted \<noteq> DIGITS \<or> seed_period encrypted \<noteq> PERIOD_SECONDS then Inl UnsupportedParameters
      else if str_len code \<noteq> DIGITS \<or> \<not> list_all is_ascii_digit (str_bytes code) then Inl InvalidCodeFormat
      else and_then (decrypt_seed P key encrypted binding) (\<lambda>seed.
        and_then (ok_or InvalidTime (i64_checked_div (unix_timestamp now) PERIOD_SECONDS)) (\<lambda>current_step.
        and_then (ok_or InvalidTime (i64_checked_sub current_step 1)) (\<lambda>previous_step.
        try_steps P seed code last_accepted_step [current_step, previous_step]))))"

subsection \<open>Base 32\<close>

text \<open>
  The reference is the decoder of RFC 4648: each character is a base-32 digit, and the bytes are
  the leading bits of the number the text denotes.
\<close>

definition base32_digit :: "nat \<Rightarrow> nat" where
  "base32_digit c = (if 65 \<le> c then c - 65 else c - 50 + 26)"

definition base32_value :: "str \<Rightarrow> nat" where
  "base32_value s = foldl (\<lambda>acc c. acc * 32 + base32_digit c) 0 s"

definition base32_decode :: "str \<Rightarrow> u8 list" where
  "base32_decode s = be_bytes (length s * 5 div 8) (base32_value s div 2 ^ (length s * 5 mod 8))"

lemma base32_alphabet_digit: "i < 32 \<Longrightarrow> base32_digit (base32_alphabet ! i) = i \<and> base32_alphabet ! i \<in> set base32_alphabet"
proof -
  have "list_all (\<lambda>i. base32_digit (base32_alphabet ! i) = i \<and> base32_alphabet ! i \<in> set base32_alphabet) [0..<32]"
    by code_simp
  then show "i < 32 \<Longrightarrow> ?thesis" by (simp add: list_all_iff)
qed

lemma base32_value_snoc: "base32_value (s @ [c]) = base32_value s * 32 + base32_digit c"
  by (simp add: base32_value_def)

lemma unat_low5: "unat (w AND 0x1f :: 16 word) = unat w mod 32"
proof -
  have "w AND 0x1f = take_bit 5 w" by (simp add: take_bit_eq_mask mask_eq_exp_minus_1)
  then have "unat (w AND 0x1f) = take_bit 5 (unat w)" by (simp add: unsigned_take_bit_eq)
  then show ?thesis by (simp add: take_bit_eq_mod)
qed

lemma unat_drain_index: "unat (drop_bit k w AND 0x1f :: 16 word) = unat w div 2 ^ k mod 32"
  unfolding unat_low5 unat_drop_bit_eq by (simp add: drop_bit_eq_div)

lemma mod_split5:
  fixes b :: nat
  assumes "5 \<le> k"
  shows "b mod 2 ^ k = b div 2 ^ (k - 5) mod 32 * 2 ^ (k - 5) + b mod 2 ^ (k - 5)"
proof -
  have "(2::nat) ^ k = 2 ^ (k - 5) * 32"
    using assms power_add [of "2::nat" "k - 5" 5] by simp
  then show ?thesis by (simp add: mod_mult2_eq)
qed

lemma base32_drain_spec:
  assumes "base32_drain buffer bits out = (out', bits')"
  shows "bits' < 5 \<and> length out' * 5 + bits' = length out * 5 + bits \<and>
    base32_value out' * 2 ^ bits' + unat buffer mod 2 ^ bits' = base32_value out * 2 ^ bits + unat buffer mod 2 ^ bits \<and>
    set out' \<subseteq> set out \<union> set base32_alphabet"
  using assms
proof (induction buffer bits out rule: base32_drain.induct)
  case (1 buffer bits out)
  show ?case
  proof (cases "5 \<le> bits")
    case True
    define i where "i = unat (drop_bit (bits - 5) buffer AND 0x1f)"
    have i: "i = unat buffer div 2 ^ (bits - 5) mod 32" "i < 32"
      by (simp_all add: i_def unat_drain_index)
    have step: "base32_drain buffer (bits - 5) (out @ [base32_alphabet ! i]) = (out', bits')"
      using 1(2) True by (simp add: base32_drain.simps [of buffer bits] i_def Let_def)
    have "(2::nat) ^ bits = 2 ^ (bits - 5) * 32"
      using True power_add [of "2::nat" "bits - 5" 5] by simp
    then have "base32_value (out @ [base32_alphabet ! i]) * 2 ^ (bits - 5) + unat buffer mod 2 ^ (bits - 5) =
        base32_value out * 2 ^ bits + unat buffer mod 2 ^ bits"
      using mod_split5 [OF True, of "unat buffer"] base32_alphabet_digit [OF i(2)]
      by (simp add: base32_value_snoc i(1) [symmetric] algebra_simps)
    then show ?thesis
      using 1(1) [OF True i_def step] True base32_alphabet_digit [OF i(2)] by auto
  qed (use 1(2) in \<open>simp add: base32_drain.simps [of buffer bits]\<close>)
qed

lemma unat_shift_in:
  assumes "bits \<le> 8"
  shows "unat (push_bit 8 (buffer :: 16 word) OR ucast (byte :: u8)) mod 2 ^ (bits + 8) =
    unat buffer mod 2 ^ bits * 256 + unat byte"
proof -
  have byte: "unat byte < 256" by (rule order.strict_trans2 [OF unsigned_less]) simp
  have "push_bit 8 buffer AND ucast byte = 0"
    by (rule bit_eqI) (auto simp: bit_simps dest: bit_imp_le_length)
  then have "push_bit 8 buffer OR ucast byte = push_bit 8 buffer + ucast byte"
    by (simp add: disjunctive_add_eq_or)
  also have "\<dots> = of_nat (unat buffer * 256 + unat byte)"
    by (simp add: push_bit_eq_mult)
  finally have "unat (push_bit 8 buffer OR ucast byte) = (unat buffer * 256 + unat byte) mod 2 ^ 16"
    by (simp add: unat_of_nat del: of_nat_add of_nat_mult)
  moreover have "(2::nat) ^ (bits + 8) dvd 2 ^ 16"
    using assms by (intro le_imp_power_dvd) simp
  ultimately have "unat (push_bit 8 buffer OR ucast byte) mod 2 ^ (bits + 8) =
      (unat buffer * 256 + unat byte) mod 2 ^ (bits + 8)"
    by (simp add: mod_mod_cancel del: power_numeral)
  also have "\<dots> = (unat buffer * 256 + unat byte) mod (256 * 2 ^ bits)"
    by (simp add: power_add mult.commute)
  also have "\<dots> = unat buffer mod 2 ^ bits * 256 + unat byte"
    using byte by (simp add: mod_mult2_eq)
  finally show ?thesis .
qed

lemma be_value_Cons: "be_value (b # bs) = unat b * 256 ^ length bs + be_value bs"
proof (induction bs rule: rev_induct)
  case (snoc x xs)
  then show ?case
    using be_value_snoc [of "b # xs" x] by (simp add: be_value_snoc algebra_simps)
qed (simp add: be_value_def)

lemma base32_loop_spec:
  assumes "base32_loop bytes buffer bits out = (buffer', bits', out')" and "bits < 5"
  shows "bits' < 5 \<and> length out' * 5 + bits' = length out * 5 + bits + 8 * length bytes \<and>
    base32_value out' * 2 ^ bits' + unat buffer' mod 2 ^ bits' =
      (base32_value out * 2 ^ bits + unat buffer mod 2 ^ bits) * 256 ^ length bytes + be_value bytes \<and>
    set out' \<subseteq> set out \<union> set base32_alphabet"
  using assms
proof (induction bytes arbitrary: buffer bits out)
  case Nil
  then show ?case by (simp add: be_value_def)
next
  case (Cons byte bytes)
  define buffer1 where "buffer1 = push_bit 8 buffer OR ucast byte"
  obtain out1 bits1 where drain: "base32_drain buffer1 (bits + 8) out = (out1, bits1)"
    by fastforce
  have rest: "base32_loop bytes buffer1 bits1 out1 = (buffer', bits', out')"
    using Cons.prems(1) drain by (simp add: buffer1_def)
  have "unat buffer1 mod 2 ^ (bits + 8) = unat buffer mod 2 ^ bits * 256 + unat byte"
    unfolding buffer1_def using Cons.prems(2) by (intro unat_shift_in) simp
  with base32_drain_spec [OF drain]
  have step: "bits1 < 5" "length out1 * 5 + bits1 = length out * 5 + bits + 8"
    "base32_value out1 * 2 ^ bits1 + unat buffer1 mod 2 ^ bits1 =
       (base32_value out * 2 ^ bits + unat buffer mod 2 ^ bits) * 256 + unat byte"
    "set out1 \<subseteq> set out \<union> set base32_alphabet"
    by (simp_all add: power_add algebra_simps)
  show ?case
    using Cons.IH [OF rest step(1)] step by (auto simp: be_value_Cons algebra_simps)
qed

lemma unat_last_group:
  assumes "bits < 5" and "bits \<noteq> 0"
  shows "unat (push_bit (5 - bits) (buffer :: 16 word) AND 0x1f) = unat buffer mod 2 ^ bits * 2 ^ (5 - bits)"
proof -
  have pow: "(2::nat) ^ bits * 2 ^ (5 - bits) = 32"
    using assms(1) power_add [of "2::nat" bits "5 - bits"] by simp
  have "unat (push_bit (5 - bits) buffer) = unat buffer * 2 ^ (5 - bits) mod 2 ^ 16"
    unfolding unsigned_push_bit_eq by (simp add: take_bit_eq_mod push_bit_eq_mult)
  moreover have "(32::nat) dvd 2 ^ 16" by simp
  ultimately have "unat (push_bit (5 - bits) buffer AND 0x1f) = unat buffer * 2 ^ (5 - bits) mod 32"
    unfolding unat_low5 by (simp only: mod_mod_cancel)
  also have "\<dots> = unat buffer mod 2 ^ bits * 2 ^ (5 - bits)"
    unfolding pow [symmetric] by (simp only: mult_mod_right mult.commute [of _ "2 ^ (5 - bits)"])
  finally show ?thesis .
qed

lemma base32_no_padding_spec:
  obtains pad where "pad < 5" and "length (base32_no_padding bytes) * 5 = 8 * length bytes + pad"
    and "base32_value (base32_no_padding bytes) = be_value bytes * 2 ^ pad"
    and "set (base32_no_padding bytes) \<subseteq> set base32_alphabet"
proof -
  obtain buffer bits out where loop: "base32_loop bytes 0 0 [] = (buffer, bits, out)"
    by (metis prod_cases3)
  have spec: "bits < 5" "length out * 5 + bits = 8 * length bytes" "set out \<subseteq> set base32_alphabet"
    "base32_value out * 2 ^ bits + unat buffer mod 2 ^ bits = be_value bytes"
    using base32_loop_spec [OF loop] by (simp_all add: base32_value_def)
  show thesis
  proof (cases "bits = 0")
    case True
    then show thesis
      using that [of 0] spec loop by (simp add: base32_no_padding_def)
  next
    case False
    define i where "i = unat (push_bit (5 - bits) buffer AND 0x1f)"
    have out: "base32_no_padding bytes = out @ [base32_alphabet ! i]"
      using False loop by (simp add: base32_no_padding_def i_def)
    have i: "i = unat buffer mod 2 ^ bits * 2 ^ (5 - bits)"
      using spec(1) False unfolding i_def by (rule unat_last_group)
    have pow: "(2::nat) ^ bits * 2 ^ (5 - bits) = 32"
      using spec(1) power_add [of "2::nat" bits "5 - bits"] by simp
    have "i < 32"
      using pow mult_strict_right_mono [of "unat buffer mod 2 ^ bits" "2 ^ bits" "2 ^ (5 - bits)"] by (simp add: i)
    then have digit: "base32_digit (base32_alphabet ! i) = i" "base32_alphabet ! i \<in> set base32_alphabet"
      using base32_alphabet_digit by blast+
    have "base32_value (base32_no_padding bytes) = base32_value out * 32 + i"
      by (simp add: out base32_value_snoc digit(1))
    also have "\<dots> = be_value bytes * 2 ^ (5 - bits)"
      unfolding i spec(4) [symmetric] pow [symmetric] by (simp add: algebra_simps)
    finally show thesis
      using that [of "5 - bits"] spec False digit(2) by (simp add: out)
  qed
qed

lemma base32_decode_no_padding: "base32_decode (base32_no_padding bytes) = bytes"
proof -
  obtain pad where "pad < 5" and "length (base32_no_padding bytes) * 5 = 8 * length bytes + pad"
    and "base32_value (base32_no_padding bytes) = be_value bytes * 2 ^ pad"
    by (rule base32_no_padding_spec [of bytes])
  then show ?thesis
    by (simp add: base32_decode_def be_bytes_be_value)
qed

subsection \<open>Codes and time steps\<close>

text \<open>
  What the libraries promise: decryption inverts encryption, a ciphertext opens only under the
  associated data it was sealed with, and the text of a UUID is injective, 36 ASCII characters.
\<close>

definition aead_correct :: "('z) totp_primitives_scheme \<Rightarrow> bool" where
  "aead_correct P \<longleftrightarrow> (\<forall>k n a m c. aead_seal P k n a m = Some c \<longrightarrow> aead_open P k n a c = Some m)"

definition aead_authentic :: "('z) totp_primitives_scheme \<Rightarrow> bool" where
  "aead_authentic P \<longleftrightarrow>
     (\<forall>k n a m c a' m'. aead_seal P k n a m = Some c \<longrightarrow> aead_open P k n a' c = Some m' \<longrightarrow> a' = a)"

definition uuid_display_ok :: "('z) totp_primitives_scheme \<Rightarrow> bool" where
  "uuid_display_ok P \<longleftrightarrow> inj (uuid_display P) \<and> (\<forall>u. length (uuid_display P u) = 36 \<and> is_ascii (uuid_display P u))"

text \<open>The moving factor of a time stamp, and the decimal text an authenticator shows.\<close>

definition totp_step :: "timestamp \<Rightarrow> int" where
  "totp_step now = (let u = unix_timestamp now in sgn u * (\<bar>u\<bar> div 30))"

definition decimal_text :: "nat \<Rightarrow> nat \<Rightarrow> str" where
  "decimal_text n v = map (\<lambda>i. 48 + v div 10 ^ i mod 10) (rev [0..<n])"

definition authenticator_code :: "('z) totp_primitives_scheme \<Rightarrow> str \<Rightarrow> int \<Rightarrow> str option" where
  "authenticator_code P secret step =
     (case try_into (base32_decode secret) of
        None \<Rightarrow> None
      | Some seed \<Rightarrow> (case code_for_step P seed step of Inl _ \<Rightarrow> None | Inr v \<Rightarrow> Some (decimal_text 6 v)))"

lemma decimal_text_Suc: "decimal_text (Suc n) v = decimal_text n (v div 10) @ [48 + v mod 10]"
proof -
  have "rev [0..<Suc n] = map Suc (rev [0..<n]) @ [0]"
    by (metis map_Suc_upt rev.simps(2) rev_map upt_conv_Cons zero_less_Suc)
  then show ?thesis
    by (simp add: decimal_text_def div_mult2_eq)
qed

lemma decimal_text_value: "foldl (\<lambda>acc c. acc * 10 + (c - 48)) 0 (decimal_text n v) = v mod 10 ^ n"
proof (induction n arbitrary: v)
  case (Suc n)
  then show ?case by (simp add: decimal_text_Suc mod_mult2_eq)
qed (simp add: decimal_text_def)

lemma decimal_text_digits: "c \<in> set (decimal_text n v) \<Longrightarrow> is_ascii_digit c"
  by (auto simp: decimal_text_def is_ascii_digit_def intro: order.trans [of _ "48 + 9"])

lemma parse_decimal_text:
  assumes "v < 10 ^ 6"
  shows "parse_u32 (decimal_text 6 v) = Some v"
proof -
  have "decimal_text 6 v \<noteq> []" by (simp add: decimal_text_def)
  then have "hd (decimal_text 6 v) \<noteq> 43"
    using decimal_text_digits [OF hd_in_set, of 6 v] by (auto simp: is_ascii_digit_def)
  then show ?thesis
    using assms decimal_text_digits [of _ 6 v] \<open>decimal_text 6 v \<noteq> []\<close>
    by (auto simp: parse_u32_def decimal_text_value list_all_iff)
qed

lemma low4_bound: "unat (b AND 0x0f :: u8) < 16"
proof -
  have "b AND 0x0f = take_bit 4 b" by (simp add: take_bit_eq_mask mask_eq_exp_minus_1)
  then have "unat (b AND 0x0f) = take_bit 4 (unat b)" by (simp add: unsigned_take_bit_eq)
  then show ?thesis by (simp add: take_bit_eq_mod)
qed

lemma code_for_step_total:
  obtains v where "code_for_step P seed step = Inr v" and "v < 10 ^ 6"
proof -
  define digest where "digest = bytes_list (totp_hmac P (bytes_list seed) (i64_to_be_bytes step))"
  have "unat (digest ! (length digest - 1) AND 0x0f) + 4 \<le> length digest"
    using low4_bound [of "digest ! (length digest - 1)"] by (simp add: digest_def)
  then show thesis
    using that by (simp add: code_for_step_def digest_def [symmetric] DIGITS_def Let_def)
qed

lemma totp_step_range:
  assumes "i64_range (unix_timestamp now)"
  shows "i64_checked_div (unix_timestamp now) PERIOD_SECONDS = Some (totp_step now)"
    and "i64_checked_sub (totp_step now) 1 = Some (totp_step now - 1)"
proof -
  have "\<bar>unix_timestamp now\<bar> div 30 \<le> 2 ^ 63 div 30"
    using assms by (intro zdiv_mono1) (auto simp: i64_range_def)
  moreover have "0 \<le> \<bar>unix_timestamp now\<bar> div 30" by simp
  ultimately have "\<bar>totp_step now\<bar> \<le> 2 ^ 63 div 30"
    by (auto simp: totp_step_def Let_def sgn_if)
  then have "i64_range (totp_step now)" "i64_range (totp_step now - 1)"
    by (auto simp: i64_range_def)
  then show "i64_checked_div (unix_timestamp now) PERIOD_SECONDS = Some (totp_step now)"
    and "i64_checked_sub (totp_step now) 1 = Some (totp_step now - 1)"
    by (simp_all add: i64_checked_div_def i64_checked_sub_def i64_checked_def PERIOD_SECONDS_def totp_step_def Let_def)
qed

lemma totp_format_ok:
  "str_len code = DIGITS \<and> list_all is_ascii_digit (str_bytes code) \<longleftrightarrow> length code = 6 \<and> list_all is_ascii_digit code"
proof -
  have digits: "list_all is_ascii_digit (str_bytes code) \<longleftrightarrow> list_all is_ascii_digit code"
    unfolding list_all_iff by (rule bytes_pred_iff) (rule ascii_class_bound(2))
  moreover have "str_len code = length code" if "list_all is_ascii_digit code"
    using that by (intro str_len_ascii) (auto simp: is_ascii_def list_all_iff dest: ascii_class_bound)
  ultimately show ?thesis by (auto simp: DIGITS_def)
qed

lemma foldl_digits_bound:
  assumes "list_all is_ascii_digit s"
  shows "foldl (\<lambda>acc c. acc * 10 + (c - 48)) 0 s < 10 ^ length s"
  using assms
proof (induction s rule: rev_induct)
  case (snoc c s)
  then have "c - 48 \<le> 9" by (auto simp: is_ascii_digit_def)
  with snoc show ?case by simp
qed simp

lemma parse_six_digits:
  assumes "length code = 6" and "list_all is_ascii_digit code"
  obtains c where "parse_u32 code = Some c" and "c < 10 ^ 6"
proof -
  have "hd code \<noteq> 43"
    using assms by (cases code) (auto simp: is_ascii_digit_def)
  then show thesis
    using that assms foldl_digits_bound [OF assms(2)] by (cases "code = []") (auto simp: parse_u32_def)
qed

lemma try_steps_two:
  assumes "parse_u32 code = Some c"
  shows "try_steps P seed code last_step [t, u] =
    (if last_step \<noteq> Some t \<and> code_for_step P seed t = Inr c then Inr (AcceptedTotpStep t)
     else if last_step \<noteq> Some u \<and> code_for_step P seed u = Inr c then Inr (AcceptedTotpStep u)
     else Inl TotpVerificationFailed)"
proof -
  obtain vt vu where "code_for_step P seed t = Inr vt" "code_for_step P seed u = Inr vu"
    by (meson code_for_step_total)
  with assms show ?thesis by auto
qed

declare try_steps.simps [simp del]

lemma verify_totp_wellformed:
  assumes "i64_range (unix_timestamp now)" and "seed_digits e = 6" and "seed_period e = 30"
    and "length code = 6" and "list_all is_ascii_digit code"
  shows "verify_totp P key e b code now last_step =
    and_then (decrypt_seed P key e b) (\<lambda>seed.
      try_steps P seed code last_step [totp_step now, totp_step now - 1])"
proof -
  have "seed_digits e = DIGITS" "seed_period e = PERIOD_SECONDS"
    using assms by (simp_all add: DIGITS_def PERIOD_SECONDS_def)
  moreover have "str_len code = DIGITS" "list_all is_ascii_digit (str_bytes code)"
    using assms(4,5) totp_format_ok by blast+
  ultimately show ?thesis
    by (simp add: verify_totp_def totp_step_range [OF assms(1)])
qed

lemma associated_data_inject:
  assumes "uuid_display_ok P"
  shows "associated_data P b = associated_data P b' \<longleftrightarrow>
    binding_tenant b = binding_tenant b' \<and> binding_account b = binding_account b' \<and> binding_factor b = binding_factor b'"
proof
  assume eq: "associated_data P b = associated_data P b'"
  have ascii: "is_ascii (uuid_display P u)" "length (uuid_display P u) = 36" for u
    using assms by (auto simp: uuid_display_ok_def)
  have str: "is_ascii (str_of ''fcp-fabric/totp/v1/'')" "is_ascii (str_of ''/'')" by code_simp+
  have flat: "associated_data P x = str_of ''fcp-fabric/totp/v1/'' @ uuid_display P (tenant_uuid (binding_tenant x)) @
      str_of ''/'' @ uuid_display P (account_uuid (binding_account x)) @ str_of ''/'' @ uuid_display P (binding_factor x)" for x
    unfolding associated_data_def using ascii str by (intro str_bytes_ascii) (auto simp: is_ascii_def)
  have "uuid_display P (tenant_uuid (binding_tenant b)) = uuid_display P (tenant_uuid (binding_tenant b')) \<and>
    uuid_display P (account_uuid (binding_account b)) = uuid_display P (account_uuid (binding_account b')) \<and>
    uuid_display P (binding_factor b) = uuid_display P (binding_factor b')"
    using eq unfolding flat by (simp add: append_eq_append_conv ascii(2))
  moreover have "inj (uuid_display P)" using assms by (simp add: uuid_display_ok_def)
  ultimately show "binding_tenant b = binding_tenant b' \<and> binding_account b = binding_account b' \<and> binding_factor b = binding_factor b'"
    by (auto simp: inj_eq tenant_id.expand account_id.expand)
qed (simp add: associated_data_def)

lemma enrolled_seed_decrypts:
  assumes "aead_correct P" and "begin_totp_enrollment P seed nonce key key_ref b address issuer = Inr e"
  shows "decrypt_seed P key (enrolled_seed e) b = Inr seed" and "seed_digits (enrolled_seed e) = 6"
    and "seed_period (enrolled_seed e) = 30"
    and "secret_base32 (enrolled_provisioning e) = base32_no_padding (bytes_list seed)"
    and "aead_seal P (dek_bytes key) (seed_nonce (enrolled_seed e)) (associated_data P b) (bytes_list seed) =
      Some (seed_ciphertext (enrolled_seed e))"
  using assms
  by (auto simp: begin_totp_enrollment_def encrypt_seed_def decrypt_seed_def and_then_eq_Inr ok_or_eq_Inr
      aead_correct_def DIGITS_def PERIOD_SECONDS_def Let_def split: if_splits)

lemma authenticator_code_base32:
  assumes "code_for_step P seed t = Inr v"
  shows "authenticator_code P (base32_no_padding (bytes_list seed)) t = Some (decimal_text 6 v)"
  using assms by (simp add: authenticator_code_def base32_decode_no_padding)

subsection \<open>A sample instance of the primitives\<close>

definition sample_uuid_display :: "uuid \<Rightarrow> str" where
  "sample_uuid_display u =
     map (\<lambda>b. unat b div 16 + 48) (bytes_list u) @ map (\<lambda>b. unat b mod 16 + 48) (bytes_list u) @ replicate 4 45"

definition sample_primitives :: totp_primitives where
  "sample_primitives =
     \<lparr>aead_seal = (\<lambda>k n a m. if list_all (\<lambda>x. x < 256) a \<and> length a < 256
                    then Some (of_nat (length a) # map of_nat a @ m) else None),
      aead_open = (\<lambda>k n a c. if list_all (\<lambda>x. x < 256) a \<and> length a < 256 \<and>
                      take (Suc (length a)) c = of_nat (length a) # map of_nat a
                    then Some (drop (Suc (length a)) c) else None),
      totp_hmac = (\<lambda>k m. padded (drop 4 m)),
      uuid_display = sample_uuid_display\<rparr>"

lemma sample_uuid_display_ok: "uuid_display_ok sample_primitives"
proof -
  have "u = v" if eq: "sample_uuid_display u = sample_uuid_display v" for u v
  proof -
    have maps: "map (\<lambda>b. unat b div 16 + 48) (bytes_list u) = map (\<lambda>b. unat b div 16 + 48) (bytes_list v)"
      "map (\<lambda>b. unat b mod 16 + 48) (bytes_list u) = map (\<lambda>b. unat b mod 16 + 48) (bytes_list v)"
      using eq by (simp_all add: sample_uuid_display_def)
    have "bytes_list u ! i = bytes_list v ! i" if "i < 16" for i
    proof -
      have "unat (bytes_list u ! i) div 16 = unat (bytes_list v ! i) div 16"
        "unat (bytes_list u ! i) mod 16 = unat (bytes_list v ! i) mod 16"
        using maps [THEN arg_cong [where f = "\<lambda>l. l ! i"]] that by simp_all
      then have "unat (bytes_list u ! i) = unat (bytes_list v ! i)"
        by (metis div_mod_decomp)
      then show ?thesis by (simp add: word_unat_eq_iff)
    qed
    then have "bytes_list u = bytes_list v" by (intro nth_equalityI) simp_all
    then show ?thesis by simp
  qed
  moreover have "is_ascii (sample_uuid_display u)" for u
  proof -
    have "unat b div 16 < 16" for b :: u8
      using unsigned_less [of b, where 'a = nat] by (simp add: less_mult_imp_div_less)
    then have "unat b div 16 + 48 < 128" "unat b mod 16 + 48 < 128" for b :: u8
      using mod_less_divisor [of 16 "unat b"] by (simp_all add: add.commute trans_less_add1 less_trans [of _ 16])
    then show ?thesis by (auto simp: is_ascii_def sample_uuid_display_def)
  qed
  moreover have "length (sample_uuid_display u) = 36" for u
    by (simp add: sample_uuid_display_def)
  ultimately show ?thesis
    by (auto simp: uuid_display_ok_def sample_primitives_def inj_def)
qed

lemma map_of_nat_bytes:
  assumes "list_all (\<lambda>x. x < 256) a" and "list_all (\<lambda>x. x < 256) b" and "map of_nat a = (map of_nat b :: u8 list)"
  shows "a = b"
proof -
  have "map unat (map of_nat x :: u8 list) = x" if "list_all (\<lambda>x. x < 256) x" for x
    using that by (induction x) (simp_all add: unat_of_nat)
  then show ?thesis using assms by metis
qed

lemma sample_aead: "aead_correct sample_primitives" "aead_authentic sample_primitives"
proof -
  show "aead_correct sample_primitives"
    by (auto simp: aead_correct_def sample_primitives_def)
  have "a' = a" if "list_all (\<lambda>x. x < 256) a" "length a < 256" "list_all (\<lambda>x. x < 256) a'" "length a' < 256"
    "take (Suc (length a')) (of_nat (length a) # map of_nat a @ m) = (of_nat (length a') # map of_nat a' :: u8 list)" for a a' m
  proof -
    have "(of_nat (length a) :: u8) = of_nat (length a')" using that(5) by simp
    then have "unat (of_nat (length a) :: u8) = unat (of_nat (length a') :: u8)" by (simp only:)
    then have "length a = length a'" using that by (simp add: unat_of_nat)
    then show ?thesis using that map_of_nat_bytes [of a' a] by simp
  qed
  then show "aead_authentic sample_primitives"
    by (auto simp: aead_authentic_def sample_primitives_def split: if_splits)
qed

subsection \<open>Properties\<close>

text \<open>
  The base-32 text shown at enrollment decodes, by the RFC 4648 decoder, to exactly the bytes
  that were encoded; it only uses the base-32 alphabet and has \<open>\<lceil>8n / 5\<rceil>\<close> characters.  The
  16-bit shift buffer of the encoder drops old bits on the left without losing any that are pending.
\<close>

theorem base32_round_trip:
  "base32_decode (base32_no_padding bytes) = bytes \<and>
   set (base32_no_padding bytes) \<subseteq> set base32_alphabet \<and>
   length (base32_no_padding bytes) = (8 * length bytes + 4) div 5"
proof -
  obtain pad where "pad < 5" "length (base32_no_padding bytes) * 5 = 8 * length bytes + pad"
    and "set (base32_no_padding bytes) \<subseteq> set base32_alphabet"
    by (rule base32_no_padding_spec [of bytes])
  then show ?thesis using base32_decode_no_padding by auto
qed

text \<open>
  C32.  \<open>verify_totp\<close> accepts a time step exactly when the factor has the supported parameters, the
  code is six ASCII digits, the seed decrypts under the factor's binding, the step is the current or
  the previous one and differs from the last accepted step, and the code is the HOTP value of that
  step; the previous step is only accepted when the current one was not.
\<close>

theorem totp_verify_exact:
  assumes "i64_range (unix_timestamp now)"
  shows "verify_totp P key e b code now last_step = Inr (AcceptedTotpStep s) \<longleftrightarrow>
    seed_digits e = 6 \<and> seed_period e = 30 \<and> length code = 6 \<and> list_all is_ascii_digit code \<and>
    (\<exists>seed c. decrypt_seed P key e b = Inr seed \<and> parse_u32 code = Some c \<and> c < 10 ^ 6 \<and>
       last_step \<noteq> Some s \<and> code_for_step P seed s = Inr c \<and>
       (s = totp_step now \<or>
        s = totp_step now - 1 \<and> (last_step = Some (totp_step now) \<or> code_for_step P seed (totp_step now) \<noteq> Inr c)))"
proof (cases "seed_digits e = 6 \<and> seed_period e = 30 \<and> length code = 6 \<and> list_all is_ascii_digit code")
  case True
  then obtain c where "parse_u32 code = Some c" "c < 10 ^ 6"
    using parse_six_digits by metis
  moreover have "verify_totp P key e b code now last_step = and_then (decrypt_seed P key e b) (\<lambda>seed.
      try_steps P seed code last_step [totp_step now, totp_step now - 1])"
    using True assms by (intro verify_totp_wellformed) simp_all
  ultimately show ?thesis
    using True by (auto simp: try_steps_two and_then_eq_Inr split: if_splits)
next
  case False
  then have "verify_totp P key e b code now last_step \<noteq> Inr (AcceptedTotpStep s)"
    using totp_format_ok [of code] by (auto simp: verify_totp_def DIGITS_def PERIOD_SECONDS_def)
  then show ?thesis using False by blast
qed

definition sample_binding :: totp_binding where
  "sample_binding = \<lparr>binding_tenant = TenantId (filled 1), binding_account = AccountId (filled 2), binding_factor = filled 3\<rparr>"

definition sample_seed :: encrypted_totp_seed where
  "sample_seed = \<lparr>seed_ciphertext = of_nat (length (associated_data sample_primitives sample_binding)) #
       map of_nat (associated_data sample_primitives sample_binding) @ replicate 32 7,
     seed_nonce = filled 0, seed_key_reference = TotpKeyReference (str_of ''kms''), seed_digits = 6, seed_period = 30\<rparr>"

lemma sample_step_bytes: "i64_to_be_bytes 56666666 = [0, 0, 0, 0, 0x03, 0x60, 0xAA, 0x2A]"
  by (simp add: i64_to_be_bytes_def to_be_bytes_def be_bytes_def upt_rec)

lemma sample_code: "code_for_step sample_primitives (filled 7) 56666666 = Inr 666666"
  by (simp add: code_for_step_def sample_primitives_def sample_step_bytes Let_def nth_append from_be_bytes_def
      be_value_def DIGITS_def)

theorem totp_verify_exact_witness:
  "verify_totp sample_primitives (TotpDataEncryptionKey (filled 9)) sample_seed sample_binding (str_of ''666666'')
     (1700000000 * 1000000000) None = Inr (AcceptedTotpStep 56666666)"
proof -
  have "i64_range (unix_timestamp (1700000000 * 1000000000))" by code_simp
  note exact = totp_verify_exact [OF this, where P = sample_primitives and e = sample_seed]
  have "decrypt_seed sample_primitives (TotpDataEncryptionKey (filled 9)) sample_seed sample_binding = Inr (filled 7)"
    "totp_step (1700000000 * 1000000000) = 56666666"
    "length (str_of ''666666'') = 6" "list_all is_ascii_digit (str_of ''666666'')"
    by code_simp+
  moreover have "seed_digits sample_seed = 6" "seed_period sample_seed = 30"
    by (simp_all add: sample_seed_def)
  moreover have "parse_u32 (str_of ''666666'') = Some 666666"
    by (simp add: parse_u32_def str_of_def is_ascii_digit_def)
  ultimately show ?thesis
    unfolding exact using sample_code by simp
qed

text \<open>
  Enrollment and verification fit together: an authenticator that decodes the displayed secret
  and shows the code of the current step is accepted with that step, one that is a step behind is
  accepted within the window, and the stored ciphertext is useless for any other tenant, account or
  factor, where every well-formed code fails to decrypt.
\<close>

theorem totp_enrollment_verifies:
  assumes "aead_correct P" and "aead_authentic P" and "uuid_display_ok P"
    and "begin_totp_enrollment P seed nonce key key_ref b address issuer = Inr e"
    and "i64_range (unix_timestamp now)"
  shows "(\<exists>code. authenticator_code P (secret_base32 (enrolled_provisioning e)) (totp_step now) = Some code \<and>
            verify_totp P key (enrolled_seed e) b code now None = Inr (AcceptedTotpStep (totp_step now))) \<and>
    (\<exists>code s. authenticator_code P (secret_base32 (enrolled_provisioning e)) (totp_step now - 1) = Some code \<and>
            verify_totp P key (enrolled_seed e) b code now None = Inr (AcceptedTotpStep s) \<and>
            s \<in> {totp_step now, totp_step now - 1}) \<and>
    (\<forall>b' code. (binding_tenant b', binding_account b', binding_factor b') \<noteq>
            (binding_tenant b, binding_account b, binding_factor b) \<longrightarrow>
            length code = 6 \<longrightarrow> list_all is_ascii_digit code \<longrightarrow>
            verify_totp P key (enrolled_seed e) b' code now None = Inl DecryptionFailed)"
proof -
  note enrolled = enrolled_seed_decrypts [OF assms(1,4)]
  have accepted: "verify_totp P key (enrolled_seed e) b (decimal_text 6 v) now None =
      try_steps P seed (decimal_text 6 v) None [totp_step now, totp_step now - 1]" for v
    using verify_totp_wellformed [OF assms(5) enrolled(2,3), of "decimal_text 6 v" P key b None]
      decimal_text_digits [of _ 6 v]
    by (simp add: enrolled(1) list_all_iff decimal_text_def)
  have code: "\<exists>v. code_for_step P seed t = Inr v \<and> parse_u32 (decimal_text 6 v) = Some v \<and>
      authenticator_code P (secret_base32 (enrolled_provisioning e)) t = Some (decimal_text 6 v)" for t
    using code_for_step_total [of P seed t] authenticator_code_base32 [of P seed t] parse_decimal_text
    unfolding enrolled(4) by metis
  have "verify_totp P key (enrolled_seed e) b' code now None = Inl DecryptionFailed"
    if other: "(binding_tenant b', binding_account b', binding_factor b') \<noteq>
        (binding_tenant b, binding_account b, binding_factor b)"
      and "length code = 6" "list_all is_ascii_digit code" for b' code
  proof -
    have "associated_data P b' \<noteq> associated_data P b"
      using other associated_data_inject [OF assms(3)] by auto
    then have "aead_open P (dek_bytes key) (seed_nonce (enrolled_seed e)) (associated_data P b')
        (seed_ciphertext (enrolled_seed e)) = None"
      using assms(2) enrolled(5) unfolding aead_authentic_def by (metis not_None_eq)
    then have "decrypt_seed P key (enrolled_seed e) b' = Inl DecryptionFailed"
      by (simp add: decrypt_seed_def)
    then show ?thesis
      using verify_totp_wellformed [OF assms(5) enrolled(2,3) that(2,3), of P key b' None] by simp
  qed
  moreover have "\<exists>code. authenticator_code P (secret_base32 (enrolled_provisioning e)) (totp_step now) = Some code \<and>
      verify_totp P key (enrolled_seed e) b code now None = Inr (AcceptedTotpStep (totp_step now))"
    using code [of "totp_step now"] by (auto simp: accepted try_steps_two)
  moreover have "\<exists>code s. authenticator_code P (secret_base32 (enrolled_provisioning e)) (totp_step now - 1) = Some code \<and>
      verify_totp P key (enrolled_seed e) b code now None = Inr (AcceptedTotpStep s) \<and> s \<in> {totp_step now, totp_step now - 1}"
    using code [of "totp_step now - 1"] by (auto simp: accepted try_steps_two)
  ultimately show ?thesis by blast
qed

definition sample_address :: user_address where
  "sample_address = UserAddress (Localpart (str_of ''alice'')) (DomainName (str_of ''example.org''))"

theorem totp_enrollment_verifies_witness:
  "\<exists>e. begin_totp_enrollment sample_primitives (filled 7) (filled 0) (TotpDataEncryptionKey (filled 9))
       (TotpKeyReference (str_of ''kms'')) sample_binding sample_address (str_of ''Fabric'') = Inr e \<and>
     (\<exists>code. authenticator_code sample_primitives (secret_base32 (enrolled_provisioning e)) 56666666 = Some code \<and>
        verify_totp sample_primitives (TotpDataEncryptionKey (filled 9)) (enrolled_seed e) sample_binding code
          (1700000000 * 1000000000) None = Inr (AcceptedTotpStep 56666666))"
proof -
  have "\<exists>e. begin_totp_enrollment sample_primitives (filled 7) (filled 0) (TotpDataEncryptionKey (filled 9))
      (TotpKeyReference (str_of ''kms'')) sample_binding sample_address (str_of ''Fabric'') = Inr e"
  proof -
    have "isl (begin_totp_enrollment sample_primitives (filled 7) (filled 0) (TotpDataEncryptionKey (filled 9))
      (TotpKeyReference (str_of ''kms'')) sample_binding sample_address (str_of ''Fabric'')) = False"
      by code_simp
    then show ?thesis by (metis sum.collapse(2))
  qed
  then obtain e where e: "begin_totp_enrollment sample_primitives (filled 7) (filled 0) (TotpDataEncryptionKey (filled 9))
      (TotpKeyReference (str_of ''kms'')) sample_binding sample_address (str_of ''Fabric'') = Inr e" ..
  have "i64_range (unix_timestamp (1700000000 * 1000000000))" "totp_step (1700000000 * 1000000000) = 56666666"
    by code_simp+
  then show ?thesis
    using totp_enrollment_verifies [OF sample_aead sample_uuid_display_ok e] e by metis
qed

end
