(* ===== verification/Fabric_Credentials.thy ===== *)
theory Fabric_Credentials
  imports Fabric_Totp
begin

text \<open>
  Password verifiers (\<open>fcp-fabric-auth/src/password.rs\<close>) and opaque tokens (\<open>session.rs\<close>).
  Argon2id, the PHC string format, NFC, HMAC-SHA-256, base64 and the random generator are
  third-party code: the records of primitives, the salt and the drawn bytes are arguments.
  A \<open>SecretString\<close> is the string it holds.
\<close>

subsection \<open>Passwords\<close>

datatype password_error =
    InvalidPolicy
  | TooShort
  | InvalidLength
  | Blocked
  | HashingFailed
  | MalformedVerifier
  | UnsupportedVerifier
  | PasswordVerificationFailed

record password_policy =
  minimum_characters :: nat
  maximum_bytes :: nat
  memory_kib :: nat
  iterations :: nat
  parallelism :: nat

datatype password_verifier_string = PasswordVerifierString (verifier_str: str)

text \<open>A parsed PHC string: algorithm, version, and the part the comparison reads.\<close>

record 'p phc =
  phc_algorithm :: string
  phc_version :: "nat option"
  phc_rest :: 'p

text \<open>
  The primitives: whether \<open>Params::new\<close> accepts memory, iterations and lanes, hashing under those
  parameters with a salt, the PHC parser, comparison of a candidate with a parsed verifier, and NFC.
\<close>

record 'p password_primitives =
  argon2_params :: "nat \<Rightarrow> nat \<Rightarrow> nat \<Rightarrow> bool"
  argon2_hash :: "nat \<Rightarrow> nat \<Rightarrow> nat \<Rightarrow> nat list \<Rightarrow> str \<Rightarrow> str option"
  phc_parse :: "str \<Rightarrow> 'p phc option"
  argon2_verify :: "nat list \<Rightarrow> 'p phc \<Rightarrow> bool"
  to_nfc :: "str \<Rightarrow> str"

definition password_policy_new ::
  "'p password_primitives \<Rightarrow> nat \<Rightarrow> nat \<Rightarrow> nat \<Rightarrow> nat \<Rightarrow> nat \<Rightarrow> password_error + password_policy" where
  "password_policy_new A min_chars max_bytes mem iters lanes =
     (if \<not> (8 \<le> min_chars \<and> min_chars \<le> 1024) \<or> max_bytes < min_chars \<or> max_bytes > 16384 then Inl InvalidPolicy
      else if \<not> argon2_params A mem iters lanes then Inl InvalidPolicy
      else Inr \<lparr>minimum_characters = min_chars, maximum_bytes = max_bytes, memory_kib = mem,
                iterations = iters, parallelism = lanes\<rparr>)"

definition password_only_baseline :: "'p password_primitives \<Rightarrow> password_error + password_policy" where
  "password_only_baseline A = password_policy_new A 15 1024 (19 * 1024) 2 1"

definition policy_argon2 ::
  "'p password_primitives \<Rightarrow> password_policy \<Rightarrow> password_error + (nat list \<Rightarrow> str \<Rightarrow> str option)" where
  "policy_argon2 A policy =
     (if argon2_params A (memory_kib policy) (iterations policy) (parallelism policy)
      then Inr (argon2_hash A (memory_kib policy) (iterations policy) (parallelism policy))
      else Inl InvalidPolicy)"

definition verifier_from_persisted ::
  "'p password_primitives \<Rightarrow> str \<Rightarrow> password_error + password_verifier_string" where
  "verifier_from_persisted A s =
     and_then (ok_or MalformedVerifier (phc_parse A s)) (\<lambda>parsed.
     if phc_algorithm parsed \<noteq> ''argon2id'' \<or> phc_version parsed \<noteq> Some 0x13 then Inl UnsupportedVerifier
     else Inr (PasswordVerifierString s))"

definition normalize_for_verification ::
  "'p password_primitives \<Rightarrow> str \<Rightarrow> nat \<Rightarrow> password_error + str" where
  "normalize_for_verification A candidate max_bytes =
     (let normalized = to_nfc A candidate in
      if normalized = [] \<or> str_len normalized > max_bytes then Inl InvalidLength else Inr normalized)"

definition normalize_candidate ::
  "'p password_primitives \<Rightarrow> str \<Rightarrow> password_policy \<Rightarrow> (str \<Rightarrow> bool) \<Rightarrow> password_error + str" where
  "normalize_candidate A candidate policy blocklist =
     and_then (normalize_for_verification A candidate (maximum_bytes policy)) (\<lambda>normalized.
     if length normalized < minimum_characters policy then Inl TooShort
     else if blocklist normalized then Inl Blocked
     else Inr normalized)"

definition no_password_blocklist :: "str \<Rightarrow> bool" where
  "no_password_blocklist normalized_candidate = False"

definition hash_password ::
  "'p password_primitives \<Rightarrow> str \<Rightarrow> str \<Rightarrow> password_policy \<Rightarrow> (str \<Rightarrow> bool) \<Rightarrow>
   password_error + password_verifier_string" where
  "hash_password A salt candidate policy blocklist =
     and_then (normalize_candidate A candidate policy blocklist) (\<lambda>normalized.
     and_then (policy_argon2 A policy) (\<lambda>argon2.
     and_then (ok_or HashingFailed (argon2 (str_bytes normalized) salt)) (\<lambda>verifier.
     Inr (PasswordVerifierString verifier))))"

definition verify_password ::
  "'p password_primitives \<Rightarrow> str \<Rightarrow> password_verifier_string \<Rightarrow> nat \<Rightarrow> password_error + unit" where
  "verify_password A candidate verifier max_bytes =
     and_then (normalize_for_verification A candidate max_bytes) (\<lambda>normalized.
     and_then (ok_or MalformedVerifier (phc_parse A (verifier_str verifier))) (\<lambda>parsed.
     if phc_algorithm parsed \<noteq> ''argon2id'' \<or> phc_version parsed \<noteq> Some 0x13 then Inl UnsupportedVerifier
     else if argon2_verify A (str_bytes normalized) parsed then Inr ()
     else Inl PasswordVerificationFailed))"

subsection \<open>Opaque tokens\<close>

datatype token_digest_key = TokenDigestKey (digest_key_bytes: "32 bytes")

datatype opaque_token_digest = OpaqueTokenDigest (digest_bytes: "32 bytes")

record issued_opaque_token =
  token_raw :: str
  issued_digest :: opaque_token_digest

text \<open>The primitives: HMAC-SHA-256 of a message under a key, and URL-safe unpadded base64.\<close>

record token_primitives =
  hmac_sha256 :: "u8 list \<Rightarrow> nat list \<Rightarrow> 32 bytes"
  base64_url :: "u8 list \<Rightarrow> str"

definition token_digest :: "('z) token_primitives_scheme \<Rightarrow> token_digest_key \<Rightarrow> str \<Rightarrow> opaque_token_digest" where
  "token_digest T key raw = OpaqueTokenDigest (hmac_sha256 T (bytes_list (digest_key_bytes key)) (str_bytes raw))"

definition derive_opaque_token_digest ::
  "('z) token_primitives_scheme \<Rightarrow> token_digest_key \<Rightarrow> str \<Rightarrow> opaque_token_digest" where
  "derive_opaque_token_digest T key raw = token_digest T key raw"

definition issue_opaque_token ::
  "('z) token_primitives_scheme \<Rightarrow> 32 bytes \<Rightarrow> token_digest_key \<Rightarrow> issued_opaque_token" where
  "issue_opaque_token T drawn key =
     (let raw = base64_url T (bytes_list drawn) in
      \<lparr>token_raw = raw, issued_digest = token_digest T key raw\<rparr>)"

definition verify_opaque_token ::
  "('z) token_primitives_scheme \<Rightarrow> token_digest_key \<Rightarrow> str \<Rightarrow> opaque_token_digest \<Rightarrow> bool" where
  "verify_opaque_token T key supplied stored \<longleftrightarrow>
     digest_bytes (derive_opaque_token_digest T key supplied) = digest_bytes stored"

subsection \<open>What the libraries promise\<close>

text \<open>
  Argon2: a produced hash is a PHC string of Argon2id version 19 that parses, and comparison of a
  candidate with it succeeds exactly for the hashed bytes.
\<close>

definition argon2_sound :: "'p password_primitives \<Rightarrow> bool" where
  "argon2_sound A \<longleftrightarrow>
     (\<forall>m t p bytes salt v. argon2_hash A m t p bytes salt = Some v \<longrightarrow>
        (\<exists>parsed. phc_parse A v = Some parsed \<and> phc_algorithm parsed = ''argon2id'' \<and>
           phc_version parsed = Some 0x13 \<and> (\<forall>other. argon2_verify A other parsed \<longleftrightarrow> other = bytes)))"

subsection \<open>Lemmas\<close>

lemma split64: "(c :: nat) div n = d div n \<Longrightarrow> c mod n = d mod n \<Longrightarrow> c = d"
  by (metis div_mult_mod_eq)

lemma split4096:
  fixes c d :: nat
  assumes "c div 4096 = d div 4096" and "c div 64 mod 64 = d div 64 mod 64" and "c mod 64 = d mod 64"
  shows "c = d"
proof -
  have "c div 64 div 64 = d div 64 div 64" using assms(1) by (simp flip: div_mult2_eq)
  then have "c div 64 = d div 64" using assms(2) by (rule split64)
  then show ?thesis using assms(3) by (rule split64)
qed

lemma split262144:
  fixes c d :: nat
  assumes "c div 262144 = d div 262144" and "c div 4096 mod 64 = d div 4096 mod 64"
    and "c div 64 mod 64 = d div 64 mod 64" and "c mod 64 = d mod 64"
  shows "c = d"
proof -
  have "c div 4096 div 64 = d div 4096 div 64" using assms(1) by (simp flip: div_mult2_eq)
  then have "c div 4096 = d div 4096" using assms(2) by (rule split64)
  then show ?thesis using assms(3,4) by (rule split4096)
qed

text \<open>UTF-8 is a prefix code: the first byte tells the length, the rest the scalar value.\<close>

lemma utf8_lead:
  "hd (utf8 c) = (if c < 0x80 then c else if c < 0x800 then 0xC0 + c div 64
     else if c < 0x10000 then 0xE0 + c div 4096 else 0xF0 + c div 262144)"
  by (simp add: utf8_def)

lemma utf8_append_inject: "utf8 c @ xs = utf8 d @ ys \<Longrightarrow> c = d \<and> xs = ys"
proof -
  assume eq: "utf8 c @ xs = utf8 d @ ys"
  have "hd (utf8 c) = hd (utf8 d)"
    using arg_cong [OF eq, of hd] by simp
  then have "(c < 0x80 \<longleftrightarrow> d < 0x80) \<and> (c < 0x800 \<longleftrightarrow> d < 0x800) \<and> (c < 0x10000 \<longleftrightarrow> d < 0x10000)"
    unfolding utf8_lead by (simp split: if_splits)
  then show ?thesis
    using eq split64 [of c 64 d] split4096 [of c d] split262144 [of c d] by (auto simp: utf8_def split: if_splits)
qed

lemma str_bytes_inject [simp]: "str_bytes s = str_bytes t \<longleftrightarrow> s = t"
proof
  show "str_bytes s = str_bytes t \<Longrightarrow> s = t"
  proof (induction s arbitrary: t)
    case Nil
    then show ?case by (cases t) (simp_all add: str_bytes_def)
  next
    case (Cons c s)
    then show ?case
      by (cases t) (auto simp: str_bytes_def dest: utf8_append_inject)
  qed
qed simp

lemma normalize_candidate_iff:
  "normalize_candidate A candidate policy blocklist = Inr n \<longleftrightarrow>
     n = to_nfc A candidate \<and> n \<noteq> [] \<and> str_len n \<le> maximum_bytes policy \<and>
     minimum_characters policy \<le> length n \<and> \<not> blocklist n"
  by (auto simp: normalize_candidate_def normalize_for_verification_def Let_def and_then_eq_Inr)

lemma issued_token_verifies:
  "verify_opaque_token T key (token_raw (issue_opaque_token T drawn key)) (issued_digest (issue_opaque_token T drawn key))"
  by (simp add: verify_opaque_token_def issue_opaque_token_def derive_opaque_token_digest_def Let_def)

subsection \<open>Properties\<close>

text \<open>
  A verifier produced by \<open>hash_password\<close> stands for exactly one password: the candidate met the
  length bounds and the blocklist, the stored text is accepted again by \<open>from_persisted\<close>, and
  \<open>verify_password\<close> under the same byte bound succeeds for a later input exactly when it has the same
  NFC form as the candidate, and otherwise fails without panicking.
\<close>

theorem password_verifier_exact:
  assumes "argon2_sound A" and "hash_password A salt candidate policy blocklist = Inr v"
  shows "minimum_characters policy \<le> length (to_nfc A candidate) \<and>
    str_len (to_nfc A candidate) \<le> maximum_bytes policy \<and> \<not> blocklist (to_nfc A candidate) \<and>
    verifier_from_persisted A (verifier_str v) = Inr v \<and>
    (verify_password A other v (maximum_bytes policy) = Inr () \<longleftrightarrow> to_nfc A other = to_nfc A candidate) \<and>
    (to_nfc A other \<noteq> to_nfc A candidate \<longrightarrow>
       verify_password A other v (maximum_bytes policy) \<in> {Inl InvalidLength, Inl PasswordVerificationFailed})"
proof -
  let ?n = "to_nfc A candidate"
  from assms(2) obtain verifier where n: "normalize_candidate A candidate policy blocklist = Inr ?n"
    and hash: "argon2_hash A (memory_kib policy) (iterations policy) (parallelism policy) (str_bytes ?n) salt = Some verifier"
    and v: "v = PasswordVerifierString verifier"
    by (auto simp: hash_password_def and_then_eq_Inr policy_argon2_def ok_or_eq_Inr normalize_candidate_iff split: if_splits)
  obtain parsed where parsed: "phc_parse A verifier = Some parsed" "phc_algorithm parsed = ''argon2id''"
    "phc_version parsed = Some 0x13" "\<forall>bytes. argon2_verify A bytes parsed \<longleftrightarrow> bytes = str_bytes ?n"
    using assms(1) hash unfolding argon2_sound_def by blast
  then have "verifier_from_persisted A (verifier_str v) = Inr v"
    by (simp add: verifier_from_persisted_def v)
  moreover have "verify_password A other v (maximum_bytes policy) =
      (if to_nfc A other = [] \<or> str_len (to_nfc A other) > maximum_bytes policy then Inl InvalidLength
       else if to_nfc A other = ?n then Inr () else Inl PasswordVerificationFailed)"
    using parsed by (simp add: verify_password_def normalize_for_verification_def v Let_def)
  ultimately show ?thesis using n by (auto simp: normalize_candidate_iff)
qed

definition sample_password_primitives :: "nat list password_primitives" where
  "sample_password_primitives =
     \<lparr>argon2_params = (\<lambda>m t p. 8 * p \<le> m \<and> 1 \<le> t \<and> 1 \<le> p), argon2_hash = (\<lambda>m t p bytes salt. Some (36 # bytes)),
      phc_parse = (\<lambda>s. if starts_with s 36
        then Some \<lparr>phc_algorithm = ''argon2id'', phc_version = Some 0x13, phc_rest = tl s\<rparr> else None),
      argon2_verify = (\<lambda>bytes parsed. phc_rest parsed = bytes), to_nfc = id\<rparr>"

definition sample_policy :: password_policy where
  "sample_policy = \<lparr>minimum_characters = 15, maximum_bytes = 1024, memory_kib = 19456, iterations = 2, parallelism = 1\<rparr>"

theorem password_verifier_exact_witness:
  "hash_password sample_password_primitives [] (str_of ''correct horse battery'') sample_policy no_password_blocklist =
     Inr (PasswordVerifierString (36 # str_of ''correct horse battery'')) \<and>
   verify_password sample_password_primitives (str_of ''correct horse battery'')
     (PasswordVerifierString (36 # str_of ''correct horse battery'')) 1024 = Inr () \<and>
   verify_password sample_password_primitives (str_of ''another horse'')
     (PasswordVerifierString (36 # str_of ''correct horse battery'')) 1024 \<noteq> Inr ()"
proof -
  have sound: "argon2_sound sample_password_primitives"
    by (simp add: argon2_sound_def sample_password_primitives_def starts_with_def eq_commute)
  have hashed: "hash_password sample_password_primitives [] (str_of ''correct horse battery'') sample_policy no_password_blocklist =
      Inr (PasswordVerifierString (36 # str_of ''correct horse battery''))"
    by (simp add: hash_password_def normalize_candidate_def normalize_for_verification_def policy_argon2_def Let_def
        sample_password_primitives_def sample_policy_def no_password_blocklist_def str_of_def str_bytes_def str_len_def utf8_def)
  have "to_nfc sample_password_primitives (str_of ''another horse'') \<noteq>
      to_nfc sample_password_primitives (str_of ''correct horse battery'')"
    by (simp add: sample_password_primitives_def str_of_def)
  then show ?thesis
    using password_verifier_exact [OF sound hashed] hashed by (simp add: sample_policy_def)
qed

end
