(* ===== verification/Fabric_Schema.thy ===== *)
theory Fabric_Schema
  imports Fabric_Credentials
begin

text \<open>
  The authority database: rows and tables of \<open>fcp-fabric-store/migrations\<close>, the error taxonomy
  (\<open>errors.rs\<close>), the SQL statements the store uses and the shared helpers (\<open>helpers.rs\<close>).  PostgreSQL
  is third-party; the model is the documented meaning of the statements: a table is the list of its
  rows, an \<open>INSERT\<close> that violates a declared key, reference or check raises a database error, an
  \<open>UPDATE\<close> changes every matching row, and a transaction that ends in an error leaves the database as
  it was.  Transactions are atomic steps.  JSON documents are an arbitrary type.
\<close>

subsection \<open>Errors\<close>

datatype store_error =
    Database
  | Migration
  | Administration administration_error
  | Credential password_error
  | Totp totp_error
  | InvalidStoredTotp
  | InvalidTotpDataKeyEnvelope
  | CorruptAccountState
  | CorruptFederationTrustState
  | StoreInvalidCorrelationId
  | CorruptRole
  | InvalidStoredAddress
  | PolicyVersionOverflow
  | TargetNotFoundOrUnchanged
  | InvalidLoginTransactionExpiry
  | InvalidRecoveryCodeSet
  | InvalidStepUpGrantExpiry
  | InvalidFederationReplayExpiry
  | InvalidWebauthnCeremonyExpiry
  | InvalidOrExpiredWebauthnCeremony
  | CorruptWebauthnCeremonyKind
  | InvalidWebauthnCredentialId
  | InvalidWebauthnPasskeyLabel
  | InvalidOrExpiredLoginTransaction
  | InvalidSessionExpiry

subsection \<open>Rows\<close>

record tenant_row =
  tn_id :: uuid
  tn_domain :: str
  tn_policy_version :: int
  tn_created_at :: timestamp
  tn_updated_at :: timestamp

record account_row =
  ac_id :: uuid
  ac_tenant :: uuid
  ac_localpart :: str
  ac_state :: string
  ac_created_at :: timestamp
  ac_updated_at :: timestamp
  ac_deactivated_at :: "timestamp option"

record role_row =
  rl_tenant :: uuid
  rl_account :: uuid
  rl_role :: string
  rl_granted_by :: "uuid option"
  rl_granted_at :: timestamp

record password_row =
  pw_account :: uuid
  pw_tenant :: uuid
  pw_verifier :: str
  pw_pepper :: "str option"
  pw_changed_at :: timestamp

record totp_row =
  tf_id :: uuid
  tf_tenant :: uuid
  tf_account :: uuid
  tf_status :: string
  tf_ciphertext :: "u8 list"
  tf_nonce :: "u8 list"
  tf_key_reference :: str
  tf_algorithm :: string
  tf_digits :: int
  tf_period :: int
  tf_last_step :: "int option"
  tf_created_at :: timestamp
  tf_activated_at :: "timestamp option"

record recovery_set_row =
  rs_id :: uuid
  rs_tenant :: uuid
  rs_account :: uuid
  rs_created_at :: timestamp
  rs_invalidated_at :: "timestamp option"

record recovery_verifier_row =
  rv_id :: uuid
  rv_set :: uuid
  rv_verifier :: str
  rv_consumed_at :: "timestamp option"

record family_row =
  fm_id :: uuid
  fm_tenant :: uuid
  fm_account :: uuid
  fm_created_at :: timestamp
  fm_revoked_at :: "timestamp option"
  fm_reason :: "string option"

record refresh_row =
  rf_id :: uuid
  rf_tenant :: uuid
  rf_account :: uuid
  rf_family :: uuid
  rf_digest :: opaque_token_digest
  rf_issued_at :: timestamp
  rf_expires_at :: timestamp
  rf_consumed_at :: "timestamp option"
  rf_replaced_by :: "uuid option"

record access_row =
  as_id :: uuid
  as_tenant :: uuid
  as_account :: uuid
  as_family :: uuid
  as_digest :: opaque_token_digest
  as_issued_at :: timestamp
  as_expires_at :: timestamp
  as_revoked_at :: "timestamp option"

record login_row =
  lt_id :: uuid
  lt_tenant :: uuid
  lt_account :: uuid
  lt_digest :: opaque_token_digest
  lt_stage :: string
  lt_binding :: "32 bytes"
  lt_factor :: "uuid option"
  lt_issued_at :: timestamp
  lt_expires_at :: timestamp
  lt_consumed_at :: "timestamp option"

record step_up_row =
  su_id :: uuid
  su_tenant :: uuid
  su_account :: uuid
  su_family :: uuid
  su_action :: string
  su_target :: "32 bytes"
  su_digest :: opaque_token_digest
  su_issued_at :: timestamp
  su_expires_at :: timestamp
  su_consumed_at :: "timestamp option"

record 'j ceremony_row =
  wc_id :: uuid
  wc_tenant :: uuid
  wc_account :: uuid
  wc_kind :: string
  wc_state :: 'j
  wc_digest :: opaque_token_digest
  wc_binding :: opaque_token_digest
  wc_created_at :: timestamp
  wc_expires_at :: timestamp
  wc_consumed_at :: "timestamp option"

record 'j credential_row =
  pk_id :: uuid
  pk_tenant :: uuid
  pk_account :: uuid
  pk_credential :: str
  pk_passkey :: 'j
  pk_label :: "str option"
  pk_created_at :: timestamp
  pk_last_used_at :: "timestamp option"
  pk_disabled_at :: "timestamp option"

record peer_row =
  fp_id :: uuid
  fp_tenant :: uuid
  fp_domain :: str
  fp_trust :: string
  fp_fingerprint :: "u8 list"

record 'j peer_key_row =
  fk_peer :: uuid
  fk_key :: str
  fk_document :: 'j
  fk_valid_until :: timestamp
  fk_retired_at :: "timestamp option"
  fk_first_seen_at :: timestamp

record replay_row =
  fr_tenant :: uuid
  fr_peer :: uuid
  fr_request :: uuid
  fr_digest :: "32 bytes"
  fr_accepted_at :: timestamp
  fr_expires_at :: timestamp

record envelope_row =
  en_reference :: str
  en_provider :: string
  en_wrapping_key :: str
  en_data_key :: "u8 list"
  en_created_at :: timestamp

text \<open>The redacted metadata of an audit event: the JSON values the store writes.\<close>

datatype audit_value =
    AuditText string
  | AuditStr str
  | AuditUuid uuid
  | AuditBool bool
  | AuditCount nat
  | AuditNull

record audit_row =
  au_id :: uuid
  au_tenant :: uuid
  au_actor :: "uuid option"
  au_action :: string
  au_correlation :: str
  au_metadata :: "(string \<times> audit_value) list"
  au_occurred_at :: timestamp

record 'j database =
  tenants :: "tenant_row list"
  accounts :: "account_row list"
  account_roles :: "role_row list"
  password_credentials :: "password_row list"
  mfa_totp_factors :: "totp_row list"
  recovery_code_sets :: "recovery_set_row list"
  recovery_code_verifiers :: "recovery_verifier_row list"
  session_families :: "family_row list"
  refresh_credentials :: "refresh_row list"
  access_sessions :: "access_row list"
  login_transactions :: "login_row list"
  step_up_grants :: "step_up_row list"
  webauthn_ceremonies :: "'j ceremony_row list"
  webauthn_credentials :: "'j credential_row list"
  federation_peers :: "peer_row list"
  federation_keys :: "'j peer_key_row list"
  federation_replays :: "replay_row list"
  totp_data_key_envelopes :: "envelope_row list"
  audit_events :: "audit_row list"

text \<open>
  What an operation reads from outside: the clock and the UUIDs it generates, in the order it
  generates them.
\<close>

record store_env =
  env_now :: timestamp
  env_uuid :: "nat \<Rightarrow> uuid"

subsection \<open>Statements\<close>

definition has_tenant :: "'j database \<Rightarrow> uuid \<Rightarrow> bool" where
  "has_tenant db t \<longleftrightarrow> t \<in> tn_id ` set (tenants db)"

definition has_account :: "'j database \<Rightarrow> uuid \<Rightarrow> uuid \<Rightarrow> bool" where
  "has_account db t a \<longleftrightarrow> (t, a) \<in> (\<lambda>r. (ac_tenant r, ac_id r)) ` set (accounts db)"

definition has_account_in :: "'j database \<Rightarrow> uuid \<Rightarrow> uuid \<Rightarrow> string list \<Rightarrow> bool" where
  "has_account_in db t a states \<longleftrightarrow>
     list_ex (\<lambda>r. ac_tenant r = t \<and> ac_id r = a \<and> ac_state r \<in> set states) (accounts db)"

definition account_states :: "string list" where
  "account_states = [''active'', ''mfa_enrollment_required'', ''suspended'', ''deactivated'']"

definition role_texts :: "string list" where
  "role_texts = [''owner'', ''admin'', ''operator'', ''auditor'', ''member'']"

definition sql_insert :: "bool \<Rightarrow> 'd \<Rightarrow> store_error + 'd" where
  "sql_insert constraints db = (if constraints then Inr db else Inl Database)"

definition sql_update :: "('r \<Rightarrow> bool) \<Rightarrow> ('r \<Rightarrow> 'r) \<Rightarrow> 'r list \<Rightarrow> 'r list" where
  "sql_update P f rows = map (\<lambda>r. if P r then f r else r) rows"

definition rows_affected :: "('r \<Rightarrow> bool) \<Rightarrow> 'r list \<Rightarrow> nat" where
  "rows_affected P rows = length (filter P rows)"

definition fetch_optional :: "'r list \<Rightarrow> 'r option" where
  "fetch_optional rows = (case rows of [] \<Rightarrow> None | r # _ \<Rightarrow> Some r)"

definition transact :: "'d \<Rightarrow> ('e + 'a \<times> 'd) \<Rightarrow> ('e + 'a) \<times> 'd" where
  "transact db outcome = (case outcome of Inl e \<Rightarrow> (Inl e, db) | Inr (x, db') \<Rightarrow> (Inr x, db'))"

text \<open>The inserts, each with the constraints its table declares.\<close>

definition insert_tenant :: "tenant_row \<Rightarrow> 'j database \<Rightarrow> store_error + 'j database" where
  "insert_tenant r db = sql_insert
     (tn_id r \<notin> tn_id ` set (tenants db) \<and> tn_domain r \<notin> tn_domain ` set (tenants db) \<and>
      tn_policy_version r \<ge> 1 \<and> to_ascii_lowercase (tn_domain r) = tn_domain r)
     (db\<lparr>tenants := tenants db @ [r]\<rparr>)"

definition insert_account :: "account_row \<Rightarrow> 'j database \<Rightarrow> store_error + 'j database" where
  "insert_account r db = sql_insert
     (ac_id r \<notin> ac_id ` set (accounts db) \<and> has_tenant db (ac_tenant r) \<and>
      (ac_tenant r, ac_localpart r) \<notin> (\<lambda>r. (ac_tenant r, ac_localpart r)) ` set (accounts db) \<and>
      ac_state r \<in> set account_states)
     (db\<lparr>accounts := accounts db @ [r]\<rparr>)"

definition role_key :: "role_row \<Rightarrow> uuid \<times> uuid \<times> string" where
  "role_key r = (rl_tenant r, rl_account r, rl_role r)"

definition insert_role :: "role_row \<Rightarrow> 'j database \<Rightarrow> store_error + 'j database" where
  "insert_role r db = sql_insert
     (role_key r \<notin> role_key ` set (account_roles db) \<and> has_account db (rl_tenant r) (rl_account r) \<and>
      rl_role r \<in> set role_texts \<and>
      (case rl_granted_by r of None \<Rightarrow> True | Some g \<Rightarrow> g \<in> ac_id ` set (accounts db)))
     (db\<lparr>account_roles := account_roles db @ [r]\<rparr>)"

definition insert_totp :: "totp_row \<Rightarrow> 'j database \<Rightarrow> store_error + 'j database" where
  "insert_totp r db = sql_insert
     (tf_id r \<notin> tf_id ` set (mfa_totp_factors db) \<and> has_account db (tf_tenant r) (tf_account r) \<and>
      tf_status r \<in> {''pending'', ''active'', ''disabled''} \<and> length (tf_nonce r) = 12 \<and>
      tf_algorithm r \<in> {''sha256'', ''sha512''} \<and> tf_digits r \<in> {6, 8} \<and> tf_period r = 30 \<and>
      \<not> (tf_status r = ''active'' \<and>
         list_ex (\<lambda>o'. tf_tenant o' = tf_tenant r \<and> tf_account o' = tf_account r \<and> tf_status o' = ''active'') (mfa_totp_factors db)))
     (db\<lparr>mfa_totp_factors := mfa_totp_factors db @ [r]\<rparr>)"

definition insert_recovery_set :: "recovery_set_row \<Rightarrow> 'j database \<Rightarrow> store_error + 'j database" where
  "insert_recovery_set r db = sql_insert
     (rs_id r \<notin> rs_id ` set (recovery_code_sets db) \<and> has_account db (rs_tenant r) (rs_account r) \<and>
      \<not> (rs_invalidated_at r = None \<and>
         list_ex (\<lambda>o'. rs_tenant o' = rs_tenant r \<and> rs_account o' = rs_account r \<and> rs_invalidated_at o' = None) (recovery_code_sets db)))
     (db\<lparr>recovery_code_sets := recovery_code_sets db @ [r]\<rparr>)"

definition insert_recovery_verifier :: "recovery_verifier_row \<Rightarrow> 'j database \<Rightarrow> store_error + 'j database" where
  "insert_recovery_verifier r db = sql_insert
     (rv_id r \<notin> rv_id ` set (recovery_code_verifiers db) \<and> rv_set r \<in> rs_id ` set (recovery_code_sets db) \<and>
      (rv_set r, rv_verifier r) \<notin> (\<lambda>r. (rv_set r, rv_verifier r)) ` set (recovery_code_verifiers db))
     (db\<lparr>recovery_code_verifiers := recovery_code_verifiers db @ [r]\<rparr>)"

definition insert_family :: "family_row \<Rightarrow> 'j database \<Rightarrow> store_error + 'j database" where
  "insert_family r db = sql_insert
     (fm_id r \<notin> fm_id ` set (session_families db) \<and> has_account db (fm_tenant r) (fm_account r))
     (db\<lparr>session_families := session_families db @ [r]\<rparr>)"

definition insert_refresh :: "refresh_row \<Rightarrow> 'j database \<Rightarrow> store_error + 'j database" where
  "insert_refresh r db = sql_insert
     (rf_id r \<notin> rf_id ` set (refresh_credentials db) \<and> has_account db (rf_tenant r) (rf_account r) \<and>
      rf_family r \<in> fm_id ` set (session_families db) \<and> rf_digest r \<notin> rf_digest ` set (refresh_credentials db) \<and>
      (rf_replaced_by r = None \<or> rf_replaced_by r \<notin> rf_replaced_by ` set (refresh_credentials db)) \<and>
      rf_expires_at r > rf_issued_at r)
     (db\<lparr>refresh_credentials := refresh_credentials db @ [r]\<rparr>)"

definition insert_access :: "access_row \<Rightarrow> 'j database \<Rightarrow> store_error + 'j database" where
  "insert_access r db = sql_insert
     (as_id r \<notin> as_id ` set (access_sessions db) \<and> has_account db (as_tenant r) (as_account r) \<and>
      as_family r \<in> fm_id ` set (session_families db) \<and> as_digest r \<notin> as_digest ` set (access_sessions db))
     (db\<lparr>access_sessions := access_sessions db @ [r]\<rparr>)"

definition insert_login :: "login_row \<Rightarrow> 'j database \<Rightarrow> store_error + 'j database" where
  "insert_login r db = sql_insert
     (lt_id r \<notin> lt_id ` set (login_transactions db) \<and> has_account db (lt_tenant r) (lt_account r) \<and>
      lt_digest r \<notin> lt_digest ` set (login_transactions db) \<and>
      lt_stage r \<in> {''mfa_enrollment'', ''mfa_challenge'', ''session_issuance'', ''consumed'', ''revoked''} \<and>
      lt_expires_at r > lt_issued_at r)
     (db\<lparr>login_transactions := login_transactions db @ [r]\<rparr>)"

definition insert_step_up :: "step_up_row \<Rightarrow> 'j database \<Rightarrow> store_error + 'j database" where
  "insert_step_up r db = sql_insert
     (su_id r \<notin> su_id ` set (step_up_grants db) \<and> has_account db (su_tenant r) (su_account r) \<and>
      su_family r \<in> fm_id ` set (session_families db) \<and> su_digest r \<notin> su_digest ` set (step_up_grants db) \<and>
      1 \<le> length (su_action r) \<and> length (su_action r) \<le> 64)
     (db\<lparr>step_up_grants := step_up_grants db @ [r]\<rparr>)"

definition insert_ceremony :: "'j ceremony_row \<Rightarrow> 'j database \<Rightarrow> store_error + 'j database" where
  "insert_ceremony r db = sql_insert
     (wc_id r \<notin> wc_id ` set (webauthn_ceremonies db) \<and> has_account db (wc_tenant r) (wc_account r) \<and>
      wc_kind r \<in> {''registration'', ''authentication''} \<and> wc_digest r \<notin> wc_digest ` set (webauthn_ceremonies db) \<and>
      wc_expires_at r > wc_created_at r)
     (db\<lparr>webauthn_ceremonies := webauthn_ceremonies db @ [r]\<rparr>)"

definition insert_credential :: "'j credential_row \<Rightarrow> 'j database \<Rightarrow> store_error + 'j database" where
  "insert_credential r db = sql_insert
     (pk_id r \<notin> pk_id ` set (webauthn_credentials db) \<and> has_account db (pk_tenant r) (pk_account r) \<and>
      pk_credential r \<notin> pk_credential ` set (webauthn_credentials db) \<and>
      1 \<le> length (pk_credential r) \<and> length (pk_credential r) \<le> 2048 \<and>
      (case pk_label r of None \<Rightarrow> True | Some l \<Rightarrow> 1 \<le> length l \<and> length l \<le> 96))
     (db\<lparr>webauthn_credentials := webauthn_credentials db @ [r]\<rparr>)"

definition replay_key :: "replay_row \<Rightarrow> uuid \<times> uuid \<times> uuid" where
  "replay_key r = (fr_tenant r, fr_peer r, fr_request r)"

text \<open>\<open>ON CONFLICT DO NOTHING\<close>: the number of inserted rows is part of the result.\<close>

definition insert_replay :: "replay_row \<Rightarrow> 'j database \<Rightarrow> store_error + nat \<times> 'j database" where
  "insert_replay r db =
     (if replay_key r \<in> replay_key ` set (federation_replays db) then Inr (0, db)
      else map_sum id (Pair 1) (sql_insert
        (has_tenant db (fr_tenant r) \<and> fr_peer r \<in> fp_id ` set (federation_peers db) \<and> fr_expires_at r > fr_accepted_at r)
        (db\<lparr>federation_replays := federation_replays db @ [r]\<rparr>)))"

definition insert_envelope :: "envelope_row \<Rightarrow> 'j database \<Rightarrow> store_error + nat \<times> 'j database" where
  "insert_envelope r db =
     (if en_reference r \<in> en_reference ` set (totp_data_key_envelopes db) then Inr (0, db)
      else map_sum id (Pair 1) (sql_insert
        (length (en_reference r) \<le> 256 \<and> en_provider r = ''aws_kms'' \<and> length (en_wrapping_key r) \<le> 2048 \<and>
         1 \<le> length (en_data_key r) \<and> length (en_data_key r) \<le> 6144)
        (db\<lparr>totp_data_key_envelopes := totp_data_key_envelopes db @ [r]\<rparr>)))"

subsection \<open>Helpers\<close>

record audit_write =
  aw_id :: uuid
  aw_tenant :: tenant_id
  aw_actor :: "account_id option"
  aw_action :: audit_action
  aw_correlation :: str
  aw_metadata :: "(string \<times> audit_value) list"
  aw_occurred_at :: timestamp

fun audit_action_text :: "audit_action \<Rightarrow> string" where
  "audit_action_text TenantBootstrapped = ''tenant_bootstrapped''"
| "audit_action_text AccountCreated = ''account_created''"
| "audit_action_text RoleChanged = ''role_changed''"
| "audit_action_text PasswordChanged = ''password_changed''"
| "audit_action_text MfaChanged = ''mfa_changed''"
| "audit_action_text LoginTransactionIssued = ''login_transaction_issued''"
| "audit_action_text LoginTransactionConsumed = ''login_transaction_consumed''"
| "audit_action_text SessionIssued = ''session_issued''"
| "audit_action_text SessionRevoked = ''session_revoked''"
| "audit_action_text StepUpGranted = ''step_up_granted''"
| "audit_action_text StepUpConsumed = ''step_up_consumed''"
| "audit_action_text WebauthnCeremonyIssued = ''webauthn_ceremony_issued''"
| "audit_action_text WebauthnCeremonyConsumed = ''webauthn_ceremony_consumed''"
| "audit_action_text PasskeyChanged = ''passkey_changed''"
| "audit_action_text FederationTrustChanged = ''federation_trust_changed''"
| "audit_action_text FederationRequestEvaluated = ''federation_request_evaluated''"

definition audit_row_of :: "audit_write \<Rightarrow> audit_row" where
  "audit_row_of w = \<lparr>au_id = aw_id w, au_tenant = tenant_uuid (aw_tenant w),
     au_actor = map_option account_uuid (aw_actor w), au_action = audit_action_text (aw_action w),
     au_correlation = aw_correlation w, au_metadata = aw_metadata w, au_occurred_at = aw_occurred_at w\<rparr>"

definition insert_audit :: "audit_write \<Rightarrow> 'j database \<Rightarrow> store_error + 'j database" where
  "insert_audit w db = sql_insert
     (aw_id w \<notin> au_id ` set (audit_events db) \<and> has_tenant db (tenant_uuid (aw_tenant w)) \<and>
      (case aw_actor w of None \<Rightarrow> True | Some a \<Rightarrow> account_uuid a \<in> ac_id ` set (accounts db)) \<and>
      1 \<le> length (aw_correlation w) \<and> length (aw_correlation w) \<le> 128)
     (db\<lparr>audit_events := audit_events db @ [audit_row_of w]\<rparr>)"

definition parse_account_state :: "string \<Rightarrow> store_error + account_state" where
  "parse_account_state s =
     (if s = ''active'' then Inr AccountActive
      else if s = ''mfa_enrollment_required'' then Inr MfaEnrollmentRequired
      else if s = ''suspended'' then Inr AccountSuspended
      else if s = ''deactivated'' then Inr Deactivated
      else Inl CorruptAccountState)"

definition parse_role :: "string \<Rightarrow> store_error + role" where
  "parse_role s =
     (if s = ''owner'' then Inr Owner else if s = ''admin'' then Inr Admin else if s = ''operator'' then Inr Operator
      else if s = ''auditor'' then Inr Auditor else if s = ''member'' then Inr Member else Inl CorruptRole)"

fun role_text :: "role \<Rightarrow> string" where
  "role_text Owner = ''owner''"
| "role_text Admin = ''admin''"
| "role_text Operator = ''operator''"
| "role_text Auditor = ''auditor''"
| "role_text Member = ''member''"

definition parse_federation_trust_state :: "string \<Rightarrow> store_error + federation_trust_state" where
  "parse_federation_trust_state s =
     (if s = ''pending'' then Inr TrustPending else if s = ''active'' then Inr TrustActive
      else if s = ''suspended'' then Inr TrustSuspended else if s = ''revoked'' then Inr TrustRevoked
      else Inl CorruptFederationTrustState)"

definition store_validate_correlation_id :: "str \<Rightarrow> store_error + unit" where
  "store_validate_correlation_id s = (if correlation_id_ok s then Inr () else Inl StoreInvalidCorrelationId)"

subsection \<open>Lemmas\<close>

lemma sql_insert_eq_Inr [simp]: "sql_insert ok db = Inr db' \<longleftrightarrow> ok \<and> db' = db"
  by (auto simp: sql_insert_def)

lemma transact_Inl [simp]: "transact db (Inl e) = (Inl e, db)"
  and transact_Inr [simp]: "transact db (Inr (x, db')) = (Inr x, db')"
  by (simp_all add: transact_def)

lemma transact_eq:
  "transact db outcome = (r, db') \<longleftrightarrow>
     (\<exists>e. outcome = Inl e \<and> r = Inl e \<and> db' = db) \<or> (\<exists>x. outcome = Inr (x, db') \<and> r = Inr x)"
  by (auto simp: transact_def split: sum.splits prod.splits)

lemma map_sum_eq_Inr [simp]: "map_sum id f r = Inr y \<longleftrightarrow> (\<exists>x. r = Inr x \<and> y = f x)"
  by (cases r) auto

lemma sql_update_map:
  assumes "\<And>r. P r \<Longrightarrow> g (f r) = g r"
  shows "map g (sql_update P f rows) = map g rows"
  using assms by (induction rows) (simp_all add: sql_update_def)

lemma sql_update_image:
  assumes "\<And>r. P r \<Longrightarrow> g (f r) = g r"
  shows "g ` set (sql_update P f rows) = g ` set rows"
  using sql_update_map [where g = g and f = f and P = P and rows = rows] assms by (metis set_map)

lemma set_sql_update: "set (sql_update P f rows) = (\<lambda>r. if P r then f r else r) ` set rows"
  by (simp add: sql_update_def)

lemma rows_affected_0: "rows_affected P rows = 0 \<longleftrightarrow> (\<forall>r \<in> set rows. \<not> P r)"
  by (auto simp: rows_affected_def filter_empty_conv)

lemma rows_affected_pos: "rows_affected P rows = Suc 0 \<Longrightarrow> \<exists>r \<in> set rows. P r"
  using rows_affected_0 [of P rows] by auto

lemma fetch_optional_Some: "fetch_optional rows = Some r \<Longrightarrow> r \<in> set rows"
  by (cases rows) (simp_all add: fetch_optional_def)

lemma fetch_optional_simps [simp]: "fetch_optional [] = None" "fetch_optional (r # rows) = Some r"
  by (simp_all add: fetch_optional_def)

lemma fetch_optional_None [simp]: "fetch_optional rows = None \<longleftrightarrow> rows = []"
  by (cases rows) (simp_all add: fetch_optional_def)

lemma parse_role_text [simp]: "parse_role (role_text r) = Inr r"
  by (cases r) (simp_all add: parse_role_def)

lemma parse_role_eq: "parse_role s = Inr r \<longleftrightarrow> s = role_text r"
  by (cases r) (auto simp: parse_role_def split: if_splits)

lemma role_text_inject [simp]: "role_text r = role_text r' \<longleftrightarrow> r = r'"
  by (cases r; cases r') simp_all

lemma role_text_known [simp]: "role_text r \<in> set role_texts"
  by (cases r) (simp_all add: role_texts_def)

lemma parse_account_active: "parse_account_state s = Inr AccountActive \<longleftrightarrow> s = ''active''"
  by (simp add: parse_account_state_def)

lemma store_validate_correlation_iff [simp]: "store_validate_correlation_id s = Inr () \<longleftrightarrow> correlation_id_ok s"
  by (simp add: store_validate_correlation_id_def)

lemma store_validate_correlation_eq:
  "store_validate_correlation_id s = (if correlation_id_ok s then Inr () else Inl StoreInvalidCorrelationId)"
  by (fact store_validate_correlation_id_def)

lemma has_account_in_has: "has_account_in db t a states \<Longrightarrow> has_account db t a"
  by (force simp: has_account_in_def has_account_def list_ex_iff)

end
