(* ===== verification/Fabric_Accounts.thy ===== *)
theory Fabric_Accounts
  imports Fabric_Schema "HOL-Library.Char_ord"
begin

text \<open>
  Tenant, account, role, password and authorization persistence
  (\<open>fcp-fabric-store/src/accounts.rs\<close>).  Each operation takes the clock and generated UUIDs, its
  arguments and the database, and returns its result with the committed database.
\<close>

subsection \<open>Operations\<close>

definition bootstrap_tenant ::
  "store_env \<Rightarrow> bootstrap_tenant_command \<Rightarrow> 'j database \<Rightarrow> (store_error + bootstrap_result) \<times> 'j database" where
  "bootstrap_tenant E command db = transact db (
     and_then (map_err Administration (bootstrap_validate command)) (\<lambda>_.
     let tenant_id = TenantId (env_uuid E 0); owner_id = AccountId (env_uuid E 1);
         policy_version = PolicyVersion 1; now = env_now E in
     and_then (if unat (policy_version_get policy_version) < 2 ^ 63
               then Inr (int (unat (policy_version_get policy_version))) else Inl PolicyVersionOverflow) (\<lambda>version.
     and_then (insert_tenant \<lparr>tn_id = tenant_uuid tenant_id, tn_domain = domain_str (bootstrap_domain command),
         tn_policy_version = version, tn_created_at = now, tn_updated_at = now\<rparr> db) (\<lambda>db.
     and_then (insert_account \<lparr>ac_id = account_uuid owner_id, ac_tenant = tenant_uuid tenant_id,
         ac_localpart = localpart_str (bootstrap_localpart command), ac_state = ''mfa_enrollment_required'',
         ac_created_at = now, ac_updated_at = now, ac_deactivated_at = None\<rparr> db) (\<lambda>db.
     and_then (insert_role \<lparr>rl_tenant = tenant_uuid tenant_id, rl_account = account_uuid owner_id, rl_role = ''owner'',
         rl_granted_by = None, rl_granted_at = now\<rparr> db) (\<lambda>db.
     and_then (insert_audit \<lparr>aw_id = env_uuid E 2, aw_tenant = tenant_id, aw_actor = Some owner_id,
         aw_action = TenantBootstrapped, aw_correlation = bootstrap_correlation command,
         aw_metadata = [(''domain'', AuditStr (domain_str (bootstrap_domain command)))], aw_occurred_at = now\<rparr> db) (\<lambda>db.
     Inr (\<lparr>result_tenant = tenant_id, result_owner = owner_id, result_policy_version = policy_version,
           result_owner_state = MfaEnrollmentRequired\<rparr>, db))))))))"

definition invite_account ::
  "store_env \<Rightarrow> invite_account_command \<Rightarrow> 'j database \<Rightarrow> (store_error + account_id) \<times> 'j database" where
  "invite_account E command db = transact db (
     and_then (map_err Administration (invite_validate command)) (\<lambda>_.
     let account_id = AccountId (env_uuid E 0); now = env_now E in
     and_then (insert_account \<lparr>ac_id = account_uuid account_id, ac_tenant = tenant_uuid (invite_tenant command),
         ac_localpart = localpart_str (invite_localpart command), ac_state = ''mfa_enrollment_required'',
         ac_created_at = now, ac_updated_at = now, ac_deactivated_at = None\<rparr> db) (\<lambda>db.
     and_then (insert_role \<lparr>rl_tenant = tenant_uuid (invite_tenant command), rl_account = account_uuid account_id,
         rl_role = role_text (invite_role command),
         rl_granted_by = Some (account_uuid (actor_account (invite_actor command))), rl_granted_at = now\<rparr> db) (\<lambda>db.
     and_then (insert_audit \<lparr>aw_id = env_uuid E 1, aw_tenant = invite_tenant command,
         aw_actor = Some (actor_account (invite_actor command)), aw_action = AccountCreated,
         aw_correlation = invite_correlation command,
         aw_metadata = [(''account_id'', AuditUuid (account_uuid account_id)),
                        (''initial_role'', AuditText (role_text (invite_role command)))], aw_occurred_at = now\<rparr> db) (\<lambda>db.
     Inr (account_id, db))))))"

definition change_role_rows :: "store_env \<Rightarrow> change_role_command \<Rightarrow> 'j database \<Rightarrow> store_error + nat \<times> 'j database" where
  "change_role_rows E command db =
     (let tenant = tenant_uuid (change_tenant command); target = account_uuid (change_target command);
          text = role_text (change_role_of command) in
      if change_grant command then
        if \<not> has_account db tenant target then Inr (0, db)
        else if (tenant, target, text) \<in> role_key ` set (account_roles db) then Inr (0, db)
        else map_sum id (Pair 1) (insert_role \<lparr>rl_tenant = tenant, rl_account = target, rl_role = text,
               rl_granted_by = Some (account_uuid (actor_account (change_actor command))), rl_granted_at = env_now E\<rparr> db)
      else Inr (rows_affected (\<lambda>r. role_key r = (tenant, target, text)) (account_roles db),
                db\<lparr>account_roles := filter (\<lambda>r. role_key r \<noteq> (tenant, target, text)) (account_roles db)\<rparr>))"

definition change_role ::
  "store_env \<Rightarrow> change_role_command \<Rightarrow> 'j database \<Rightarrow> (store_error + unit) \<times> 'j database" where
  "change_role E command db = transact db (
     and_then (map_err Administration (change_role_validate command)) (\<lambda>_.
     and_then (change_role_rows E command db) (\<lambda>(affected, db).
     if affected \<noteq> 1 then Inl TargetNotFoundOrUnchanged
     else and_then (insert_audit \<lparr>aw_id = env_uuid E 0, aw_tenant = change_tenant command,
         aw_actor = Some (actor_account (change_actor command)), aw_action = RoleChanged,
         aw_correlation = change_correlation command,
         aw_metadata = [(''target_account_id'', AuditUuid (account_uuid (change_target command))),
                        (''role'', AuditText (role_text (change_role_of command))),
                        (''grant'', AuditBool (change_grant command))], aw_occurred_at = env_now E\<rparr> db) (\<lambda>db.
     Inr ((), db)))))"

definition store_password_verifier ::
  "store_env \<Rightarrow> tenant_id \<Rightarrow> account_id \<Rightarrow> password_verifier_string \<Rightarrow> str option \<Rightarrow> str \<Rightarrow> 'j database \<Rightarrow>
   (store_error + unit) \<times> 'j database" where
  "store_password_verifier E tenant account verifier pepper correlation db = transact db (
     and_then (store_validate_correlation_id correlation) (\<lambda>_.
     let a = account_uuid account; t = tenant_uuid tenant; now = env_now E in
     if \<not> has_account db t a then Inl TargetNotFoundOrUnchanged
     else
       let rows = (if a \<in> pw_account ` set (password_credentials db)
             then sql_update (\<lambda>r. pw_account r = a)
               (\<lambda>r. r\<lparr>pw_verifier := verifier_str verifier, pw_pepper := pepper, pw_changed_at := now\<rparr>) (password_credentials db)
             else password_credentials db @ [\<lparr>pw_account = a, pw_tenant = t, pw_verifier = verifier_str verifier,
               pw_pepper = pepper, pw_changed_at = now\<rparr>]) in
       and_then (insert_audit \<lparr>aw_id = env_uuid E 0, aw_tenant = tenant, aw_actor = Some account,
           aw_action = PasswordChanged, aw_correlation = correlation,
           aw_metadata = [(''pepper_key_version'', case pepper of None \<Rightarrow> AuditNull | Some v \<Rightarrow> AuditStr v)],
           aw_occurred_at = now\<rparr> (db\<lparr>password_credentials := rows\<rparr>)) (\<lambda>db.
       Inr ((), db))))"

record login_account =
  login_account_id :: account_id
  login_tenant_id :: tenant_id
  login_state :: account_state
  login_verifier :: "password_verifier_string option"

text \<open>\<open>Option::transpose\<close> over a fallible map.\<close>

definition transpose_map :: "('a \<Rightarrow> 'e + 'b) \<Rightarrow> 'a option \<Rightarrow> 'e + 'b option" where
  "transpose_map f v = (case v of None \<Rightarrow> Inr None | Some x \<Rightarrow> and_then (f x) (\<lambda>y. Inr (Some y)))"

definition find_login_account ::
  "'p password_primitives \<Rightarrow> user_address \<Rightarrow> 'j database \<Rightarrow> store_error + login_account option" where
  "find_login_account A address db =
     transpose_map (\<lambda>(account, tenant, state, verifier).
       and_then (parse_account_state state) (\<lambda>state.
       and_then (map_err Credential (transpose_map (verifier_from_persisted A) verifier)) (\<lambda>verifier.
       Inr \<lparr>login_account_id = AccountId account, login_tenant_id = TenantId tenant, login_state = state,
            login_verifier = verifier\<rparr>)))
     (fetch_optional [(ac_id a, tn_id t, ac_state a,
          map_option pw_verifier (fetch_optional (filter (\<lambda>p. pw_account p = ac_id a) (password_credentials db)))).
        t \<leftarrow> tenants db, tn_domain t = domain_str (address_domain address),
        a \<leftarrow> accounts db, ac_tenant a = tn_id t \<and> ac_localpart a = localpart_str (address_localpart address)])"

definition user_address_for_account ::
  "(str \<Rightarrow> str) \<Rightarrow> (str \<Rightarrow> str option) \<Rightarrow> tenant_id \<Rightarrow> account_id \<Rightarrow> 'j database \<Rightarrow> store_error + user_address option" where
  "user_address_for_account nfc domain_to_ascii tenant account db =
     transpose_map (\<lambda>(lp, dm). map_err (\<lambda>_. InvalidStoredAddress) (user_address_parse nfc domain_to_ascii (lp @ [64] @ dm)))
     (fetch_optional [(ac_localpart a, tn_domain t).
        a \<leftarrow> accounts db, ac_tenant a = tenant_uuid tenant \<and> ac_id a = account_uuid account,
        t \<leftarrow> tenants db, tn_id t = ac_tenant a])"

definition roles_for_account :: "tenant_id \<Rightarrow> account_id \<Rightarrow> 'j database \<Rightarrow> store_error + role list" where
  "roles_for_account tenant account db =
     try_map parse_role (sort (map rl_role
       (filter (\<lambda>r. rl_tenant r = tenant_uuid tenant \<and> rl_account r = account_uuid account) (account_roles db))))"

definition session_authorization_context ::
  "tenant_id \<Rightarrow> account_id \<Rightarrow> 'j database \<Rightarrow> store_error + authorization_context option" where
  "session_authorization_context tenant account db =
     (case fetch_optional (filter (\<lambda>a. ac_tenant a = tenant_uuid tenant \<and> ac_id a = account_uuid account) (accounts db)) of
        None \<Rightarrow> Inr None
      | Some row \<Rightarrow> and_then (parse_account_state (ac_state row)) (\<lambda>state.
          if \<not> permits_session state then Inr None
          else and_then (roles_for_account tenant account db) (\<lambda>roles.
            Inr (Some (authorization_context_new tenant account state roles False)))))"

subsection \<open>Effects\<close>

text \<open>
  What each operation does to the database, one lemma per operation: an error changes nothing, and a
  success is the stated change.
\<close>

lemma bootstrap_tenant_effect:
  assumes "bootstrap_tenant E c db = (r, db')"
  obtains (failed) e where "r = Inl e" and "db' = db"
  | (committed) t a rl au where "r = Inr \<lparr>result_tenant = TenantId (tn_id t), result_owner = AccountId (ac_id a),
        result_policy_version = PolicyVersion 1, result_owner_state = MfaEnrollmentRequired\<rparr>"
      and "db' = db\<lparr>tenants := tenants db @ [t], accounts := accounts db @ [a],
        account_roles := account_roles db @ [rl], audit_events := audit_events db @ [au]\<rparr>"
      and "tn_id t \<notin> tn_id ` set (tenants db)" and "tn_domain t \<notin> tn_domain ` set (tenants db)"
      and "ac_id a \<notin> ac_id ` set (accounts db)" and "ac_tenant a = tn_id t" and "ac_state a = ''mfa_enrollment_required''"
      and "rl_tenant rl = tn_id t" and "rl_account rl = ac_id a" and "rl_role rl = ''owner''"
proof (cases r)
  case (Inl e)
  then show thesis using assms failed by (auto simp: bootstrap_tenant_def transact_eq)
next
  case (Inr x)
  with assms show thesis
    by (auto simp: bootstrap_tenant_def transact_eq and_then_eq_Inr Let_def insert_tenant_def insert_account_def
        insert_role_def insert_audit_def intro!: committed)
qed

lemma invite_account_effect:
  assumes "invite_account E c db = (r, db')"
  obtains (failed) e where "r = Inl e" and "db' = db"
  | (committed) a rl au where "r = Inr (AccountId (ac_id a))" and "invite_validate c = Inr ()"
      and "db' = db\<lparr>accounts := accounts db @ [a], account_roles := account_roles db @ [rl],
        audit_events := audit_events db @ [au]\<rparr>"
      and "ac_id a \<notin> ac_id ` set (accounts db)" and "ac_tenant a = tenant_uuid (invite_tenant c)"
      and "ac_tenant a \<in> tn_id ` set (tenants db)" and "ac_state a = ''mfa_enrollment_required''"
      and "rl_tenant rl = ac_tenant a" and "rl_account rl = ac_id a" and "rl_role rl = role_text (invite_role c)"
proof (cases r)
  case (Inl e)
  then show thesis using assms failed by (auto simp: invite_account_def transact_eq)
next
  case (Inr x)
  with assms show thesis
    by (auto simp: invite_account_def transact_eq and_then_eq_Inr map_err_eq_Inr Let_def insert_account_def
        insert_role_def insert_audit_def has_tenant_def intro!: committed)
qed

lemma change_role_effect:
  assumes "change_role E c db = (r, db')"
  obtains (failed) e where "r = Inl e" and "db' = db"
  | (granted) rl au where "r = Inr ()" and "change_role_validate c = Inr ()"
      and "db' = db\<lparr>account_roles := account_roles db @ [rl], audit_events := audit_events db @ [au]\<rparr>"
      and "role_key rl = (tenant_uuid (change_tenant c), account_uuid (change_target c), role_text (change_role_of c))"
      and "role_key rl \<notin> role_key ` set (account_roles db)" and "has_account db (rl_tenant rl) (rl_account rl)"
  | (revoked) au where "r = Inr ()" and "change_role_validate c = Inr ()"
      and "db' = db\<lparr>account_roles := filter (\<lambda>rl. role_key rl \<noteq>
            (tenant_uuid (change_tenant c), account_uuid (change_target c), role_text (change_role_of c))) (account_roles db),
          audit_events := audit_events db @ [au]\<rparr>"
proof (cases r)
  case (Inl e)
  then show thesis using assms failed by (auto simp: change_role_def transact_eq)
next
  case (Inr x)
  show thesis
  proof (cases "change_grant c")
    case True
    with Inr assms show thesis
      by (auto simp: change_role_def change_role_rows_def transact_eq and_then_eq_Inr map_err_eq_Inr Let_def insert_role_def
          insert_audit_def role_key_def split: if_splits intro!: granted)
  next
    case False
    with Inr assms show thesis
      by (auto simp: change_role_def change_role_rows_def transact_eq and_then_eq_Inr map_err_eq_Inr Let_def
          insert_audit_def split: if_splits intro!: revoked)
  qed
qed

lemma store_password_verifier_effect:
  assumes "store_password_verifier E t a v pepper corr db = (r, db')"
  obtains (failed) e where "r = Inl e" and "db' = db"
  | (committed) rows au where "r = Inr ()"
      and "db' = db\<lparr>password_credentials := rows, audit_events := audit_events db @ [au]\<rparr>"
proof (cases r)
  case (Inl e)
  then show thesis using assms failed by (auto simp: store_password_verifier_def transact_eq)
next
  case (Inr x)
  with assms show thesis
    by (auto simp: store_password_verifier_def transact_eq and_then_eq_Inr Let_def insert_audit_def
        split: if_splits intro!: committed)
qed

subsection \<open>Reading roles and authorization\<close>

lemma try_map_eq_Inr: "try_map f xs = Inr ys \<longleftrightarrow> map f xs = map Inr ys"
  by (induction xs arbitrary: ys) (auto simp: and_then_eq_Inr Cons_eq_map_conv)

lemma roles_for_account_set:
  assumes "roles_for_account t a db = Inr roles"
  shows "r \<in> set roles \<longleftrightarrow>
    (tenant_uuid t, account_uuid a, role_text r) \<in> role_key ` set (account_roles db)"
proof -
  let ?texts = "map rl_role (filter (\<lambda>r. rl_tenant r = tenant_uuid t \<and> rl_account r = account_uuid a) (account_roles db))"
  have "map parse_role (sort ?texts) = map Inr roles"
    using assms by (simp add: roles_for_account_def try_map_eq_Inr)
  from arg_cong [OF this, of set] have "parse_role ` set ?texts = Inr ` set roles"
    by (simp del: set_filter)
  then have "r \<in> set roles \<longleftrightarrow> Inr r \<in> parse_role ` set ?texts" by auto
  also have "\<dots> \<longleftrightarrow> role_text r \<in> set ?texts"
    unfolding image_iff eq_commute [of "Inr r"] parse_role_eq by blast
  also have "\<dots> \<longleftrightarrow> (tenant_uuid t, account_uuid a, role_text r) \<in> role_key ` set (account_roles db)"
    by (auto simp: role_key_def intro: rev_image_eqI)
  finally show ?thesis .
qed

lemma session_authorization_context_Some:
  assumes "session_authorization_context t a db = Inr (Some c)"
  shows "context_tenant c = t" and "context_account c = a" and "context_state c = AccountActive"
    and "\<not> context_step_up c" and "has_account_in db (tenant_uuid t) (account_uuid a) [''active'']"
    and "r \<in> set (context_roles c) \<longleftrightarrow> (tenant_uuid t, account_uuid a, role_text r) \<in> role_key ` set (account_roles db)"
proof -
  from assms obtain row roles where
    row: "fetch_optional (filter (\<lambda>x. ac_tenant x = tenant_uuid t \<and> ac_id x = account_uuid a) (accounts db)) = Some row"
    and state: "parse_account_state (ac_state row) = Inr AccountActive"
    and roles: "roles_for_account t a db = Inr roles"
    and c: "c = authorization_context_new t a AccountActive roles False"
    by (auto simp: session_authorization_context_def and_then_eq_Inr split: option.splits if_splits)
  have "row \<in> set (accounts db)" "ac_tenant row = tenant_uuid t" "ac_id row = account_uuid a"
    using fetch_optional_Some [OF row] by auto
  then show "has_account_in db (tenant_uuid t) (account_uuid a) [''active'']"
    using state by (auto simp: has_account_in_def list_ex_iff parse_account_active)
  show "context_tenant c = t" "context_account c = a" "context_state c = AccountActive" "\<not> context_step_up c"
    by (simp_all add: c authorization_context_new_def)
  show "r \<in> set (context_roles c) \<longleftrightarrow> (tenant_uuid t, account_uuid a, role_text r) \<in> role_key ` set (account_roles db)"
    using roles_for_account_set [OF roles] by (simp add: c authorization_context_new_def)
qed

end
