(* ===== verification/Fabric_Mfa.thy ===== *)
theory Fabric_Mfa
  imports Fabric_Accounts
begin

text \<open>
  TOTP factor, data-key envelope and recovery-code persistence
  (\<open>fcp-fabric-store/src/mfa.rs\<close>, with the records of \<open>types.rs\<close> it uses).
\<close>

subsection \<open>Records\<close>

record create_envelope_request =
  ce_reference :: totp_key_reference
  ce_provider :: string
  ce_wrapping_key :: str
  ce_data_key :: "u8 list"
  ce_created_at :: timestamp

record stored_envelope =
  se_reference :: totp_key_reference
  se_provider :: string
  se_wrapping_key :: str
  se_data_key :: "u8 list"

record persisted_totp_factor =
  factor_id :: uuid
  factor_seed :: encrypted_totp_seed
  factor_last_step :: "int option"

record recovery_code_set_record =
  code_set_id :: uuid
  code_count :: nat
  code_created_at :: timestamp

subsection \<open>Data-key envelopes\<close>

definition envelope_metadata_ok :: "string \<Rightarrow> str \<Rightarrow> u8 list \<Rightarrow> bool" where
  "envelope_metadata_ok provider wrapping_key data_key \<longleftrightarrow>
     \<not> (provider \<noteq> ''aws_kms'' \<or> wrapping_key = [] \<or> str_len wrapping_key > 2048 \<or> list_ex is_control wrapping_key \<or>
        data_key = [] \<or> length data_key > 6144)"

definition create_totp_data_key_envelope ::
  "create_envelope_request \<Rightarrow> 'j database \<Rightarrow> (store_error + unit) \<times> 'j database" where
  "create_totp_data_key_envelope request db = transact db (
     if \<not> envelope_metadata_ok (ce_provider request) (ce_wrapping_key request) (ce_data_key request)
     then Inl InvalidTotpDataKeyEnvelope
     else and_then (insert_envelope \<lparr>en_reference = key_reference_str (ce_reference request),
         en_provider = ce_provider request, en_wrapping_key = ce_wrapping_key request,
         en_data_key = ce_data_key request, en_created_at = ce_created_at request\<rparr> db) (\<lambda>(inserted, db).
       if inserted = 1 then Inr ((), db) else Inl TargetNotFoundOrUnchanged))"

definition totp_data_key_envelope ::
  "totp_key_reference \<Rightarrow> 'j database \<Rightarrow> store_error + stored_envelope option" where
  "totp_data_key_envelope reference db =
     transpose_map (\<lambda>r.
       if \<not> envelope_metadata_ok (en_provider r) (en_wrapping_key r) (en_data_key r) then Inl InvalidTotpDataKeyEnvelope
       else Inr \<lparr>se_reference = reference, se_provider = en_provider r, se_wrapping_key = en_wrapping_key r,
                 se_data_key = en_data_key r\<rparr>)
     (fetch_optional (filter (\<lambda>r. en_reference r = key_reference_str reference) (totp_data_key_envelopes db)))"

subsection \<open>TOTP factors\<close>

definition has_active_totp_factor :: "tenant_id \<Rightarrow> account_id \<Rightarrow> 'j database \<Rightarrow> bool" where
  "has_active_totp_factor tenant account db =
     list_ex (\<lambda>f. tf_tenant f = tenant_uuid tenant \<and> tf_account f = account_uuid account \<and> tf_status f = ''active'')
       (mfa_totp_factors db)"

definition i16_try_from :: "int \<Rightarrow> store_error + int" where
  "i16_try_from x = (if - 32768 \<le> x \<and> x < 32768 then Inr x else Inl InvalidStoredTotp)"

definition create_pending_totp_factor ::
  "store_env \<Rightarrow> tenant_id \<Rightarrow> account_id \<Rightarrow> uuid \<Rightarrow> encrypted_totp_seed \<Rightarrow> str \<Rightarrow> 'j database \<Rightarrow>
   (store_error + unit) \<times> 'j database" where
  "create_pending_totp_factor E tenant account factor encrypted correlation db = transact db (
     and_then (store_validate_correlation_id correlation) (\<lambda>_.
     and_then (i16_try_from (int (seed_digits encrypted))) (\<lambda>digits.
     and_then (i16_try_from (seed_period encrypted)) (\<lambda>period.
     if \<not> has_account db (tenant_uuid tenant) (account_uuid account) then Inl TargetNotFoundOrUnchanged
     else and_then (insert_totp \<lparr>tf_id = factor, tf_tenant = tenant_uuid tenant, tf_account = account_uuid account,
         tf_status = ''pending'', tf_ciphertext = seed_ciphertext encrypted, tf_nonce = bytes_list (seed_nonce encrypted),
         tf_key_reference = key_reference_str (seed_key_reference encrypted), tf_algorithm = ''sha256'',
         tf_digits = digits, tf_period = period, tf_last_step = None, tf_created_at = env_now E,
         tf_activated_at = None\<rparr> db) (\<lambda>db.
     and_then (insert_audit \<lparr>aw_id = env_uuid E 0, aw_tenant = tenant, aw_actor = Some account, aw_action = MfaChanged,
         aw_correlation = correlation,
         aw_metadata = [(''factor_id'', AuditUuid factor), (''operation'', AuditText ''pending_created'')],
         aw_occurred_at = env_now E\<rparr> db) (\<lambda>db.
     Inr ((), db)))))))"

definition factor_from_row :: "totp_row \<Rightarrow> store_error + persisted_totp_factor" where
  "factor_from_row r =
     and_then (ok_or InvalidStoredTotp (try_into (tf_nonce r))) (\<lambda>nonce.
     and_then (if tf_digits r < 0 then Inl InvalidStoredTotp else Inr (nat (tf_digits r))) (\<lambda>digits.
     if digits \<noteq> 6 \<or> tf_period r \<noteq> 30 then Inl InvalidStoredTotp
     else and_then (map_err Totp (totp_key_reference_new (tf_key_reference r))) (\<lambda>reference.
       Inr \<lparr>factor_id = tf_id r,
            factor_seed = \<lparr>seed_ciphertext = tf_ciphertext r, seed_nonce = nonce, seed_key_reference = reference,
              seed_digits = digits, seed_period = tf_period r\<rparr>,
            factor_last_step = tf_last_step r\<rparr>)))"

definition active_totp_factor ::
  "tenant_id \<Rightarrow> account_id \<Rightarrow> 'j database \<Rightarrow> store_error + persisted_totp_factor option" where
  "active_totp_factor tenant account db =
     transpose_map factor_from_row (fetch_optional (filter (\<lambda>f. tf_tenant f = tenant_uuid tenant \<and>
       tf_account f = account_uuid account \<and> tf_status f = ''active'') (mfa_totp_factors db)))"

definition pending_totp_factor ::
  "tenant_id \<Rightarrow> account_id \<Rightarrow> uuid \<Rightarrow> 'j database \<Rightarrow> store_error + persisted_totp_factor option" where
  "pending_totp_factor tenant account factor db =
     transpose_map factor_from_row (fetch_optional (filter (\<lambda>f. tf_id f = factor \<and> tf_tenant f = tenant_uuid tenant \<and>
       tf_account f = account_uuid account \<and> tf_status f = ''pending'') (mfa_totp_factors db)))"

text \<open>The partial unique index: at most one active factor per account.\<close>

definition active_factor_index :: "totp_row list \<Rightarrow> bool" where
  "active_factor_index rows \<longleftrightarrow>
     distinct (map (\<lambda>f. (tf_tenant f, tf_account f)) (filter (\<lambda>f. tf_status f = ''active'') rows))"

definition pending_factor :: "uuid \<Rightarrow> uuid \<Rightarrow> uuid \<Rightarrow> totp_row \<Rightarrow> bool" where
  "pending_factor t a factor f \<longleftrightarrow>
     tf_id f = factor \<and> tf_tenant f = t \<and> tf_account f = a \<and> tf_status f = ''pending''"

definition enrolling_account :: "uuid \<Rightarrow> uuid \<Rightarrow> account_row \<Rightarrow> bool" where
  "enrolling_account t a r \<longleftrightarrow> ac_id r = a \<and> ac_tenant r = t \<and> ac_state r = ''mfa_enrollment_required''"

definition activate_totp_factor ::
  "store_env \<Rightarrow> tenant_id \<Rightarrow> account_id \<Rightarrow> uuid \<Rightarrow> int \<Rightarrow> str \<Rightarrow> 'j database \<Rightarrow> (store_error + unit) \<times> 'j database" where
  "activate_totp_factor E tenant account factor accepted correlation db = transact db (
     and_then (store_validate_correlation_id correlation) (\<lambda>_.
     let t = tenant_uuid tenant; a = account_uuid account; now = env_now E;
         P = (\<lambda>f. pending_factor t a factor f \<and> has_account_in db t a [''mfa_enrollment_required'']);
         factors = sql_update P (\<lambda>f. f\<lparr>tf_status := ''active'', tf_activated_at := Some now,
                     tf_last_step := Some accepted\<rparr>) (mfa_totp_factors db);
         Q = enrolling_account t a in
     and_then (sql_insert (active_factor_index factors) (db\<lparr>mfa_totp_factors := factors\<rparr>)) (\<lambda>db1.
     if rows_affected P (mfa_totp_factors db) \<noteq> 1 then Inl TargetNotFoundOrUnchanged
     else
       let db2 = db1\<lparr>accounts := sql_update Q (\<lambda>r. r\<lparr>ac_state := ''active'', ac_updated_at := now\<rparr>) (accounts db1)\<rparr> in
       if rows_affected Q (accounts db1) \<noteq> 1 then Inl TargetNotFoundOrUnchanged
       else and_then (insert_audit \<lparr>aw_id = env_uuid E 0, aw_tenant = tenant, aw_actor = Some account, aw_action = MfaChanged,
           aw_correlation = correlation,
           aw_metadata = [(''factor_id'', AuditUuid factor), (''operation'', AuditText ''activated'')],
           aw_occurred_at = now\<rparr> db2) (\<lambda>db3.
       Inr ((), db3)))))"

definition unspent_factor :: "uuid \<Rightarrow> uuid \<Rightarrow> uuid \<Rightarrow> int \<Rightarrow> totp_row \<Rightarrow> bool" where
  "unspent_factor t a factor accepted f \<longleftrightarrow>
     tf_id f = factor \<and> tf_tenant f = t \<and> tf_account f = a \<and> tf_status f = ''active'' \<and>
     (case tf_last_step f of None \<Rightarrow> True | Some l \<Rightarrow> l < accepted)"

definition consume_totp_step ::
  "tenant_id \<Rightarrow> account_id \<Rightarrow> uuid \<Rightarrow> int \<Rightarrow> 'j database \<Rightarrow> (store_error + unit) \<times> 'j database" where
  "consume_totp_step tenant account factor accepted db = transact db (
     let t = tenant_uuid tenant; a = account_uuid account;
         P = (\<lambda>f. unspent_factor t a factor accepted f \<and> has_account_in db t a [''active'']) in
     if rows_affected P (mfa_totp_factors db) = 1
     then Inr ((), db\<lparr>mfa_totp_factors := sql_update P (\<lambda>f. f\<lparr>tf_last_step := Some accepted\<rparr>) (mfa_totp_factors db)\<rparr>)
     else Inl TargetNotFoundOrUnchanged)"

subsection \<open>Recovery codes\<close>

fun insert_verifiers :: "store_env \<Rightarrow> nat \<Rightarrow> uuid \<Rightarrow> str list \<Rightarrow> 'j database \<Rightarrow> store_error + 'j database" where
  "insert_verifiers E n set_id [] db = Inr db"
| "insert_verifiers E n set_id (verifier # verifiers) db =
     and_then (insert_recovery_verifier \<lparr>rv_id = env_uuid E n, rv_set = set_id, rv_verifier = verifier,
       rv_consumed_at = None\<rparr> db) (insert_verifiers E (Suc n) set_id verifiers)"

definition replace_recovery_code_set ::
  "store_env \<Rightarrow> tenant_id \<Rightarrow> account_id \<Rightarrow> str list \<Rightarrow> str \<Rightarrow> 'j database \<Rightarrow>
   (store_error + recovery_code_set_record) \<times> 'j database" where
  "replace_recovery_code_set E tenant account verifiers correlation db = transact db (
     and_then (store_validate_correlation_id correlation) (\<lambda>_.
     if \<not> (8 \<le> length verifiers \<and> length verifiers \<le> 16) \<or> list_ex (\<lambda>v. v = [] \<or> str_len v > 128) verifiers
     then Inl InvalidRecoveryCodeSet
     else
       let now = env_now E; set_id = env_uuid E 0; t = tenant_uuid tenant; a = account_uuid account;
           db1 = db\<lparr>recovery_code_sets := sql_update
             (\<lambda>s. rs_tenant s = t \<and> rs_account s = a \<and> rs_invalidated_at s = None)
             (\<lambda>s. s\<lparr>rs_invalidated_at := Some now\<rparr>) (recovery_code_sets db)\<rparr> in
       if \<not> has_account db1 t a then Inl TargetNotFoundOrUnchanged
       else and_then (insert_recovery_set \<lparr>rs_id = set_id, rs_tenant = t, rs_account = a, rs_created_at = now,
           rs_invalidated_at = None\<rparr> db1) (\<lambda>db2.
       and_then (insert_verifiers E 1 set_id verifiers db2) (\<lambda>db3.
       and_then (insert_audit \<lparr>aw_id = env_uuid E (1 + length verifiers), aw_tenant = tenant, aw_actor = Some account,
           aw_action = MfaChanged, aw_correlation = correlation,
           aw_metadata = [(''operation'', AuditText ''recovery_set_replaced''), (''count'', AuditCount (length verifiers))],
           aw_occurred_at = now\<rparr> db3) (\<lambda>db4.
       Inr (\<lparr>code_set_id = set_id, code_count = length verifiers, code_created_at = now\<rparr>, db4))))))"

definition usable_recovery_verifier :: "uuid \<Rightarrow> uuid \<Rightarrow> str \<Rightarrow> 'j database \<Rightarrow> recovery_verifier_row \<Rightarrow> bool" where
  "usable_recovery_verifier t a verifier db v \<longleftrightarrow>
     list_ex (\<lambda>s. rv_set v = rs_id s \<and> rs_tenant s = t \<and> rs_account s = a \<and> rs_invalidated_at s = None) (recovery_code_sets db) \<and>
     rv_verifier v = verifier \<and> rv_consumed_at v = None"

definition consume_recovery_code ::
  "store_env \<Rightarrow> tenant_id \<Rightarrow> account_id \<Rightarrow> str \<Rightarrow> str \<Rightarrow> 'j database \<Rightarrow> (store_error + bool) \<times> 'j database" where
  "consume_recovery_code E tenant account verifier correlation db = transact db (
     and_then (store_validate_correlation_id correlation) (\<lambda>_.
     if verifier = [] \<or> str_len verifier > 128 then Inr (False, db)
     else
       let P = usable_recovery_verifier (tenant_uuid tenant) (account_uuid account) verifier db;
           db1 = db\<lparr>recovery_code_verifiers := sql_update P (\<lambda>v. v\<lparr>rv_consumed_at := Some (env_now E)\<rparr>) (recovery_code_verifiers db)\<rparr> in
       case fetch_optional (filter P (recovery_code_verifiers db)) of
         None \<Rightarrow> Inr (False, db1)
       | Some _ \<Rightarrow>
           and_then (insert_audit \<lparr>aw_id = env_uuid E 0, aw_tenant = tenant, aw_actor = Some account,
             aw_action = MfaChanged, aw_correlation = correlation,
             aw_metadata = [(''operation'', AuditText ''recovery_code_consumed'')], aw_occurred_at = env_now E\<rparr> db1) (\<lambda>db2.
           Inr (True, db2))))"

subsection \<open>Effects\<close>

lemma create_envelope_effect:
  assumes "create_totp_data_key_envelope q db = (r, db')"
  obtains (failed) e where "r = Inl e" and "db' = db"
  | (committed) row where "r = Inr ()" and "en_reference row \<notin> en_reference ` set (totp_data_key_envelopes db)"
      and "db' = db\<lparr>totp_data_key_envelopes := totp_data_key_envelopes db @ [row]\<rparr>"
proof (cases r)
  case (Inl e)
  then show thesis using assms failed by (auto simp: create_totp_data_key_envelope_def transact_eq)
next
  case (Inr x)
  with assms show thesis
    by (auto simp: create_totp_data_key_envelope_def transact_eq and_then_eq_Inr insert_envelope_def split: if_splits intro!: committed)
qed

lemma create_pending_totp_factor_effect:
  assumes "create_pending_totp_factor E t a f enc corr db = (r, db')"
  obtains (failed) e where "r = Inl e" and "db' = db"
  | (committed) row au where "r = Inr ()" and "tf_id row = f" and "f \<notin> tf_id ` set (mfa_totp_factors db)"
      and "tf_status row = ''pending''" and "tf_last_step row = None" and "tf_tenant row = tenant_uuid t"
      and "tf_account row = account_uuid a" and "has_account db (tenant_uuid t) (account_uuid a)"
      and "db' = db\<lparr>mfa_totp_factors := mfa_totp_factors db @ [row], audit_events := audit_events db @ [au]\<rparr>"
proof (cases r)
  case (Inl e)
  then show thesis using assms failed by (auto simp: create_pending_totp_factor_def transact_eq)
next
  case (Inr x)
  with assms show thesis
    by (auto simp: create_pending_totp_factor_def transact_eq and_then_eq_Inr insert_totp_def insert_audit_def
        split: if_splits intro!: committed)
qed

lemma activate_totp_factor_effect:
  assumes "activate_totp_factor E t a f s corr db = (r, db')"
  obtains (failed) e where "r = Inl e" and "db' = db"
  | (committed) au where "r = Inr ()"
      and "\<exists>x \<in> set (mfa_totp_factors db). pending_factor (tenant_uuid t) (account_uuid a) f x"
      and "\<exists>x \<in> set (accounts db). enrolling_account (tenant_uuid t) (account_uuid a) x"
      and "db' = db\<lparr>mfa_totp_factors := sql_update (pending_factor (tenant_uuid t) (account_uuid a) f)
              (\<lambda>x. x\<lparr>tf_status := ''active'', tf_activated_at := Some (env_now E), tf_last_step := Some s\<rparr>) (mfa_totp_factors db),
            accounts := sql_update (enrolling_account (tenant_uuid t) (account_uuid a))
              (\<lambda>x. x\<lparr>ac_state := ''active'', ac_updated_at := env_now E\<rparr>) (accounts db),
            audit_events := audit_events db @ [au]\<rparr>"
      and "active_factor_index (mfa_totp_factors db')"
proof (cases r)
  case (Inl e)
  then show thesis using assms failed by (auto simp: activate_totp_factor_def transact_eq)
next
  case (Inr x)
  show thesis
  proof (cases "has_account_in db (tenant_uuid t) (account_uuid a) [''mfa_enrollment_required'']")
    case True
    with assms Inr show thesis
      by (auto simp: activate_totp_factor_def transact_eq and_then_eq_Inr insert_audit_def Let_def
          split: if_splits dest!: rows_affected_pos intro!: committed)
  next
    case False
    with assms Inr show thesis
      by (auto simp: activate_totp_factor_def transact_eq and_then_eq_Inr insert_audit_def Let_def
          split: if_splits dest!: rows_affected_pos)
  qed
qed

lemma consume_totp_step_effect:
  assumes "consume_totp_step t a f s db = (r, db')"
  obtains (failed) e where "r = Inl e" and "db' = db"
  | (committed) "r = Inr ()"
      and "\<exists>x \<in> set (mfa_totp_factors db). unspent_factor (tenant_uuid t) (account_uuid a) f s x"
      and "has_account_in db (tenant_uuid t) (account_uuid a) [''active'']"
      and "db' = db\<lparr>mfa_totp_factors := sql_update (unspent_factor (tenant_uuid t) (account_uuid a) f s)
             (\<lambda>x. x\<lparr>tf_last_step := Some s\<rparr>) (mfa_totp_factors db)\<rparr>"
proof (cases r)
  case (Inl e)
  then show thesis using assms failed by (auto simp: consume_totp_step_def transact_eq Let_def)
next
  case (Inr x)
  show thesis
  proof (cases "has_account_in db (tenant_uuid t) (account_uuid a) [''active'']")
    case True
    with assms Inr show thesis
      by (auto simp: consume_totp_step_def transact_eq Let_def split: if_splits dest!: rows_affected_pos intro!: committed)
  next
    case False
    with assms Inr show thesis
      by (auto simp: consume_totp_step_def transact_eq Let_def split: if_splits dest!: rows_affected_pos)
  qed
qed

lemma insert_verifiers_effect:
  assumes "insert_verifiers E n s vs db = Inr db'"
  obtains rows where "db' = db\<lparr>recovery_code_verifiers := recovery_code_verifiers db @ rows\<rparr>"
    and "map rv_verifier rows = vs" and "\<forall>r \<in> set rows. rv_set r = s \<and> rv_consumed_at r = None"
    and "rv_id ` set rows \<inter> rv_id ` set (recovery_code_verifiers db) = {}"
proof -
  have "\<exists>rows. db' = db\<lparr>recovery_code_verifiers := recovery_code_verifiers db @ rows\<rparr> \<and> map rv_verifier rows = vs \<and>
      (\<forall>r \<in> set rows. rv_set r = s \<and> rv_consumed_at r = None) \<and>
      rv_id ` set rows \<inter> rv_id ` set (recovery_code_verifiers db) = {}"
    using assms
  proof (induction vs arbitrary: n db)
    case Nil
    then show ?case by (intro exI [of _ "[]"]) simp
  next
    case (Cons v vs)
    let ?row = "\<lparr>rv_id = env_uuid E n, rv_set = s, rv_verifier = v, rv_consumed_at = None\<rparr>"
    have first: "env_uuid E n \<notin> rv_id ` set (recovery_code_verifiers db)"
      and rest: "insert_verifiers E (Suc n) s vs
        (db\<lparr>recovery_code_verifiers := recovery_code_verifiers db @ [?row]\<rparr>) = Inr db'"
      using Cons.prems by (auto simp: and_then_eq_Inr insert_recovery_verifier_def)
    from Cons.IH [OF rest] obtain rows where
      "db' = db\<lparr>recovery_code_verifiers := recovery_code_verifiers db @ ?row # rows\<rparr>" "map rv_verifier rows = vs"
      "\<forall>r \<in> set rows. rv_set r = s \<and> rv_consumed_at r = None"
      "rv_id ` set rows \<inter> rv_id ` set (recovery_code_verifiers db @ [?row]) = {}"
      by auto
    with first show ?case by (intro exI [of _ "?row # rows"]) auto
  qed
  then show thesis using that by blast
qed

lemma replace_recovery_code_set_effect:
  assumes "replace_recovery_code_set E t a vs corr db = (r, db')"
  obtains (failed) e where "r = Inl e" and "db' = db"
  | (committed) s rows au where "r = Inr \<lparr>code_set_id = rs_id s, code_count = length vs, code_created_at = env_now E\<rparr>"
      and "rs_id s \<notin> rs_id ` set (recovery_code_sets db)" and "rs_tenant s = tenant_uuid t" and "rs_account s = account_uuid a"
      and "rs_invalidated_at s = None" and "map rv_verifier rows = vs"
      and "\<forall>v \<in> set rows. rv_set v = rs_id s \<and> rv_consumed_at v = None"
      and "rv_id ` set rows \<inter> rv_id ` set (recovery_code_verifiers db) = {}"
      and "db' = db\<lparr>recovery_code_sets := sql_update
             (\<lambda>s. rs_tenant s = tenant_uuid t \<and> rs_account s = account_uuid a \<and> rs_invalidated_at s = None)
             (\<lambda>s. s\<lparr>rs_invalidated_at := Some (env_now E)\<rparr>) (recovery_code_sets db) @ [s],
           recovery_code_verifiers := recovery_code_verifiers db @ rows, audit_events := audit_events db @ [au]\<rparr>"
proof (cases r)
  case (Inl e)
  then show thesis using assms failed by (auto simp: replace_recovery_code_set_def transact_eq)
next
  case (Inr x)
  define s where "s = \<lparr>rs_id = env_uuid E 0, rs_tenant = tenant_uuid t, rs_account = account_uuid a,
    rs_created_at = env_now E, rs_invalidated_at = None\<rparr>"
  define sets where "sets = sql_update
    (\<lambda>s. rs_tenant s = tenant_uuid t \<and> rs_account s = account_uuid a \<and> rs_invalidated_at s = None)
    (\<lambda>s. s\<lparr>rs_invalidated_at := Some (env_now E)\<rparr>) (recovery_code_sets db)"
  from Inr assms obtain db3 au where x: "x = \<lparr>code_set_id = rs_id s, code_count = length vs, code_created_at = env_now E\<rparr>"
    and fresh: "rs_id s \<notin> rs_id ` set sets"
    and verifiers: "insert_verifiers E 1 (rs_id s) vs (db\<lparr>recovery_code_sets := sets @ [s]\<rparr>) = Inr db3"
    and db': "db' = db3\<lparr>audit_events := audit_events db3 @ [au]\<rparr>"
    by (auto simp: replace_recovery_code_set_def transact_eq and_then_eq_Inr Let_def insert_recovery_set_def
        insert_audit_def s_def sets_def split: if_splits)
  from verifiers obtain rows where "map rv_verifier rows = vs" "\<forall>v \<in> set rows. rv_set v = rs_id s \<and> rv_consumed_at v = None"
    "rv_id ` set rows \<inter> rv_id ` set (recovery_code_verifiers db) = {}"
    and db3: "db3 = db\<lparr>recovery_code_sets := sets @ [s], recovery_code_verifiers := recovery_code_verifiers db @ rows\<rparr>"
    by (rule insert_verifiers_effect) simp
  moreover have "rs_id ` set sets = rs_id ` set (recovery_code_sets db)"
    unfolding sets_def by (rule sql_update_image) simp
  moreover have "db' = db\<lparr>recovery_code_sets := sets @ [s], recovery_code_verifiers := recovery_code_verifiers db @ rows,
      audit_events := audit_events db @ [au]\<rparr>"
    by (simp add: db' db3)
  ultimately show thesis
    using committed [of s rows au] Inr x fresh unfolding sets_def by (simp add: s_def)
qed

lemma consume_recovery_code_effect:
  assumes "consume_recovery_code E t a v corr db = (r, db')"
  obtains (failed) "r \<noteq> Inr True" and "db' = db"
  | (committed) au where "r = Inr True"
      and "\<exists>x \<in> set (recovery_code_verifiers db). usable_recovery_verifier (tenant_uuid t) (account_uuid a) v db x"
      and "db' = db\<lparr>recovery_code_verifiers := sql_update (usable_recovery_verifier (tenant_uuid t) (account_uuid a) v db) (\<lambda>x. x\<lparr>rv_consumed_at := Some (env_now E)\<rparr>)
             (recovery_code_verifiers db), audit_events := audit_events db @ [au]\<rparr>"
proof -
  let ?P = "usable_recovery_verifier (tenant_uuid t) (account_uuid a) v db"
  have unchanged: "sql_update P f rows = rows" if "filter P rows = []" for P f and rows :: "recovery_verifier_row list"
    using that by (auto simp: sql_update_def filter_empty_conv intro!: map_idI)
  show thesis
  proof (cases "r = Inr True")
    case True
    with assms show thesis
      by (auto simp: consume_recovery_code_def transact_eq and_then_eq_Inr Let_def insert_audit_def
          split: if_splits option.splits dest!: fetch_optional_Some intro!: committed)
  next
    case False
    with assms show thesis
      by (auto simp: consume_recovery_code_def transact_eq and_then_eq_Inr Let_def insert_audit_def unchanged
          split: if_splits option.splits intro!: failed)
  qed
qed

end
