(* ===== verification/Fabric_Sessions.thy ===== *)
theory Fabric_Sessions
  imports Fabric_Mfa
begin

text \<open>
  Access and refresh sessions, rotation and family revocation
  (\<open>fcp-fabric-store/src/sessions.rs\<close> and the session helpers of \<open>helpers.rs\<close>).
\<close>

subsection \<open>Records\<close>

record create_refresh_session_request =
  cs_tenant :: tenant_id
  cs_account :: account_id
  cs_refresh_digest :: opaque_token_digest
  cs_access_digest :: opaque_token_digest
  cs_refresh_expires_at :: timestamp
  cs_access_expires_at :: timestamp
  cs_correlation :: str

record refresh_session_record =
  sr_family :: uuid
  sr_credential :: uuid
  sr_expires_at :: timestamp
  sr_access_session :: uuid
  sr_access_expires_at :: timestamp

record refresh_rotation_record =
  rr_tenant :: tenant_id
  rr_account :: account_id
  rr_family :: uuid
  rr_credential :: uuid
  rr_expires_at :: timestamp
  rr_access_session :: uuid
  rr_access_expires_at :: timestamp

datatype refresh_rotation = Rotated refresh_rotation_record | ReuseDetected | Denied

record refresh_rotation_write =
  rw_credential :: uuid
  rw_tenant :: tenant_id
  rw_account :: account_id
  rw_family :: uuid
  rw_successor_digest :: opaque_token_digest
  rw_successor_access_digest :: opaque_token_digest
  rw_successor_expires_at :: timestamp
  rw_successor_access_expires_at :: timestamp
  rw_correlation :: str
  rw_now :: timestamp

record access_session_authorization =
  authorization_of :: authorization_context
  authorization_family :: uuid

subsection \<open>Helpers\<close>

definition revoke_access :: "uuid \<Rightarrow> timestamp \<Rightarrow> access_row list \<Rightarrow> access_row list" where
  "revoke_access family now = sql_update (\<lambda>s. as_family s = family \<and> as_revoked_at s = None) (\<lambda>s. s\<lparr>as_revoked_at := Some now\<rparr>)"

definition spend_credential :: "uuid \<Rightarrow> timestamp \<Rightarrow> uuid \<Rightarrow> refresh_row list \<Rightarrow> refresh_row list" where
  "spend_credential credential now successor =
     sql_update (\<lambda>c. rf_id c = credential \<and> rf_consumed_at c = None)
       (\<lambda>c. c\<lparr>rf_consumed_at := Some now, rf_replaced_by := Some successor\<rparr>)"

text \<open>The unique index on \<open>replaced_by\<close>, which the rotation writes.\<close>

definition replaced_by_index :: "refresh_row list \<Rightarrow> bool" where
  "replaced_by_index rows \<longleftrightarrow> distinct (filter (\<lambda>x. x \<noteq> None) (map rf_replaced_by rows))"

definition rotate_locked_refresh_credential ::
  "store_env \<Rightarrow> refresh_rotation_write \<Rightarrow> 'j database \<Rightarrow> store_error + refresh_rotation \<times> 'j database" where
  "rotate_locked_refresh_credential E w db =
     (let successor = env_uuid E 0; successor_access = env_uuid E 1; now = rw_now w;
          P = (\<lambda>c. rf_id c = rw_credential w \<and> rf_consumed_at c = None);
          credentials = spend_credential (rw_credential w) now successor (refresh_credentials db) in
      and_then (sql_insert (replaced_by_index credentials) (db\<lparr>refresh_credentials := credentials\<rparr>)) (\<lambda>db1.
      if rows_affected P (refresh_credentials db) \<noteq> 1 then Inr (Denied, db1)
      else and_then (insert_refresh \<lparr>rf_id = successor, rf_tenant = tenant_uuid (rw_tenant w),
          rf_account = account_uuid (rw_account w), rf_family = rw_family w, rf_digest = rw_successor_digest w,
          rf_issued_at = now, rf_expires_at = rw_successor_expires_at w, rf_consumed_at = None, rf_replaced_by = None\<rparr> db1) (\<lambda>db2.
      let db3 = db2\<lparr>access_sessions := revoke_access (rw_family w) now (access_sessions db2)\<rparr> in
      and_then (insert_access \<lparr>as_id = successor_access, as_tenant = tenant_uuid (rw_tenant w),
          as_account = account_uuid (rw_account w), as_family = rw_family w, as_digest = rw_successor_access_digest w,
          as_issued_at = now, as_expires_at = rw_successor_access_expires_at w, as_revoked_at = None\<rparr> db3) (\<lambda>db4.
      and_then (insert_audit \<lparr>aw_id = env_uuid E 2, aw_tenant = rw_tenant w, aw_actor = Some (rw_account w),
          aw_action = SessionIssued, aw_correlation = rw_correlation w,
          aw_metadata = [(''operation'', AuditText ''refresh_rotated''), (''family_id'', AuditUuid (rw_family w)),
            (''credential_id'', AuditUuid successor), (''access_session_id'', AuditUuid successor_access)],
          aw_occurred_at = now\<rparr> db4) (\<lambda>db5.
      Inr (Rotated \<lparr>rr_tenant = rw_tenant w, rr_account = rw_account w, rr_family = rw_family w, rr_credential = successor,
          rr_expires_at = rw_successor_expires_at w, rr_access_session = successor_access,
          rr_access_expires_at = rw_successor_access_expires_at w\<rparr>, db5))))))"

definition live_family :: "uuid \<Rightarrow> uuid \<Rightarrow> uuid \<Rightarrow> family_row \<Rightarrow> bool" where
  "live_family t a family f \<longleftrightarrow> fm_id f = family \<and> fm_tenant f = t \<and> fm_account f = a \<and> fm_revoked_at f = None"

definition revoke_session_family ::
  "store_env \<Rightarrow> tenant_id \<Rightarrow> account_id \<Rightarrow> uuid \<Rightarrow> string \<Rightarrow> str \<Rightarrow> timestamp \<Rightarrow> 'j database \<Rightarrow>
   store_error + bool \<times> 'j database" where
  "revoke_session_family E tenant account family reason correlation now db =
     (let P = live_family (tenant_uuid tenant) (account_uuid account) family;
          db1 = db\<lparr>session_families := sql_update P (\<lambda>f. f\<lparr>fm_revoked_at := Some now, fm_reason := Some reason\<rparr>) (session_families db)\<rparr> in
      if rows_affected P (session_families db) = 1 then
        let db2 = db1\<lparr>access_sessions := revoke_access family now (access_sessions db1)\<rparr> in
        and_then (insert_audit \<lparr>aw_id = env_uuid E 0, aw_tenant = tenant, aw_actor = Some account,
            aw_action = SessionRevoked, aw_correlation = correlation,
            aw_metadata = [(''family_id'', AuditUuid family), (''reason'', AuditText reason)], aw_occurred_at = now\<rparr> db2) (\<lambda>db3.
        Inr (True, db3))
      else Inr (False, db1))"

subsection \<open>Operations\<close>

definition access_session_authorization_context ::
  "store_env \<Rightarrow> opaque_token_digest \<Rightarrow> 'j database \<Rightarrow> store_error + access_session_authorization option" where
  "access_session_authorization_context E digest db =
     (case fetch_optional [(as_tenant s, as_account s, as_family s, ac_state a).
          s \<leftarrow> access_sessions db, as_digest s = digest \<and> as_revoked_at s = None \<and> as_expires_at s > env_now E,
          f \<leftarrow> session_families db, fm_id f = as_family s \<and> fm_revoked_at f = None,
          a \<leftarrow> accounts db, ac_id a = as_account s \<and> ac_tenant a = as_tenant s] of
        None \<Rightarrow> Inr None
      | Some (tenant, account, family, state) \<Rightarrow>
          let tenant_id = TenantId tenant; account_id = AccountId account in
          and_then (parse_account_state state) (\<lambda>account_state.
          if \<not> permits_session account_state then Inr None
          else and_then (roles_for_account tenant_id account_id db) (\<lambda>roles.
            Inr (Some \<lparr>authorization_of = authorization_context_new tenant_id account_id account_state roles False,
                       authorization_family = family\<rparr>))))"

definition create_refresh_session ::
  "store_env \<Rightarrow> create_refresh_session_request \<Rightarrow> 'j database \<Rightarrow> (store_error + refresh_session_record) \<times> 'j database" where
  "create_refresh_session E q db = transact db (
     and_then (store_validate_correlation_id (cs_correlation q)) (\<lambda>_.
     let now = env_now E; t = tenant_uuid (cs_tenant q); a = account_uuid (cs_account q);
         family = env_uuid E 0; credential = env_uuid E 1; access = env_uuid E 2 in
     if cs_refresh_expires_at q \<le> now \<or> cs_access_expires_at q \<le> now then Inl InvalidSessionExpiry
     else if \<not> has_account_in db t a [''active''] then Inl TargetNotFoundOrUnchanged
     else and_then (insert_family \<lparr>fm_id = family, fm_tenant = t, fm_account = a, fm_created_at = now,
         fm_revoked_at = None, fm_reason = None\<rparr> db) (\<lambda>db.
     and_then (insert_refresh \<lparr>rf_id = credential, rf_tenant = t, rf_account = a, rf_family = family,
         rf_digest = cs_refresh_digest q, rf_issued_at = now, rf_expires_at = cs_refresh_expires_at q,
         rf_consumed_at = None, rf_replaced_by = None\<rparr> db) (\<lambda>db.
     and_then (insert_access \<lparr>as_id = access, as_tenant = t, as_account = a, as_family = family,
         as_digest = cs_access_digest q, as_issued_at = now, as_expires_at = cs_access_expires_at q,
         as_revoked_at = None\<rparr> db) (\<lambda>db.
     and_then (insert_audit \<lparr>aw_id = env_uuid E 3, aw_tenant = cs_tenant q, aw_actor = Some (cs_account q),
         aw_action = SessionIssued, aw_correlation = cs_correlation q,
         aw_metadata = [(''family_id'', AuditUuid family), (''credential_id'', AuditUuid credential),
           (''access_session_id'', AuditUuid access)], aw_occurred_at = now\<rparr> db) (\<lambda>db.
     Inr (\<lparr>sr_family = family, sr_credential = credential, sr_expires_at = cs_refresh_expires_at q,
           sr_access_session = access, sr_access_expires_at = cs_access_expires_at q\<rparr>, db)))))))"

definition rotation_lookup :: "opaque_token_digest \<Rightarrow> 'j database \<Rightarrow> (refresh_row \<times> family_row \<times> account_row) list" where
  "rotation_lookup presented db = [(c, f, a).
     c \<leftarrow> refresh_credentials db, rf_digest c = presented,
     f \<leftarrow> session_families db, fm_id f = rf_family c,
     a \<leftarrow> accounts db, ac_id a = rf_account c \<and> ac_tenant a = rf_tenant c]"

text \<open>What happens to the presented credential once its row, family and account are locked.\<close>

definition rotate_presented ::
  "store_env \<Rightarrow> opaque_token_digest \<Rightarrow> opaque_token_digest \<Rightarrow> timestamp \<Rightarrow> timestamp \<Rightarrow> str \<Rightarrow>
   refresh_row \<Rightarrow> family_row \<Rightarrow> account_row \<Rightarrow> 'j database \<Rightarrow> store_error + refresh_rotation \<times> 'j database" where
  "rotate_presented E successor successor_access expires access_expires correlation c f a db =
     (let now = env_now E; tenant = TenantId (rf_tenant c); account = AccountId (rf_account c) in
      and_then (parse_account_state (ac_state a)) (\<lambda>state.
      if rf_consumed_at c \<noteq> None then
        if fm_revoked_at f = None then
          and_then (revoke_session_family E tenant account (rf_family c) ''refresh_token_reuse'' correlation now db) (\<lambda>(_, db1).
          Inr (ReuseDetected, db1))
        else Inr (Denied, db)
      else if fm_revoked_at f \<noteq> None \<or> rf_expires_at c \<le> now \<or> \<not> permits_session state then Inr (Denied, db)
      else rotate_locked_refresh_credential E
        \<lparr>rw_credential = rf_id c, rw_tenant = tenant, rw_account = account, rw_family = rf_family c,
         rw_successor_digest = successor, rw_successor_access_digest = successor_access,
         rw_successor_expires_at = expires, rw_successor_access_expires_at = access_expires,
         rw_correlation = correlation, rw_now = now\<rparr> db))"

definition rotate_refresh_credential ::
  "store_env \<Rightarrow> opaque_token_digest \<Rightarrow> opaque_token_digest \<Rightarrow> opaque_token_digest \<Rightarrow> timestamp \<Rightarrow> timestamp \<Rightarrow> str \<Rightarrow>
   'j database \<Rightarrow> (store_error + refresh_rotation) \<times> 'j database" where
  "rotate_refresh_credential E presented successor successor_access expires access_expires correlation db = transact db (
     and_then (store_validate_correlation_id correlation) (\<lambda>_.
     if expires \<le> env_now E \<or> access_expires \<le> env_now E then Inl InvalidSessionExpiry
     else case fetch_optional (rotation_lookup presented db) of
        None \<Rightarrow> Inr (Denied, db)
      | Some (c, f, a) \<Rightarrow> rotate_presented E successor successor_access expires access_expires correlation c f a db))"

definition revoke_refresh_session_family ::
  "store_env \<Rightarrow> tenant_id \<Rightarrow> account_id \<Rightarrow> uuid \<Rightarrow> str \<Rightarrow> 'j database \<Rightarrow> (store_error + bool) \<times> 'j database" where
  "revoke_refresh_session_family E tenant account family correlation db = transact db (
     and_then (store_validate_correlation_id correlation) (\<lambda>_.
     revoke_session_family E tenant account family ''explicit_revocation'' correlation (env_now E) db))"

subsection \<open>Updates keyed by an identifier\<close>

lemma rows_affected_unique:
  assumes "distinct (map g rows)" and "\<And>r. P r \<Longrightarrow> g r = k"
  shows "rows_affected P rows \<noteq> 1 \<longleftrightarrow> (\<forall>r \<in> set rows. \<not> P r)"
proof -
  have "rows_affected P rows \<le> 1"
    using assms
  proof (induction rows)
    case (Cons r rows)
    show ?case
    proof (cases "P r")
      case True
      then have "\<forall>x \<in> set rows. \<not> P x" using Cons.prems by force
      then show ?thesis using True by (simp add: rows_affected_def filter_empty_conv)
    qed (use Cons in \<open>simp add: rows_affected_def\<close>)
  qed (simp add: rows_affected_def)
  then show ?thesis using rows_affected_0 [of P rows] by auto
qed

lemma sql_update_none: "\<forall>r \<in> set rows. \<not> P r \<Longrightarrow> sql_update P f rows = rows"
  by (auto simp: sql_update_def intro!: map_idI)

lemma distinct_map_inj: "distinct (map g rows) \<Longrightarrow> r \<in> set rows \<Longrightarrow> r' \<in> set rows \<Longrightarrow> g r = g r' \<Longrightarrow> r = r'"
  by (auto simp: distinct_map dest: inj_onD)

subsection \<open>Effects\<close>

lemma revoke_session_family_effect:
  assumes "revoke_session_family E t a fam reason corr now db = Inr (b, db')"
    and "distinct (map fm_id (session_families db))"
  obtains (absent) "\<not> b" and "db' = db" and "\<forall>f \<in> set (session_families db). \<not> live_family (tenant_uuid t) (account_uuid a) fam f"
  | (revoked) au where "b" and "\<exists>f \<in> set (session_families db). live_family (tenant_uuid t) (account_uuid a) fam f"
      and "db' = db\<lparr>session_families := sql_update (live_family (tenant_uuid t) (account_uuid a) fam)
             (\<lambda>f. f\<lparr>fm_revoked_at := Some now, fm_reason := Some reason\<rparr>) (session_families db),
           access_sessions := revoke_access fam now (access_sessions db), audit_events := audit_events db @ [au]\<rparr>"
proof -
  let ?P = "live_family (tenant_uuid t) (account_uuid a) fam"
  have affected: "rows_affected ?P (session_families db) \<noteq> 1 \<longleftrightarrow> (\<forall>f \<in> set (session_families db). \<not> ?P f)"
    using assms(2) by (rule rows_affected_unique) (simp add: live_family_def)
  show thesis
  proof (cases "rows_affected ?P (session_families db) = 1")
    case True
    with assms(1) affected show thesis
      by (auto simp: revoke_session_family_def Let_def and_then_eq_Inr insert_audit_def intro!: revoked)
  next
    case False
    with assms(1) affected show thesis
      by (auto simp: revoke_session_family_def Let_def sql_update_none intro!: absent)
  qed
qed

lemma revoke_refresh_session_family_effect:
  assumes "revoke_refresh_session_family E t a fam corr db = (r, db')"
    and "distinct (map fm_id (session_families db))"
  obtains (unchanged) "r \<noteq> Inr True" and "db' = db"
  | (revoked) au where "r = Inr True" and "\<exists>f \<in> set (session_families db). live_family (tenant_uuid t) (account_uuid a) fam f"
      and "db' = db\<lparr>session_families := sql_update (live_family (tenant_uuid t) (account_uuid a) fam)
             (\<lambda>f. f\<lparr>fm_revoked_at := Some (env_now E), fm_reason := Some ''explicit_revocation''\<rparr>) (session_families db),
           access_sessions := revoke_access fam (env_now E) (access_sessions db), audit_events := audit_events db @ [au]\<rparr>"
proof (cases r)
  case (Inl e)
  then show thesis using assms(1) unchanged by (auto simp: revoke_refresh_session_family_def transact_eq)
next
  case (Inr b)
  then have run: "revoke_session_family E t a fam ''explicit_revocation'' corr (env_now E) db = Inr (b, db')"
    using assms(1) by (auto simp: revoke_refresh_session_family_def transact_eq and_then_eq_Inr)
  show thesis
    by (rule revoke_session_family_effect [OF run assms(2)]) (auto simp: Inr intro: unchanged revoked)
qed

lemma create_refresh_session_effect:
  assumes "create_refresh_session E q db = (r, db')"
  obtains (failed) e where "r = Inl e" and "db' = db"
  | (committed) f c s au where "r = Inr \<lparr>sr_family = fm_id f, sr_credential = rf_id c, sr_expires_at = rf_expires_at c,
        sr_access_session = as_id s, sr_access_expires_at = as_expires_at s\<rparr>"
      and "has_account_in db (tenant_uuid (cs_tenant q)) (account_uuid (cs_account q)) [''active'']"
      and "f = \<lparr>fm_id = env_uuid E 0, fm_tenant = tenant_uuid (cs_tenant q), fm_account = account_uuid (cs_account q),
        fm_created_at = env_now E, fm_revoked_at = None, fm_reason = None\<rparr>"
      and "c = \<lparr>rf_id = env_uuid E 1, rf_tenant = fm_tenant f, rf_account = fm_account f, rf_family = fm_id f,
        rf_digest = cs_refresh_digest q, rf_issued_at = env_now E, rf_expires_at = cs_refresh_expires_at q,
        rf_consumed_at = None, rf_replaced_by = None\<rparr>"
      and "s = \<lparr>as_id = env_uuid E 2, as_tenant = fm_tenant f, as_account = fm_account f, as_family = fm_id f,
        as_digest = cs_access_digest q, as_issued_at = env_now E, as_expires_at = cs_access_expires_at q, as_revoked_at = None\<rparr>"
      and "fm_id f \<notin> fm_id ` set (session_families db)" and "rf_id c \<notin> rf_id ` set (refresh_credentials db)"
      and "rf_digest c \<notin> rf_digest ` set (refresh_credentials db)" and "as_digest s \<notin> as_digest ` set (access_sessions db)"
      and "env_now E < rf_expires_at c" and "env_now E < as_expires_at s"
      and "db' = db\<lparr>session_families := session_families db @ [f], refresh_credentials := refresh_credentials db @ [c],
        access_sessions := access_sessions db @ [s], audit_events := audit_events db @ [au]\<rparr>"
proof (cases r)
  case (Inl e)
  then show thesis using assms failed by (auto simp: create_refresh_session_def transact_eq)
next
  case (Inr x)
  show thesis
    by (rule committed [OF _ _ refl refl refl])
      (use assms Inr in \<open>auto simp: create_refresh_session_def transact_eq and_then_eq_Inr Let_def insert_family_def
        insert_refresh_def insert_access_def insert_audit_def split: if_splits\<close>)
qed

subsection \<open>The session invariant\<close>

text \<open>
  Every credential and access session belongs to the family of the same tenant and account; a family
  has at most one unconsumed credential and at most one unrevoked access session; a revoked family
  has no unrevoked access session.
\<close>

definition sessions_ok :: "'j database \<Rightarrow> bool" where
  "sessions_ok db \<longleftrightarrow>
     distinct (map fm_id (session_families db)) \<and> distinct (map rf_id (refresh_credentials db)) \<and>
     distinct (map rf_digest (refresh_credentials db)) \<and> distinct (map as_digest (access_sessions db)) \<and>
     (\<forall>c \<in> set (refresh_credentials db). \<exists>f \<in> set (session_families db).
        fm_id f = rf_family c \<and> fm_tenant f = rf_tenant c \<and> fm_account f = rf_account c) \<and>
     (\<forall>s \<in> set (access_sessions db). \<exists>f \<in> set (session_families db).
        fm_id f = as_family s \<and> fm_tenant f = as_tenant s \<and> fm_account f = as_account s) \<and>
     (\<forall>f \<in> set (session_families db). \<forall>s \<in> set (access_sessions db).
        fm_revoked_at f \<noteq> None \<longrightarrow> as_family s = fm_id f \<longrightarrow> as_revoked_at s \<noteq> None) \<and>
     (\<forall>c \<in> set (refresh_credentials db). \<forall>d \<in> set (refresh_credentials db).
        rf_family c = rf_family d \<longrightarrow> rf_consumed_at c = None \<longrightarrow> rf_consumed_at d = None \<longrightarrow> c = d) \<and>
     (\<forall>s \<in> set (access_sessions db). \<forall>u \<in> set (access_sessions db).
        as_family s = as_family u \<longrightarrow> as_revoked_at s = None \<longrightarrow> as_revoked_at u = None \<longrightarrow> s = u)"

lemma sessions_okD:
  assumes "sessions_ok db"
  shows "distinct (map fm_id (session_families db))" and "distinct (map rf_id (refresh_credentials db))"
    and "distinct (map rf_digest (refresh_credentials db))" and "distinct (map as_digest (access_sessions db))"
    and "c \<in> set (refresh_credentials db) \<Longrightarrow> \<exists>f \<in> set (session_families db).
        fm_id f = rf_family c \<and> fm_tenant f = rf_tenant c \<and> fm_account f = rf_account c"
    and "s \<in> set (access_sessions db) \<Longrightarrow> \<exists>f \<in> set (session_families db).
        fm_id f = as_family s \<and> fm_tenant f = as_tenant s \<and> fm_account f = as_account s"
    and "f \<in> set (session_families db) \<Longrightarrow> s \<in> set (access_sessions db) \<Longrightarrow> fm_revoked_at f \<noteq> None \<Longrightarrow>
        as_family s = fm_id f \<Longrightarrow> as_revoked_at s \<noteq> None"
    and "c \<in> set (refresh_credentials db) \<Longrightarrow> d \<in> set (refresh_credentials db) \<Longrightarrow> rf_family c = rf_family d \<Longrightarrow>
        rf_consumed_at c = None \<Longrightarrow> rf_consumed_at d = None \<Longrightarrow> c = d"
    and "s \<in> set (access_sessions db) \<Longrightarrow> u \<in> set (access_sessions db) \<Longrightarrow> as_family s = as_family u \<Longrightarrow>
        as_revoked_at s = None \<Longrightarrow> as_revoked_at u = None \<Longrightarrow> s = u"
  using assms unfolding sessions_ok_def by blast+

lemma credential_family:
  assumes "sessions_ok db" and "c \<in> set (refresh_credentials db)" and "f \<in> set (session_families db)"
    and "fm_id f = rf_family c"
  shows "fm_tenant f = rf_tenant c" and "fm_account f = rf_account c"
  using sessions_okD(5) [OF assms(1,2)] distinct_map_inj [OF sessions_okD(1) [OF assms(1)] assms(3)] assms(4) by metis+

lemma spend_credential_keeps [simp]:
  "map rf_id (spend_credential credential now successor rows) = map rf_id rows"
  "map rf_digest (spend_credential credential now successor rows) = map rf_digest rows"
  "rf_id ` set (spend_credential credential now successor rows) = rf_id ` set rows"
  "rf_digest ` set (spend_credential credential now successor rows) = rf_digest ` set rows"
  unfolding spend_credential_def by (rule sql_update_map sql_update_image; simp)+

lemma revoke_access_keeps [simp]:
  "map as_digest (revoke_access family now rows) = map as_digest rows"
  "as_digest ` set (revoke_access family now rows) = as_digest ` set rows"
  unfolding revoke_access_def by (rule sql_update_map sql_update_image; simp)+

lemma rotate_locked_effect:
  assumes "rotate_locked_refresh_credential E w db = Inr (r, db')" and "distinct (map rf_id (refresh_credentials db))"
    and "c \<in> set (refresh_credentials db)" and "rf_id c = rw_credential w" and "rf_consumed_at c = None"
  obtains n s au where "r = Rotated \<lparr>rr_tenant = rw_tenant w, rr_account = rw_account w, rr_family = rw_family w,
        rr_credential = rf_id n, rr_expires_at = rf_expires_at n, rr_access_session = as_id s, rr_access_expires_at = as_expires_at s\<rparr>"
    and "n = \<lparr>rf_id = env_uuid E 0, rf_tenant = tenant_uuid (rw_tenant w), rf_account = account_uuid (rw_account w),
        rf_family = rw_family w, rf_digest = rw_successor_digest w, rf_issued_at = rw_now w,
        rf_expires_at = rw_successor_expires_at w, rf_consumed_at = None, rf_replaced_by = None\<rparr>"
    and "s = \<lparr>as_id = env_uuid E 1, as_tenant = tenant_uuid (rw_tenant w), as_account = account_uuid (rw_account w),
        as_family = rw_family w, as_digest = rw_successor_access_digest w, as_issued_at = rw_now w,
        as_expires_at = rw_successor_access_expires_at w, as_revoked_at = None\<rparr>"
    and "rf_id n \<notin> rf_id ` set (refresh_credentials db)" and "rf_digest n \<notin> rf_digest ` set (refresh_credentials db)"
    and "as_digest s \<notin> as_digest ` set (access_sessions db)"
    and "db' = db\<lparr>refresh_credentials := spend_credential (rw_credential w) (rw_now w) (rf_id n) (refresh_credentials db) @ [n],
        access_sessions := revoke_access (rw_family w) (rw_now w) (access_sessions db) @ [s],
        audit_events := audit_events db @ [au]\<rparr>"
proof -
  let ?P = "\<lambda>c. rf_id c = rw_credential w \<and> rf_consumed_at c = None"
  have "rows_affected ?P (refresh_credentials db) = 1"
    using rows_affected_unique [OF assms(2), of ?P "rw_credential w"] assms(3,4,5) by blast
  then show thesis
    using assms(1)
    by (intro that [OF _ refl refl]) (auto simp: rotate_locked_refresh_credential_def Let_def and_then_eq_Inr insert_refresh_def
        insert_access_def insert_audit_def)
qed

lemma rotation_lookup_member:
  "(c, f, a) \<in> set (rotation_lookup p db) \<longleftrightarrow>
     c \<in> set (refresh_credentials db) \<and> rf_digest c = p \<and> f \<in> set (session_families db) \<and> fm_id f = rf_family c \<and>
     a \<in> set (accounts db) \<and> ac_id a = rf_account c \<and> ac_tenant a = rf_tenant c"
  by (auto simp: rotation_lookup_def)

lemma rotate_presented_cases:
  assumes "rotate_presented E n na x xa corr c f a db = Inr (o', db')"
  obtains (denied) "db' = db" and "o' = Denied"
  | (reused) b where "o' = ReuseDetected" and "rf_consumed_at c \<noteq> None" and "fm_revoked_at f = None"
      and "revoke_session_family E (TenantId (rf_tenant c)) (AccountId (rf_account c)) (rf_family c)
             ''refresh_token_reuse'' corr (env_now E) db = Inr (b, db')"
  | (renewed) "rf_consumed_at c = None" and "fm_revoked_at f = None" and "env_now E < rf_expires_at c" and "ac_state a = ''active''"
      and "rotate_locked_refresh_credential E
            \<lparr>rw_credential = rf_id c, rw_tenant = TenantId (rf_tenant c), rw_account = AccountId (rf_account c), rw_family = rf_family c,
             rw_successor_digest = n, rw_successor_access_digest = na, rw_successor_expires_at = x,
             rw_successor_access_expires_at = xa, rw_correlation = corr, rw_now = env_now E\<rparr> db = Inr (o', db')"
  using assms
  by (auto simp: rotate_presented_def and_then_eq_Inr Let_def parse_account_active split: if_splits)

lemma rotate_refresh_credential_effect:
  assumes run: "rotate_refresh_credential E p n na x xa corr db = (r, db')" and ok: "sessions_ok db"
  obtains (unchanged) "db' = db" and "r = Inr Denied \<or> (\<exists>e. r = Inl e)"
  | (reuse) c f au where "r = Inr ReuseDetected" and "c \<in> set (refresh_credentials db)" and "rf_digest c = p"
      and "rf_consumed_at c \<noteq> None" and "f \<in> set (session_families db)"
      and "live_family (rf_tenant c) (rf_account c) (rf_family c) f"
      and "db' = db\<lparr>session_families := sql_update (live_family (rf_tenant c) (rf_account c) (rf_family c))
             (\<lambda>f. f\<lparr>fm_revoked_at := Some (env_now E), fm_reason := Some ''refresh_token_reuse''\<rparr>) (session_families db),
           access_sessions := revoke_access (rf_family c) (env_now E) (access_sessions db), audit_events := audit_events db @ [au]\<rparr>"
  | (rotated) c f m s au where "r = Inr (Rotated \<lparr>rr_tenant = TenantId (rf_tenant c), rr_account = AccountId (rf_account c),
        rr_family = rf_family c, rr_credential = rf_id m, rr_expires_at = x, rr_access_session = as_id s, rr_access_expires_at = xa\<rparr>)"
      and "c \<in> set (refresh_credentials db)" and "rf_digest c = p" and "rf_consumed_at c = None" and "env_now E < rf_expires_at c"
      and "f \<in> set (session_families db)" and "live_family (rf_tenant c) (rf_account c) (rf_family c) f"
      and "has_account_in db (rf_tenant c) (rf_account c) [''active'']" and "env_now E < x" and "env_now E < xa"
      and "m = \<lparr>rf_id = env_uuid E 0, rf_tenant = rf_tenant c, rf_account = rf_account c, rf_family = rf_family c,
        rf_digest = n, rf_issued_at = env_now E, rf_expires_at = x, rf_consumed_at = None, rf_replaced_by = None\<rparr>"
      and "s = \<lparr>as_id = env_uuid E 1, as_tenant = rf_tenant c, as_account = rf_account c, as_family = rf_family c,
        as_digest = na, as_issued_at = env_now E, as_expires_at = xa, as_revoked_at = None\<rparr>"
      and "rf_id m \<notin> rf_id ` set (refresh_credentials db)" and "n \<notin> rf_digest ` set (refresh_credentials db)"
      and "na \<notin> as_digest ` set (access_sessions db)"
      and "db' = db\<lparr>refresh_credentials := spend_credential (rf_id c) (env_now E) (rf_id m) (refresh_credentials db) @ [m],
        access_sessions := revoke_access (rf_family c) (env_now E) (access_sessions db) @ [s],
        audit_events := audit_events db @ [au]\<rparr>"
proof (cases r)
  case (Inl e)
  then show thesis using run unchanged by (auto simp: rotate_refresh_credential_def transact_eq)
next
  case (Inr o')
  note def = rotate_refresh_credential_def [of E p n na x xa corr db]
  show thesis
  proof (cases "fetch_optional (rotation_lookup p db)")
    case None
    then show thesis using run Inr unchanged
      by (auto simp: def transact_eq and_then_eq_Inr simp del: fetch_optional_None split: if_splits)
  next
    case (Some row)
    obtain c f a where row: "row = (c, f, a)" by (metis prod_cases3)
    then have "(c, f, a) \<in> set (rotation_lookup p db)" using fetch_optional_Some [OF Some] by simp
    then have c: "c \<in> set (refresh_credentials db)" "rf_digest c = p" and f: "f \<in> set (session_families db)" "fm_id f = rf_family c"
      and a: "a \<in> set (accounts db)" "ac_id a = rf_account c" "ac_tenant a = rf_tenant c"
      by (simp_all only: rotation_lookup_member simp_thms)
    have owner: "fm_tenant f = rf_tenant c" "fm_account f = rf_account c"
      using credential_family [OF ok c(1) f] by simp_all
    have times: "env_now E < x" "env_now E < xa" and presented: "rotate_presented E n na x xa corr c f a db = Inr (o', db')"
      using run Inr Some by (auto simp: def row transact_eq and_then_eq_Inr split: if_splits)
    from presented show thesis
    proof (cases rule: rotate_presented_cases)
      case denied
      then show thesis using unchanged Inr by simp
    next
      case (reused b)
      have live: "live_family (rf_tenant c) (rf_account c) (rf_family c) f"
        using f owner reused by (simp add: live_family_def)
      from reused(4) sessions_okD(1) [OF ok] show thesis
      proof (cases rule: revoke_session_family_effect)
        case absent
        then show thesis using f(1) live by simp
      next
        case (revoked au)
        show thesis
          by (rule reuse [OF _ c reused(2) f(1) live, of au]) (use revoked(3) reused(1) Inr in simp_all)
      qed
    next
      case renewed
      have live: "live_family (rf_tenant c) (rf_account c) (rf_family c) f"
        using f owner renewed by (simp add: live_family_def)
      have active: "has_account_in db (rf_tenant c) (rf_account c) [''active'']"
        using a renewed by (auto simp: has_account_in_def list_ex_iff)
      show thesis
      proof (rule rotate_locked_effect [OF renewed(5) sessions_okD(2) [OF ok] c(1)], goal_cases)
        case (3 m s au)
        show thesis
          by (rule rotated [OF _ c renewed(1,3) f(1) live active times refl refl, of au]) (use 3 Inr in simp_all)
      qed (simp_all add: renewed)
    qed
  qed
qed

subsection \<open>The invariant is kept\<close>

lemma revoke_access_member:
  assumes "s' \<in> set (revoke_access fam now rows)"
  obtains s where "s \<in> set rows" and "as_family s' = as_family s" and "as_tenant s' = as_tenant s"
    and "as_account s' = as_account s" and "as_revoked_at s' = None \<longrightarrow> s' = s \<and> as_family s \<noteq> fam"
  using assms by (auto simp: revoke_access_def set_sql_update split: if_splits)

lemma spend_credential_member:
  assumes "c' \<in> set (spend_credential i now n rows)"
  obtains c where "c \<in> set rows" and "rf_family c' = rf_family c" and "rf_tenant c' = rf_tenant c"
    and "rf_account c' = rf_account c" and "rf_consumed_at c' = None \<longrightarrow> c' = c \<and> rf_id c \<noteq> i"
  using assms by (auto simp: spend_credential_def set_sql_update split: if_splits)

lemma revoke_family_member:
  assumes "f' \<in> set (sql_update (live_family t a fam) (\<lambda>f. f\<lparr>fm_revoked_at := Some now, fm_reason := Some reason\<rparr>) rows)"
  obtains f where "f \<in> set rows" and "fm_id f' = fm_id f" and "fm_tenant f' = fm_tenant f" and "fm_account f' = fm_account f"
    and "f' = f \<or> fm_id f = fam"
  using assms by (auto simp: set_sql_update live_family_def split: if_splits)

lemma revoke_family_image:
  "f \<in> set rows \<Longrightarrow> \<exists>f' \<in> set (sql_update (live_family t a fam) (\<lambda>f. f\<lparr>fm_revoked_at := Some now, fm_reason := Some reason\<rparr>) rows).
     fm_id f' = fm_id f \<and> fm_tenant f' = fm_tenant f \<and> fm_account f' = fm_account f"
  by (rule bexI [of _ "if live_family t a fam f then f\<lparr>fm_revoked_at := Some now, fm_reason := Some reason\<rparr> else f"])
    (auto simp: set_sql_update)

lemma sessions_ok_revoked:
  assumes ok: "sessions_ok db"
    and families: "session_families db' = sql_update (live_family t a fam)
      (\<lambda>f. f\<lparr>fm_revoked_at := Some now, fm_reason := Some reason\<rparr>) (session_families db)"
    and access: "access_sessions db' = revoke_access fam now (access_sessions db)"
    and refresh: "refresh_credentials db' = refresh_credentials db"
  shows "sessions_ok db'"
  unfolding sessions_ok_def families access refresh
proof (intro conjI ballI impI)
  show "distinct (map fm_id (sql_update (live_family t a fam) (\<lambda>f. f\<lparr>fm_revoked_at := Some now, fm_reason := Some reason\<rparr>) (session_families db)))"
    using sessions_okD(1) [OF ok] by (subst sql_update_map) simp_all
  show "distinct (map as_digest (revoke_access fam now (access_sessions db)))"
    using sessions_okD(4) [OF ok] by simp
next
  fix c assume "c \<in> set (refresh_credentials db)"
  then obtain f where "f \<in> set (session_families db)" "fm_id f = rf_family c \<and> fm_tenant f = rf_tenant c \<and> fm_account f = rf_account c"
    using sessions_okD(5) [OF ok] by blast
  then show "\<exists>f \<in> set (sql_update (live_family t a fam) (\<lambda>f. f\<lparr>fm_revoked_at := Some now, fm_reason := Some reason\<rparr>) (session_families db)).
      fm_id f = rf_family c \<and> fm_tenant f = rf_tenant c \<and> fm_account f = rf_account c"
    using revoke_family_image [of f] by metis
next
  fix s' assume "s' \<in> set (revoke_access fam now (access_sessions db))"
  then obtain s where s: "s \<in> set (access_sessions db)" "as_family s' = as_family s" "as_tenant s' = as_tenant s" "as_account s' = as_account s"
    by (rule revoke_access_member)
  then obtain f where "f \<in> set (session_families db)" "fm_id f = as_family s \<and> fm_tenant f = as_tenant s \<and> fm_account f = as_account s"
    using sessions_okD(6) [OF ok] by blast
  then show "\<exists>f \<in> set (sql_update (live_family t a fam) (\<lambda>f. f\<lparr>fm_revoked_at := Some now, fm_reason := Some reason\<rparr>) (session_families db)).
      fm_id f = as_family s' \<and> fm_tenant f = as_tenant s' \<and> fm_account f = as_account s'"
    using revoke_family_image [of f] s by metis
next
  fix f' s' assume f': "f' \<in> set (sql_update (live_family t a fam) (\<lambda>f. f\<lparr>fm_revoked_at := Some now, fm_reason := Some reason\<rparr>) (session_families db))"
    and s': "s' \<in> set (revoke_access fam now (access_sessions db))" and rev: "fm_revoked_at f' \<noteq> None" and same: "as_family s' = fm_id f'"
  show "as_revoked_at s' \<noteq> None"
  proof
    assume none: "as_revoked_at s' = None"
    from s' none have s: "s' \<in> set (access_sessions db)" "as_family s' \<noteq> fam"
      by (blast elim: revoke_access_member)+
    from f' obtain f where "f \<in> set (session_families db)" "fm_id f' = fm_id f" "f' = f \<or> fm_id f = fam"
      by (rule revoke_family_member)
    with s same rev none show False using sessions_okD(7) [OF ok, of f s'] by auto
  qed
next
  fix s' u' assume "s' \<in> set (revoke_access fam now (access_sessions db))" "u' \<in> set (revoke_access fam now (access_sessions db))"
    and same: "as_family s' = as_family u'" "as_revoked_at s' = None" "as_revoked_at u' = None"
  then have "s' \<in> set (access_sessions db)" "u' \<in> set (access_sessions db)"
    by (blast elim: revoke_access_member)+
  then show "s' = u'" using same by (rule sessions_okD(9) [OF ok])
qed (use sessions_okD(2,3,8) [OF ok] in auto)

lemma sessions_ok_created:
  assumes ok: "sessions_ok db"
    and families: "session_families db' = session_families db @ [f]"
    and refresh: "refresh_credentials db' = refresh_credentials db @ [c]"
    and access: "access_sessions db' = access_sessions db @ [s]"
    and new: "fm_id f \<notin> fm_id ` set (session_families db)" "rf_id c \<notin> rf_id ` set (refresh_credentials db)"
      "rf_digest c \<notin> rf_digest ` set (refresh_credentials db)" "as_digest s \<notin> as_digest ` set (access_sessions db)"
    and same: "rf_family c = fm_id f" "rf_tenant c = fm_tenant f" "rf_account c = fm_account f"
      "as_family s = fm_id f" "as_tenant s = fm_tenant f" "as_account s = fm_account f" "fm_revoked_at f = None"
  shows "sessions_ok db'"
proof -
  have c: "rf_family d \<noteq> fm_id f" if "d \<in> set (refresh_credentials db)" for d
    using sessions_okD(5) [OF ok that] new(1) by (metis image_eqI)
  have u: "as_family u \<noteq> fm_id f" if "u \<in> set (access_sessions db)" for u
    using sessions_okD(6) [OF ok that] new(1) by (metis image_eqI)
  show ?thesis
    unfolding sessions_ok_def families refresh access
  proof (intro conjI ballI impI)
    fix d assume "d \<in> set (refresh_credentials db @ [c])"
    then show "\<exists>f \<in> set (session_families db @ [f]). fm_id f = rf_family d \<and> fm_tenant f = rf_tenant d \<and> fm_account f = rf_account d"
      using sessions_okD(5) [OF ok, of d] same by auto
  next
    fix u assume "u \<in> set (access_sessions db @ [s])"
    then show "\<exists>f \<in> set (session_families db @ [f]). fm_id f = as_family u \<and> fm_tenant f = as_tenant u \<and> fm_account f = as_account u"
      using sessions_okD(6) [OF ok, of u] same by auto
  next
    fix g u assume "g \<in> set (session_families db @ [f])" "u \<in> set (access_sessions db @ [s])"
      "fm_revoked_at g \<noteq> None" "as_family u = fm_id g"
    then show "as_revoked_at u \<noteq> None"
      using sessions_okD(7) [OF ok, of g u] same new(1) by auto
  next
    fix d e assume "d \<in> set (refresh_credentials db @ [c])" "e \<in> set (refresh_credentials db @ [c])"
      "rf_family d = rf_family e" "rf_consumed_at d = None" "rf_consumed_at e = None"
    then show "d = e"
      using sessions_okD(8) [OF ok, of d e] c [of d] c [of e] same(1) by (metis UnE empty_iff insertE list.set set_append)
  next
    fix u v assume "u \<in> set (access_sessions db @ [s])" "v \<in> set (access_sessions db @ [s])"
      "as_family u = as_family v" "as_revoked_at u = None" "as_revoked_at v = None"
    then show "u = v"
      using sessions_okD(9) [OF ok, of u v] u [of u] u [of v] same(4) by (metis UnE empty_iff insertE list.set set_append)
  qed (use sessions_okD(1-4) [OF ok] new in auto)
qed

lemma sessions_ok_rotated:
  assumes ok: "sessions_ok db"
    and c: "c \<in> set (refresh_credentials db)" "rf_consumed_at c = None"
    and f: "f \<in> set (session_families db)" "live_family (rf_tenant c) (rf_account c) (rf_family c) f"
    and families: "session_families db' = session_families db"
    and refresh: "refresh_credentials db' = spend_credential (rf_id c) now (rf_id m) (refresh_credentials db) @ [m]"
    and access: "access_sessions db' = revoke_access (rf_family c) now (access_sessions db) @ [s]"
    and new: "rf_id m \<notin> rf_id ` set (refresh_credentials db)" "rf_digest m \<notin> rf_digest ` set (refresh_credentials db)"
      "as_digest s \<notin> as_digest ` set (access_sessions db)"
    and same: "rf_family m = rf_family c" "rf_tenant m = rf_tenant c" "rf_account m = rf_account c"
      "as_family s = rf_family c" "as_tenant s = rf_tenant c" "as_account s = rf_account c"
  shows "sessions_ok db'"
proof -
  have spent: "d \<in> set (refresh_credentials db) \<and> rf_family d \<noteq> rf_family c"
    if d: "d \<in> set (spend_credential (rf_id c) now (rf_id m) (refresh_credentials db))" "rf_consumed_at d = None" for d
  proof -
    from d have "d \<in> set (refresh_credentials db)" "rf_id d \<noteq> rf_id c"
      by (blast elim: spend_credential_member)+
    then show ?thesis using sessions_okD(8) [OF ok, of d c] c d(2) by auto
  qed
  have dead: "u \<in> set (access_sessions db) \<and> as_family u \<noteq> rf_family c"
    if "u \<in> set (revoke_access (rf_family c) now (access_sessions db))" "as_revoked_at u = None" for u
    using that by (blast elim: revoke_access_member)
  have g: "fm_revoked_at g = None" if "g \<in> set (session_families db)" "fm_id g = rf_family c" for g
    using distinct_map_inj [OF sessions_okD(1) [OF ok] that(1) f(1)] f(2) that by (auto simp: live_family_def)
  show ?thesis
    unfolding sessions_ok_def families refresh access
  proof (intro conjI ballI impI)
    fix d' assume "d' \<in> set (spend_credential (rf_id c) now (rf_id m) (refresh_credentials db) @ [m])"
    then obtain d where "d \<in> set (refresh_credentials db)" "rf_family d' = rf_family d" "rf_tenant d' = rf_tenant d" "rf_account d' = rf_account d"
      using c(1) same by (auto elim: spend_credential_member)
    then show "\<exists>f \<in> set (session_families db). fm_id f = rf_family d' \<and> fm_tenant f = rf_tenant d' \<and> fm_account f = rf_account d'"
      using sessions_okD(5) [OF ok] by simp
  next
    fix u' assume "u' \<in> set (revoke_access (rf_family c) now (access_sessions db) @ [s])"
    then consider "u' = s" | u where "u \<in> set (access_sessions db)" "as_family u' = as_family u" "as_tenant u' = as_tenant u" "as_account u' = as_account u"
      by (auto elim: revoke_access_member)
    then show "\<exists>f \<in> set (session_families db). fm_id f = as_family u' \<and> fm_tenant f = as_tenant u' \<and> fm_account f = as_account u'"
      using sessions_okD(5) [OF ok c(1)] sessions_okD(6) [OF ok] same by cases simp_all
  next
    fix h u assume "h \<in> set (session_families db)" "u \<in> set (revoke_access (rf_family c) now (access_sessions db) @ [s])"
      "fm_revoked_at h \<noteq> None" "as_family u = fm_id h"
    then show "as_revoked_at u \<noteq> None"
      using sessions_okD(7) [OF ok, of h u] dead [of u] g [of h] same(4) by auto
  next
    fix d e assume "d \<in> set (spend_credential (rf_id c) now (rf_id m) (refresh_credentials db) @ [m])"
      "e \<in> set (spend_credential (rf_id c) now (rf_id m) (refresh_credentials db) @ [m])"
      "rf_family d = rf_family e" "rf_consumed_at d = None" "rf_consumed_at e = None"
    then show "d = e"
      using sessions_okD(8) [OF ok, of d e] spent [of d] spent [of e] same(1) by (metis UnE empty_iff insertE list.set set_append)
  next
    fix u v assume "u \<in> set (revoke_access (rf_family c) now (access_sessions db) @ [s])"
      "v \<in> set (revoke_access (rf_family c) now (access_sessions db) @ [s])"
      "as_family u = as_family v" "as_revoked_at u = None" "as_revoked_at v = None"
    then show "u = v"
      using sessions_okD(9) [OF ok, of u v] dead [of u] dead [of v] same(4) by (metis UnE empty_iff insertE list.set set_append)
  qed (use sessions_okD(1-4) [OF ok] new in auto)
qed

lemma sessions_ok_create:
  assumes "sessions_ok db" and "create_refresh_session E q db = (r, db')"
  shows "sessions_ok db'"
  using assms(2)
proof (cases rule: create_refresh_session_effect)
  case (committed f c s au)
  show ?thesis
    by (rule sessions_ok_created [OF assms(1), of _ f c s]) (use committed in simp_all)
qed (use assms(1) in simp)

lemma sessions_ok_revoke:
  assumes "sessions_ok db" and "revoke_refresh_session_family E t a fam corr db = (r, db')"
  shows "sessions_ok db'"
  using assms(2) sessions_okD(1) [OF assms(1)]
proof (cases rule: revoke_refresh_session_family_effect)
  case (revoked au)
  show ?thesis
    by (rule sessions_ok_revoked [OF assms(1)]) (use revoked(3) in simp_all)
qed (use assms(1) in simp)

lemma sessions_ok_rotate:
  assumes "sessions_ok db" and "rotate_refresh_credential E p n na x xa corr db = (r, db')"
  shows "sessions_ok db'"
  using assms(2,1)
proof (cases rule: rotate_refresh_credential_effect)
  case (reuse c f au)
  show ?thesis
    by (rule sessions_ok_revoked [OF assms(1)]) (use reuse(7) in simp_all)
next
  case (rotated c f m s au)
  show ?thesis
    by (rule sessions_ok_rotated [OF assms(1) rotated(2,4,6,7), of _ "env_now E" m s]) (use rotated(11-) in simp_all)
qed (use assms(1) in simp)

end
