(* ===== verification/Fabric_Transactions.thy ===== *)
theory Fabric_Transactions
  imports Fabric_Sessions
begin

text \<open>
  One-use credentials and replay evidence: login transactions
  (\<open>fcp-fabric-store/src/login_transactions.rs\<close>), step-up grants (\<open>step_up.rs\<close>), WebAuthn ceremonies and
  passkeys (\<open>webauthn.rs\<close>) and federation peers and replays (\<open>federation.rs\<close>).
\<close>

subsection \<open>Login transactions\<close>

datatype login_stage = MfaEnrollment | MfaChallenge | SessionIssuance

fun login_stage_text :: "login_stage \<Rightarrow> string" where
  "login_stage_text MfaEnrollment = ''mfa_enrollment''"
| "login_stage_text MfaChallenge = ''mfa_challenge''"
| "login_stage_text SessionIssuance = ''session_issuance''"

record create_login_request =
  cl_tenant :: tenant_id
  cl_account :: account_id
  cl_digest :: opaque_token_digest
  cl_stage :: login_stage
  cl_binding :: "32 bytes"
  cl_factor :: "uuid option"
  cl_expires_at :: timestamp
  cl_correlation :: str

record login_transaction_record =
  lr_id :: uuid
  lr_tenant :: tenant_id
  lr_account :: account_id
  lr_stage :: login_stage
  lr_expires_at :: timestamp
  lr_factor :: "uuid option"

definition create_login_transaction ::
  "store_env \<Rightarrow> create_login_request \<Rightarrow> 'j database \<Rightarrow> (store_error + login_transaction_record) \<times> 'j database" where
  "create_login_transaction E q db = transact db (
     and_then (store_validate_correlation_id (cl_correlation q)) (\<lambda>_.
     let now = env_now E; id = env_uuid E 0; t = tenant_uuid (cl_tenant q); a = account_uuid (cl_account q) in
     if cl_expires_at q \<le> now then Inl InvalidLoginTransactionExpiry
     else if \<not> has_account db t a then Inl TargetNotFoundOrUnchanged
     else and_then (insert_login \<lparr>lt_id = id, lt_tenant = t, lt_account = a, lt_digest = cl_digest q,
         lt_stage = login_stage_text (cl_stage q), lt_binding = cl_binding q, lt_factor = cl_factor q,
         lt_issued_at = now, lt_expires_at = cl_expires_at q, lt_consumed_at = None\<rparr> db) (\<lambda>db.
     and_then (insert_audit \<lparr>aw_id = env_uuid E 1, aw_tenant = cl_tenant q, aw_actor = Some (cl_account q),
         aw_action = LoginTransactionIssued, aw_correlation = cl_correlation q,
         aw_metadata = [(''transaction_id'', AuditUuid id), (''stage'', AuditText (login_stage_text (cl_stage q)))],
         aw_occurred_at = now\<rparr> db) (\<lambda>db.
     Inr (\<lparr>lr_id = id, lr_tenant = cl_tenant q, lr_account = cl_account q, lr_stage = cl_stage q,
           lr_expires_at = cl_expires_at q, lr_factor = cl_factor q\<rparr>, db)))))"

definition usable_login :: "opaque_token_digest \<Rightarrow> 32 bytes \<Rightarrow> login_stage \<Rightarrow> timestamp \<Rightarrow> login_row \<Rightarrow> bool" where
  "usable_login digest binding stage now l \<longleftrightarrow>
     lt_digest l = digest \<and> lt_binding l = binding \<and> lt_stage l = login_stage_text stage \<and>
     lt_consumed_at l = None \<and> lt_expires_at l > now"

definition consume_login_transaction ::
  "store_env \<Rightarrow> opaque_token_digest \<Rightarrow> login_stage \<Rightarrow> 32 bytes \<Rightarrow> str \<Rightarrow> 'j database \<Rightarrow>
   (store_error + login_transaction_record) \<times> 'j database" where
  "consume_login_transaction E digest stage binding correlation db = transact db (
     and_then (store_validate_correlation_id correlation) (\<lambda>_.
     let now = env_now E; P = usable_login digest binding stage now;
         db1 = db\<lparr>login_transactions := sql_update P (\<lambda>l. l\<lparr>lt_stage := ''consumed'', lt_consumed_at := Some now\<rparr>) (login_transactions db)\<rparr> in
     case fetch_optional (filter P (login_transactions db)) of
       None \<Rightarrow> Inl InvalidOrExpiredLoginTransaction
     | Some l \<Rightarrow>
         let tenant = TenantId (lt_tenant l); account = AccountId (lt_account l) in
         and_then (insert_audit \<lparr>aw_id = env_uuid E 0, aw_tenant = tenant, aw_actor = Some account,
           aw_action = LoginTransactionConsumed, aw_correlation = correlation,
           aw_metadata = [(''transaction_id'', AuditUuid (lt_id l)), (''stage'', AuditText (login_stage_text stage))],
           aw_occurred_at = now\<rparr> db1) (\<lambda>db2.
         Inr (\<lparr>lr_id = lt_id l, lr_tenant = tenant, lr_account = account, lr_stage = stage,
               lr_expires_at = lt_expires_at l, lr_factor = lt_factor l\<rparr>, db2))))"

subsection \<open>Step-up grants\<close>

datatype step_up_action = ChangeAccountRole

fun step_up_action_text :: "step_up_action \<Rightarrow> string" where
  "step_up_action_text ChangeAccountRole = ''change_account_role''"

record create_step_up_request =
  cg_tenant :: tenant_id
  cg_account :: account_id
  cg_family :: uuid
  cg_action :: step_up_action
  cg_target :: "32 bytes"
  cg_digest :: opaque_token_digest
  cg_expires_at :: timestamp
  cg_correlation :: str

record consume_step_up_request =
  sg_tenant :: tenant_id
  sg_account :: account_id
  sg_family :: uuid
  sg_action :: step_up_action
  sg_target :: "32 bytes"
  sg_digest :: opaque_token_digest
  sg_correlation :: str

record step_up_grant_record =
  grant_id :: uuid
  grant_expires_at :: timestamp

definition create_step_up_grant ::
  "store_env \<Rightarrow> create_step_up_request \<Rightarrow> 'j database \<Rightarrow> (store_error + step_up_grant_record) \<times> 'j database" where
  "create_step_up_grant E q db = transact db (
     and_then (store_validate_correlation_id (cg_correlation q)) (\<lambda>_.
     let now = env_now E; id = env_uuid E 0; t = tenant_uuid (cg_tenant q); a = account_uuid (cg_account q) in
     if cg_expires_at q \<le> now then Inl InvalidStepUpGrantExpiry
     else if \<not> (list_ex (live_family t a (cg_family q)) (session_families db) \<and> has_account_in db t a [''active''])
     then Inl TargetNotFoundOrUnchanged
     else and_then (insert_step_up \<lparr>su_id = id, su_tenant = t, su_account = a, su_family = cg_family q,
         su_action = step_up_action_text (cg_action q), su_target = cg_target q, su_digest = cg_digest q,
         su_issued_at = now, su_expires_at = cg_expires_at q, su_consumed_at = None\<rparr> db) (\<lambda>db.
     and_then (insert_audit \<lparr>aw_id = env_uuid E 1, aw_tenant = cg_tenant q, aw_actor = Some (cg_account q),
         aw_action = StepUpGranted, aw_correlation = cg_correlation q,
         aw_metadata = [(''grant_id'', AuditUuid id), (''action'', AuditText (step_up_action_text (cg_action q)))],
         aw_occurred_at = now\<rparr> db) (\<lambda>db.
     Inr (\<lparr>grant_id = id, grant_expires_at = cg_expires_at q\<rparr>, db)))))"

definition usable_grant :: "consume_step_up_request \<Rightarrow> timestamp \<Rightarrow> 'j database \<Rightarrow> step_up_row \<Rightarrow> bool" where
  "usable_grant q now db g \<longleftrightarrow>
     su_digest g = sg_digest q \<and> su_tenant g = tenant_uuid (sg_tenant q) \<and> su_account g = account_uuid (sg_account q) \<and>
     su_family g = sg_family q \<and> su_action g = step_up_action_text (sg_action q) \<and> su_target g = sg_target q \<and>
     su_consumed_at g = None \<and> su_expires_at g > now \<and>
     list_ex (\<lambda>f. fm_id f = sg_family q \<and> fm_revoked_at f = None) (session_families db)"

definition consume_step_up_grant ::
  "store_env \<Rightarrow> consume_step_up_request \<Rightarrow> 'j database \<Rightarrow> (store_error + bool) \<times> 'j database" where
  "consume_step_up_grant E q db = transact db (
     and_then (store_validate_correlation_id (sg_correlation q)) (\<lambda>_.
     let now = env_now E; P = usable_grant q now db;
         db1 = db\<lparr>step_up_grants := sql_update P (\<lambda>g. g\<lparr>su_consumed_at := Some now\<rparr>) (step_up_grants db)\<rparr> in
     case fetch_optional (filter P (step_up_grants db)) of
       None \<Rightarrow> Inr (False, db1)
     | Some g \<Rightarrow>
         and_then (insert_audit \<lparr>aw_id = env_uuid E 0, aw_tenant = sg_tenant q, aw_actor = Some (sg_account q),
           aw_action = StepUpConsumed, aw_correlation = sg_correlation q,
           aw_metadata = [(''grant_id'', AuditUuid (su_id g)), (''action'', AuditText (step_up_action_text (sg_action q)))],
           aw_occurred_at = now\<rparr> db1) (\<lambda>db2.
         Inr (True, db2))))"

subsection \<open>WebAuthn ceremonies and passkeys\<close>

datatype ceremony_kind = Registration | Authentication

fun ceremony_kind_text :: "ceremony_kind \<Rightarrow> string" where
  "ceremony_kind_text Registration = ''registration''"
| "ceremony_kind_text Authentication = ''authentication''"

definition parse_webauthn_ceremony_kind :: "string \<Rightarrow> store_error + ceremony_kind" where
  "parse_webauthn_ceremony_kind s =
     (if s = ''registration'' then Inr Registration else if s = ''authentication'' then Inr Authentication
      else Inl CorruptWebauthnCeremonyKind)"

record 'j create_ceremony_request =
  cc_tenant :: tenant_id
  cc_account :: account_id
  cc_kind :: ceremony_kind
  cc_state :: 'j
  cc_digest :: opaque_token_digest
  cc_binding :: opaque_token_digest
  cc_expires_at :: timestamp
  cc_correlation :: str

record 'j ceremony_record =
  cr_tenant :: tenant_id
  cr_account :: account_id
  cr_kind :: ceremony_kind
  cr_state :: 'j

record 'j register_passkey_request =
  rp_tenant :: tenant_id
  rp_account :: account_id
  rp_credential :: str
  rp_passkey :: 'j
  rp_label :: "str option"
  rp_correlation :: str

record 'j stored_passkey =
  sp_credential :: str
  sp_passkey :: 'j

definition create_webauthn_ceremony ::
  "store_env \<Rightarrow> 'j create_ceremony_request \<Rightarrow> 'j database \<Rightarrow> (store_error + unit) \<times> 'j database" where
  "create_webauthn_ceremony E q db = transact db (
     and_then (store_validate_correlation_id (cc_correlation q)) (\<lambda>_.
     let now = env_now E; id = env_uuid E 0; t = tenant_uuid (cc_tenant q); a = account_uuid (cc_account q) in
     if cc_expires_at q \<le> now then Inl InvalidWebauthnCeremonyExpiry
     else if \<not> has_account_in db t a [''active'', ''mfa_enrollment_required''] then Inl TargetNotFoundOrUnchanged
     else and_then (insert_ceremony \<lparr>wc_id = id, wc_tenant = t, wc_account = a, wc_kind = ceremony_kind_text (cc_kind q),
         wc_state = cc_state q, wc_digest = cc_digest q, wc_binding = cc_binding q, wc_created_at = now,
         wc_expires_at = cc_expires_at q, wc_consumed_at = None\<rparr> db) (\<lambda>db.
     and_then (insert_audit \<lparr>aw_id = env_uuid E 1, aw_tenant = cc_tenant q, aw_actor = Some (cc_account q),
         aw_action = WebauthnCeremonyIssued, aw_correlation = cc_correlation q,
         aw_metadata = [(''ceremony_id'', AuditUuid id), (''kind'', AuditText (ceremony_kind_text (cc_kind q)))],
         aw_occurred_at = now\<rparr> db) (\<lambda>db.
     Inr ((), db)))))"

definition usable_ceremony :: "opaque_token_digest \<Rightarrow> opaque_token_digest \<Rightarrow> timestamp \<Rightarrow> 'j ceremony_row \<Rightarrow> bool" where
  "usable_ceremony digest binding now c \<longleftrightarrow>
     wc_digest c = digest \<and> wc_binding c = binding \<and> wc_consumed_at c = None \<and> wc_expires_at c > now"

definition consume_webauthn_ceremony ::
  "store_env \<Rightarrow> opaque_token_digest \<Rightarrow> opaque_token_digest \<Rightarrow> str \<Rightarrow> 'j database \<Rightarrow>
   (store_error + 'j ceremony_record) \<times> 'j database" where
  "consume_webauthn_ceremony E digest binding correlation db = transact db (
     and_then (store_validate_correlation_id correlation) (\<lambda>_.
     let now = env_now E; P = usable_ceremony digest binding now;
         db1 = db\<lparr>webauthn_ceremonies := sql_update P (\<lambda>c. c\<lparr>wc_consumed_at := Some now\<rparr>) (webauthn_ceremonies db)\<rparr> in
     case fetch_optional (filter P (webauthn_ceremonies db)) of
       None \<Rightarrow> Inl InvalidOrExpiredWebauthnCeremony
     | Some c \<Rightarrow>
         let tenant = TenantId (wc_tenant c); account = AccountId (wc_account c) in
         and_then (parse_webauthn_ceremony_kind (wc_kind c)) (\<lambda>kind.
         and_then (insert_audit \<lparr>aw_id = env_uuid E 0, aw_tenant = tenant, aw_actor = Some account,
           aw_action = WebauthnCeremonyConsumed, aw_correlation = correlation,
           aw_metadata = [(''kind'', AuditText (ceremony_kind_text kind))], aw_occurred_at = now\<rparr> db1) (\<lambda>db2.
         Inr (\<lparr>cr_tenant = tenant, cr_account = account, cr_kind = kind, cr_state = wc_state c\<rparr>, db2)))))"

definition active_webauthn_passkeys :: "tenant_id \<Rightarrow> account_id \<Rightarrow> 'j database \<Rightarrow> 'j stored_passkey list" where
  "active_webauthn_passkeys tenant account db =
     map (\<lambda>p. \<lparr>sp_credential = pk_credential p, sp_passkey = pk_passkey p\<rparr>)
       (sort_key pk_created_at (filter (\<lambda>p. pk_tenant p = tenant_uuid tenant \<and> pk_account p = account_uuid account \<and>
          pk_disabled_at p = None) (webauthn_credentials db)))"

definition register_webauthn_passkey ::
  "store_env \<Rightarrow> 'j register_passkey_request \<Rightarrow> 'j database \<Rightarrow> (store_error + unit) \<times> 'j database" where
  "register_webauthn_passkey E q db = transact db (
     and_then (store_validate_correlation_id (rp_correlation q)) (\<lambda>_.
     if rp_credential q = [] \<or> str_len (rp_credential q) > 2048 then Inl InvalidWebauthnCredentialId
     else if (case rp_label q of None \<Rightarrow> False | Some l \<Rightarrow> l = [] \<or> str_len l > 96 \<or> list_ex is_control l)
     then Inl InvalidWebauthnPasskeyLabel
     else
       let now = env_now E; t = tenant_uuid (rp_tenant q); a = account_uuid (rp_account q) in
       if \<not> has_account_in db t a [''active''] then Inl TargetNotFoundOrUnchanged
       else and_then (insert_credential \<lparr>pk_id = env_uuid E 0, pk_tenant = t, pk_account = a,
           pk_credential = rp_credential q, pk_passkey = rp_passkey q, pk_label = rp_label q, pk_created_at = now,
           pk_last_used_at = None, pk_disabled_at = None\<rparr> db) (\<lambda>db.
       and_then (insert_audit \<lparr>aw_id = env_uuid E 1, aw_tenant = rp_tenant q, aw_actor = Some (rp_account q),
           aw_action = PasskeyChanged, aw_correlation = rp_correlation q,
           aw_metadata = [(''outcome'', AuditText ''registered'')], aw_occurred_at = now\<rparr> db) (\<lambda>db.
       Inr ((), db)))))"

definition update_webauthn_passkey ::
  "store_env \<Rightarrow> tenant_id \<Rightarrow> account_id \<Rightarrow> str \<Rightarrow> 'j \<Rightarrow> 'j database \<Rightarrow> (store_error + unit) \<times> 'j database" where
  "update_webauthn_passkey E tenant account credential passkey db = transact db (
     let t = tenant_uuid tenant; a = account_uuid account;
         P = (\<lambda>p. pk_tenant p = t \<and> pk_account p = a \<and> pk_credential p = credential \<and> pk_disabled_at p = None \<and>
                 has_account_in db t a [''active'']);
         db1 = db\<lparr>webauthn_credentials := sql_update P
           (\<lambda>p. p\<lparr>pk_passkey := passkey, pk_last_used_at := Some (env_now E)\<rparr>) (webauthn_credentials db)\<rparr> in
     if rows_affected P (webauthn_credentials db) \<noteq> 1 then Inl TargetNotFoundOrUnchanged else Inr ((), db1))"

subsection \<open>Federation peers and replays\<close>

record 'j stored_peer_key =
  sk_key :: str
  sk_document :: 'j
  sk_valid_until :: timestamp

record 'j stored_peer =
  spr_tenant :: tenant_id
  spr_peer :: uuid
  spr_trust :: federation_trust_state
  spr_fingerprint :: "u8 list"
  spr_keys :: "'j stored_peer_key list"

record replay_request =
  rq_tenant :: tenant_id
  rq_peer :: uuid
  rq_request :: uuid
  rq_digest :: "32 bytes"
  rq_expires_at :: timestamp
  rq_correlation :: str

definition federation_peer_material ::
  "store_env \<Rightarrow> domain_name \<Rightarrow> domain_name \<Rightarrow> 'j database \<Rightarrow> store_error + 'j stored_peer option" where
  "federation_peer_material E local_domain remote_domain db =
     (case fetch_optional [p. p \<leftarrow> federation_peers db, fp_domain p = domain_str remote_domain,
          t \<leftarrow> tenants db, tn_id t = fp_tenant p \<and> tn_domain t = domain_str local_domain] of
        None \<Rightarrow> Inr None
      | Some p \<Rightarrow>
          let keys = map (\<lambda>k. \<lparr>sk_key = fk_key k, sk_document = fk_document k, sk_valid_until = fk_valid_until k\<rparr>)
                (sort_key fk_first_seen_at (filter (\<lambda>k. fk_peer k = fp_id p \<and> fk_retired_at k = None \<and>
                   fk_valid_until k > env_now E) (federation_keys db))) in
          and_then (parse_federation_trust_state (fp_trust p)) (\<lambda>trust.
          Inr (Some \<lparr>spr_tenant = TenantId (fp_tenant p), spr_peer = fp_id p, spr_trust = trust,
                     spr_fingerprint = fp_fingerprint p, spr_keys = keys\<rparr>)))"

definition record_federation_replay ::
  "store_env \<Rightarrow> replay_request \<Rightarrow> 'j database \<Rightarrow> (store_error + bool) \<times> 'j database" where
  "record_federation_replay E q db = transact db (
     and_then (store_validate_correlation_id (rq_correlation q)) (\<lambda>_.
     let now = env_now E in
     if rq_expires_at q \<le> now then Inl InvalidFederationReplayExpiry
     else and_then (insert_replay \<lparr>fr_tenant = tenant_uuid (rq_tenant q), fr_peer = rq_peer q, fr_request = rq_request q,
         fr_digest = rq_digest q, fr_accepted_at = now, fr_expires_at = rq_expires_at q\<rparr> db) (\<lambda>(inserted, db).
     if inserted \<noteq> 1 then Inr (False, db)
     else and_then (insert_audit \<lparr>aw_id = env_uuid E 0, aw_tenant = rq_tenant q, aw_actor = None,
         aw_action = FederationRequestEvaluated, aw_correlation = rq_correlation q,
         aw_metadata = [(''peer_id'', AuditUuid (rq_peer q)), (''request_id'', AuditUuid (rq_request q)),
           (''outcome'', AuditText ''accepted'')], aw_occurred_at = now\<rparr> db) (\<lambda>db.
     Inr (True, db)))))"

subsection \<open>Effects\<close>

lemma create_login_transaction_effect:
  assumes "create_login_transaction E q db = (r, db')"
  obtains (failed) e where "r = Inl e" and "db' = db"
  | (committed) l au where "r = Inr \<lparr>lr_id = lt_id l, lr_tenant = cl_tenant q, lr_account = cl_account q, lr_stage = cl_stage q,
        lr_expires_at = cl_expires_at q, lr_factor = cl_factor q\<rparr>"
      and "lt_digest l = cl_digest q" and "lt_digest l \<notin> lt_digest ` set (login_transactions db)" and "lt_consumed_at l = None"
      and "lt_stage l = login_stage_text (cl_stage q)" and "lt_binding l = cl_binding q" and "lt_expires_at l = cl_expires_at q"
      and "lt_tenant l = tenant_uuid (cl_tenant q)" and "lt_account l = account_uuid (cl_account q)" and "lt_factor l = cl_factor q"
      and "db' = db\<lparr>login_transactions := login_transactions db @ [l], audit_events := audit_events db @ [au]\<rparr>"
proof (cases r)
  case (Inl e)
  then show thesis using assms failed by (auto simp: create_login_transaction_def transact_eq)
next
  case (Inr x)
  with assms show thesis
    by (auto simp: create_login_transaction_def transact_eq and_then_eq_Inr Let_def insert_login_def insert_audit_def
        split: if_splits intro!: committed)
qed

lemma consume_login_transaction_effect:
  assumes "consume_login_transaction E d st b corr db = (r, db')"
  obtains (failed) e where "r = Inl e" and "db' = db"
  | (committed) l au where "r = Inr \<lparr>lr_id = lt_id l, lr_tenant = TenantId (lt_tenant l), lr_account = AccountId (lt_account l),
        lr_stage = st, lr_expires_at = lt_expires_at l, lr_factor = lt_factor l\<rparr>"
      and "l \<in> set (login_transactions db)" and "usable_login d b st (env_now E) l"
      and "db' = db\<lparr>login_transactions := sql_update (usable_login d b st (env_now E))
             (\<lambda>l. l\<lparr>lt_stage := ''consumed'', lt_consumed_at := Some (env_now E)\<rparr>) (login_transactions db),
           audit_events := audit_events db @ [au]\<rparr>"
proof (cases r)
  case (Inl e)
  then show thesis using assms failed by (auto simp: consume_login_transaction_def transact_eq)
next
  case (Inr x)
  with assms show thesis
    by (auto simp: consume_login_transaction_def transact_eq and_then_eq_Inr Let_def insert_audit_def
        split: option.splits dest!: fetch_optional_Some intro!: committed)
qed

lemma create_step_up_grant_effect:
  assumes "create_step_up_grant E q db = (r, db')"
  obtains (failed) e where "r = Inl e" and "db' = db"
  | (committed) g au where "r = Inr \<lparr>grant_id = su_id g, grant_expires_at = cg_expires_at q\<rparr>"
      and "su_digest g = cg_digest q" and "su_digest g \<notin> su_digest ` set (step_up_grants db)" and "su_consumed_at g = None"
      and "db' = db\<lparr>step_up_grants := step_up_grants db @ [g], audit_events := audit_events db @ [au]\<rparr>"
proof (cases r)
  case (Inl e)
  then show thesis using assms failed by (auto simp: create_step_up_grant_def transact_eq)
next
  case (Inr x)
  with assms show thesis
    by (auto simp: create_step_up_grant_def transact_eq and_then_eq_Inr Let_def insert_step_up_def insert_audit_def
        split: if_splits intro!: committed)
qed

lemma consume_step_up_grant_effect:
  assumes "consume_step_up_grant E q db = (r, db')"
  obtains (failed) "r \<noteq> Inr True" and "db' = db"
  | (committed) g au where "r = Inr True" and "g \<in> set (step_up_grants db)" and "usable_grant q (env_now E) db g"
      and "db' = db\<lparr>step_up_grants := sql_update (usable_grant q (env_now E) db)
             (\<lambda>g. g\<lparr>su_consumed_at := Some (env_now E)\<rparr>) (step_up_grants db), audit_events := audit_events db @ [au]\<rparr>"
proof (cases "r = Inr True")
  case True
  with assms show thesis
    by (auto simp: consume_step_up_grant_def transact_eq and_then_eq_Inr Let_def insert_audit_def
        split: option.splits dest!: fetch_optional_Some intro!: committed)
next
  case False
  with assms show thesis
    by (auto simp: consume_step_up_grant_def transact_eq and_then_eq_Inr Let_def insert_audit_def sql_update_none
        filter_empty_conv split: option.splits intro!: failed)
qed

lemma create_webauthn_ceremony_effect:
  assumes "create_webauthn_ceremony E q db = (r, db')"
  obtains (failed) e where "r = Inl e" and "db' = db"
  | (committed) c au where "r = Inr ()" and "wc_digest c = cc_digest q"
      and "wc_digest c \<notin> wc_digest ` set (webauthn_ceremonies db)" and "wc_consumed_at c = None"
      and "db' = db\<lparr>webauthn_ceremonies := webauthn_ceremonies db @ [c], audit_events := audit_events db @ [au]\<rparr>"
proof (cases r)
  case (Inl e)
  then show thesis using assms failed by (auto simp: create_webauthn_ceremony_def transact_eq)
next
  case (Inr x)
  with assms show thesis
    by (auto simp: create_webauthn_ceremony_def transact_eq and_then_eq_Inr Let_def insert_ceremony_def insert_audit_def
        split: if_splits intro!: committed)
qed

lemma consume_webauthn_ceremony_effect:
  assumes "consume_webauthn_ceremony E d b corr db = (r, db')"
  obtains (failed) e where "r = Inl e" and "db' = db"
  | (committed) c k au where "r = Inr \<lparr>cr_tenant = TenantId (wc_tenant c), cr_account = AccountId (wc_account c), cr_kind = k,
        cr_state = wc_state c\<rparr>"
      and "c \<in> set (webauthn_ceremonies db)" and "usable_ceremony d b (env_now E) c"
      and "db' = db\<lparr>webauthn_ceremonies := sql_update (usable_ceremony d b (env_now E))
             (\<lambda>c. c\<lparr>wc_consumed_at := Some (env_now E)\<rparr>) (webauthn_ceremonies db), audit_events := audit_events db @ [au]\<rparr>"
proof (cases r)
  case (Inl e)
  then show thesis using assms failed by (auto simp: consume_webauthn_ceremony_def transact_eq)
next
  case (Inr x)
  with assms show thesis
    by (auto simp: consume_webauthn_ceremony_def transact_eq and_then_eq_Inr Let_def insert_audit_def
        split: option.splits dest!: fetch_optional_Some intro!: committed)
qed

lemma register_webauthn_passkey_effect:
  assumes "register_webauthn_passkey E q db = (r, db')"
  obtains (failed) e where "r = Inl e" and "db' = db"
  | (committed) p au where "r = Inr ()"
      and "has_account_in db (tenant_uuid (rp_tenant q)) (account_uuid (rp_account q)) [''active'']"
      and "db' = db\<lparr>webauthn_credentials := webauthn_credentials db @ [p], audit_events := audit_events db @ [au]\<rparr>"
proof (cases r)
  case (Inl e)
  then show thesis using assms failed by (auto simp: register_webauthn_passkey_def transact_eq)
next
  case (Inr x)
  with assms show thesis
    by (auto simp: register_webauthn_passkey_def transact_eq and_then_eq_Inr Let_def insert_credential_def insert_audit_def
        split: if_splits intro!: committed)
qed

lemma update_webauthn_passkey_effect:
  assumes "update_webauthn_passkey E t a k pk db = (r, db')"
  obtains (failed) e where "r = Inl e" and "db' = db"
  | (committed) rows where "r = Inr ()" and "db' = db\<lparr>webauthn_credentials := rows\<rparr>"
proof (cases r)
  case (Inl e)
  then show thesis using assms failed by (auto simp: update_webauthn_passkey_def transact_eq)
next
  case (Inr x)
  with assms show thesis
    by (auto simp: update_webauthn_passkey_def transact_eq Let_def split: if_splits intro!: committed)
qed

lemma record_federation_replay_effect:
  assumes "record_federation_replay E q db = (r, db')"
  obtains (failed) "r \<noteq> Inr True" and "db' = db"
  | (committed) row au where "r = Inr True"
      and "replay_key row = (tenant_uuid (rq_tenant q), rq_peer q, rq_request q)" and "fr_digest row = rq_digest q"
      and "replay_key row \<notin> replay_key ` set (federation_replays db)"
      and "db' = db\<lparr>federation_replays := federation_replays db @ [row], audit_events := audit_events db @ [au]\<rparr>"
proof (cases "r = Inr True")
  case True
  with assms show thesis
    by (auto simp: record_federation_replay_def transact_eq and_then_eq_Inr Let_def insert_replay_def insert_audit_def
        replay_key_def split: if_splits intro!: committed)
next
  case False
  with assms show thesis
    by (auto simp: record_federation_replay_def transact_eq and_then_eq_Inr Let_def insert_replay_def insert_audit_def
        split: if_splits intro!: failed)
qed

end
