(* ===== verification/Fabric_Store.thy ===== *)
theory Fabric_Store
  imports Fabric_Transactions
begin

text \<open>
  The authority store as a transition system.  \<open>store_step\<close> has one rule per operation of
  \<open>PostgresAuthorityStore\<close> that writes; \<open>db_change\<close> is the abstract specification, one rule per kind of
  change, and every step is such a change.  Invariants and one-use guarantees are proved on the
  specification and hold for every run of operations from an empty database.
\<close>

subsection \<open>Steps\<close>

inductive store_step :: "'j database \<Rightarrow> 'j database \<Rightarrow> bool" where
  step_bootstrap: "bootstrap_tenant E cb db = (r1, db') \<Longrightarrow> store_step db db'"
| step_invite: "invite_account E ci db = (r2, db') \<Longrightarrow> store_step db db'"
| step_change_role: "change_role E cc db = (r3, db') \<Longrightarrow> store_step db db'"
| step_password: "store_password_verifier E t a v pepper corr db = (r4, db') \<Longrightarrow> store_step db db'"
| step_envelope: "create_totp_data_key_envelope ce db = (r5, db') \<Longrightarrow> store_step db db'"
| step_pending: "create_pending_totp_factor E t a f enc corr db = (r6, db') \<Longrightarrow> store_step db db'"
| step_activate: "activate_totp_factor E t a f s corr db = (r7, db') \<Longrightarrow> store_step db db'"
| step_totp: "consume_totp_step t a f s db = (r8, db') \<Longrightarrow> store_step db db'"
| step_recovery_set: "replace_recovery_code_set E t a vs corr db = (r9, db') \<Longrightarrow> store_step db db'"
| step_recovery_code: "consume_recovery_code E t a code corr db = (r10, db') \<Longrightarrow> store_step db db'"
| step_session: "create_refresh_session E cs db = (r11, db') \<Longrightarrow> store_step db db'"
| step_rotate: "rotate_refresh_credential E p n na x xa corr db = (r12, db') \<Longrightarrow> store_step db db'"
| step_revoke: "revoke_refresh_session_family E t a fam corr db = (r13, db') \<Longrightarrow> store_step db db'"
| step_login: "create_login_transaction E cl db = (r14, db') \<Longrightarrow> store_step db db'"
| step_consume_login: "consume_login_transaction E d st b corr db = (r15, db') \<Longrightarrow> store_step db db'"
| step_grant: "create_step_up_grant E cg db = (r16, db') \<Longrightarrow> store_step db db'"
| step_consume_grant: "consume_step_up_grant E sg db = (r17, db') \<Longrightarrow> store_step db db'"
| step_ceremony: "create_webauthn_ceremony E cw db = (r18, db') \<Longrightarrow> store_step db db'"
| step_consume_ceremony: "consume_webauthn_ceremony E d wb corr db = (r19, db') \<Longrightarrow> store_step db db'"
| step_register: "register_webauthn_passkey E rp db = (r20, db') \<Longrightarrow> store_step db db'"
| step_update: "update_webauthn_passkey E t a k pk db = (r21, db') \<Longrightarrow> store_step db db'"
| step_replay: "record_federation_replay E rq db = (r22, db') \<Longrightarrow> store_step db db'"

text \<open>An empty authority database; peers and their keys are administered outside the store.\<close>

definition empty_database :: "peer_row list \<Rightarrow> 'j peer_key_row list \<Rightarrow> 'j database" where
  "empty_database peers keys = \<lparr>tenants = [], accounts = [], account_roles = [], password_credentials = [],
     mfa_totp_factors = [], recovery_code_sets = [], recovery_code_verifiers = [], session_families = [],
     refresh_credentials = [], access_sessions = [], login_transactions = [], step_up_grants = [],
     webauthn_ceremonies = [], webauthn_credentials = [], federation_peers = peers, federation_keys = keys,
     federation_replays = [], totp_data_key_envelopes = [], audit_events = []\<rparr>"

definition store_reachable :: "'j database \<Rightarrow> bool" where
  "store_reachable db \<longleftrightarrow> (\<exists>peers keys. store_step\<^sup>*\<^sup>* (empty_database peers keys) db)"

subsection \<open>The abstract specification\<close>

inductive db_change :: "'j database \<Rightarrow> 'j database \<Rightarrow> bool" where
  no_change: "db_change db db"
| new_tenant: "tn_id t \<notin> tn_id ` set (tenants db) \<Longrightarrow> tn_domain t \<notin> tn_domain ` set (tenants db) \<Longrightarrow>
    ac_id a \<notin> ac_id ` set (accounts db) \<Longrightarrow> ac_tenant a = tn_id t \<Longrightarrow> ac_state a = ''mfa_enrollment_required'' \<Longrightarrow>
    role_key rl = (tn_id t, ac_id a, ''owner'') \<Longrightarrow>
    db_change db (db\<lparr>tenants := tenants db @ [t], accounts := accounts db @ [a], account_roles := account_roles db @ [rl],
      audit_events := au\<rparr>)"
| new_account: "ac_id a \<notin> ac_id ` set (accounts db) \<Longrightarrow> ac_tenant a \<in> tn_id ` set (tenants db) \<Longrightarrow>
    ac_state a = ''mfa_enrollment_required'' \<Longrightarrow> role_key rl = (ac_tenant a, ac_id a, role_text role) \<Longrightarrow> Admin < role \<Longrightarrow>
    db_change db (db\<lparr>accounts := accounts db @ [a], account_roles := account_roles db @ [rl], audit_events := au\<rparr>)"
| role_granted: "role_key rl = (t, a, role_text role) \<Longrightarrow> role \<noteq> Owner \<Longrightarrow> has_account db t a \<Longrightarrow>
    role_key rl \<notin> role_key ` set (account_roles db) \<Longrightarrow>
    db_change db (db\<lparr>account_roles := account_roles db @ [rl], audit_events := au\<rparr>)"
| role_revoked: "role \<noteq> Owner \<Longrightarrow>
    db_change db (db\<lparr>account_roles := filter (\<lambda>rl. role_key rl \<noteq> (t, a, role_text role)) (account_roles db), audit_events := au\<rparr>)"
| passwords: "db_change db (db\<lparr>password_credentials := rows, audit_events := au\<rparr>)"
| envelopes: "en_reference e \<notin> en_reference ` set (totp_data_key_envelopes db) \<Longrightarrow>
    db_change db (db\<lparr>totp_data_key_envelopes := totp_data_key_envelopes db @ [e]\<rparr>)"
| factor_pending: "tf_id f \<notin> tf_id ` set (mfa_totp_factors db) \<Longrightarrow> tf_status f = ''pending'' \<Longrightarrow>
    db_change db (db\<lparr>mfa_totp_factors := mfa_totp_factors db @ [f], audit_events := au\<rparr>)"
| factor_active: "factors = sql_update (pending_factor t a f)
      (\<lambda>x. x\<lparr>tf_status := ''active'', tf_activated_at := Some now, tf_last_step := Some s\<rparr>) (mfa_totp_factors db) \<Longrightarrow>
    active_factor_index factors \<Longrightarrow> \<exists>x \<in> set (mfa_totp_factors db). pending_factor t a f x \<Longrightarrow>
    db_change db (db\<lparr>mfa_totp_factors := factors,
      accounts := sql_update (enrolling_account t a) (\<lambda>x. x\<lparr>ac_state := ''active'', ac_updated_at := now\<rparr>) (accounts db),
      audit_events := au\<rparr>)"
| factor_step: "db_change db (db\<lparr>mfa_totp_factors := sql_update (unspent_factor t a f s)
      (\<lambda>x. x\<lparr>tf_last_step := Some s\<rparr>) (mfa_totp_factors db)\<rparr>)"
| recovery_replaced: "rs_id s \<notin> rs_id ` set (recovery_code_sets db) \<Longrightarrow> rs_tenant s = t \<Longrightarrow> rs_account s = a \<Longrightarrow>
    \<forall>v \<in> set rows. rv_set v = rs_id s \<and> rv_consumed_at v = None \<Longrightarrow>
    rv_id ` set rows \<inter> rv_id ` set (recovery_code_verifiers db) = {} \<Longrightarrow>
    db_change db (db\<lparr>recovery_code_sets := sql_update (\<lambda>s. rs_tenant s = t \<and> rs_account s = a \<and> rs_invalidated_at s = None)
        (\<lambda>s. s\<lparr>rs_invalidated_at := Some now\<rparr>) (recovery_code_sets db) @ [s],
      recovery_code_verifiers := recovery_code_verifiers db @ rows, audit_events := au\<rparr>)"
| recovery_spent: "db_change db (db\<lparr>recovery_code_verifiers := sql_update (usable_recovery_verifier t a code db)
      (\<lambda>x. x\<lparr>rv_consumed_at := Some now\<rparr>) (recovery_code_verifiers db), audit_events := au\<rparr>)"
| session_new: "fm_id f \<notin> fm_id ` set (session_families db) \<Longrightarrow> rf_id c \<notin> rf_id ` set (refresh_credentials db) \<Longrightarrow>
    rf_digest c \<notin> rf_digest ` set (refresh_credentials db) \<Longrightarrow> as_digest s \<notin> as_digest ` set (access_sessions db) \<Longrightarrow>
    rf_family c = fm_id f \<Longrightarrow> rf_tenant c = fm_tenant f \<Longrightarrow> rf_account c = fm_account f \<Longrightarrow>
    as_family s = fm_id f \<Longrightarrow> as_tenant s = fm_tenant f \<Longrightarrow> as_account s = fm_account f \<Longrightarrow> fm_revoked_at f = None \<Longrightarrow>
    has_account db (fm_tenant f) (fm_account f) \<Longrightarrow>
    db_change db (db\<lparr>session_families := session_families db @ [f], refresh_credentials := refresh_credentials db @ [c],
      access_sessions := access_sessions db @ [s], audit_events := au\<rparr>)"
| session_revoked: "db_change db (db\<lparr>session_families := sql_update (live_family t a fam)
        (\<lambda>f. f\<lparr>fm_revoked_at := Some now, fm_reason := Some reason\<rparr>) (session_families db),
      access_sessions := revoke_access fam now (access_sessions db), audit_events := au\<rparr>)"
| session_rotated: "c \<in> set (refresh_credentials db) \<Longrightarrow> rf_consumed_at c = None \<Longrightarrow> f \<in> set (session_families db) \<Longrightarrow>
    live_family (rf_tenant c) (rf_account c) (rf_family c) f \<Longrightarrow>
    rf_id m \<notin> rf_id ` set (refresh_credentials db) \<Longrightarrow> rf_digest m \<notin> rf_digest ` set (refresh_credentials db) \<Longrightarrow>
    as_digest s \<notin> as_digest ` set (access_sessions db) \<Longrightarrow>
    rf_family m = rf_family c \<Longrightarrow> rf_tenant m = rf_tenant c \<Longrightarrow> rf_account m = rf_account c \<Longrightarrow>
    as_family s = rf_family c \<Longrightarrow> as_tenant s = rf_tenant c \<Longrightarrow> as_account s = rf_account c \<Longrightarrow>
    db_change db (db\<lparr>refresh_credentials := spend_credential (rf_id c) now (rf_id m) (refresh_credentials db) @ [m],
      access_sessions := revoke_access (rf_family c) now (access_sessions db) @ [s], audit_events := au\<rparr>)"
| login_new: "lt_digest l \<notin> lt_digest ` set (login_transactions db) \<Longrightarrow>
    db_change db (db\<lparr>login_transactions := login_transactions db @ [l], audit_events := au\<rparr>)"
| login_spent: "db_change db (db\<lparr>login_transactions := sql_update (usable_login d b st now)
      (\<lambda>l. l\<lparr>lt_stage := ''consumed'', lt_consumed_at := Some now\<rparr>) (login_transactions db), audit_events := au\<rparr>)"
| grant_new: "su_digest g \<notin> su_digest ` set (step_up_grants db) \<Longrightarrow>
    db_change db (db\<lparr>step_up_grants := step_up_grants db @ [g], audit_events := au\<rparr>)"
| grant_spent: "db_change db (db\<lparr>step_up_grants := sql_update (usable_grant q now db)
      (\<lambda>g. g\<lparr>su_consumed_at := Some now\<rparr>) (step_up_grants db), audit_events := au\<rparr>)"
| ceremony_new: "wc_digest w \<notin> wc_digest ` set (webauthn_ceremonies db) \<Longrightarrow>
    db_change db (db\<lparr>webauthn_ceremonies := webauthn_ceremonies db @ [w], audit_events := au\<rparr>)"
| ceremony_spent: "db_change db (db\<lparr>webauthn_ceremonies := sql_update (usable_ceremony d wb now)
      (\<lambda>c. c\<lparr>wc_consumed_at := Some now\<rparr>) (webauthn_ceremonies db), audit_events := au\<rparr>)"
| passkeys: "db_change db (db\<lparr>webauthn_credentials := pks, audit_events := au\<rparr>)"
| replay_new: "replay_key row \<notin> replay_key ` set (federation_replays db) \<Longrightarrow>
    db_change db (db\<lparr>federation_replays := federation_replays db @ [row], audit_events := au\<rparr>)"

subsection \<open>Every operation is a specified change\<close>

lemma invited_below_admin: "invite_validate c = Inr () \<Longrightarrow> Admin < invite_role c"
  by (simp add: invite_validate_iff)

lemma change_bootstrap: "bootstrap_tenant E c db = (r, db') \<Longrightarrow> db_change db db'"
  by (erule bootstrap_tenant_effect) (auto simp: role_key_def intro: no_change new_tenant)

lemma change_invite: "invite_account E c db = (r, db') \<Longrightarrow> db_change db db'"
  by (erule invite_account_effect) (auto simp: role_key_def intro: no_change new_account dest: invited_below_admin)

lemma change_change_role:
  assumes "change_role E c db = (r, db')"
  shows "db_change db db'"
  using assms
proof (cases rule: change_role_effect)
  case (granted rl au)
  then show ?thesis
    by (auto simp: change_role_validate_iff role_key_def intro!: role_granted)
next
  case (revoked au)
  then show ?thesis
    by (auto simp: change_role_validate_iff intro!: role_revoked)
qed (simp add: no_change)

lemma change_password: "store_password_verifier E t a v pepper corr db = (r, db') \<Longrightarrow> db_change db db'"
  by (erule store_password_verifier_effect) (auto intro: no_change passwords)

lemma change_envelope: "create_totp_data_key_envelope q db = (r, db') \<Longrightarrow> db_change db db'"
  by (erule create_envelope_effect) (auto intro: no_change envelopes)

lemma change_pending: "create_pending_totp_factor E t a f enc corr db = (r, db') \<Longrightarrow> db_change db db'"
  by (erule create_pending_totp_factor_effect) (auto intro: no_change factor_pending)

lemma change_activate:
  assumes "activate_totp_factor E t a f s corr db = (r, db')"
  shows "db_change db db'"
  using assms
proof (cases rule: activate_totp_factor_effect)
  case (committed au)
  show ?thesis
    unfolding committed(4) by (rule factor_active [OF refl _ committed(2)]) (use committed(4,5) in simp)
qed (simp add: no_change)

lemma change_totp: "consume_totp_step t a f s db = (r, db') \<Longrightarrow> db_change db db'"
  by (erule consume_totp_step_effect) (auto intro: no_change factor_step)

lemma change_recovery_set:
  assumes "replace_recovery_code_set E t a vs corr db = (r, db')"
  shows "db_change db db'"
  using assms
proof (cases rule: replace_recovery_code_set_effect)
  case (committed s rows au)
  show ?thesis
    unfolding committed(9) by (rule recovery_replaced [OF committed(2,3,4,7,8)])
qed (simp add: no_change)

lemma change_recovery_code: "consume_recovery_code E t a v corr db = (r, db') \<Longrightarrow> db_change db db'"
  by (erule consume_recovery_code_effect) (auto intro: no_change recovery_spent)

lemma change_session:
  assumes "create_refresh_session E q db = (r, db')"
  shows "db_change db db'"
  using assms
proof (cases rule: create_refresh_session_effect)
  case (committed f c s au)
  show ?thesis
    unfolding committed(12) by (rule session_new [OF committed(6-9)])
      (use has_account_in_has [OF committed(2)] in \<open>simp_all add: committed(3-5)\<close>)
qed (simp add: no_change)

lemma change_revoke:
  assumes "revoke_refresh_session_family E t a fam corr db = (r, db')" and "sessions_ok db"
  shows "db_change db db'"
  using assms(1) sessions_okD(1) [OF assms(2)]
proof (cases rule: revoke_refresh_session_family_effect)
  case (revoked au)
  show ?thesis
    unfolding revoked(3) by (rule session_revoked)
qed (simp add: no_change)

lemma change_rotate:
  assumes "rotate_refresh_credential E p n na x xa corr db = (r, db')" and "sessions_ok db"
  shows "db_change db db'"
  using assms
proof (cases rule: rotate_refresh_credential_effect)
  case (reuse c f au)
  show ?thesis
    unfolding reuse(7) by (rule session_revoked)
next
  case (rotated c f m s au)
  show ?thesis
    unfolding rotated(16) by (rule session_rotated [OF rotated(2,4,6,7)]) (use rotated(11-15) in simp_all)
qed (simp add: no_change)

lemma change_login: "create_login_transaction E q db = (r, db') \<Longrightarrow> db_change db db'"
  by (erule create_login_transaction_effect) (simp_all add: no_change login_new)

lemma change_consume_login: "consume_login_transaction E d st b corr db = (r, db') \<Longrightarrow> db_change db db'"
  by (erule consume_login_transaction_effect) (auto intro: no_change login_spent)

lemma change_grant: "create_step_up_grant E q db = (r, db') \<Longrightarrow> db_change db db'"
  by (erule create_step_up_grant_effect) (simp_all add: no_change grant_new)

lemma change_consume_grant: "consume_step_up_grant E q db = (r, db') \<Longrightarrow> db_change db db'"
  by (erule consume_step_up_grant_effect) (auto intro: no_change grant_spent)

lemma change_ceremony: "create_webauthn_ceremony E q db = (r, db') \<Longrightarrow> db_change db db'"
  by (erule create_webauthn_ceremony_effect) (simp_all add: no_change ceremony_new)

lemma change_consume_ceremony: "consume_webauthn_ceremony E d b corr db = (r, db') \<Longrightarrow> db_change db db'"
  by (erule consume_webauthn_ceremony_effect) (auto intro: no_change ceremony_spent)

lemma change_register: "register_webauthn_passkey E q db = (r, db') \<Longrightarrow> db_change db db'"
  by (erule register_webauthn_passkey_effect) (auto intro: no_change passkeys)

lemma change_update:
  assumes "update_webauthn_passkey E t a k pk db = (r, db')"
  shows "db_change db db'"
  using assms
proof (cases rule: update_webauthn_passkey_effect)
  case (committed rows)
  have "db' = db\<lparr>webauthn_credentials := rows, audit_events := audit_events db\<rparr>"
    by (simp add: committed(2))
  then show ?thesis by (simp only: passkeys)
qed (simp add: no_change)

lemma change_replay: "record_federation_replay E q db = (r, db') \<Longrightarrow> db_change db db'"
  by (erule record_federation_replay_effect) (simp_all add: no_change replay_new)

lemma store_step_change: "store_step db db' \<Longrightarrow> sessions_ok db \<Longrightarrow> db_change db db'"
  by (induction rule: store_step.induct)
    (blast intro: change_bootstrap change_invite change_change_role change_password change_envelope change_pending
      change_activate change_totp change_recovery_set change_recovery_code change_session change_rotate change_revoke
      change_login change_consume_login change_grant change_consume_grant change_ceremony change_consume_ceremony
      change_register change_update change_replay)+

subsection \<open>The store invariant\<close>

text \<open>
  Identifiers are unique, every account belongs to a tenant and every role to an account of its
  tenant, every session family to an account, every tenant has exactly one owner.
\<close>

definition owner_count :: "uuid \<Rightarrow> role_row list \<Rightarrow> nat" where
  "owner_count t rows = length (filter (\<lambda>r. rl_tenant r = t \<and> rl_role r = ''owner'') rows)"

definition tenancy_ok :: "'j database \<Rightarrow> bool" where
  "tenancy_ok db \<longleftrightarrow>
     distinct (map tn_id (tenants db)) \<and> distinct (map tn_domain (tenants db)) \<and> distinct (map ac_id (accounts db)) \<and>
     (\<forall>a \<in> set (accounts db). has_tenant db (ac_tenant a)) \<and>
     (\<forall>r \<in> set (account_roles db). has_account db (rl_tenant r) (rl_account r) \<and> rl_role r \<in> set role_texts) \<and>
     (\<forall>f \<in> set (session_families db). has_account db (fm_tenant f) (fm_account f)) \<and>
     (\<forall>t \<in> set (tenants db). owner_count (tn_id t) (account_roles db) = 1)"

text \<open>An account is active only with an active second factor, of which there is at most one.\<close>

definition has_factor :: "totp_row list \<Rightarrow> uuid \<Rightarrow> uuid \<Rightarrow> bool" where
  "has_factor rows t a \<longleftrightarrow> (\<exists>f \<in> set rows. tf_tenant f = t \<and> tf_account f = a \<and> tf_status f = ''active'')"

definition factors_ok :: "'j database \<Rightarrow> bool" where
  "factors_ok db \<longleftrightarrow>
     distinct (map tf_id (mfa_totp_factors db)) \<and> active_factor_index (mfa_totp_factors db) \<and>
     (\<forall>a \<in> set (accounts db). ac_state a = ''active'' \<longrightarrow> has_factor (mfa_totp_factors db) (ac_tenant a) (ac_id a))"

definition tokens_ok :: "'j database \<Rightarrow> bool" where
  "tokens_ok db \<longleftrightarrow>
     distinct (map lt_digest (login_transactions db)) \<and> distinct (map su_digest (step_up_grants db)) \<and>
     distinct (map wc_digest (webauthn_ceremonies db)) \<and> distinct (map replay_key (federation_replays db))"

definition store_ok :: "'j database \<Rightarrow> bool" where
  "store_ok db \<longleftrightarrow> sessions_ok db \<and> tenancy_ok db \<and> factors_ok db \<and> tokens_ok db"

lemma store_okD:
  assumes "store_ok db"
  shows "sessions_ok db" and "tenancy_ok db" and "factors_ok db" and "tokens_ok db"
  using assms by (simp_all add: store_ok_def)

lemma sessions_ok_same:
  "session_families db' = session_families db \<Longrightarrow> refresh_credentials db' = refresh_credentials db \<Longrightarrow>
   access_sessions db' = access_sessions db \<Longrightarrow> sessions_ok db' \<longleftrightarrow> sessions_ok db"
  by (simp add: sessions_ok_def)

lemma change_sessions_ok: "db_change db db' \<Longrightarrow> sessions_ok db \<Longrightarrow> sessions_ok db'"
proof (induction rule: db_change.induct)
  case (session_new f db c s au)
  show ?case by (rule sessions_ok_created [OF session_new(13) _ _ _ session_new(1-11)]) simp_all
next
  case (session_revoked db t a fam now reason au)
  show ?case by (rule sessions_ok_revoked [OF session_revoked(1)]) simp_all
next
  case (session_rotated c db f m s now au)
  show ?case by (rule sessions_ok_rotated [OF session_rotated(14,1-4) _ _ _ session_rotated(5-13)]) simp_all
qed (simp_all add: sessions_ok_def)

lemma owner_count_append [simp]:
  "owner_count t (rows @ [r]) = owner_count t rows + (if rl_tenant r = t \<and> rl_role r = ''owner'' then 1 else 0)"
  by (simp add: owner_count_def)

lemma owner_count_revoked:
  assumes "role \<noteq> Owner"
  shows "owner_count t (filter (\<lambda>rl. role_key rl \<noteq> (t', a, role_text role)) rows) = owner_count t rows"
proof -
  have "role_text role \<noteq> ''owner''" using assms by (cases role) simp_all
  then show ?thesis unfolding owner_count_def filter_filter by (intro arg_cong [of _ _ length] filter_cong) (auto simp: role_key_def)
qed

lemma owner_count_none:
  assumes "tenancy_ok db" and "t \<notin> tn_id ` set (tenants db)"
  shows "owner_count t (account_roles db) = 0"
proof -
  have "rl_tenant r \<noteq> t" if "r \<in> set (account_roles db)" for r
  proof -
    have "has_account db (rl_tenant r) (rl_account r)" using assms(1) that unfolding tenancy_ok_def by blast
    then obtain x where x: "x \<in> set (accounts db)" "ac_tenant x = rl_tenant r" unfolding has_account_def by auto
    have "has_tenant db (ac_tenant x)" using assms(1) x(1) unfolding tenancy_ok_def by blast
    then show ?thesis using assms(2) x(2) unfolding has_tenant_def by metis
  qed
  then show ?thesis by (simp add: owner_count_def filter_empty_conv)
qed

lemma enrolling_keeps [simp]:
  "map ac_id (sql_update P (\<lambda>x. x\<lparr>ac_state := st, ac_updated_at := now\<rparr>) rows) = map ac_id rows"
  "(\<lambda>r. (ac_tenant r, ac_id r)) ` set (sql_update P (\<lambda>x. x\<lparr>ac_state := st, ac_updated_at := now\<rparr>) rows) =
     (\<lambda>r. (ac_tenant r, ac_id r)) ` set rows"
  by (rule sql_update_map sql_update_image; simp)+

lemma sql_update_ball:
  "(\<forall>x \<in> set (sql_update P f rows). Q x) \<longleftrightarrow> (\<forall>x \<in> set rows. Q (if P x then f x else x))"
  by (auto simp: set_sql_update)

lemma change_tenancy_ok: "db_change db db' \<Longrightarrow> tenancy_ok db \<Longrightarrow> tenancy_ok db'"
proof (induction rule: db_change.induct)
  case (new_tenant t db a rl au)
  have "owner_count (tn_id t) (account_roles db) = 0"
    by (rule owner_count_none [OF new_tenant(7,1)])
  with new_tenant show ?case
    by (auto simp: tenancy_ok_def has_tenant_def has_account_def role_key_def role_texts_def)
next
  case (new_account a db rl role au)
  have "role_text role \<noteq> ''owner''" using new_account(5) by (cases role) (simp_all add: less_role_def)
  with new_account show ?case
    by (auto simp: tenancy_ok_def has_tenant_def has_account_def role_key_def)
next
  case (role_granted rl t a role db au)
  have "role_text role \<noteq> ''owner''" using role_granted(2) by (cases role) simp_all
  with role_granted show ?case
    by (auto simp: tenancy_ok_def has_tenant_def has_account_def role_key_def)
next
  case (role_revoked role db t a au)
  then show ?case
    by (simp add: tenancy_ok_def has_tenant_def has_account_def owner_count_revoked)
next
  case (factor_active factors t a f now s db au)
  then show ?case
    by (simp add: tenancy_ok_def has_tenant_def has_account_def sql_update_ball)
next
  case (session_revoked db t a fam now reason au)
  then show ?case
    by (simp add: tenancy_ok_def has_tenant_def has_account_def sql_update_ball)
qed (simp_all add: tenancy_ok_def has_tenant_def has_account_def)

lemma has_factor_append: "has_factor rows t a \<Longrightarrow> has_factor (rows @ [f]) t a"
  by (auto simp: has_factor_def)

lemma has_factor_step [simp]:
  "has_factor (sql_update P (\<lambda>x. x\<lparr>tf_last_step := s\<rparr>) rows) t a \<longleftrightarrow> has_factor rows t a"
  by (induction rows) (auto simp: has_factor_def sql_update_def)

lemma has_factor_activated:
  assumes "x \<in> set rows" and "tf_tenant x = t" and "tf_account x = a" and "tf_status x = ''active'' \<or> P x"
  shows "has_factor (sql_update P (\<lambda>x. x\<lparr>tf_status := ''active'', tf_activated_at := now, tf_last_step := s\<rparr>) rows) t a"
  unfolding has_factor_def set_sql_update
  by (rule bexI [OF _ imageI [OF assms(1)]]) (use assms in auto)

lemma active_index_step [simp]:
  "active_factor_index (sql_update P (\<lambda>x. x\<lparr>tf_last_step := s\<rparr>) rows) \<longleftrightarrow> active_factor_index rows"
proof -
  have "map (\<lambda>f. (tf_tenant f, tf_account f)) (filter (\<lambda>f. tf_status f = ''active'') (sql_update P (\<lambda>x. x\<lparr>tf_last_step := s\<rparr>) rows)) =
        map (\<lambda>f. (tf_tenant f, tf_account f)) (filter (\<lambda>f. tf_status f = ''active'') rows)"
    by (induction rows) (simp_all add: sql_update_def)
  then show ?thesis by (simp add: active_factor_index_def)
qed

lemma factor_ids_keep [simp]:
  "map tf_id (sql_update P (\<lambda>x. x\<lparr>tf_last_step := s\<rparr>) rows) = map tf_id rows"
  "map tf_id (sql_update P (\<lambda>x. x\<lparr>tf_status := st, tf_activated_at := now, tf_last_step := s\<rparr>) rows) = map tf_id rows"
  by (rule sql_update_map; simp)+

lemma change_factors_ok: "db_change db db' \<Longrightarrow> factors_ok db \<Longrightarrow> factors_ok db'"
proof (induction rule: db_change.induct)
  case (factor_pending f db au)
  then show ?case by (simp add: factors_ok_def active_factor_index_def has_factor_append)
next
  case (factor_active factors t a f now s db au)
  have "has_factor factors (ac_tenant x) (ac_id x)"
    if "x \<in> set (accounts db)" "ac_state x = ''active'' \<or> enrolling_account t a x" for x
  proof -
    have "has_factor (mfa_totp_factors db) (ac_tenant x) (ac_id x) \<or> (ac_tenant x = t \<and> ac_id x = a)"
      using factor_active.prems that unfolding factors_ok_def enrolling_account_def by blast
    then show ?thesis
    proof
      assume "has_factor (mfa_totp_factors db) (ac_tenant x) (ac_id x)"
      then show ?thesis unfolding has_factor_def [of "mfa_totp_factors db"] factor_active(1)
        by (elim bexE conjE) (rule has_factor_activated, assumption, simp_all)
    next
      assume "ac_tenant x = t \<and> ac_id x = a"
      then show ?thesis using factor_active(3) unfolding factor_active(1)
        by (elim bexE) (rule has_factor_activated, assumption, simp_all add: pending_factor_def)
    qed
  qed
  then have active: "\<forall>x \<in> set (accounts db). ac_state x = ''active'' \<or> enrolling_account t a x \<longrightarrow>
      has_factor factors (ac_tenant x) (ac_id x)" by blast
  have ids: "distinct (map tf_id factors)" using factor_active.prems unfolding factors_ok_def factor_active(1) by simp
  show ?case unfolding factors_ok_def by (simp add: ids factor_active(2) sql_update_ball active)
qed (simp_all add: factors_ok_def)

lemma token_updates_keep [simp]:
  "map lt_digest (sql_update P (\<lambda>l. l\<lparr>lt_stage := st, lt_consumed_at := c\<rparr>) logins) = map lt_digest logins"
  "map su_digest (sql_update Q (\<lambda>g. g\<lparr>su_consumed_at := c\<rparr>) grants) = map su_digest grants"
  "map wc_digest (sql_update R (\<lambda>w. w\<lparr>wc_consumed_at := c\<rparr>) ceremonies) = map wc_digest ceremonies"
  by (rule sql_update_map; simp)+

lemma change_tokens_ok: "db_change db db' \<Longrightarrow> tokens_ok db \<Longrightarrow> tokens_ok db'"
  by (induction rule: db_change.induct) (simp_all add: tokens_ok_def)

lemma store_ok_step: "store_ok db \<Longrightarrow> store_step db db' \<Longrightarrow> store_ok db'"
  using store_step_change change_sessions_ok change_tenancy_ok change_factors_ok change_tokens_ok
  unfolding store_ok_def by blast

lemma store_ok_empty: "store_ok (empty_database peers keys)"
  by (simp add: store_ok_def sessions_ok_def tenancy_ok_def factors_ok_def tokens_ok_def active_factor_index_def empty_database_def)

lemma store_ok_steps: "store_step\<^sup>*\<^sup>* db db' \<Longrightarrow> store_ok db \<Longrightarrow> store_ok db'"
  by (induction rule: rtranclp_induct) (blast intro: store_ok_step)+

lemma store_reachable_ok: "store_reachable db \<Longrightarrow> store_ok db"
  unfolding store_reachable_def using store_ok_steps store_ok_empty by blast

lemma store_reachable_steps: "store_reachable db \<Longrightarrow> store_step\<^sup>*\<^sup>* db db' \<Longrightarrow> store_reachable db'"
  unfolding store_reachable_def by (blast intro: rtranclp_trans)

subsection \<open>One-use credentials\<close>

text \<open>
  The contract of a one-use credential: accepting it marks it spent, a spent one is never accepted
  and no operation unmarks it.  Hence it is accepted at most once along every run.
\<close>

locale one_use =
  fixes step :: "'d \<Rightarrow> 'd \<Rightarrow> bool" and inv :: "'d \<Rightarrow> bool"
    and accepts :: "'k \<Rightarrow> 'd \<Rightarrow> 'd \<Rightarrow> bool" and spent :: "'k \<Rightarrow> 'd \<Rightarrow> bool"
  assumes inv_step: "inv d \<Longrightarrow> step d d' \<Longrightarrow> inv d'"
    and accepts_step: "accepts k d d' \<Longrightarrow> step d d'"
    and accepts_unspent: "inv d \<Longrightarrow> accepts k d d' \<Longrightarrow> \<not> spent k d"
    and accepts_spends: "inv d \<Longrightarrow> accepts k d d' \<Longrightarrow> spent k d'"
    and spent_step: "inv d \<Longrightarrow> step d d' \<Longrightarrow> spent k d \<Longrightarrow> spent k d'"
begin

lemma spent_steps: "step\<^sup>*\<^sup>* d d' \<Longrightarrow> inv d \<Longrightarrow> spent k d \<Longrightarrow> inv d' \<and> spent k d'"
  by (induction rule: rtranclp_induct) (blast intro: inv_step spent_step)+

lemma at_most_once: "inv d \<Longrightarrow> accepts k d d1 \<Longrightarrow> step\<^sup>*\<^sup>* d1 d2 \<Longrightarrow> \<not> accepts k d2 d3"
  using spent_steps accepts_spends accepts_unspent accepts_step inv_step by blast

end

definition has_row :: "('r \<Rightarrow> 'k) \<Rightarrow> ('r \<Rightarrow> bool) \<Rightarrow> 'k \<Rightarrow> 'r list \<Rightarrow> bool" where
  "has_row key Q k rows \<longleftrightarrow> (\<exists>r \<in> set rows. key r = k \<and> Q r)"

lemma has_row_append: "has_row key Q k rows \<Longrightarrow> has_row key Q k (rows @ new)"
  by (auto simp: has_row_def)

lemma has_row_update:
  assumes "has_row key Q k rows" and "\<And>r. key (f r) = key r" and "\<And>r. Q r \<Longrightarrow> P r \<Longrightarrow> Q (f r)"
  shows "has_row key Q k (sql_update P f rows)"
proof -
  from assms(1) obtain r where "r \<in> set rows" "key r = k" "Q r" unfolding has_row_def by blast
  then show ?thesis unfolding has_row_def set_sql_update
    by (intro bexI [of _ "if P r then f r else r"]) (use assms(2,3) in auto)
qed

lemma has_row_spent:
  assumes "distinct (map key rows)" and "r \<in> set rows" and "P r" and "key r = k" and "\<not> Q r" and "key (f r) = k" and "Q (f r)"
  shows "\<not> has_row key Q k rows \<and> has_row key Q k (sql_update P f rows)"
proof
  show "\<not> has_row key Q k rows"
    using assms distinct_map_inj unfolding has_row_def by metis
  show "has_row key Q k (sql_update P f rows)"
    unfolding has_row_def set_sql_update by (rule bexI [of _ "f r"]) (use assms in auto)
qed

definition login_used :: "opaque_token_digest \<Rightarrow> 'j database \<Rightarrow> bool" where
  "login_used d db = has_row lt_digest (\<lambda>l. lt_consumed_at l \<noteq> None) d (login_transactions db)"

definition grant_used :: "opaque_token_digest \<Rightarrow> 'j database \<Rightarrow> bool" where
  "grant_used d db = has_row su_digest (\<lambda>g. su_consumed_at g \<noteq> None) d (step_up_grants db)"

definition ceremony_used :: "opaque_token_digest \<Rightarrow> 'j database \<Rightarrow> bool" where
  "ceremony_used d db = has_row wc_digest (\<lambda>w. wc_consumed_at w \<noteq> None) d (webauthn_ceremonies db)"

definition replay_used :: "uuid \<times> uuid \<times> uuid \<Rightarrow> 'j database \<Rightarrow> bool" where
  "replay_used k db = has_row replay_key (\<lambda>_. True) k (federation_replays db)"

definition refresh_used :: "opaque_token_digest \<Rightarrow> 'j database \<Rightarrow> bool" where
  "refresh_used d db = has_row rf_digest (\<lambda>c. rf_consumed_at c \<noteq> None) d (refresh_credentials db)"

definition totp_used :: "uuid \<times> int \<Rightarrow> 'j database \<Rightarrow> bool" where
  "totp_used k db = has_row tf_id (\<lambda>f. tf_status f = ''active'' \<and> (\<exists>l. tf_last_step f = Some l \<and> snd k \<le> l)) (fst k)
     (mfa_totp_factors db)"

definition family_revoked :: "uuid \<Rightarrow> 'j database \<Rightarrow> bool" where
  "family_revoked fam db = has_row fm_id (\<lambda>f. fm_revoked_at f \<noteq> None) fam (session_families db)"

lemma change_login_used: "db_change db db' \<Longrightarrow> login_used d db \<Longrightarrow> login_used d db'"
  by (induction rule: db_change.induct) (simp_all add: login_used_def has_row_append has_row_update)

lemma change_grant_used: "db_change db db' \<Longrightarrow> grant_used d db \<Longrightarrow> grant_used d db'"
  by (induction rule: db_change.induct) (simp_all add: grant_used_def has_row_append has_row_update)

lemma change_ceremony_used: "db_change db db' \<Longrightarrow> ceremony_used d db \<Longrightarrow> ceremony_used d db'"
  by (induction rule: db_change.induct) (simp_all add: ceremony_used_def has_row_append has_row_update)

lemma change_replay_used: "db_change db db' \<Longrightarrow> replay_used k db \<Longrightarrow> replay_used k db'"
  by (induction rule: db_change.induct) (simp_all add: replay_used_def has_row_append)

lemma change_refresh_used: "db_change db db' \<Longrightarrow> refresh_used d db \<Longrightarrow> refresh_used d db'"
  by (induction rule: db_change.induct) (simp_all add: refresh_used_def has_row_append has_row_update spend_credential_def)

lemma change_family_revoked: "db_change db db' \<Longrightarrow> family_revoked fam db \<Longrightarrow> family_revoked fam db'"
  by (induction rule: db_change.induct) (simp_all add: family_revoked_def has_row_append has_row_update)

lemma change_totp_used: "db_change db db' \<Longrightarrow> totp_used k db \<Longrightarrow> totp_used k db'"
proof (induction rule: db_change.induct)
  case (factor_active factors t a f now s db au)
  then show ?case unfolding totp_used_def factor_active(1) by simp (rule has_row_update; auto simp: pending_factor_def)
next
  case (factor_step db t a f s)
  then show ?case unfolding totp_used_def by simp (rule has_row_update; auto simp: unspent_factor_def split: option.splits)
qed (simp_all add: totp_used_def has_row_append)

definition login_accepts :: "opaque_token_digest \<Rightarrow> 'j database \<Rightarrow> 'j database \<Rightarrow> bool" where
  "login_accepts d db db' \<longleftrightarrow> (\<exists>E st b corr r. consume_login_transaction E d st b corr db = (Inr r, db'))"

definition grant_accepts :: "opaque_token_digest \<Rightarrow> 'j database \<Rightarrow> 'j database \<Rightarrow> bool" where
  "grant_accepts d db db' \<longleftrightarrow> (\<exists>E q. sg_digest q = d \<and> consume_step_up_grant E q db = (Inr True, db'))"

definition ceremony_accepts :: "opaque_token_digest \<Rightarrow> 'j database \<Rightarrow> 'j database \<Rightarrow> bool" where
  "ceremony_accepts d db db' \<longleftrightarrow> (\<exists>E b corr r. consume_webauthn_ceremony E d b corr db = (Inr r, db'))"

definition replay_accepts :: "uuid \<times> uuid \<times> uuid \<Rightarrow> 'j database \<Rightarrow> 'j database \<Rightarrow> bool" where
  "replay_accepts k db db' \<longleftrightarrow> (\<exists>E q. (tenant_uuid (rq_tenant q), rq_peer q, rq_request q) = k \<and>
     record_federation_replay E q db = (Inr True, db'))"

definition totp_accepts :: "uuid \<times> int \<Rightarrow> 'j database \<Rightarrow> 'j database \<Rightarrow> bool" where
  "totp_accepts k db db' \<longleftrightarrow> (\<exists>t a. consume_totp_step t a (fst k) (snd k) db = (Inr (), db'))"

definition refresh_accepts :: "opaque_token_digest \<Rightarrow> 'j database \<Rightarrow> 'j database \<Rightarrow> bool" where
  "refresh_accepts d db db' \<longleftrightarrow> (\<exists>E n na x xa corr r. rotate_refresh_credential E d n na x xa corr db = (Inr (Rotated r), db'))"

lemma login_accepted:
  assumes "consume_login_transaction E d st b corr db = (Inr r, db')" and "tokens_ok db"
  shows "\<not> login_used d db \<and> login_used d db'"
  using assms(1)
proof (cases rule: consume_login_transaction_effect)
  case (committed l au)
  show ?thesis unfolding login_used_def committed(4)
    by simp (rule has_row_spent [of _ _ l], use committed assms(2) in \<open>simp_all add: usable_login_def tokens_ok_def\<close>)
qed simp

lemma grant_accepted:
  assumes "consume_step_up_grant E q db = (Inr True, db')" and "tokens_ok db"
  shows "\<not> grant_used (sg_digest q) db \<and> grant_used (sg_digest q) db'"
  using assms(1)
proof (cases rule: consume_step_up_grant_effect)
  case (committed g au)
  show ?thesis unfolding grant_used_def committed(4)
    by simp (rule has_row_spent [of _ _ g], use committed assms(2) in \<open>simp_all add: usable_grant_def tokens_ok_def\<close>)
qed simp

lemma ceremony_accepted:
  assumes "consume_webauthn_ceremony E d b corr db = (Inr r, db')" and "tokens_ok db"
  shows "\<not> ceremony_used d db \<and> ceremony_used d db'"
  using assms(1)
proof (cases rule: consume_webauthn_ceremony_effect)
  case (committed c k au)
  show ?thesis unfolding ceremony_used_def committed(4)
    by simp (rule has_row_spent [of _ _ c], use committed assms(2) in \<open>simp_all add: usable_ceremony_def tokens_ok_def\<close>)
qed simp

lemma replay_accepted:
  assumes "record_federation_replay E q db = (Inr True, db')"
  shows "\<not> replay_used (tenant_uuid (rq_tenant q), rq_peer q, rq_request q) db"
    and "replay_used (tenant_uuid (rq_tenant q), rq_peer q, rq_request q) db'"
  using assms by (cases rule: record_federation_replay_effect; force simp: replay_used_def has_row_def)+

lemma totp_accepted:
  assumes "consume_totp_step t a f s db = (Inr (), db')" and "factors_ok db"
  shows "\<not> totp_used (f, s) db \<and> totp_used (f, s) db'"
  using assms(1)
proof (cases rule: consume_totp_step_effect)
  case committed
  then obtain x where x: "x \<in> set (mfa_totp_factors db)" "unspent_factor (tenant_uuid t) (account_uuid a) f s x" by blast
  show ?thesis unfolding totp_used_def committed(4)
    by simp (rule has_row_spent [of _ _ x], use x assms(2) in \<open>auto simp: unspent_factor_def factors_ok_def\<close>)
qed simp

lemma refresh_accepted:
  assumes "rotate_refresh_credential E d n na x xa corr db = (Inr (Rotated r), db')" and "sessions_ok db"
  shows "\<not> refresh_used d db \<and> refresh_used d db'"
  using assms
proof (cases rule: rotate_refresh_credential_effect)
  case (rotated c f m s au)
  have "\<not> refresh_used d db \<and> has_row rf_digest (\<lambda>c. rf_consumed_at c \<noteq> None) d
      (spend_credential (rf_id c) (env_now E) (rf_id m) (refresh_credentials db))"
    unfolding refresh_used_def spend_credential_def
    by (rule has_row_spent [of _ _ c]) (use rotated(2-4) sessions_okD(3) [OF assms(2)] in simp_all)
  then show ?thesis unfolding refresh_used_def rotated(16) by (simp add: has_row_append)
qed simp_all

lemma store_step_ok_change: "store_ok db \<Longrightarrow> store_step db db' \<Longrightarrow> db_change db db'"
  using store_step_change store_okD(1) by blast

lemmas one_use_laws = store_ok_step store_step_ok_change store_okD

interpretation login_use: one_use store_step store_ok login_accepts login_used
  by unfold_locales (auto simp: login_accepts_def intro: one_use_laws step_consume_login
      change_login_used dest: login_accepted store_okD(4))

interpretation grant_use: one_use store_step store_ok grant_accepts grant_used
  by unfold_locales (auto simp: grant_accepts_def intro: one_use_laws step_consume_grant
      change_grant_used dest: grant_accepted store_okD(4))

interpretation ceremony_use: one_use store_step store_ok ceremony_accepts ceremony_used
  by unfold_locales (auto simp: ceremony_accepts_def intro: one_use_laws step_consume_ceremony
      change_ceremony_used dest: ceremony_accepted store_okD(4))

interpretation replay_use: one_use store_step store_ok replay_accepts replay_used
  by unfold_locales (auto simp: replay_accepts_def intro: one_use_laws step_replay replay_accepted
      change_replay_used dest: replay_accepted(1))

interpretation totp_use: one_use store_step store_ok totp_accepts totp_used
  by unfold_locales (auto simp: totp_accepts_def intro: one_use_laws step_totp
      change_totp_used dest: totp_accepted store_okD(3))

interpretation refresh_use: one_use store_step store_ok refresh_accepts refresh_used
  by unfold_locales (auto simp: refresh_accepts_def intro: one_use_laws step_rotate
      change_refresh_used dest: refresh_accepted store_okD(1))

end
