(* ===== verification/Fabric_Assurance.thy ===== *)
theory Fabric_Assurance
  imports Fabric_Store
begin

text \<open>
  What the authority store guarantees over every run of its operations: the store invariant, refresh
  token reuse detection, one-use credentials, second factors, the soundness of access authorization
  and that an issued session works.
\<close>

subsection \<open>A sample run\<close>

text \<open>One tenant is bootstrapped and its owner enrols a second factor.\<close>

definition sample_env :: "int \<Rightarrow> u8 \<Rightarrow> store_env" where
  "sample_env now base = \<lparr>env_now = now, env_uuid = (\<lambda>n. filled (base + of_nat n))\<rparr>"

definition sample_bootstrap :: bootstrap_tenant_command where
  "sample_bootstrap = \<lparr>bootstrap_domain = DomainName [97], bootstrap_localpart = Localpart [98], bootstrap_correlation = [99]\<rparr>"

abbreviation sample_tenant :: tenant_id where "sample_tenant \<equiv> TenantId (filled 1)"
abbreviation sample_account :: account_id where "sample_account \<equiv> AccountId (filled 2)"

definition sample_seed :: encrypted_totp_seed where
  "sample_seed = \<lparr>seed_ciphertext = [], seed_nonce = filled 0, seed_key_reference = TotpKeyReference [107],
     seed_digits = 6, seed_period = 30\<rparr>"

definition sample_audit :: "u8 \<Rightarrow> audit_action \<Rightarrow> (string \<times> audit_value) list \<Rightarrow> int \<Rightarrow> audit_row" where
  "sample_audit i action meta at' = audit_row_of \<lparr>aw_id = filled i, aw_tenant = sample_tenant, aw_actor = Some sample_account,
     aw_action = action, aw_correlation = [99], aw_metadata = meta, aw_occurred_at = at'\<rparr>"

definition sample_account_row :: "string \<Rightarrow> int \<Rightarrow> account_row" where
  "sample_account_row state updated = \<lparr>ac_id = filled 2, ac_tenant = filled 1, ac_localpart = [98], ac_state = state,
     ac_created_at = 0, ac_updated_at = updated, ac_deactivated_at = None\<rparr>"

definition sample_factor :: "string \<Rightarrow> int option \<Rightarrow> int option \<Rightarrow> totp_row" where
  "sample_factor status step at' = \<lparr>tf_id = filled 9, tf_tenant = filled 1, tf_account = filled 2, tf_status = status,
     tf_ciphertext = [], tf_nonce = replicate 12 0, tf_key_reference = [107], tf_algorithm = ''sha256'', tf_digits = 6,
     tf_period = 30, tf_last_step = step, tf_created_at = 1, tf_activated_at = at'\<rparr>"

definition sample_db :: "account_row \<Rightarrow> totp_row list \<Rightarrow> audit_row list \<Rightarrow> unit database" where
  "sample_db a fs au = (empty_database [] [])\<lparr>
     tenants := [\<lparr>tn_id = filled 1, tn_domain = [97], tn_policy_version = 1, tn_created_at = 0, tn_updated_at = 0\<rparr>],
     accounts := [a],
     account_roles := [\<lparr>rl_tenant = filled 1, rl_account = filled 2, rl_role = ''owner'', rl_granted_by = None, rl_granted_at = 0\<rparr>],
     mfa_totp_factors := fs, audit_events := au\<rparr>"

definition sample_audits :: "audit_row list" where
  "sample_audits = [sample_audit 3 TenantBootstrapped [(''domain'', AuditStr [97])] 0,
     sample_audit 4 MfaChanged [(''factor_id'', AuditUuid (filled 9)), (''operation'', AuditText ''pending_created'')] 1,
     sample_audit 5 MfaChanged [(''factor_id'', AuditUuid (filled 9)), (''operation'', AuditText ''activated'')] 2]"

text \<open>The owner is active: the state in which the samples below begin.\<close>

definition sample_active :: "unit database" where
  "sample_active = sample_db (sample_account_row ''active'' 2) [sample_factor ''active'' (Some 40) (Some 2)] sample_audits"

lemma filled_eq_iff [simp]: "(filled a :: 'n::len bytes) = filled b \<longleftrightarrow> a = b"
proof
  assume "(filled a :: 'n bytes) = filled b"
  then have "replicate LENGTH('n) a = replicate LENGTH('n) b" by (metis bytes_list_filled)
  then show "a = b" by (simp add: replicate_eq_replicate)
qed simp

lemma sample_text [simp]: "to_ascii_lowercase [97] = [97]" "validate_correlation_id [99] = Inr ()" "store_validate_correlation_id [99] = Inr ()"
  by code_simp+

lemma au_id_audit_row [simp]: "au_id (audit_row_of w) = aw_id w"
  by (simp add: audit_row_of_def)

lemmas sample_simps = sample_env_def sample_bootstrap_def sample_seed_def transact_eq and_then_def map_err_def Let_def
  insert_tenant_def insert_account_def insert_role_def insert_audit_def insert_totp_def sql_insert_def transact_def
  has_tenant_def has_account_def has_account_in_def role_key_def role_texts_def account_states_def empty_database_def
  sample_db_def sample_account_row_def sample_factor_def sample_audit_def sample_audits_def

lemma sample_bootstrapped: "snd (bootstrap_tenant (sample_env 0 1) sample_bootstrap (empty_database [] [])) =
    sample_db (sample_account_row ''mfa_enrollment_required'' 0) [] (take 1 sample_audits)"
  by (simp add: bootstrap_tenant_def sample_simps bootstrap_validate_def)

lemma sample_enrolling: "snd (create_pending_totp_factor (sample_env 1 4) sample_tenant sample_account (filled 9) sample_seed [99]
      (sample_db (sample_account_row ''mfa_enrollment_required'' 0) [] (take 1 sample_audits))) =
    sample_db (sample_account_row ''mfa_enrollment_required'' 0) [sample_factor ''pending'' None None] (take 2 sample_audits)"
  by (simp add: create_pending_totp_factor_def i16_try_from_def sample_simps)

lemma sample_activated: "snd (activate_totp_factor (sample_env 2 5) sample_tenant sample_account (filled 9) 40 [99]
      (sample_db (sample_account_row ''mfa_enrollment_required'' 0) [sample_factor ''pending'' None None] (take 2 sample_audits))) =
    sample_active"
  by (simp add: activate_totp_factor_def sample_active_def pending_factor_def enrolling_account_def active_factor_index_def
      sql_update_def rows_affected_def sample_simps)

lemma snd_pair: "snd p = y \<Longrightarrow> p = (fst p, y)"
  by (cases p) simp

lemma sample_reachable: "store_reachable sample_active"
  unfolding store_reachable_def
proof (intro exI)
  have 1: "store_step (empty_database [] []) (sample_db (sample_account_row ''mfa_enrollment_required'' 0) [] (take 1 sample_audits))"
    by (rule step_bootstrap, rule snd_pair, rule sample_bootstrapped)
  have 2: "store_step (sample_db (sample_account_row ''mfa_enrollment_required'' 0) [] (take 1 sample_audits))
      (sample_db (sample_account_row ''mfa_enrollment_required'' 0) [sample_factor ''pending'' None None] (take 2 sample_audits))"
    by (rule step_pending, rule snd_pair, rule sample_enrolling)
  have 3: "store_step (sample_db (sample_account_row ''mfa_enrollment_required'' 0) [sample_factor ''pending'' None None] (take 2 sample_audits))
      sample_active"
    by (rule step_activate, rule snd_pair, rule sample_activated)
  show "store_step\<^sup>*\<^sup>* (empty_database [] []) sample_active"
    using 1 2 3 by (rule rtranclp_trans [OF rtranclp_trans [OF r_into_rtranclp r_into_rtranclp] r_into_rtranclp])
qed

text \<open>The owner signs in, rotates the refresh token once, and the spent token is presented again.\<close>

abbreviation sample_digest :: "u8 \<Rightarrow> opaque_token_digest" where
  "sample_digest i \<equiv> OpaqueTokenDigest (filled i)"

definition sample_request :: create_refresh_session_request where
  "sample_request = \<lparr>cs_tenant = sample_tenant, cs_account = sample_account, cs_refresh_digest = sample_digest 1,
     cs_access_digest = sample_digest 2, cs_refresh_expires_at = 100, cs_access_expires_at = 50, cs_correlation = [99]\<rparr>"

definition sample_session :: "unit database" where
  "sample_session = snd (create_refresh_session (sample_env 3 10) sample_request sample_active)"

definition sample_rotated :: "unit database" where
  "sample_rotated = snd (rotate_refresh_credential (sample_env 4 20) (sample_digest 1) (sample_digest 3) (sample_digest 4) 100 50 [99]
     sample_session)"

definition sample_reused :: "unit database" where
  "sample_reused = snd (rotate_refresh_credential (sample_env 5 30) (sample_digest 1) (sample_digest 5) (sample_digest 6) 100 50 [99]
     sample_rotated)"

lemma sample_session_created: "create_refresh_session (sample_env 3 10) sample_request sample_active =
    (Inr \<lparr>sr_family = filled 10, sr_credential = filled 11, sr_expires_at = 100, sr_access_session = filled 12, sr_access_expires_at = 50\<rparr>,
     sample_session)"
  by (simp add: sample_session_def create_refresh_session_def sample_request_def sample_active_def insert_family_def insert_refresh_def
      insert_access_def sample_simps)

lemmas sample_session_simps = sample_session_def create_refresh_session_def sample_request_def sample_active_def insert_family_def
  insert_refresh_def insert_access_def sql_update_def rows_affected_def rotate_refresh_credential_def rotation_lookup_def
  rotate_presented_def parse_account_state_def rotate_locked_refresh_credential_def replaced_by_index_def spend_credential_def
  revoke_access_def live_family_def revoke_session_family_def sample_simps

lemma sample_session_rotated: "rotate_refresh_credential (sample_env 4 20) (sample_digest 1) (sample_digest 3) (sample_digest 4) 100 50 [99]
     sample_session =
    (Inr (Rotated \<lparr>rr_tenant = sample_tenant, rr_account = sample_account, rr_family = filled 10, rr_credential = filled 20,
       rr_expires_at = 100, rr_access_session = filled 21, rr_access_expires_at = 50\<rparr>), sample_rotated)"
  by (simp add: sample_rotated_def sample_session_simps)

lemma sample_session_reused: "rotate_refresh_credential (sample_env 5 30) (sample_digest 1) (sample_digest 5) (sample_digest 6) 100 50 [99]
     sample_rotated = (Inr ReuseDetected, sample_reused)"
  by (simp add: sample_reused_def sample_rotated_def sample_session_simps)

lemma sample_session_reachable: "store_reachable sample_session"
  by (rule store_reachable_steps [OF sample_reachable r_into_rtranclp [of store_step, OF step_session [OF sample_session_created]]])

lemma sample_session_access:
  "access_session_authorization_context (sample_env 9 0) (sample_digest 2) sample_session =
     Inr (Some \<lparr>authorization_of = authorization_context_new sample_tenant sample_account AccountActive [Owner] False,
       authorization_family = filled 10\<rparr>)"
  by (simp add: access_session_authorization_context_def roles_for_account_def parse_role_def sample_session_simps)

lemma sample_totp: "consume_totp_step sample_tenant sample_account (filled 9) 41 sample_active =
    (Inr (), snd (consume_totp_step sample_tenant sample_account (filled 9) 41 sample_active))"
  by (simp add: consume_totp_step_def unspent_factor_def sample_session_simps)

text \<open>A login transaction is created and consumed.\<close>

definition sample_login_request :: create_login_request where
  "sample_login_request = \<lparr>cl_tenant = sample_tenant, cl_account = sample_account, cl_digest = sample_digest 7, cl_stage = SessionIssuance,
     cl_binding = filled 8, cl_factor = None, cl_expires_at = 100, cl_correlation = [99]\<rparr>"

definition sample_login :: "unit database" where
  "sample_login = snd (create_login_transaction (sample_env 5 40) sample_login_request sample_active)"

definition sample_login_consumed :: "unit database" where
  "sample_login_consumed = snd (consume_login_transaction (sample_env 6 50) (sample_digest 7) SessionIssuance (filled 8) [99] sample_login)"

definition sample_login_record :: login_transaction_record where
  "sample_login_record = \<lparr>lr_id = filled 40, lr_tenant = sample_tenant, lr_account = sample_account, lr_stage = SessionIssuance,
     lr_expires_at = 100, lr_factor = None\<rparr>"

lemmas sample_login_simps = sample_login_def sample_login_consumed_def sample_login_record_def sample_login_request_def
  create_login_transaction_def consume_login_transaction_def usable_login_def insert_login_def sample_session_simps

lemma sample_login_created: "create_login_transaction (sample_env 5 40) sample_login_request sample_active =
    (Inr sample_login_record, sample_login)"
  by (simp add: sample_login_simps)

lemma sample_login_accepted: "consume_login_transaction (sample_env 6 50) (sample_digest 7) SessionIssuance (filled 8) [99] sample_login =
    (Inr sample_login_record, sample_login_consumed)"
  by (simp add: sample_login_simps)

lemma sample_login_reachable: "store_reachable sample_login"
  by (rule store_reachable_steps [OF sample_reachable r_into_rtranclp [of store_step, OF step_login [OF sample_login_created]]])

subsection \<open>Presenting a spent refresh credential\<close>

definition refresh_spent_in :: "opaque_token_digest \<Rightarrow> uuid \<Rightarrow> 'j database \<Rightarrow> bool" where
  "refresh_spent_in d fam db = has_row rf_digest (\<lambda>c. rf_consumed_at c \<noteq> None \<and> rf_family c = fam) d (refresh_credentials db)"

lemma change_refresh_spent_in: "db_change db db' \<Longrightarrow> refresh_spent_in d fam db \<Longrightarrow> refresh_spent_in d fam db'"
proof (induction rule: db_change.induct)
  case (session_rotated c db f m s now au)
  then show ?case unfolding refresh_spent_in_def spend_credential_def
    by simp (rule has_row_append, rule has_row_update, assumption, simp_all)
qed (simp_all add: refresh_spent_in_def has_row_append)

lemma refresh_spent_steps:
  "store_step\<^sup>*\<^sup>* db db' \<Longrightarrow> store_ok db \<Longrightarrow> refresh_spent_in d fam db \<Longrightarrow> store_ok db' \<and> refresh_spent_in d fam db'"
  by (induction rule: rtranclp_induct) (blast intro: store_ok_step store_step_ok_change change_refresh_spent_in)+

lemma family_revoked_steps:
  "store_step\<^sup>*\<^sup>* db db' \<Longrightarrow> store_ok db \<Longrightarrow> family_revoked fam db \<Longrightarrow> store_ok db' \<and> family_revoked fam db'"
  by (induction rule: rtranclp_induct) (blast intro: store_ok_step store_step_ok_change change_family_revoked)+

lemma rotated_spends:
  assumes "rotate_refresh_credential E d n na x xa corr db = (Inr (Rotated r), db')" and "store_ok db"
  shows "refresh_spent_in d (rr_family r) db'" and "\<not> family_revoked (rr_family r) db"
proof -
  note ok = store_okD(1) [OF assms(2)]
  have "refresh_spent_in d (rr_family r) db' \<and> \<not> family_revoked (rr_family r) db"
    using assms(1) ok
  proof (cases rule: rotate_refresh_credential_effect)
    case (rotated c f m s au)
    have "has_row rf_digest (\<lambda>k. rf_consumed_at k \<noteq> None \<and> rf_family k = rf_family c) d
        (spend_credential (rf_id c) (env_now E) (rf_id m) (refresh_credentials db))"
      unfolding spend_credential_def
      by (rule conjunct2 [OF has_row_spent [of _ _ c]]) (use rotated(2-4) sessions_okD(3) [OF ok] in simp_all)
    then have "refresh_spent_in d (rr_family r) db'"
      using rotated(1) unfolding refresh_spent_in_def rotated(16) by (simp add: has_row_append)
    moreover have "\<not> family_revoked (rr_family r) db"
      using rotated(1,6,7) sessions_okD(1) [OF ok] distinct_map_inj [OF sessions_okD(1) [OF ok] rotated(6)]
      by (auto simp: family_revoked_def has_row_def live_family_def)
    ultimately show ?thesis by simp
  qed simp_all
  then show "refresh_spent_in d (rr_family r) db'" and "\<not> family_revoked (rr_family r) db" by simp_all
qed

lemma rotation_lookup_found:
  assumes ok: "store_ok db" and c: "c \<in> set (refresh_credentials db)"
  obtains f a where "fetch_optional (rotation_lookup (rf_digest c) db) = Some (c, f, a)"
    and "f \<in> set (session_families db)" and "fm_id f = rf_family c"
proof -
  note sok = store_okD(1) [OF ok]
  obtain g where g: "g \<in> set (session_families db)" "fm_id g = rf_family c" "fm_tenant g = rf_tenant c" "fm_account g = rf_account c"
    using sessions_okD(5) [OF sok c] by blast
  have "has_account db (fm_tenant g) (fm_account g)" using store_okD(2) [OF ok] g(1) unfolding tenancy_ok_def by blast
  then obtain b where "b \<in> set (accounts db)" "ac_tenant b = rf_tenant c" "ac_id b = rf_account c"
    unfolding has_account_def using g by auto
  then have "(c, g, b) \<in> set (rotation_lookup (rf_digest c) db)" using c g by (simp add: rotation_lookup_member)
  then obtain row where row: "fetch_optional (rotation_lookup (rf_digest c) db) = Some row"
    by (metis empty_iff empty_set fetch_optional_None not_None_eq)
  obtain d f a where t: "row = (d, f, a)" by (metis prod_cases3)
  have m: "d \<in> set (refresh_credentials db) \<and> rf_digest d = rf_digest c \<and> f \<in> set (session_families db) \<and> fm_id f = rf_family d"
    using fetch_optional_Some [OF row] unfolding t rotation_lookup_member by blast
  then have "d = c" using distinct_map_inj [OF sessions_okD(3) [OF sok] _ c] by blast
  then show thesis using that row t m by blast
qed

lemma spent_presented:
  assumes run: "rotate_refresh_credential E d n na x xa corr db = (Inr out, db')" and ok: "store_ok db"
    and spent: "refresh_spent_in d fam db"
  shows "out = (if family_revoked fam db then Denied else ReuseDetected)" and "family_revoked fam db'"
proof -
  note sok = store_okD(1) [OF ok]
  from spent obtain c where c: "c \<in> set (refresh_credentials db)" "rf_digest c = d" "rf_consumed_at c \<noteq> None" "rf_family c = fam"
    unfolding refresh_spent_in_def has_row_def by blast
  from rotation_lookup_found [OF ok c(1)] c(2) obtain f a where
    look: "fetch_optional (rotation_lookup d db) = Some (c, f, a)" and f: "f \<in> set (session_families db)" "fm_id f = fam"
    using c(4) by metis
  have revoked: "family_revoked fam db \<longleftrightarrow> fm_revoked_at f \<noteq> None"
    using f distinct_map_inj [OF sessions_okD(1) [OF sok] f(1)] unfolding family_revoked_def has_row_def by metis
  have presented: "rotate_presented E n na x xa corr c f a db = Inr (out, db')"
    using run look by (auto simp: rotate_refresh_credential_def transact_eq and_then_eq_Inr split: if_splits)
  show "out = (if family_revoked fam db then Denied else ReuseDetected)"
    using presented c(3) unfolding revoked
    by (auto simp: rotate_presented_def and_then_eq_Inr Let_def split: if_splits)
  show "family_revoked fam db'"
  proof (cases "family_revoked fam db")
    case True
    then have "db' = db" using presented c(3) unfolding revoked
      by (auto simp: rotate_presented_def and_then_eq_Inr Let_def split: if_splits)
    then show ?thesis using True by simp
  next
    case False
    then have "out = ReuseDetected" using presented c(3) unfolding revoked
      by (auto simp: rotate_presented_def and_then_eq_Inr Let_def split: if_splits)
    from run sok show ?thesis
    proof (cases rule: rotate_refresh_credential_effect)
      case (reuse k g au)
      have "k = c" using distinct_map_inj [OF sessions_okD(3) [OF sok] reuse(2) c(1)] reuse(3) c(2) by simp
      then show ?thesis unfolding family_revoked_def reuse(7)
        by simp (rule conjunct2 [OF has_row_spent [of _ _ g]], use reuse(5,6) sessions_okD(1) [OF sok] c(4) in \<open>simp_all add: live_family_def\<close>)
    qed (use \<open>out = ReuseDetected\<close> in simp_all)
  qed
qed

subsection \<open>Authorization of access tokens\<close>

lemma access_authorization_Some:
  assumes "access_session_authorization_context E d db = Inr (Some ctx)"
  obtains s f a where "s \<in> set (access_sessions db)" and "as_digest s = d" and "as_revoked_at s = None" and "env_now E < as_expires_at s"
    and "f \<in> set (session_families db)" and "fm_id f = as_family s" and "fm_revoked_at f = None"
    and "a \<in> set (accounts db)" and "ac_id a = as_account s" and "ac_tenant a = as_tenant s" and "ac_state a = ''active''"
    and "authorization_family ctx = as_family s" and "context_tenant (authorization_of ctx) = TenantId (as_tenant s)"
    and "context_account (authorization_of ctx) = AccountId (as_account s)" and "context_state (authorization_of ctx) = AccountActive"
    and "\<not> context_step_up (authorization_of ctx)"
    and "\<And>r. r \<in> set (context_roles (authorization_of ctx)) \<longleftrightarrow>
           (as_tenant s, as_account s, role_text r) \<in> role_key ` set (account_roles db)"
proof -
  let ?rows = "[(as_tenant s, as_account s, as_family s, ac_state a).
          s \<leftarrow> access_sessions db, as_digest s = d \<and> as_revoked_at s = None \<and> as_expires_at s > env_now E,
          f \<leftarrow> session_families db, fm_id f = as_family s \<and> fm_revoked_at f = None,
          a \<leftarrow> accounts db, ac_id a = as_account s \<and> ac_tenant a = as_tenant s]"
  from assms obtain t a fam st roles where row: "fetch_optional ?rows = Some (t, a, fam, st)" and st: "st = ''active''"
    and roles: "roles_for_account (TenantId t) (AccountId a) db = Inr roles"
    and ctx: "ctx = \<lparr>authorization_of = authorization_context_new (TenantId t) (AccountId a) AccountActive roles False,
      authorization_family = fam\<rparr>"
    by (auto simp: access_session_authorization_context_def and_then_eq_Inr Let_def parse_account_active
        simp del: fetch_optional_None split: option.splits if_splits)
  from fetch_optional_Some [OF row] obtain s f x where
    "s \<in> set (access_sessions db)" "as_digest s = d" "as_revoked_at s = None" "env_now E < as_expires_at s"
    "f \<in> set (session_families db)" "fm_id f = as_family s" "fm_revoked_at f = None"
    "x \<in> set (accounts db)" "ac_id x = as_account s" "ac_tenant x = as_tenant s" "ac_state x = st"
    "t = as_tenant s" "a = as_account s" "fam = as_family s" by auto
  then show thesis
    using roles_for_account_set [OF roles] st
    by (intro that [of s f x]) (simp_all add: ctx authorization_context_new_def)
qed

lemma roles_for_account_total:
  assumes "tenancy_ok db"
  obtains roles where "roles_for_account t a db = Inr roles"
proof -
  let ?texts = "sort (map rl_role (filter (\<lambda>r. rl_tenant r = tenant_uuid t \<and> rl_account r = account_uuid a) (account_roles db)))"
  have known: "x \<in> set role_texts" if "x \<in> set ?texts" for x
    using that assms unfolding tenancy_ok_def by auto
  have parsed: "\<exists>r. parse_role x = Inr r" if "x \<in> set role_texts" for x
  proof -
    have "x = role_text Owner \<or> x = role_text Admin \<or> x = role_text Operator \<or> x = role_text Auditor \<or> x = role_text Member"
      using that by (auto simp: role_texts_def)
    then show ?thesis by (metis parse_role_text)
  qed
  have "\<exists>roles. map parse_role xs = map Inr roles" if "set xs \<subseteq> set role_texts" for xs
    using that
  proof (induction xs)
    case (Cons x xs)
    then obtain roles where "map parse_role xs = map Inr roles" by auto
    moreover obtain r where "parse_role x = Inr r" using parsed [of x] Cons.prems by auto
    ultimately show ?case by (intro exI [of _ "r # roles"]) simp
  qed simp
  then have "\<exists>roles. map parse_role ?texts = map Inr roles" using known by blast
  then show thesis using that unfolding roles_for_account_def try_map_eq_Inr by blast
qed

lemma access_authorization_found:
  assumes ok: "store_ok db" and s: "s \<in> set (access_sessions db)" "as_revoked_at s = None" "env_now E < as_expires_at s"
    and f: "f \<in> set (session_families db)" "fm_id f = as_family s" "fm_revoked_at f = None"
    and active: "has_account_in db (as_tenant s) (as_account s) [''active'']"
  shows "\<exists>ctx. access_session_authorization_context E (as_digest s) db = Inr (Some ctx) \<and> authorization_family ctx = as_family s \<and>
    context_tenant (authorization_of ctx) = TenantId (as_tenant s) \<and> context_account (authorization_of ctx) = AccountId (as_account s)"
proof -
  let ?rows = "[(as_tenant u, as_account u, as_family u, ac_state a).
          u \<leftarrow> access_sessions db, as_digest u = as_digest s \<and> as_revoked_at u = None \<and> as_expires_at u > env_now E,
          f \<leftarrow> session_families db, fm_id f = as_family u \<and> fm_revoked_at f = None,
          a \<leftarrow> accounts db, ac_id a = as_account u \<and> ac_tenant a = as_tenant u]"
  obtain x where x: "x \<in> set (accounts db)" "ac_tenant x = as_tenant s" "ac_id x = as_account s" "ac_state x = ''active''"
    using active unfolding has_account_in_def list_ex_iff by auto
  have ids: "distinct (map ac_id (accounts db))" using store_okD(2) [OF ok] unfolding tenancy_ok_def by blast
  have row: "r = (as_tenant s, as_account s, as_family s, ''active'')" if "r \<in> set ?rows" for r
  proof -
    from that obtain u a where u: "u \<in> set (access_sessions db)" "as_digest u = as_digest s" and a: "a \<in> set (accounts db)"
      "ac_id a = as_account u" and r: "r = (as_tenant u, as_account u, as_family u, ac_state a)" by auto
    have "u = s" using distinct_map_inj [OF sessions_okD(4) [OF store_okD(1) [OF ok]] u(1) s(1) u(2)] .
    moreover have "a = x" using distinct_map_inj [OF ids a(1) x(1)] a(2) x(3) \<open>u = s\<close> by simp
    ultimately show ?thesis using r x(4) by simp
  qed
  have "(as_tenant s, as_account s, as_family s, ac_state x) \<in> set ?rows"
    using s f x by (auto intro!: bexI [of _ s] bexI [of _ x])
  then obtain r where "fetch_optional ?rows = Some r" by (cases ?rows) simp_all
  with row [OF fetch_optional_Some] have found: "fetch_optional ?rows = Some (as_tenant s, as_account s, as_family s, ''active'')" by simp
  obtain roles where "roles_for_account (TenantId (as_tenant s)) (AccountId (as_account s)) db = Inr roles"
    by (rule roles_for_account_total [OF store_okD(2) [OF ok]])
  then show ?thesis
    unfolding access_session_authorization_context_def found
    by (simp add: parse_account_state_def Let_def authorization_context_new_def)
qed

lemma created_access_found:
  assumes "create_refresh_session E q db = (Inr rec, db1)" and "store_ok db" and "env_now E' < cs_access_expires_at q"
  shows "\<exists>ctx. access_session_authorization_context E' (cs_access_digest q) db1 = Inr (Some ctx) \<and>
    authorization_family ctx = sr_family rec \<and> context_tenant (authorization_of ctx) = cs_tenant q \<and>
    context_account (authorization_of ctx) = cs_account q"
  using assms(1)
proof (cases rule: create_refresh_session_effect)
  case (committed f c s au)
  have "store_ok db1" by (rule store_ok_step [OF assms(2) step_session [OF assms(1)]])
  moreover have "has_account_in db1 (as_tenant s) (as_account s) [''active'']"
    using committed(2) unfolding committed(3,5,12) by (simp add: has_account_in_def)
  ultimately show ?thesis
    using access_authorization_found [of db1 s E' f] committed assms(3) by simp
qed simp

lemma rotated_access_found:
  assumes "rotate_refresh_credential E d n na x xa corr db = (Inr (Rotated r), db1)" and "store_ok db" and "env_now E' < xa"
  shows "\<exists>ctx. access_session_authorization_context E' na db1 = Inr (Some ctx) \<and>
    authorization_family ctx = rr_family r \<and> context_tenant (authorization_of ctx) = rr_tenant r \<and>
    context_account (authorization_of ctx) = rr_account r"
  using assms(1) store_okD(1) [OF assms(2)]
proof (cases rule: rotate_refresh_credential_effect)
  case (rotated c f m s au)
  have "store_ok db1" by (rule store_ok_step [OF assms(2) step_rotate [OF assms(1)]])
  moreover have "has_account_in db1 (as_tenant s) (as_account s) [''active'']"
    using rotated(8) unfolding rotated(12,16) by (simp add: has_account_in_def)
  ultimately show ?thesis
    using access_authorization_found [of db1 s E' f] rotated assms(3) by (simp add: live_family_def)
qed simp_all

lemma revoked_family_dead:
  assumes ok: "store_ok db" and revoked: "family_revoked fam db"
  shows "\<forall>E t ctx. access_session_authorization_context E t db = Inr (Some ctx) \<longrightarrow> authorization_family ctx \<noteq> fam"
    and "\<forall>E d n na x xa corr r db'. rotate_refresh_credential E d n na x xa corr db = (Inr (Rotated r), db') \<longrightarrow> rr_family r \<noteq> fam"
proof (intro allI impI)
  fix E t ctx
  assume "access_session_authorization_context E t db = Inr (Some ctx)"
  then show "authorization_family ctx \<noteq> fam"
  proof (cases rule: access_authorization_Some)
    case (1 s f a)
    then show ?thesis using revoked distinct_map_inj [OF sessions_okD(1) [OF store_okD(1) [OF ok]] 1(5)]
      unfolding family_revoked_def has_row_def by metis
  qed
next
  show "\<forall>E d n na x xa corr r db'. rotate_refresh_credential E d n na x xa corr db = (Inr (Rotated r), db') \<longrightarrow> rr_family r \<noteq> fam"
    using rotated_spends(2) [OF _ ok] revoked by metis
qed

section \<open>Properties\<close>

text \<open>
  C7.  In every database the operations can produce: each refresh credential and access session belongs
  to a family of the same tenant and account, a family has at most one unconsumed credential and one
  unrevoked access session and none once revoked; each tenant has exactly one owner and each role,
  session family and account belongs to its tenant; an active account has an active second factor and
  an account at most one; token digests and replay keys are unique.\<close>

theorem store_invariant:
  assumes "store_reachable db"
  shows "sessions_ok db \<and> tenancy_ok db \<and> factors_ok db \<and> tokens_ok db"
  using store_reachable_ok [OF assms] by (simp add: store_ok_def)

theorem store_invariant_witness:
  "sessions_ok sample_active \<and> tenancy_ok sample_active \<and> factors_ok sample_active \<and> tokens_ok sample_active"
  by (rule store_invariant [OF sample_reachable])



text \<open>
  C8.  Refresh token reuse: once a token was rotated, presenting it again at any later time never yields
  a session; it reports reuse while the family lives and revokes it, and from then on no access token of
  the family authenticates and no refresh token of the family rotates.\<close>

theorem refresh_reuse_revokes_family:
  assumes "store_reachable db" and "rotate_refresh_credential E d n na x xa corr db = (Inr (Rotated r), db1)"
    and "store_step\<^sup>*\<^sup>* db1 db2" and "rotate_refresh_credential E' d n' na' x' xa' corr' db2 = (Inr out, db3)"
    and "store_step\<^sup>*\<^sup>* db3 db4"
  shows "out = (if family_revoked (rr_family r) db2 then Denied else ReuseDetected) \<and>
    (\<forall>E1 t ctx. access_session_authorization_context E1 t db4 = Inr (Some ctx) \<longrightarrow> authorization_family ctx \<noteq> rr_family r) \<and>
    (\<forall>E2 d2 n2 na2 x2 xa2 corr2 r2 db5.
       rotate_refresh_credential E2 d2 n2 na2 x2 xa2 corr2 db4 = (Inr (Rotated r2), db5) \<longrightarrow> rr_family r2 \<noteq> rr_family r)"
proof -
  note ok = store_reachable_ok [OF assms(1)]
  have ok1: "store_ok db1" by (rule store_ok_step [OF ok step_rotate [OF assms(2)]])
  from refresh_spent_steps [OF assms(3) ok1 rotated_spends(1) [OF assms(2) ok]]
  have ok2: "store_ok db2" and spent: "refresh_spent_in d (rr_family r) db2" by simp_all
  have "store_ok db3" by (rule store_ok_step [OF ok2 step_rotate [OF assms(4)]])
  from family_revoked_steps [OF assms(5) this spent_presented(2) [OF assms(4) ok2 spent]]
  have "store_ok db4" and "family_revoked (rr_family r) db4" by simp_all
  then show ?thesis
    using spent_presented(1) [OF assms(4) ok2 spent] revoked_family_dead by blast
qed

theorem refresh_reuse_revokes_family_witness:
  "ReuseDetected = (if family_revoked (filled 10) sample_rotated then Denied else ReuseDetected)"
  using refresh_reuse_revokes_family [OF sample_session_reachable sample_session_rotated rtranclp.rtrancl_refl
      sample_session_reused rtranclp.rtrancl_refl]
  by simp

text \<open>
  C16.  Login transactions, step-up grants and WebAuthn ceremonies are accepted at most once, and a
  federation request identifier is recorded as new at most once per tenant and peer, along every run.\<close>

theorem one_use_credentials:
  assumes "store_reachable db" and "store_step\<^sup>*\<^sup>* db1 db2"
  shows "(consume_login_transaction E d st b corr db = (Inr l, db1) \<longrightarrow>
      (\<forall>E' st' b' corr' l' db3. consume_login_transaction E' d st' b' corr' db2 \<noteq> (Inr l', db3))) \<and>
    (consume_step_up_grant E q db = (Inr True, db1) \<longrightarrow>
      (\<forall>E' q' db3. sg_digest q' = sg_digest q \<longrightarrow> consume_step_up_grant E' q' db2 \<noteq> (Inr True, db3))) \<and>
    (consume_webauthn_ceremony E t w corr db = (Inr c, db1) \<longrightarrow>
      (\<forall>E' w' corr' c' db3. consume_webauthn_ceremony E' t w' corr' db2 \<noteq> (Inr c', db3))) \<and>
    (record_federation_replay E p db = (Inr True, db1) \<longrightarrow>
      (\<forall>E' p' db3. rq_tenant p' = rq_tenant p \<longrightarrow> rq_peer p' = rq_peer p \<longrightarrow> rq_request p' = rq_request p \<longrightarrow>
        record_federation_replay E' p' db2 \<noteq> (Inr True, db3)))"
  using login_use.at_most_once [OF store_reachable_ok [OF assms(1)] _ assms(2), of d]
    grant_use.at_most_once [OF store_reachable_ok [OF assms(1)] _ assms(2), of "sg_digest q"]
    ceremony_use.at_most_once [OF store_reachable_ok [OF assms(1)] _ assms(2), of t]
    replay_use.at_most_once [OF store_reachable_ok [OF assms(1)] _ assms(2), of "(tenant_uuid (rq_tenant p), rq_peer p, rq_request p)"]
  unfolding login_accepts_def grant_accepts_def ceremony_accepts_def replay_accepts_def
  by (intro conjI impI allI; metis)

theorem one_use_credentials_witness:
  "\<exists>e. fst (consume_login_transaction (sample_env 9 60) (sample_digest 7) SessionIssuance (filled 8) [99] sample_login_consumed) = Inl e"
  using conjunct1 [OF one_use_credentials [OF sample_login_reachable rtranclp.rtrancl_refl],
      THEN mp, OF sample_login_accepted]
  by (metis prod.collapse sum.exhaust)

text \<open>
  A one-time password is accepted at most once: after a time step of a factor was consumed, no step
  up to it is ever consumed again for that factor.\<close>

theorem totp_step_at_most_once:
  assumes "store_reachable db" and "consume_totp_step t a f s db = (Inr (), db1)" and "store_step\<^sup>*\<^sup>* db1 db2" and "s' \<le> s"
  shows "fst (consume_totp_step t' a' f s' db2) = Inl TargetNotFoundOrUnchanged"
proof -
  note ok = store_reachable_ok [OF assms(1)]
  have "totp_used (f, s) db2 \<and> store_ok db2"
    using totp_use.spent_steps [OF assms(3)] totp_accepted [OF assms(2) store_okD(3) [OF ok]] store_ok_step [OF ok step_totp [OF assms(2)]]
    by blast
  then have "totp_used (f, s') db2" "factors_ok db2"
    using assms(4) store_okD(3) unfolding totp_used_def has_row_def by fastforce+
  then have "\<nexists>db3. consume_totp_step t' a' f s' db2 = (Inr (), db3)" using totp_accepted by blast
  then show ?thesis by (simp add: consume_totp_step_def transact_def Let_def split: if_splits)
qed

theorem totp_step_at_most_once_witness:
  "fst (consume_totp_step sample_tenant sample_account (filled 9) 41
     (snd (consume_totp_step sample_tenant sample_account (filled 9) 41 sample_active))) = Inl TargetNotFoundOrUnchanged"
  by (rule totp_step_at_most_once [OF sample_reachable sample_totp rtranclp.rtrancl_refl order.refl])

text \<open>
  What an access token proves: if it authenticates, it names an unrevoked, unexpired session whose
  family is live and whose account is active and holds an active second factor; the context carries
  that tenant, account and family, exactly the roles stored for them, and no step-up.\<close>

theorem access_authorization_sound:
  assumes "store_reachable db" and "access_session_authorization_context E d db = Inr (Some ctx)"
  shows "\<exists>s \<in> set (access_sessions db). as_digest s = d \<and> as_revoked_at s = None \<and> env_now E < as_expires_at s \<and>
    authorization_family ctx = as_family s \<and> \<not> family_revoked (as_family s) db \<and>
    context_tenant (authorization_of ctx) = TenantId (as_tenant s) \<and> context_account (authorization_of ctx) = AccountId (as_account s) \<and>
    has_account_in db (as_tenant s) (as_account s) [''active''] \<and> has_factor (mfa_totp_factors db) (as_tenant s) (as_account s) \<and>
    (\<forall>r. r \<in> set (context_roles (authorization_of ctx)) \<longleftrightarrow> (as_tenant s, as_account s, role_text r) \<in> role_key ` set (account_roles db)) \<and>
    \<not> context_step_up (authorization_of ctx)"
  using assms(2)
proof (cases rule: access_authorization_Some)
  case (1 s f a)
  note ok = store_reachable_ok [OF assms(1)]
  have "\<not> family_revoked (as_family s) db"
    using 1(5-7) distinct_map_inj [OF sessions_okD(1) [OF store_okD(1) [OF ok]] 1(5)]
    unfolding family_revoked_def has_row_def by metis
  moreover have "has_factor (mfa_totp_factors db) (as_tenant s) (as_account s)"
    using store_okD(3) [OF ok] 1(8-11) unfolding factors_ok_def by metis
  moreover have "has_account_in db (as_tenant s) (as_account s) [''active'']"
    using 1(8-11) unfolding has_account_in_def list_ex_iff by auto
  ultimately show ?thesis using 1 by (intro bexI [OF _ 1(1)]) simp
qed

theorem access_authorization_sound_witness:
  "\<exists>s \<in> set (access_sessions sample_session). as_digest s = sample_digest 2 \<and> as_family s = filled 10"
  using access_authorization_sound [OF sample_session_reachable sample_session_access] by auto



end
