(* ===== verification/Fabric_Runtime.thy ===== *)
theory Fabric_Runtime
  imports Fabric_Assurance Fcp_Types
begin

text \<open>
  How a request of \<open>fcp-fabric-service\<close> runs.  A handler is a sequence of effects: store calls, clock
  readings and random draws.  The \<open>world\<close> answers the n-th effect; before a store call other requests
  may have committed any number of store operations, which \<open>world_others\<close> applies, so that what is
  proved of a handler holds under every interleaving of its store calls with other requests.
\<close>

subsection \<open>Effects\<close>

record 'j world =
  world_store :: "nat \<Rightarrow> store_env"
  world_others :: "nat \<Rightarrow> 'j database \<Rightarrow> 'j database"
  world_clock :: "nat \<Rightarrow> timestamp"
  world_random :: "nat \<Rightarrow> 32 bytes"
  world_nonce :: "nat \<Rightarrow> 12 bytes"
  world_uuid :: "nat \<Rightarrow> uuid"

record 'j system =
  sys_db :: "'j database"
  sys_tick :: nat

type_synonym ('j, 'r) run = "'j system \<Rightarrow> 'r \<times> 'j system"

definition tick :: "(nat \<Rightarrow> 'r) \<Rightarrow> ('j, 'r) run" where
  "tick f s = (f (sys_tick s), s\<lparr>sys_tick := Suc (sys_tick s)\<rparr>)"

definition store_call :: "'j world \<Rightarrow> (store_env \<Rightarrow> 'j database \<Rightarrow> 'r \<times> 'j database) \<Rightarrow> ('j, 'r) run" where
  "store_call W f s = (case f (world_store W (sys_tick s)) (world_others W (sys_tick s) (sys_db s)) of
     (r, db) \<Rightarrow> (r, \<lparr>sys_db = db, sys_tick = Suc (sys_tick s)\<rparr>))"

definition store_read :: "'j world \<Rightarrow> (store_env \<Rightarrow> 'j database \<Rightarrow> 'r) \<Rightarrow> ('j, 'r) run" where
  "store_read W f = store_call W (\<lambda>E db. (f E db, db))"

definition return :: "'r \<Rightarrow> ('j, 'r) run" where
  "return r s = (r, s)"

definition bind :: "('j, 'a) run \<Rightarrow> ('a \<Rightarrow> ('j, 'b) run) \<Rightarrow> ('j, 'b) run" where
  "bind m k s = (case m s of (x, s') \<Rightarrow> k x s')"

text \<open>\<open>attempt\<close> is the \<open>?\<close> operator on an effect: an error ends the run with that error.\<close>

definition attempt :: "('j, 'e + 'a) run \<Rightarrow> ('a \<Rightarrow> ('j, 'e + 'b) run) \<Rightarrow> ('j, 'e + 'b) run" where
  "attempt m k = bind m (\<lambda>r. case r of Inl e \<Rightarrow> return (Inl e) | Inr x \<Rightarrow> k x)"

definition run_map :: "('a \<Rightarrow> 'b) \<Rightarrow> ('j, 'a) run \<Rightarrow> ('j, 'b) run" where
  "run_map f m = bind m (\<lambda>x. return (f x))"

definition issue_token :: "('z) token_primitives_scheme \<Rightarrow> 'j world \<Rightarrow> token_digest_key \<Rightarrow> ('j, issued_opaque_token) run" where
  "issue_token T W key = run_map (\<lambda>drawn. issue_opaque_token T drawn key) (tick (world_random W))"

subsection \<open>What a run does to the store\<close>

text \<open>Other requests only run store operations.\<close>

definition interference :: "'j world \<Rightarrow> bool" where
  "interference W \<longleftrightarrow> (\<forall>n db. store_step\<^sup>*\<^sup>* db (world_others W n db))"

definition only_steps :: "('j, 'r) run \<Rightarrow> bool" where
  "only_steps m \<longleftrightarrow> (\<forall>s. store_step\<^sup>*\<^sup>* (sys_db s) (sys_db (snd (m s))))"

named_theorems steps_intros

lemma only_stepsD: "only_steps m \<Longrightarrow> m s = (r, s') \<Longrightarrow> store_step\<^sup>*\<^sup>* (sys_db s) (sys_db s')"
  unfolding only_steps_def by (metis snd_conv)

lemma tick_steps [steps_intros]: "only_steps (tick f)"
  by (simp add: only_steps_def tick_def)

lemma return_steps [steps_intros]: "only_steps (return r)"
  by (simp add: only_steps_def return_def)

lemma bind_steps [steps_intros]: "only_steps m \<Longrightarrow> (\<And>x. only_steps (k x)) \<Longrightarrow> only_steps (bind m k)"
  unfolding only_steps_def bind_def by (metis (no_types, lifting) case_prod_beta rtranclp_trans)

lemma attempt_steps [steps_intros]: "only_steps m \<Longrightarrow> (\<And>x. only_steps (k x)) \<Longrightarrow> only_steps (attempt m k)"
  unfolding attempt_def by (intro steps_intros) (auto intro: steps_intros split: sum.split)

lemma run_map_steps [steps_intros]: "only_steps m \<Longrightarrow> only_steps (run_map f m)"
  unfolding run_map_def by (intro steps_intros)

lemma issue_token_steps [steps_intros]: "only_steps (issue_token T W key)"
  unfolding issue_token_def by (intro steps_intros)

lemma store_call_steps:
  fixes W :: "'a world"
  assumes "interference W" and "\<And>E db r db'. f E db = (r, db') \<Longrightarrow> store_step db db'"
  shows "only_steps (store_call W f)"
  unfolding only_steps_def
proof
  fix s :: "'a system"
  let ?db = "world_others W (sys_tick s) (sys_db s)"
  have "store_step ?db (snd (f (world_store W (sys_tick s)) ?db))"
    using assms(2) by (metis prod.collapse)
  moreover have "store_step\<^sup>*\<^sup>* (sys_db s) ?db" using assms(1) by (simp add: interference_def)
  ultimately show "store_step\<^sup>*\<^sup>* (sys_db s) (sys_db (snd (store_call W f s)))"
    by (simp add: store_call_def case_prod_beta)
qed

lemma store_read_steps [steps_intros]: "interference W \<Longrightarrow> only_steps (store_read W f)"
  by (simp add: only_steps_def store_read_def store_call_def interference_def)

lemma store_call_ops [steps_intros]:
  assumes "interference W"
  shows "only_steps (store_call W (\<lambda>E. bootstrap_tenant E cb))"
    and "only_steps (store_call W (\<lambda>E. invite_account E ci))"
    and "only_steps (store_call W (\<lambda>E. change_role E cc))"
    and "only_steps (store_call W (\<lambda>E. store_password_verifier E t a v pepper corr))"
    and "only_steps (store_call W (\<lambda>_. create_totp_data_key_envelope ce))"
    and "only_steps (store_call W (\<lambda>E. create_pending_totp_factor E t a f enc corr))"
    and "only_steps (store_call W (\<lambda>E. activate_totp_factor E t a f st corr))"
    and "only_steps (store_call W (\<lambda>_. consume_totp_step t a f st))"
    and "only_steps (store_call W (\<lambda>E. replace_recovery_code_set E t a vs corr))"
    and "only_steps (store_call W (\<lambda>E. consume_recovery_code E t a code corr))"
    and "only_steps (store_call W (\<lambda>E. create_refresh_session E cs))"
    and "only_steps (store_call W (\<lambda>E. rotate_refresh_credential E p n na x xa corr))"
    and "only_steps (store_call W (\<lambda>E. revoke_refresh_session_family E t a fam corr))"
    and "only_steps (store_call W (\<lambda>E. create_login_transaction E cl))"
    and "only_steps (store_call W (\<lambda>E. consume_login_transaction E d stage b corr))"
    and "only_steps (store_call W (\<lambda>E. create_step_up_grant E cg))"
    and "only_steps (store_call W (\<lambda>E. consume_step_up_grant E sg))"
    and "only_steps (store_call W (\<lambda>E. create_webauthn_ceremony E cw))"
    and "only_steps (store_call W (\<lambda>E. consume_webauthn_ceremony E d wb corr))"
    and "only_steps (store_call W (\<lambda>E. register_webauthn_passkey E rp))"
    and "only_steps (store_call W (\<lambda>E. update_webauthn_passkey E t a k pk))"
    and "only_steps (store_call W (\<lambda>E. record_federation_replay E rq))"
  by (rule store_call_steps [OF assms], erule store_step.intros)+

lemma if_steps [steps_intros]: "only_steps m \<Longrightarrow> only_steps m' \<Longrightarrow> only_steps (if b then m else m')"
  by simp

lemma case_option_steps [steps_intros]:
  "only_steps m \<Longrightarrow> (\<And>x. only_steps (k x)) \<Longrightarrow> only_steps (case v of None \<Rightarrow> m | Some x \<Rightarrow> k x)"
  by (cases v) simp_all

lemma case_sum_steps [steps_intros]:
  "(\<And>x. only_steps (h x)) \<Longrightarrow> (\<And>x. only_steps (k x)) \<Longrightarrow> only_steps (case v of Inl x \<Rightarrow> h x | Inr x \<Rightarrow> k x)"
  by (cases v) simp_all

lemma let_steps [steps_intros]: "(\<And>x. only_steps (k x)) \<Longrightarrow> only_steps (let x = v in k x)"
  by simp

subsection \<open>Inverting runs\<close>

named_theorems run_simps

lemma bind_eq [run_simps]: "bind m k s = (r, s') \<longleftrightarrow> (\<exists>x t. m s = (x, t) \<and> k x t = (r, s'))"
  by (simp add: bind_def split: prod.split)

lemma return_eq [run_simps]: "return x s = (r, s') \<longleftrightarrow> r = x \<and> s' = s"
  by (auto simp: return_def)

lemma attempt_eq_Inr [run_simps]:
  "attempt m k s = (Inr y, s') \<longleftrightarrow> (\<exists>x t. m s = (Inr x, t) \<and> k x t = (Inr y, s'))"
  by (auto simp: attempt_def bind_def return_def split: prod.splits sum.splits)

lemma attempt_return_eq:
  "attempt (return r) k s = (Inr y, s') \<longleftrightarrow> (\<exists>x. r = Inr x \<and> k x s = (Inr y, s'))"
  by (auto simp: run_simps)

lemma run_map_eq [run_simps]: "run_map f m s = (r, s') \<longleftrightarrow> (\<exists>x. m s = (x, s') \<and> r = f x)"
  by (auto simp: run_map_def bind_def return_def split: prod.splits)

lemma tick_eq [run_simps]: "tick f s = (r, s') \<longleftrightarrow> r = f (sys_tick s) \<and> s' = s\<lparr>sys_tick := Suc (sys_tick s)\<rparr>"
  by (auto simp: tick_def)

lemma store_call_eq [run_simps]:
  "store_call W f s = (r, s') \<longleftrightarrow> f (world_store W (sys_tick s)) (world_others W (sys_tick s) (sys_db s)) = (r, sys_db s') \<and>
     sys_tick s' = Suc (sys_tick s)"
  by (cases s') (auto simp: store_call_def split: prod.splits)

lemma store_read_eq [run_simps]:
  "store_read W f s = (r, s') \<longleftrightarrow> f (world_store W (sys_tick s)) (sys_db s') = r \<and> sys_db s' = world_others W (sys_tick s) (sys_db s) \<and>
     sys_tick s' = Suc (sys_tick s)"
  by (auto simp: store_read_def store_call_eq)

lemma issue_token_eq [run_simps]:
  "issue_token T W key s = (t, s') \<longleftrightarrow>
     t = issue_opaque_token T (world_random W (sys_tick s)) key \<and> s' = s\<lparr>sys_tick := Suc (sys_tick s)\<rparr>"
  by (auto simp: issue_token_def run_simps)

lemma run_map_err_eq:
  "run_map (map_err f) m s = (Inr y, s') \<longleftrightarrow> m s = (Inr y, s')"
  "attempt (run_map (map_err f) m) k s = (Inr z, s') \<longleftrightarrow> (\<exists>x t. m s = (Inr x, t) \<and> k x t = (Inr z, s'))"
  by (auto simp: run_simps eq_commute [of "Inr _"] map_err_eq_Inr)

lemma interferenceD: "interference W \<Longrightarrow> store_step\<^sup>*\<^sup>* db (world_others W n db)"
  by (simp add: interference_def)

text \<open>A world in which nothing else happens.\<close>

definition sample_world :: "'j world" where
  "sample_world = \<lparr>world_store = (\<lambda>n. sample_env 3 (of_nat (10 + 10 * n))), world_others = (\<lambda>n db. db), world_clock = (\<lambda>n. 3),
     world_random = (\<lambda>n. filled (of_nat (40 + n))), world_nonce = (\<lambda>n. filled 0), world_uuid = (\<lambda>n. filled (of_nat (200 + n)))\<rparr>"

lemma sample_interference [simp]: "interference sample_world"
  by (simp add: interference_def sample_world_def)

lemma sample_world_simps [simp]:
  "world_store sample_world n = sample_env 3 (of_nat (10 + 10 * n))" "world_others sample_world n db = db"
  "world_clock sample_world n = 3" "world_random sample_world n = filled (of_nat (40 + n))"
  "world_nonce sample_world n = filled 0" "world_uuid sample_world n = filled (of_nat (200 + n))"
  by (simp_all add: sample_world_def)

end
