(* ===== verification/Fabric_Login.thy ===== *)
theory Fabric_Login
  imports Fabric_Runtime
begin

text \<open>
  The local authentication services of \<open>fcp-fabric-service/src\<close>: passwords (\<open>authentication.rs\<close>), login
  transactions (\<open>login_transaction.rs\<close>, \<open>login_flow.rs\<close>), second factors (\<open>mfa.rs\<close>), recovery codes
  (\<open>recovery.rs\<close>) and sessions (\<open>session.rs\<close>).  The key management service is an argument.  Durations are nanoseconds.
\<close>

subsection \<open>Password stage\<close>

record password_login_service =
  dummy_verifier :: password_verifier_string
  maximum_password_bytes :: nat

datatype password_login_outcome =
    PasswordDenied
  | EnrollmentRequired tenant_id account_id
  | TotpChallenge tenant_id account_id
  | PasswordAuthenticated authorization_context

datatype password_login_error = PasswordLoginStore store_error

text \<open>The next step after the password was verified.\<close>

definition password_next_step :: "'j world \<Rightarrow> login_account \<Rightarrow> ('j, password_login_error + password_login_outcome) run" where
  "password_next_step W account =
     (let tenant = login_tenant_id account; id = login_account_id account in
      if \<not> permits_session (login_state account) then
        return (Inr (if login_state account = MfaEnrollmentRequired then EnrollmentRequired tenant id else PasswordDenied))
      else
        attempt (run_map (map_err PasswordLoginStore) (store_read W (\<lambda>_. roles_for_account tenant id))) (\<lambda>roles.
        bind (store_read W (\<lambda>_. has_active_totp_factor tenant id)) (\<lambda>has_totp.
        let privileged = list_ex (\<lambda>r. r = Owner \<or> r = Admin) roles in
        if privileged \<or> has_totp then
          if \<not> has_totp then return (Inr PasswordDenied) else return (Inr (TotpChallenge tenant id))
        else return (Inr (PasswordAuthenticated (authorization_context_new tenant id (login_state account) roles False))))))"

text \<open>
  For an unknown account the source also verifies the password against the dummy verifier and
  discards the result, which equalises timing and has no effect.
\<close>

definition password_authenticate ::
  "'p password_primitives \<Rightarrow> 'j world \<Rightarrow> password_login_service \<Rightarrow> user_address \<Rightarrow> str \<Rightarrow>
   ('j, password_login_error + password_login_outcome) run" where
  "password_authenticate A W svc address password =
     attempt (run_map (map_err PasswordLoginStore) (store_read W (\<lambda>_. find_login_account A address))) (\<lambda>found.
     case found of
       None \<Rightarrow> return (Inr PasswordDenied)
     | Some account \<Rightarrow>
         let verifier = (case login_verifier account of Some v \<Rightarrow> v | None \<Rightarrow> dummy_verifier svc) in
         if verify_password A password verifier (maximum_password_bytes svc) \<noteq> Inr () then return (Inr PasswordDenied)
         else password_next_step W account)"

subsection \<open>Login transactions\<close>

type_synonym duration = int

definition duration_minutes :: "int \<Rightarrow> duration" where
  "duration_minutes m = m * 60 * 1000000000"

definition duration_days :: "int \<Rightarrow> duration" where
  "duration_days d = duration_minutes (d * 24 * 60)"

datatype login_transaction_service_error = LoginPolicyInvalid | LoginTransactionStore store_error

datatype login_transaction_policy = LoginTransactionPolicy (transaction_lifetime: duration)

definition login_transaction_policy_new :: "duration \<Rightarrow> login_transaction_service_error + login_transaction_policy" where
  "login_transaction_policy_new lifetime =
     (if lifetime \<le> 0 \<or> lifetime > duration_minutes 5 then Inl LoginPolicyInvalid else Inr (LoginTransactionPolicy lifetime))"

definition login_transaction_policy_standard :: login_transaction_policy where
  "login_transaction_policy_standard = LoginTransactionPolicy (duration_minutes 5)"

record login_transaction_service =
  transaction_digest_key :: token_digest_key
  transaction_policy :: login_transaction_policy

record issued_login_transaction =
  transaction_token :: str
  transaction_record :: login_transaction_record
  transaction_context :: "authorization_context option"

datatype login_transaction_start = StartDenied | StartPending issued_login_transaction

fun stage_for :: "password_login_outcome \<Rightarrow> (tenant_id \<times> account_id \<times> login_stage \<times> authorization_context option) option" where
  "stage_for PasswordDenied = None"
| "stage_for (EnrollmentRequired tenant account) = Some (tenant, account, MfaEnrollment, None)"
| "stage_for (TotpChallenge tenant account) = Some (tenant, account, MfaChallenge, None)"
| "stage_for (PasswordAuthenticated c) = Some (context_tenant c, context_account c, SessionIssuance, Some c)"

definition login_transaction_begin ::
  "('z) token_primitives_scheme \<Rightarrow> 'j world \<Rightarrow> login_transaction_service \<Rightarrow> password_login_outcome \<Rightarrow> 32 bytes \<Rightarrow> str \<Rightarrow>
   timestamp \<Rightarrow> ('j, login_transaction_service_error + login_transaction_start) run" where
  "login_transaction_begin T W svc outcome binding correlation now =
     (case stage_for outcome of
        None \<Rightarrow> return (Inr StartDenied)
      | Some (tenant, account, stage, ctx) \<Rightarrow>
          bind (issue_token T W (transaction_digest_key svc)) (\<lambda>issued.
          attempt (run_map (map_err LoginTransactionStore) (store_call W (\<lambda>E. create_login_transaction E
            \<lparr>cl_tenant = tenant, cl_account = account, cl_digest = issued_digest issued, cl_stage = stage, cl_binding = binding,
             cl_factor = None, cl_expires_at = now + transaction_lifetime (transaction_policy svc), cl_correlation = correlation\<rparr>)))
          (\<lambda>r. return (Inr (StartPending \<lparr>transaction_token = token_raw issued, transaction_record = r, transaction_context = ctx\<rparr>)))))"

definition begin_enrollment_transaction ::
  "('z) token_primitives_scheme \<Rightarrow> 'j world \<Rightarrow> login_transaction_service \<Rightarrow> tenant_id \<Rightarrow> account_id \<Rightarrow> uuid \<Rightarrow> 32 bytes \<Rightarrow>
   str \<Rightarrow> timestamp \<Rightarrow> ('j, login_transaction_service_error + issued_login_transaction) run" where
  "begin_enrollment_transaction T W svc tenant account factor binding correlation now =
     bind (issue_token T W (transaction_digest_key svc)) (\<lambda>issued.
     attempt (run_map (map_err LoginTransactionStore) (store_call W (\<lambda>E. create_login_transaction E
       \<lparr>cl_tenant = tenant, cl_account = account, cl_digest = issued_digest issued, cl_stage = MfaEnrollment, cl_binding = binding,
        cl_factor = Some factor, cl_expires_at = now + transaction_lifetime (transaction_policy svc), cl_correlation = correlation\<rparr>)))
     (\<lambda>r. return (Inr \<lparr>transaction_token = token_raw issued, transaction_record = r, transaction_context = None\<rparr>)))"

definition login_transaction_consume ::
  "('z) token_primitives_scheme \<Rightarrow> 'j world \<Rightarrow> login_transaction_service \<Rightarrow> str \<Rightarrow> login_stage \<Rightarrow> 32 bytes \<Rightarrow> str \<Rightarrow>
   ('j, login_transaction_service_error + login_transaction_record) run" where
  "login_transaction_consume T W svc token stage binding correlation =
     run_map (map_err LoginTransactionStore) (store_call W (\<lambda>E.
       consume_login_transaction E (derive_opaque_token_digest T (transaction_digest_key svc) token) stage binding correlation))"

subsection \<open>The password login flow\<close>

record fabric_login_flow =
  flow_password :: password_login_service
  flow_transaction :: login_transaction_service
  flow_binding_key :: token_digest_key

datatype fabric_login_flow_error = FlowPassword password_login_error | FlowTransaction login_transaction_service_error

record fabric_login_challenge =
  challenge_transaction :: issued_login_transaction
  challenge_binding :: str

datatype fabric_login_start = FlowDenied | FlowPending fabric_login_challenge

definition start_password_login ::
  "'p password_primitives \<Rightarrow> ('z) token_primitives_scheme \<Rightarrow> 'j world \<Rightarrow> fabric_login_flow \<Rightarrow> user_address \<Rightarrow> str \<Rightarrow> str \<Rightarrow>
   timestamp \<Rightarrow> ('j, fabric_login_flow_error + fabric_login_start) run" where
  "start_password_login A T W flow address password correlation now =
     attempt (run_map (map_err FlowPassword) (password_authenticate A W (flow_password flow) address password)) (\<lambda>outcome.
     if outcome = PasswordDenied then return (Inr FlowDenied)
     else
       bind (issue_token T W (flow_binding_key flow)) (\<lambda>binding.
       let digest = derive_opaque_token_digest T (flow_binding_key flow) (token_raw binding) in
       attempt (run_map (map_err FlowTransaction)
         (login_transaction_begin T W (flow_transaction flow) outcome (digest_bytes digest) correlation now)) (\<lambda>started.
       return (Inr (case started of
          StartDenied \<Rightarrow> FlowDenied
        | StartPending transaction \<Rightarrow> FlowPending \<lparr>challenge_transaction = transaction, challenge_binding = token_raw binding\<rparr>)))))"

definition begin_totp_enrollment_confirmation ::
  "('z) token_primitives_scheme \<Rightarrow> 'j world \<Rightarrow> fabric_login_flow \<Rightarrow> tenant_id \<Rightarrow> account_id \<Rightarrow> uuid \<Rightarrow> str \<Rightarrow> str \<Rightarrow>
   timestamp \<Rightarrow> ('j, fabric_login_flow_error + issued_login_transaction) run" where
  "begin_totp_enrollment_confirmation T W flow tenant account factor binding_token correlation now =
     run_map (map_err FlowTransaction) (begin_enrollment_transaction T W (flow_transaction flow) tenant account factor
       (digest_bytes (derive_opaque_token_digest T (flow_binding_key flow) binding_token)) correlation now)"

definition consume_next_step ::
  "('z) token_primitives_scheme \<Rightarrow> 'j world \<Rightarrow> fabric_login_flow \<Rightarrow> str \<Rightarrow> str \<Rightarrow> login_stage \<Rightarrow> str \<Rightarrow>
   ('j, fabric_login_flow_error + login_transaction_record) run" where
  "consume_next_step T W flow transaction binding_token stage correlation =
     run_map (map_err FlowTransaction) (login_transaction_consume T W (flow_transaction flow) transaction stage
       (digest_bytes (derive_opaque_token_digest T (flow_binding_key flow) binding_token)) correlation)"

subsection \<open>Second factors\<close>

datatype totp_key_resolution_error = KeyUnavailable | KeyProviderFailure

record active_totp_encryption_key =
  active_reference :: totp_key_reference
  active_key :: totp_data_encryption_key

text \<open>The traits \<open>TotpKeyResolver\<close> and \<open>TotpEnrollmentKeyProvider\<close>.\<close>

record 'j totp_key_provider =
  provider_resolve :: "totp_key_reference \<Rightarrow> ('j, totp_key_resolution_error + totp_data_encryption_key) run"
  provider_active :: "('j, totp_key_resolution_error + active_totp_encryption_key) run"

definition provider_steps :: "'j totp_key_provider \<Rightarrow> bool" where
  "provider_steps K \<longleftrightarrow> (\<forall>reference. only_steps (provider_resolve K reference)) \<and> only_steps (provider_active K)"

datatype totp_login_error =
    TotpLoginStore store_error
  | TotpLoginKeyResolution totp_key_resolution_error
  | TotpLoginTotp totp_error

datatype totp_login_outcome = TotpDenied | TotpAuthenticated authorization_context

definition accept_totp_code ::
  "('y) totp_primitives_scheme \<Rightarrow> 'j world \<Rightarrow> tenant_id \<Rightarrow> account_id \<Rightarrow> persisted_totp_factor \<Rightarrow> totp_data_encryption_key \<Rightarrow>
   str \<Rightarrow> timestamp \<Rightarrow> ('j, totp_login_error + totp_login_outcome) run" where
  "accept_totp_code P W tenant account factor key code now =
     (let binding = \<lparr>binding_tenant = tenant, binding_account = account, binding_factor = factor_id factor\<rparr> in
      case verify_totp P key (factor_seed factor) binding code now (factor_last_step factor) of
        Inl e \<Rightarrow> return (if e = TotpVerificationFailed \<or> e = InvalidCodeFormat then Inr TotpDenied else Inl (TotpLoginTotp e))
      | Inr accepted \<Rightarrow>
          bind (store_call W (\<lambda>_. consume_totp_step tenant account (factor_id factor) (accepted_step accepted))) (\<lambda>consumed.
          case consumed of
            Inl e \<Rightarrow> return (if e = TargetNotFoundOrUnchanged then Inr TotpDenied else Inl (TotpLoginStore e))
          | Inr _ \<Rightarrow>
              attempt (run_map (map_err TotpLoginStore) (store_read W (\<lambda>_. session_authorization_context tenant account))) (\<lambda>ctx.
              return (Inr (case ctx of None \<Rightarrow> TotpDenied | Some c \<Rightarrow> TotpAuthenticated c)))))"

definition totp_login_complete ::
  "('y) totp_primitives_scheme \<Rightarrow> 'j totp_key_provider \<Rightarrow> 'j world \<Rightarrow> tenant_id \<Rightarrow> account_id \<Rightarrow> str \<Rightarrow> timestamp \<Rightarrow>
   ('j, totp_login_error + totp_login_outcome) run" where
  "totp_login_complete P K W tenant account code now =
     attempt (run_map (map_err TotpLoginStore) (store_read W (\<lambda>_. active_totp_factor tenant account))) (\<lambda>found.
     case found of
       None \<Rightarrow> return (Inr TotpDenied)
     | Some factor \<Rightarrow>
         attempt (run_map (map_err TotpLoginKeyResolution)
           (provider_resolve K (seed_key_reference (factor_seed factor)))) (\<lambda>key.
         accept_totp_code P W tenant account factor key code now))"

datatype totp_enrollment_error =
    EnrollmentStore store_error
  | EnrollmentKeyResolution totp_key_resolution_error
  | EnrollmentTotp totp_error

record pending_totp_enrollment =
  pending_factor_id :: uuid
  pending_uri :: str

datatype totp_enrollment_outcome = EnrollmentDenied | EnrollmentAuthenticated authorization_context

definition totp_enrollment_begin ::
  "('y) totp_primitives_scheme \<Rightarrow> (str \<Rightarrow> str) \<Rightarrow> (str \<Rightarrow> str option) \<Rightarrow> 'j totp_key_provider \<Rightarrow> 'j world \<Rightarrow> str \<Rightarrow> tenant_id \<Rightarrow>
   account_id \<Rightarrow> str \<Rightarrow> ('j, totp_enrollment_error + pending_totp_enrollment) run" where
  "totp_enrollment_begin P nfc idna K W issuer tenant account correlation =
     attempt (run_map (map_err EnrollmentStore) (store_read W (\<lambda>_. user_address_for_account nfc idna tenant account))) (\<lambda>found.
     case found of
       None \<Rightarrow> return (Inl (EnrollmentStore TargetNotFoundOrUnchanged))
     | Some address \<Rightarrow>
         attempt (run_map (map_err EnrollmentKeyResolution) (provider_active K)) (\<lambda>active.
         bind (tick (world_uuid W)) (\<lambda>factor.
         let binding = \<lparr>binding_tenant = tenant, binding_account = account, binding_factor = factor\<rparr> in
         bind (tick (\<lambda>n. (world_random W n, world_nonce W n))) (\<lambda>(seed, nonce).
         case begin_totp_enrollment P seed nonce (active_key active) (active_reference active) binding address issuer of
           Inl e \<Rightarrow> return (Inl (EnrollmentTotp e))
         | Inr enrollment \<Rightarrow>
             attempt (run_map (map_err EnrollmentStore)
               (store_call W (\<lambda>E. create_pending_totp_factor E tenant account factor (enrolled_seed enrollment) correlation))) (\<lambda>_.
             return (Inr \<lparr>pending_factor_id = factor, pending_uri = provisioning_uri (enrolled_provisioning enrollment)\<rparr>))))))"

definition totp_enrollment_confirm ::
  "('y) totp_primitives_scheme \<Rightarrow> 'j totp_key_provider \<Rightarrow> 'j world \<Rightarrow> tenant_id \<Rightarrow> account_id \<Rightarrow> uuid \<Rightarrow> str \<Rightarrow> str \<Rightarrow> timestamp \<Rightarrow>
   ('j, totp_enrollment_error + totp_enrollment_outcome) run" where
  "totp_enrollment_confirm P K W tenant account pending_id code correlation now =
     attempt (run_map (map_err EnrollmentStore) (store_read W (\<lambda>_. pending_totp_factor tenant account pending_id))) (\<lambda>found.
     case found of
       None \<Rightarrow> return (Inr EnrollmentDenied)
     | Some factor \<Rightarrow>
         attempt (run_map (map_err EnrollmentKeyResolution)
           (provider_resolve K (seed_key_reference (factor_seed factor)))) (\<lambda>key.
         let binding = \<lparr>binding_tenant = tenant, binding_account = account, binding_factor = factor_id factor\<rparr> in
         case verify_totp P key (factor_seed factor) binding code now (factor_last_step factor) of
           Inl e \<Rightarrow> return (if e = TotpVerificationFailed \<or> e = InvalidCodeFormat then Inr EnrollmentDenied else Inl (EnrollmentTotp e))
         | Inr accepted \<Rightarrow>
             bind (store_call W (\<lambda>E. activate_totp_factor E tenant account (factor_id factor) (accepted_step accepted) correlation)) (\<lambda>activated.
             case activated of
               Inl e \<Rightarrow> return (if e = TargetNotFoundOrUnchanged then Inr EnrollmentDenied else Inl (EnrollmentStore e))
             | Inr _ \<Rightarrow>
                 attempt (run_map (map_err EnrollmentStore) (store_read W (\<lambda>_. session_authorization_context tenant account))) (\<lambda>ctx.
                 return (Inr (case ctx of None \<Rightarrow> EnrollmentDenied | Some c \<Rightarrow> EnrollmentAuthenticated c))))))"

subsection \<open>Recovery codes\<close>

datatype recovery_code_error = RecoveryPolicyInvalid | RecoveryStore store_error

datatype recovery_code_policy = RecoveryCodePolicy (policy_code_count: nat)

definition recovery_code_policy_new :: "nat \<Rightarrow> recovery_code_error + recovery_code_policy" where
  "recovery_code_policy_new count =
     (if count < 8 \<or> count > 16 then Inl RecoveryPolicyInvalid else Inr (RecoveryCodePolicy count))"

definition recovery_code_policy_standard :: recovery_code_policy where
  "recovery_code_policy_standard = RecoveryCodePolicy 10"

record issued_recovery_codes =
  recovery_codes :: "str list"
  recovery_code_count :: nat

definition recovery_verifier :: "('z) token_primitives_scheme \<Rightarrow> opaque_token_digest \<Rightarrow> str" where
  "recovery_verifier T digest = base64_url T (bytes_list (digest_bytes digest))"

fun issue_recovery_codes :: "('z) token_primitives_scheme \<Rightarrow> 'j world \<Rightarrow> token_digest_key \<Rightarrow> nat \<Rightarrow> ('j, (str \<times> str) list) run" where
  "issue_recovery_codes T W key 0 = return []"
| "issue_recovery_codes T W key (Suc n) =
     bind (issue_token T W key) (\<lambda>issued.
     bind (issue_recovery_codes T W key n) (\<lambda>rest.
     return ((token_raw issued, recovery_verifier T (issued_digest issued)) # rest)))"

definition recovery_replace ::
  "('z) token_primitives_scheme \<Rightarrow> 'j world \<Rightarrow> token_digest_key \<Rightarrow> recovery_code_policy \<Rightarrow> tenant_id \<Rightarrow> account_id \<Rightarrow> str \<Rightarrow>
   ('j, recovery_code_error + issued_recovery_codes) run" where
  "recovery_replace T W key policy tenant account correlation =
     bind (issue_recovery_codes T W key (policy_code_count policy)) (\<lambda>issued.
     attempt (run_map (map_err RecoveryStore)
       (store_call W (\<lambda>E. replace_recovery_code_set E tenant account (map snd issued) correlation))) (\<lambda>set.
     return (Inr \<lparr>recovery_codes = map fst issued, recovery_code_count = code_count set\<rparr>)))"

definition recovery_consume ::
  "('z) token_primitives_scheme \<Rightarrow> 'j world \<Rightarrow> token_digest_key \<Rightarrow> tenant_id \<Rightarrow> account_id \<Rightarrow> str \<Rightarrow> str \<Rightarrow>
   ('j, recovery_code_error + bool) run" where
  "recovery_consume T W key tenant account raw correlation =
     run_map (map_err RecoveryStore) (store_call W (\<lambda>E.
       consume_recovery_code E tenant account (recovery_verifier T (derive_opaque_token_digest T key raw)) correlation))"

subsection \<open>Sessions\<close>

datatype session_issue_error = SessionPolicyInvalid | SessionIssueStore store_error

record session_policy =
  refresh_lifetime :: duration
  access_lifetime :: duration

definition session_policy_new :: "duration \<Rightarrow> session_issue_error + session_policy" where
  "session_policy_new lifetime =
     (if lifetime \<le> 0 \<or> lifetime > duration_days 30 then Inl SessionPolicyInvalid
      else Inr \<lparr>refresh_lifetime = lifetime, access_lifetime = duration_minutes 15\<rparr>)"

record session_service =
  session_digest_key :: token_digest_key
  session_service_policy :: session_policy

record issued_refresh_session =
  issued_refresh_token :: str
  issued_access_token :: str
  issued_family :: uuid
  issued_credential :: uuid
  issued_expires_at :: timestamp
  issued_access_expires_at :: timestamp

definition session_issue ::
  "('z) token_primitives_scheme \<Rightarrow> 'j world \<Rightarrow> session_service \<Rightarrow> authorization_context \<Rightarrow> str \<Rightarrow> timestamp \<Rightarrow>
   ('j, session_issue_error + issued_refresh_session) run" where
  "session_issue T W svc ctx correlation now =
     bind (issue_token T W (session_digest_key svc)) (\<lambda>issued.
     bind (issue_token T W (session_digest_key svc)) (\<lambda>access.
     attempt (run_map (map_err SessionIssueStore) (store_call W (\<lambda>E. create_refresh_session E
       \<lparr>cs_tenant = context_tenant ctx, cs_account = context_account ctx, cs_refresh_digest = issued_digest issued,
        cs_access_digest = issued_digest access, cs_refresh_expires_at = now + refresh_lifetime (session_service_policy svc),
        cs_access_expires_at = now + access_lifetime (session_service_policy svc), cs_correlation = correlation\<rparr>))) (\<lambda>r.
     return (Inr \<lparr>issued_refresh_token = token_raw issued, issued_access_token = token_raw access, issued_family = sr_family r,
       issued_credential = sr_credential r, issued_expires_at = sr_expires_at r,
       issued_access_expires_at = sr_access_expires_at r\<rparr>))))"

datatype session_rotation_outcome = SessionRotated issued_refresh_session | SessionReuseDetected | SessionDenied

datatype session_rotation_error = SessionRotationStore store_error

definition session_rotate ::
  "('z) token_primitives_scheme \<Rightarrow> 'j world \<Rightarrow> session_service \<Rightarrow> str \<Rightarrow> str \<Rightarrow> timestamp \<Rightarrow>
   ('j, session_rotation_error + session_rotation_outcome) run" where
  "session_rotate T W svc presented correlation now =
     bind (issue_token T W (session_digest_key svc)) (\<lambda>successor.
     bind (issue_token T W (session_digest_key svc)) (\<lambda>access.
     attempt (run_map (map_err SessionRotationStore) (store_call W (\<lambda>E. rotate_refresh_credential E
       (derive_opaque_token_digest T (session_digest_key svc) presented) (issued_digest successor) (issued_digest access)
       (now + refresh_lifetime (session_service_policy svc)) (now + access_lifetime (session_service_policy svc)) correlation))) (\<lambda>rotation.
     return (Inr (case rotation of
        Rotated r \<Rightarrow> SessionRotated \<lparr>issued_refresh_token = token_raw successor, issued_access_token = token_raw access,
          issued_family = rr_family r, issued_credential = rr_credential r, issued_expires_at = rr_expires_at r,
          issued_access_expires_at = rr_access_expires_at r\<rparr>
      | ReuseDetected \<Rightarrow> SessionReuseDetected
      | Denied \<Rightarrow> SessionDenied)))))"

datatype access_session_authentication_error = AccessAuthenticationStore store_error

record authenticated_access_session =
  session_context :: authorization_context
  session_family :: uuid

definition access_authenticate ::
  "('z) token_primitives_scheme \<Rightarrow> 'j world \<Rightarrow> token_digest_key \<Rightarrow> str \<Rightarrow>
   ('j, access_session_authentication_error + authenticated_access_session option) run" where
  "access_authenticate T W key raw =
     attempt (run_map (map_err AccessAuthenticationStore)
       (store_read W (\<lambda>E. access_session_authorization_context E (derive_opaque_token_digest T key raw)))) (\<lambda>found.
     return (Inr (map_option (\<lambda>a. \<lparr>session_context = authorization_of a, session_family = authorization_family a\<rparr>) found)))"

datatype session_revocation_error = SessionRevocationStore store_error

definition session_revoke ::
  "'j world \<Rightarrow> tenant_id \<Rightarrow> account_id \<Rightarrow> uuid \<Rightarrow> str \<Rightarrow> ('j, session_revocation_error + bool) run" where
  "session_revoke W tenant account family correlation =
     run_map (map_err SessionRevocationStore) (store_call W (\<lambda>E. revoke_refresh_session_family E tenant account family correlation))"

subsection \<open>Step-up\<close>

datatype step_up_error = StepUpPolicyInvalid | StepUpTotp totp_login_error | StepUpStore store_error

datatype step_up_policy = StepUpPolicy (grant_lifetime: duration)

definition step_up_policy_new :: "duration \<Rightarrow> step_up_error + step_up_policy" where
  "step_up_policy_new lifetime =
     (if lifetime \<le> 0 \<or> lifetime > duration_minutes 5 then Inl StepUpPolicyInvalid else Inr (StepUpPolicy lifetime))"

definition step_up_policy_standard :: step_up_policy where
  "step_up_policy_standard = StepUpPolicy (duration_minutes 5)"

record step_up_service =
  step_up_digest_key :: token_digest_key
  step_up_service_policy :: step_up_policy

record role_change_target =
  target_account :: account_id
  target_role :: role
  target_grant :: bool

record issued_step_up_grant =
  grant_token :: str
  issued_grant_expires_at :: timestamp

datatype step_up_issue_outcome = StepUpDenied | StepUpIssued issued_step_up_grant

definition role_change_target_bytes :: "role_change_target \<Rightarrow> u8 list" where
  "role_change_target_bytes target =
     ascii ''fcp-fabric-step-up-target-v1'' @ [0] @ ascii ''change-account-role'' @ [0] @
     bytes_list (account_uuid (target_account target)) @ [if target_grant target then 1 else 0] @
     ascii (role_text (target_role target))"

definition role_change_target_digest :: "(u8 list \<Rightarrow> 32 bytes) \<Rightarrow> role_change_target \<Rightarrow> 32 bytes" where
  "role_change_target_digest sha256 target = sha256 (role_change_target_bytes target)"

definition issue_role_change ::
  "('y) totp_primitives_scheme \<Rightarrow> ('z) token_primitives_scheme \<Rightarrow> (u8 list \<Rightarrow> 32 bytes) \<Rightarrow> 'j totp_key_provider \<Rightarrow> 'j world \<Rightarrow>
   step_up_service \<Rightarrow> tenant_id \<Rightarrow> account_id \<Rightarrow> uuid \<Rightarrow> role_change_target \<Rightarrow> str \<Rightarrow> str \<Rightarrow> timestamp \<Rightarrow>
   ('j, step_up_error + step_up_issue_outcome) run" where
  "issue_role_change P T sha256 K W svc tenant account family target code correlation now =
     attempt (run_map (map_err StepUpTotp) (totp_login_complete P K W tenant account code now)) (\<lambda>outcome.
     case outcome of
       TotpDenied \<Rightarrow> return (Inr StepUpDenied)
     | TotpAuthenticated ctx \<Rightarrow>
         if context_tenant ctx \<noteq> tenant \<or> context_account ctx \<noteq> account then return (Inr StepUpDenied)
         else
           bind (issue_token T W (step_up_digest_key svc)) (\<lambda>issued.
           let expires = now + grant_lifetime (step_up_service_policy svc) in
           attempt (run_map (map_err StepUpStore) (store_call W (\<lambda>E. create_step_up_grant E
             \<lparr>cg_tenant = tenant, cg_account = account, cg_family = family, cg_action = ChangeAccountRole,
              cg_target = role_change_target_digest sha256 target, cg_digest = issued_digest issued, cg_expires_at = expires,
              cg_correlation = correlation\<rparr>))) (\<lambda>_.
           return (Inr (StepUpIssued \<lparr>grant_token = token_raw issued, issued_grant_expires_at = expires\<rparr>)))))"

definition consume_role_change ::
  "('z) token_primitives_scheme \<Rightarrow> (u8 list \<Rightarrow> 32 bytes) \<Rightarrow> 'j world \<Rightarrow> step_up_service \<Rightarrow> tenant_id \<Rightarrow> account_id \<Rightarrow> uuid \<Rightarrow>
   role_change_target \<Rightarrow> str \<Rightarrow> str \<Rightarrow> ('j, step_up_error + bool) run" where
  "consume_role_change T sha256 W svc tenant account family target raw correlation =
     run_map (map_err StepUpStore) (store_call W (\<lambda>E. consume_step_up_grant E
       \<lparr>sg_tenant = tenant, sg_account = account, sg_family = family, sg_action = ChangeAccountRole,
        sg_target = role_change_target_digest sha256 target,
        sg_digest = derive_opaque_token_digest T (step_up_digest_key svc) raw, sg_correlation = correlation\<rparr>))"

subsection \<open>Every service call is a run of store operations\<close>

lemma password_next_step_steps [steps_intros]: "interference W \<Longrightarrow> only_steps (password_next_step W account)"
  unfolding password_next_step_def Let_def by (intro steps_intros)

lemma password_authenticate_steps [steps_intros]: "interference W \<Longrightarrow> only_steps (password_authenticate A W svc address password)"
  unfolding password_authenticate_def Let_def by (intro steps_intros)

lemma login_transaction_begin_steps [steps_intros]: "interference W \<Longrightarrow> only_steps (login_transaction_begin T W svc outcome b corr now)"
  unfolding login_transaction_begin_def by (cases "stage_for outcome") (auto intro!: steps_intros)

lemma begin_enrollment_transaction_steps [steps_intros]:
  "interference W \<Longrightarrow> only_steps (begin_enrollment_transaction T W svc tenant account factor b corr now)"
  unfolding begin_enrollment_transaction_def by (intro steps_intros)

lemma login_transaction_consume_steps [steps_intros]:
  "interference W \<Longrightarrow> only_steps (login_transaction_consume T W svc token stage b corr)"
  unfolding login_transaction_consume_def by (intro steps_intros)

lemma start_password_login_steps [steps_intros]:
  "interference W \<Longrightarrow> only_steps (start_password_login A T W flow address password corr now)"
  unfolding start_password_login_def Let_def by (intro steps_intros)

lemma begin_confirmation_steps [steps_intros]:
  "interference W \<Longrightarrow> only_steps (begin_totp_enrollment_confirmation T W flow tenant account factor b corr now)"
  unfolding begin_totp_enrollment_confirmation_def by (intro steps_intros)

lemma consume_next_step_steps [steps_intros]: "interference W \<Longrightarrow> only_steps (consume_next_step T W flow t b stage corr)"
  unfolding consume_next_step_def by (intro steps_intros)

lemma provider_stepsD [steps_intros]:
  assumes "provider_steps K"
  shows "only_steps (provider_resolve K reference)" and "only_steps (provider_active K)"
  using assms by (simp_all add: provider_steps_def)

lemma accept_totp_code_steps [steps_intros]: "interference W \<Longrightarrow> only_steps (accept_totp_code P W tenant account factor key code now)"
  unfolding accept_totp_code_def Let_def by (intro steps_intros)

lemma totp_login_complete_steps [steps_intros]: "interference W \<Longrightarrow> provider_steps K \<Longrightarrow> only_steps (totp_login_complete P K W tenant account code now)"
  unfolding totp_login_complete_def by (intro steps_intros)

lemma totp_enrollment_begin_steps [steps_intros]:
  "interference W \<Longrightarrow> provider_steps K \<Longrightarrow> only_steps (totp_enrollment_begin P nfc idna K W issuer tenant account corr)"
  unfolding totp_enrollment_begin_def Let_def case_prod_beta by (intro steps_intros)

lemma totp_enrollment_confirm_steps [steps_intros]:
  "interference W \<Longrightarrow> provider_steps K \<Longrightarrow> only_steps (totp_enrollment_confirm P K W tenant account f code corr now)"
  unfolding totp_enrollment_confirm_def Let_def by (intro steps_intros)

lemma issue_recovery_codes_steps [steps_intros]: "only_steps (issue_recovery_codes T W key n)"
  by (induction n) (auto intro!: steps_intros)

lemma recovery_steps [steps_intros]:
  assumes "interference W"
  shows "only_steps (recovery_replace T W key policy tenant account corr)" and "only_steps (recovery_consume T W key tenant account raw corr)"
  unfolding recovery_replace_def recovery_consume_def by (intro steps_intros assms)+

lemma session_steps [steps_intros]:
  assumes "interference W"
  shows "only_steps (session_issue T W svc ctx corr now)" and "only_steps (session_rotate T W svc raw corr now)"
    and "only_steps (access_authenticate T W key raw)" and "only_steps (session_revoke W tenant account family corr)"
  unfolding session_issue_def session_rotate_def access_authenticate_def session_revoke_def by (intro steps_intros assms)+

lemma case_totp_steps [steps_intros]:
  "only_steps m \<Longrightarrow> (\<And>x. only_steps (k x)) \<Longrightarrow> only_steps (case v of TotpDenied \<Rightarrow> m | TotpAuthenticated x \<Rightarrow> k x)"
  by (cases v) simp_all

lemma issue_role_change_steps [steps_intros]:
  "interference W \<Longrightarrow> provider_steps K \<Longrightarrow>
   only_steps (issue_role_change P T sha256 K W svc tenant account family target code corr now)"
  unfolding issue_role_change_def Let_def by (intro steps_intros)

lemma consume_role_change_steps [steps_intros]:
  "interference W \<Longrightarrow> only_steps (consume_role_change T sha256 W svc tenant account family target raw corr)"
  unfolding consume_role_change_def Let_def by (intro steps_intros)

subsection \<open>Second factors are permanent\<close>

lemma change_has_factor: "db_change db db' \<Longrightarrow> has_factor (mfa_totp_factors db) t a \<Longrightarrow> has_factor (mfa_totp_factors db') t a"
proof (induction rule: db_change.induct)
  case (factor_active factors t' a' f now s db au)
  from factor_active.prems obtain x where "x \<in> set (mfa_totp_factors db)" "tf_tenant x = t" "tf_account x = a" "tf_status x = ''active''"
    unfolding has_factor_def by blast
  then show ?case unfolding factor_active(1) by simp (rule has_factor_activated, assumption, simp_all)
qed (simp_all add: has_factor_append)

lemma has_factor_steps:
  "store_step\<^sup>*\<^sup>* db db' \<Longrightarrow> store_ok db \<Longrightarrow> has_factor (mfa_totp_factors db) t a \<Longrightarrow> has_factor (mfa_totp_factors db') t a \<and> store_ok db'"
  by (induction rule: rtranclp_induct) (blast intro: store_ok_step store_step_ok_change change_has_factor)+

lemma has_active_totp_factor_iff:
  "has_active_totp_factor t a db \<longleftrightarrow> has_factor (mfa_totp_factors db) (tenant_uuid t) (account_uuid a)"
  by (auto simp: has_active_totp_factor_def has_factor_def list_ex_iff)

lemma find_login_account_Some:
  assumes "find_login_account A address db = Inr (Some x)"
  obtains r where "r \<in> set (accounts db)" and "login_account_id x = AccountId (ac_id r)" and "login_tenant_id x = TenantId (ac_tenant r)"
    and "parse_account_state (ac_state r) = Inr (login_state x)"
proof -
  from assms have "\<exists>r \<in> set (accounts db). login_account_id x = AccountId (ac_id r) \<and> login_tenant_id x = TenantId (ac_tenant r) \<and>
      parse_account_state (ac_state r) = Inr (login_state x)"
    by (auto simp: find_login_account_def transpose_map_def and_then_eq_Inr map_err_eq_Inr split: option.splits
        dest!: fetch_optional_Some) (metis)+
  then show thesis using that by blast
qed

lemma login_account_active_factor:
  assumes "find_login_account A address db = Inr (Some x)" and "permits_session (login_state x)" and "store_ok db"
  shows "has_factor (mfa_totp_factors db) (tenant_uuid (login_tenant_id x)) (account_uuid (login_account_id x))"
proof -
  from assms(1) obtain r where r: "r \<in> set (accounts db)" "login_account_id x = AccountId (ac_id r)" "login_tenant_id x = TenantId (ac_tenant r)"
    and st: "parse_account_state (ac_state r) = Inr (login_state x)" by (rule find_login_account_Some)
  have "login_state x = AccountActive" using assms(2) by (cases "login_state x") simp_all
  then have "ac_state r = ''active''" using st by (simp add: parse_account_active)
  then show ?thesis using r store_okD(3) [OF assms(3)] by (auto simp: factors_ok_def)
qed

subsection \<open>What the password stage proves\<close>

definition password_checked ::
  "'p password_primitives \<Rightarrow> password_login_service \<Rightarrow> user_address \<Rightarrow> str \<Rightarrow> tenant_id \<Rightarrow> account_id \<Rightarrow> 'j database \<Rightarrow> bool" where
  "password_checked A svc address password tenant account db \<longleftrightarrow>
     (\<exists>x. find_login_account A address db = Inr (Some x) \<and> login_tenant_id x = tenant \<and> login_account_id x = account \<and>
        verify_password A password (case login_verifier x of Some v \<Rightarrow> v | None \<Rightarrow> dummy_verifier svc) (maximum_password_bytes svc) = Inr ())"

lemma password_next_step_cases:
  assumes "password_next_step W x s = (Inr out, s')" and "interference W" and "store_ok (sys_db s)"
    and "permits_session (login_state x) \<Longrightarrow> has_factor (mfa_totp_factors (sys_db s)) (tenant_uuid (login_tenant_id x)) (account_uuid (login_account_id x))"
  shows "out = PasswordDenied \<or> out = EnrollmentRequired (login_tenant_id x) (login_account_id x) \<or>
    out = TotpChallenge (login_tenant_id x) (login_account_id x) \<and>
    has_factor (mfa_totp_factors (sys_db s')) (tenant_uuid (login_tenant_id x)) (account_uuid (login_account_id x))"
proof (cases "permits_session (login_state x)")
  case True
  have "store_step\<^sup>*\<^sup>* (sys_db s) (sys_db s')"
    by (rule only_stepsD [OF password_next_step_steps [OF assms(2)] assms(1)])
  then have factor: "has_factor (mfa_totp_factors (sys_db s')) (tenant_uuid (login_tenant_id x)) (account_uuid (login_account_id x))"
    using has_factor_steps assms(3,4) True by blast
  from assms(1) True factor show ?thesis
    by (auto simp: password_next_step_def run_simps Let_def has_active_totp_factor_iff split: if_splits)
qed (use assms(1) in \<open>auto simp: password_next_step_def run_simps Let_def split: if_splits\<close>)

lemma password_authenticate_cases:
  assumes run: "password_authenticate A W svc address password s = (Inr out, s')" and W: "interference W" and ok: "store_ok (sys_db s)"
  shows "out = PasswordDenied \<or> (\<exists>db t a. store_step\<^sup>*\<^sup>* (sys_db s) db \<and> password_checked A svc address password t a db \<and>
    (out = EnrollmentRequired t a \<or> out = TotpChallenge t a \<and> has_factor (mfa_totp_factors (sys_db s')) (tenant_uuid t) (account_uuid a)))"
proof (cases "out = PasswordDenied")
  case False
  let ?db = "world_others W (sys_tick s) (sys_db s)"
  have steps: "store_step\<^sup>*\<^sup>* (sys_db s) ?db" by (rule interferenceD [OF W])
  then have ok1: "store_ok ?db" using store_ok_steps ok by blast
  from run obtain found s1 where read: "find_login_account A address ?db = Inr found" "sys_db s1 = ?db"
    and rest: "(case found of None \<Rightarrow> return (Inr PasswordDenied)
      | Some x \<Rightarrow> let verifier = (case login_verifier x of Some v \<Rightarrow> v | None \<Rightarrow> dummy_verifier svc) in
          if verify_password A password verifier (maximum_password_bytes svc) \<noteq> Inr () then return (Inr PasswordDenied)
          else password_next_step W x) s1 = (Inr out, s')"
    unfolding password_authenticate_def run_map_err_eq store_read_eq by auto
  from rest False obtain x where x: "found = Some x"
    by (cases found) (auto simp: run_simps)
  with rest False have checked: "verify_password A password (case login_verifier x of Some v \<Rightarrow> v | None \<Rightarrow> dummy_verifier svc) (maximum_password_bytes svc) = Inr ()"
    and next_step: "password_next_step W x s1 = (Inr out, s')"
    by (auto simp: run_simps Let_def split: if_splits)
  have "permits_session (login_state x) \<Longrightarrow> has_factor (mfa_totp_factors (sys_db s1)) (tenant_uuid (login_tenant_id x)) (account_uuid (login_account_id x))"
    using login_account_active_factor read x ok1 by metis
  from password_next_step_cases [OF next_step W _ this] read(2) ok1 False
  have "out = EnrollmentRequired (login_tenant_id x) (login_account_id x) \<or> out = TotpChallenge (login_tenant_id x) (login_account_id x) \<and>
    has_factor (mfa_totp_factors (sys_db s')) (tenant_uuid (login_tenant_id x)) (account_uuid (login_account_id x))" by simp
  moreover have "password_checked A svc address password (login_tenant_id x) (login_account_id x) ?db"
    using checked read(1) x by (auto simp: password_checked_def)
  ultimately show ?thesis using steps by blast
qed simp

end
