(* ===== verification/Fabric_Federation.thy ===== *)
theory Fabric_Federation
  imports Fabric_Login
begin

text \<open>
  Authority-to-authority federation of \<open>fcp-fabric-service\<close>: the signed delivery record and its canonical
  transcript (\<open>federation.rs\<close>), the resolver of pinned peers and the ingress admission
  (\<open>federation_ingress.rs\<close>).  SHA-256, URL-safe base64 and the JSON shape of a stored key document
  are the fields of \<open>federation_primitives\<close>.  The resolver trait is the locale \<open>peer_policy_resolver\<close>,
  which the PostgreSQL resolver interprets.
\<close>

subsection \<open>Signed deliveries\<close>

datatype federation_error =
    SenderDomainMismatch
  | RecipientDomainMismatch
  | PayloadTooLarge
  | InvalidLifetime
  | InvalidCanonicalField
  | PeerNotActive
  | WrongDestination
  | WrongSource
  | ExpiredOrNotYetValid
  | UnexpectedAuthorityIdentity
  | FederationCore error

definition DOMAIN_TAG :: "u8 list" where
  "DOMAIN_TAG = ascii ''fcp-fabric/federation/delivery/v1''"

definition MAX_PAYLOAD_BYTES :: nat where
  "MAX_PAYLOAD_BYTES = 65536"

definition MAX_DELIVERY_LIFETIME_SECONDS :: int where
  "MAX_DELIVERY_LIFETIME_SECONDS = 300"

definition MAX_CLOCK_SKEW_SECONDS :: int where
  "MAX_CLOCK_SKEW_SECONDS = 60"

record federation_delivery =
  source_domain :: domain_name
  destination_domain :: domain_name
  delivery_sender :: user_address
  delivery_recipient :: user_address
  delivery_request :: uuid
  issued_at :: timestamp
  expires_at :: timestamp
  delivery_payload :: "u8 list"

text \<open>The bytes of a string as machine bytes.\<close>

definition str_u8 :: "str \<Rightarrow> u8 list" where
  "str_u8 s = map of_nat (str_bytes s)"

definition delivery_validate :: "federation_delivery \<Rightarrow> federation_error + unit" where
  "delivery_validate d =
     (if address_domain (delivery_sender d) \<noteq> source_domain d then Inl SenderDomainMismatch
      else if address_domain (delivery_recipient d) \<noteq> destination_domain d then Inl RecipientDomainMismatch
      else if length (delivery_payload d) > MAX_PAYLOAD_BYTES then Inl PayloadTooLarge
      else
        let issued = unix_timestamp (issued_at d); expires = unix_timestamp (expires_at d) in
        if expires \<le> issued \<or> expires - issued > MAX_DELIVERY_LIFETIME_SECONDS then Inl InvalidLifetime
        else Inr ())"

definition write_u8_bytes :: "u8 list \<Rightarrow> u8 list \<Rightarrow> federation_error + u8 list" where
  "write_u8_bytes bytes content =
     (if length content < 2 ^ 8 then Inr (bytes @ [of_nat (length content)] @ content) else Inl InvalidCanonicalField)"

definition write_u16_bytes :: "u8 list \<Rightarrow> u8 list \<Rightarrow> federation_error + u8 list" where
  "write_u16_bytes bytes content =
     (if length content < 2 ^ 16 then Inr (bytes @ to_be_bytes (of_nat (length content) :: u16) @ content)
      else Inl InvalidCanonicalField)"

definition delivery_transcript :: "federation_delivery \<Rightarrow> federation_error + u8 list" where
  "delivery_transcript d =
     and_then (delivery_validate d) (\<lambda>_.
     and_then (write_u8_bytes DOMAIN_TAG (str_u8 (domain_str (source_domain d)))) (\<lambda>bytes.
     and_then (write_u8_bytes bytes (str_u8 (domain_str (destination_domain d)))) (\<lambda>bytes.
     and_then (write_u16_bytes bytes (str_u8 (user_address_display (delivery_sender d)))) (\<lambda>bytes.
     and_then (write_u16_bytes bytes (str_u8 (user_address_display (delivery_recipient d)))) (\<lambda>bytes.
     let bytes = bytes @ bytes_list (delivery_request d) @ i64_to_be_bytes (unix_timestamp (issued_at d)) @
           i64_to_be_bytes (unix_timestamp (expires_at d)) in
     if length (delivery_payload d) < 2 ^ 32
     then Inr (bytes @ to_be_bytes (of_nat (length (delivery_payload d)) :: u32) @ delivery_payload d)
     else Inl PayloadTooLarge)))))"

record signed_federation_delivery =
  signed_delivery :: federation_delivery
  authority_identity :: endpoint_identity
  classical_signature :: "64 bytes"
  post_quantum_signature :: "3309 bytes"

definition delivery_sign :: "signer \<Rightarrow> federation_delivery \<Rightarrow> federation_error + signed_federation_delivery" where
  "delivery_sign signer delivery =
     and_then (delivery_transcript delivery) (\<lambda>transcript.
     Inr \<lparr>signed_delivery = delivery, authority_identity = signer_endpoint signer,
          classical_signature = sign_classical signer transcript, post_quantum_signature = sign_post_quantum signer transcript\<rparr>)"

definition canonical_body_digest ::
  "(u8 list \<Rightarrow> 32 bytes) \<Rightarrow> signed_federation_delivery \<Rightarrow> federation_error + 32 bytes" where
  "canonical_body_digest sha256 assertion =
     and_then (delivery_transcript (signed_delivery assertion)) (\<lambda>transcript. Inr (sha256 transcript))"

definition delivery_verify ::
  "crypto \<Rightarrow> signed_federation_delivery \<Rightarrow> endpoint_identity \<Rightarrow> federation_error + unit" where
  "delivery_verify c assertion expected_identity =
     (if authority_identity assertion \<noteq> expected_identity then Inl UnexpectedAuthorityIdentity
      else
        and_then (delivery_transcript (signed_delivery assertion)) (\<lambda>transcript.
        and_then (map_err FederationCore (verify_classical c expected_identity transcript (classical_signature assertion))) (\<lambda>_.
        map_err FederationCore (verify_post_quantum c expected_identity transcript (post_quantum_signature assertion)))))"

record remote_peer_policy =
  local_domain :: domain_name
  remote_domain :: domain_name
  trust_state :: federation_trust_state
  active_authority_identity :: endpoint_identity

definition peer_policy_admit ::
  "crypto \<Rightarrow> remote_peer_policy \<Rightarrow> timestamp \<Rightarrow> signed_federation_delivery \<Rightarrow> federation_error + unit" where
  "peer_policy_admit c policy now assertion =
     (let d = signed_delivery assertion in
      if \<not> accepts_requests (trust_state policy) then Inl PeerNotActive
      else if destination_domain d \<noteq> local_domain policy then Inl WrongDestination
      else if source_domain d \<noteq> remote_domain policy then Inl WrongSource
      else
        let now_seconds = unix_timestamp now; issued_seconds = unix_timestamp (issued_at d);
            expires_seconds = unix_timestamp (expires_at d) in
        if issued_seconds > now_seconds + MAX_CLOCK_SKEW_SECONDS \<or> expires_seconds < now_seconds - MAX_CLOCK_SKEW_SECONDS
        then Inl ExpiredOrNotYetValid
        else delivery_verify c assertion (active_authority_identity policy))"

subsection \<open>Pinned peers\<close>

datatype federation_ingress_error =
  IngressResolver | IngressRejected | IngressPolicy federation_error | IngressStore store_error

datatype federation_ingress_outcome = IngressAccepted | IngressReplay

record identity_document =
  document_classical :: str
  document_post_quantum :: str

record 'j federation_primitives =
  fed_sha256 :: "u8 list \<Rightarrow> 32 bytes"
  base64_url_decode :: "str \<Rightarrow> u8 list option"
  identity_document_from :: "'j \<Rightarrow> identity_document option"

record resolved_federation_peer =
  resolved_tenant :: tenant_id
  resolved_peer :: uuid
  resolved_policy :: remote_peer_policy

definition decode_fixed :: "('j, 'z) federation_primitives_scheme \<Rightarrow> str \<Rightarrow> 'n::len bytes option" where
  "decode_fixed F encoded = Option.bind (base64_url_decode F encoded) try_into"

definition parse_pinned_identity ::
  "('j, 'z) federation_primitives_scheme \<Rightarrow> 'j stored_peer_key \<Rightarrow> endpoint_identity option" where
  "parse_pinned_identity F key =
     Option.bind (identity_document_from F (sk_document key)) (\<lambda>document.
     Option.bind (decode_fixed F (document_classical document)) (\<lambda>classical.
     Option.bind (decode_fixed F (document_post_quantum document)) (\<lambda>post_quantum.
     Some (EndpointIdentity (EndpointKey classical) post_quantum))))"

definition identity_fingerprint :: "('j, 'z) federation_primitives_scheme \<Rightarrow> endpoint_identity \<Rightarrow> 32 bytes" where
  "identity_fingerprint F identity =
     fed_sha256 F (ascii ''fcp-fabric/federation/identity-fingerprint/v1'' @ [0] @
       bytes_list (endpoint_key_bytes (classical identity)) @ bytes_list (post_quantum identity))"

fun find_map :: "('a \<Rightarrow> 'b option) \<Rightarrow> 'a list \<Rightarrow> 'b option" where
  "find_map f [] = None"
| "find_map f (x # xs) = (case f x of Some y \<Rightarrow> Some y | None \<Rightarrow> find_map f xs)"

definition peer_of_material ::
  "('j, 'z) federation_primitives_scheme \<Rightarrow> domain_name \<Rightarrow> domain_name \<Rightarrow> 'j stored_peer option \<Rightarrow>
   federation_ingress_error + resolved_federation_peer option" where
  "peer_of_material F local remote found =
     (case found of None \<Rightarrow> Inr None
      | Some material \<Rightarrow>
          (case try_into (spr_fingerprint material) of
             None \<Rightarrow> Inl IngressResolver
           | Some expected_fingerprint \<Rightarrow>
               (case find_map (parse_pinned_identity F) (spr_keys material) of
                  None \<Rightarrow> Inr None
                | Some identity \<Rightarrow>
                    if identity_fingerprint F identity \<noteq> expected_fingerprint then Inr None
                    else Inr (Some \<lparr>resolved_tenant = spr_tenant material, resolved_peer = spr_peer material,
                      resolved_policy = \<lparr>local_domain = local, remote_domain = remote, trust_state = spr_trust material,
                        active_authority_identity = identity\<rparr>\<rparr>))))"

type_synonym 'j resolver = "domain_name \<Rightarrow> domain_name \<Rightarrow> ('j, federation_ingress_error + resolved_federation_peer option) run"

definition postgres_resolve :: "('j, 'z) federation_primitives_scheme \<Rightarrow> 'j world \<Rightarrow> 'j resolver" where
  "postgres_resolve F W local remote =
     attempt (run_map (map_err IngressStore) (store_read W (\<lambda>E. federation_peer_material E local remote))) (\<lambda>found.
     return (peer_of_material F local remote found))"

subsection \<open>Ingress\<close>

definition ingress_admit ::
  "crypto \<Rightarrow> ('j, 'z) federation_primitives_scheme \<Rightarrow> 'j world \<Rightarrow> 'j resolver \<Rightarrow> signed_federation_delivery \<Rightarrow> str \<Rightarrow>
   timestamp \<Rightarrow> ('j, federation_ingress_error + federation_ingress_outcome) run" where
  "ingress_admit c F W resolve assertion correlation now =
     (let delivery = signed_delivery assertion in
      attempt (resolve (destination_domain delivery) (source_domain delivery)) (\<lambda>found.
      case found of None \<Rightarrow> return (Inl IngressRejected)
      | Some peer \<Rightarrow>
          attempt (return (map_err IngressPolicy (peer_policy_admit c (resolved_policy peer) now assertion))) (\<lambda>_.
          attempt (return (map_err IngressPolicy (canonical_body_digest (fed_sha256 F) assertion))) (\<lambda>body_digest.
          attempt (run_map (map_err IngressStore) (store_call W (\<lambda>E. record_federation_replay E
            \<lparr>rq_tenant = resolved_tenant peer, rq_peer = resolved_peer peer, rq_request = delivery_request delivery,
             rq_digest = body_digest, rq_expires_at = expires_at delivery, rq_correlation = correlation\<rparr>))) (\<lambda>inserted.
          return (Inr (if inserted then IngressAccepted else IngressReplay)))))))"

subsection \<open>The canonical transcript\<close>

lemma delivery_validate_ok [simp]:
  "delivery_validate d = Inr () \<longleftrightarrow>
     address_domain (delivery_sender d) = source_domain d \<and> address_domain (delivery_recipient d) = destination_domain d \<and>
     length (delivery_payload d) \<le> 65536 \<and> unix_timestamp (issued_at d) < unix_timestamp (expires_at d) \<and>
     unix_timestamp (expires_at d) \<le> unix_timestamp (issued_at d) + 300"
  by (auto simp: delivery_validate_def Let_def MAX_PAYLOAD_BYTES_def MAX_DELIVERY_LIFETIME_SECONDS_def)

lemma write_u8_bytes_ok [simp]:
  "write_u8_bytes bytes x = Inr out \<longleftrightarrow> length x < 256 \<and> out = bytes @ [of_nat (length x)] @ x"
  by (auto simp: write_u8_bytes_def)

lemma write_u16_bytes_ok [simp]:
  "write_u16_bytes bytes x = Inr out \<longleftrightarrow> length x < 65536 \<and> out = bytes @ to_be_bytes (of_nat (length x) :: u16) @ x"
  by (auto simp: write_u16_bytes_def)

definition transcript_tail :: "federation_delivery \<Rightarrow> u8 list" where
  "transcript_tail d = bytes_list (delivery_request d) @ i64_to_be_bytes (unix_timestamp (issued_at d)) @
     i64_to_be_bytes (unix_timestamp (expires_at d)) @ to_be_bytes (of_nat (length (delivery_payload d)) :: u32) @ delivery_payload d"

definition length8 :: "u8 list \<Rightarrow> u8 list" where
  "length8 x = [of_nat (length x)] @ x"

definition length16 :: "u8 list \<Rightarrow> u8 list" where
  "length16 x = to_be_bytes (of_nat (length x) :: u16) @ x"

lemma delivery_transcript_ok:
  "delivery_transcript d = Inr t \<longleftrightarrow> delivery_validate d = Inr () \<and>
     length (str_u8 (domain_str (source_domain d))) < 256 \<and> length (str_u8 (domain_str (destination_domain d))) < 256 \<and>
     length (str_u8 (user_address_display (delivery_sender d))) < 65536 \<and>
     length (str_u8 (user_address_display (delivery_recipient d))) < 65536 \<and>
     t = DOMAIN_TAG @ length8 (str_u8 (domain_str (source_domain d))) @ length8 (str_u8 (domain_str (destination_domain d))) @
       length16 (str_u8 (user_address_display (delivery_sender d))) @
       length16 (str_u8 (user_address_display (delivery_recipient d))) @ transcript_tail d"
  by (auto simp: delivery_transcript_def and_then_eq_Inr Let_def transcript_tail_def length8_def length16_def)

lemma of_nat_word_inject:
  assumes "(of_nat m :: 'w::len word) = of_nat n" and "m < 2 ^ LENGTH('w)" and "n < 2 ^ LENGTH('w)"
  shows "m = n"
proof -
  have "unat (of_nat m :: 'w word) = unat (of_nat n :: 'w word)" using assms(1) by simp
  then show ?thesis using assms(2,3) by (simp add: unat_of_nat)
qed

lemma length8_inject:
  assumes "length8 x @ s = length8 y @ t" and "length x < 256" and "length y < 256"
  shows "x = y \<and> s = t"
proof -
  have "(of_nat (length x) :: u8) = of_nat (length y)" using assms(1) by (simp add: length8_def)
  then have "length x = length y" using assms(2,3) by (auto dest: of_nat_word_inject)
  with assms(1) show ?thesis by (simp add: length8_def)
qed

lemma length16_inject:
  assumes "length16 x @ s = length16 y @ t" and "length x < 65536" and "length y < 65536"
  shows "x = y \<and> s = t"
proof -
  have "to_be_bytes (of_nat (length x) :: u16) = to_be_bytes (of_nat (length y) :: u16)" and rest: "x @ s = y @ t"
    using assms(1) by (simp_all add: length16_def append_eq_append_conv)
  then have "(of_nat (length x) :: u16) = of_nat (length y)" by simp
  then have "length x = length y" using assms(2,3) by (auto dest: of_nat_word_inject)
  with rest show ?thesis by simp
qed

lemma i64_to_be_bytes_inject:
  assumes "i64_to_be_bytes x = i64_to_be_bytes y" and "i64_range x" and "i64_range y"
  shows "x = y"
proof -
  have "(word_of_int x :: 64 word) = word_of_int y" using assms(1) by (simp add: i64_to_be_bytes_def)
  then have "sint (word_of_int x :: 64 word) = sint (word_of_int y :: 64 word)" by simp
  with assms(2,3) show ?thesis by (simp add: signed_of_int signed_take_bit_int_eq_self i64_range_def)
qed

lemma length_i64 [simp]: "length (i64_to_be_bytes x) = 8"
  by (simp add: i64_to_be_bytes_def)

lemma transcript_tail_inject:
  assumes "transcript_tail d = transcript_tail e"
    and "i64_range (unix_timestamp (issued_at d))" "i64_range (unix_timestamp (expires_at d))"
    and "i64_range (unix_timestamp (issued_at e))" "i64_range (unix_timestamp (expires_at e))"
  shows "delivery_request d = delivery_request e \<and> unix_timestamp (issued_at d) = unix_timestamp (issued_at e) \<and>
    unix_timestamp (expires_at d) = unix_timestamp (expires_at e) \<and> delivery_payload d = delivery_payload e"
proof -
  have "bytes_list (delivery_request d) = bytes_list (delivery_request e)"
    and "i64_to_be_bytes (unix_timestamp (issued_at d)) = i64_to_be_bytes (unix_timestamp (issued_at e))"
    and "i64_to_be_bytes (unix_timestamp (expires_at d)) = i64_to_be_bytes (unix_timestamp (expires_at e))"
    and "delivery_payload d = delivery_payload e"
    using assms(1) by (simp_all add: transcript_tail_def append_eq_append_conv)
  then show ?thesis using assms(2-) by (simp add: i64_to_be_bytes_inject)
qed

text \<open>Only parsed addresses exist, and those are ASCII with one separator.\<close>

definition address_text :: "user_address \<Rightarrow> bool" where
  "address_text a \<longleftrightarrow> list_all is_localpart_char (localpart_str (address_localpart a)) \<and>
     list_all is_domain_char (domain_str (address_domain a))"

lemma parsed_address_text: "user_address_parse nfc idna x = Inr a \<Longrightarrow> address_text a"
  unfolding user_address_parse_iff address_text_def list_all_iff
  by (auto dest: domain_parse_chars simp: localpart_parse_iff)

lemma address_text_ascii:
  assumes "address_text a"
  shows "is_ascii (user_address_display a)" and "is_ascii (domain_str (address_domain a))"
    and "64 \<notin> set (localpart_str (address_localpart a))"
  using assms localpart_ascii [of "localpart_str (address_localpart a)"] is_domain_char_facts
  by (auto simp: address_text_def list_all_iff is_ascii_def user_address_display_def)

lemma str_u8_inject:
  assumes "is_ascii s" and "is_ascii t" and "str_u8 s = str_u8 t"
  shows "s = t"
proof -
  have "inj_on (of_nat :: nat \<Rightarrow> u8) {..<128}" by (auto intro!: inj_onI dest: of_nat_word_inject)
  moreover have "set s \<union> set t \<subseteq> {..<128}" using assms(1,2) by (auto simp: is_ascii_def)
  ultimately have "inj_on (of_nat :: nat \<Rightarrow> u8) (set s \<union> set t)" by (rule inj_on_subset)
  then show ?thesis using assms by (simp add: str_u8_def str_bytes_ascii inj_on_map_eq_map)
qed

lemma display_inject:
  assumes "address_text a" and "address_text b" and "user_address_display a = user_address_display b"
  shows "a = b"
proof -
  have "split_once 64 (user_address_display x) = Some (localpart_str (address_localpart x), domain_str (address_domain x))"
    if "address_text x" for x
    using address_text_ascii(3) [OF that] by (simp add: user_address_display_def split_once_append)
  then have "localpart_str (address_localpart a) = localpart_str (address_localpart b)"
    and "domain_str (address_domain a) = domain_str (address_domain b)"
    using assms by (metis option.inject prod.inject)+
  then show ?thesis by (simp add: user_address.expand localpart.expand domain_name.expand)
qed

lemma delivery_transcript_inject:
  assumes "delivery_transcript d = Inr t" and "delivery_transcript e = Inr t"
    and "address_text (delivery_sender d)" "address_text (delivery_recipient d)"
    and "address_text (delivery_sender e)" "address_text (delivery_recipient e)"
  shows "delivery_sender d = delivery_sender e \<and> delivery_recipient d = delivery_recipient e \<and> transcript_tail d = transcript_tail e"
proof -
  note d = assms(1) [unfolded delivery_transcript_ok] and e = assms(2) [unfolded delivery_transcript_ok]
  let ?rest = "\<lambda>x. length16 (str_u8 (user_address_display (delivery_sender x))) @
    length16 (str_u8 (user_address_display (delivery_recipient x))) @ transcript_tail x"
  have "length8 (str_u8 (domain_str (source_domain d))) @ length8 (str_u8 (domain_str (destination_domain d))) @ ?rest d =
      length8 (str_u8 (domain_str (source_domain e))) @ length8 (str_u8 (domain_str (destination_domain e))) @ ?rest e"
    using d e by simp
  then have "?rest d = ?rest e" using d e by (meson length8_inject)
  then have "str_u8 (user_address_display (delivery_sender d)) = str_u8 (user_address_display (delivery_sender e)) \<and>
      str_u8 (user_address_display (delivery_recipient d)) = str_u8 (user_address_display (delivery_recipient e)) \<and>
      transcript_tail d = transcript_tail e"
    using d e by (meson length16_inject)
  then show ?thesis using assms(3-) by (simp add: str_u8_inject address_text_ascii(1) display_inject)
qed

subsection \<open>Admission by a pinned policy\<close>

definition both_signatures :: "crypto \<Rightarrow> endpoint_identity \<Rightarrow> u8 list \<Rightarrow> signed_federation_delivery \<Rightarrow> bool" where
  "both_signatures c identity transcript x \<longleftrightarrow>
     verify_classical c identity transcript (classical_signature x) = Inr () \<and>
     verify_post_quantum c identity transcript (post_quantum_signature x) = Inr ()"

lemma delivery_verify_ok:
  "delivery_verify c x identity = Inr () \<longleftrightarrow>
     authority_identity x = identity \<and> (\<exists>t. delivery_transcript (signed_delivery x) = Inr t \<and> both_signatures c identity t x)"
  by (auto simp: delivery_verify_def and_then_eq_Inr map_err_eq_Inr both_signatures_def)

lemma peer_policy_admit_ok:
  "peer_policy_admit c policy now x = Inr () \<longleftrightarrow>
     trust_state policy = TrustActive \<and> destination_domain (signed_delivery x) = local_domain policy \<and>
     source_domain (signed_delivery x) = remote_domain policy \<and>
     unix_timestamp (issued_at (signed_delivery x)) \<le> unix_timestamp now + 60 \<and>
     unix_timestamp now - 60 \<le> unix_timestamp (expires_at (signed_delivery x)) \<and>
     delivery_verify c x (active_authority_identity policy) = Inr ()"
  by (auto simp: peer_policy_admit_def Let_def accepts_requests_def MAX_CLOCK_SKEW_SECONDS_def split: federation_trust_state.splits)

lemma delivery_sign_verifies:
  assumes "delivery_sign s d = Inr x"
    and "\<And>m. verify_classical c (signer_endpoint s) m (sign_classical s m) = Inr ()"
    and "\<And>m. verify_post_quantum c (signer_endpoint s) m (sign_post_quantum s m) = Inr ()"
  shows "signed_delivery x = d \<and> delivery_verify c x (signer_endpoint s) = Inr ()"
  using assms by (auto simp: delivery_sign_def and_then_eq_Inr delivery_verify_ok both_signatures_def)

subsection \<open>The resolver contract\<close>

lemma replay_unexpired: "record_federation_replay E q db = (Inr b, db') \<Longrightarrow> env_now E < rq_expires_at q"
  by (auto simp: record_federation_replay_def transact_eq and_then_eq_Inr Let_def split: if_splits)

text \<open>
  A resolver reports a policy for exactly the domains it was asked about, and only runs store operations.
  Whatever resolver is plugged in, a delivery is accepted once per resolved peer.
\<close>

locale peer_policy_resolver =
  fixes W :: "'j world" and resolve :: "'j resolver"
  assumes resolve_steps: "interference W \<Longrightarrow> only_steps (resolve local remote)"
    and resolve_domains: "resolve local remote s = (Inr (Some p), s') \<Longrightarrow>
      local_domain (resolved_policy p) = local \<and> remote_domain (resolved_policy p) = remote"
begin

lemma admit_steps: "interference W \<Longrightarrow> only_steps (ingress_admit c F W resolve x correlation now)"
  unfolding ingress_admit_def Let_def by (intro steps_intros resolve_steps)

lemma admit_accepted:
  assumes W: "interference W" and ok: "store_ok (sys_db s)"
    and run: "ingress_admit c F W resolve x correlation now s = (Inr IngressAccepted, s')"
  obtains p t where "resolve (destination_domain (signed_delivery x)) (source_domain (signed_delivery x)) s = (Inr (Some p), t)"
    and "peer_policy_admit c (resolved_policy p) now x = Inr ()"
    and "\<not> replay_used (tenant_uuid (resolved_tenant p), resolved_peer p, delivery_request (signed_delivery x)) (sys_db s)"
    and "replay_used (tenant_uuid (resolved_tenant p), resolved_peer p, delivery_request (signed_delivery x)) (sys_db s')"
    and "store_step\<^sup>*\<^sup>* (sys_db s) (sys_db t)" and "store_step\<^sup>*\<^sup>* (sys_db t) (sys_db s')"
    and "env_now (world_store W (sys_tick t)) < expires_at (signed_delivery x)"
proof -
  let ?d = "signed_delivery x"
  from run obtain found t where t: "resolve (destination_domain ?d) (source_domain ?d) s = (Inr found, t)"
    and rest: "(case found of None \<Rightarrow> return (Inl IngressRejected) | Some peer \<Rightarrow>
          attempt (return (map_err IngressPolicy (peer_policy_admit c (resolved_policy peer) now x))) (\<lambda>_.
          attempt (return (map_err IngressPolicy (canonical_body_digest (fed_sha256 F) x))) (\<lambda>body_digest.
          attempt (run_map (map_err IngressStore) (store_call W (\<lambda>E. record_federation_replay E
            \<lparr>rq_tenant = resolved_tenant peer, rq_peer = resolved_peer peer, rq_request = delivery_request ?d,
             rq_digest = body_digest, rq_expires_at = expires_at ?d, rq_correlation = correlation\<rparr>))) (\<lambda>inserted.
          return (Inr (if inserted then IngressAccepted else IngressReplay)))))) t = (Inr IngressAccepted, s')"
    unfolding ingress_admit_def Let_def attempt_eq_Inr by blast
  then obtain p where p: "found = Some p" by (cases found) (auto simp: run_simps)
  from rest obtain digest inserted where adm: "peer_policy_admit c (resolved_policy p) now x = Inr ()"
    and rec: "record_federation_replay (world_store W (sys_tick t)) \<lparr>rq_tenant = resolved_tenant p, rq_peer = resolved_peer p,
        rq_request = delivery_request ?d, rq_digest = digest, rq_expires_at = expires_at ?d, rq_correlation = correlation\<rparr>
      (world_others W (sys_tick t) (sys_db t)) = (Inr True, sys_db s')"
    unfolding p option.case attempt_return_eq map_err_eq_Inr run_map_err_eq store_call_eq return_eq
    by (auto split: if_splits)
  have s1: "store_step\<^sup>*\<^sup>* (sys_db s) (sys_db t)" using resolve_steps [OF W] t by (rule only_stepsD)
  have s2: "store_step\<^sup>*\<^sup>* (sys_db t) (world_others W (sys_tick t) (sys_db t))" using W by (rule interferenceD)
  have s3: "store_step (world_others W (sys_tick t) (sys_db t)) (sys_db s')" using rec by (rule step_replay)
  note fresh = replay_accepted [OF rec, simplified]
  have "\<not> replay_used (tenant_uuid (resolved_tenant p), resolved_peer p, delivery_request ?d) (sys_db s)"
    using fresh(1) replay_use.spent_steps [OF rtranclp_trans [OF s1 s2] ok] by blast
  then show thesis 
    using that [OF t [unfolded p] adm _ fresh(2) s1 rtranclp.rtrancl_into_rtrancl [OF s2 s3]] replay_unexpired [OF rec] by simp
qed

end

lemma peer_of_material_Some:
  assumes "peer_of_material F local remote found = Inr (Some p)"
  obtains material where "found = Some material" and "resolved_tenant p = spr_tenant material"
    and "resolved_peer p = spr_peer material"
    and "local_domain (resolved_policy p) = local" "remote_domain (resolved_policy p) = remote"
    and "trust_state (resolved_policy p) = spr_trust material"
    and "find_map (parse_pinned_identity F) (spr_keys material) = Some (active_authority_identity (resolved_policy p))"
    and "spr_fingerprint material = bytes_list (identity_fingerprint F (active_authority_identity (resolved_policy p)))"
  using assms by (auto simp: peer_of_material_def split: option.splits if_splits)

lemma postgres_resolve_steps [steps_intros]: "interference W \<Longrightarrow> only_steps (postgres_resolve F W local remote)"
  unfolding postgres_resolve_def by (intro steps_intros)

lemma postgres_resolve_Some:
  "postgres_resolve F W local remote s = (Inr (Some p), s') \<longleftrightarrow>
     (\<exists>found. federation_peer_material (world_store W (sys_tick s)) local remote (sys_db s') = Inr found \<and>
        sys_db s' = world_others W (sys_tick s) (sys_db s) \<and> sys_tick s' = Suc (sys_tick s) \<and>
        peer_of_material F local remote found = Inr (Some p))"
  by (auto simp: postgres_resolve_def run_simps eq_commute [of "Inr _"] map_err_eq_Inr)

interpretation postgres_peers: peer_policy_resolver W "postgres_resolve F W" for W F
  by unfold_locales (auto simp: postgres_resolve_Some intro: postgres_resolve_steps elim: peer_of_material_Some)

subsection \<open>Peers stay pinned\<close>

definition pinned_peers :: "domain_name \<Rightarrow> domain_name \<Rightarrow> 'j database \<Rightarrow> peer_row list" where
  "pinned_peers local remote db = [p. p \<leftarrow> federation_peers db, fp_domain p = domain_str remote,
     t \<leftarrow> tenants db, tn_id t = fp_tenant p \<and> tn_domain t = domain_str local]"

lemma pinned_peers_cong:
  "tenants db' = tenants db \<Longrightarrow> federation_peers db' = federation_peers db \<Longrightarrow>
   pinned_peers local remote db' = pinned_peers local remote db"
  by (simp add: pinned_peers_def cong: if_cong)

lemma change_pinned_peers:
  "db_change db db' \<Longrightarrow> pinned_peers local remote db \<noteq> [] \<Longrightarrow> pinned_peers local remote db' = pinned_peers local remote db"
proof (induction rule: db_change.induct)
  case (new_tenant t db a rl au)
  have "tn_domain t \<noteq> domain_str local" using new_tenant(2,7) by (force simp: pinned_peers_def)
  then show ?case by (simp add: pinned_peers_def cong: if_cong)
qed (rule pinned_peers_cong; simp)+

lemma pinned_peers_steps:
  assumes "store_step\<^sup>*\<^sup>* db db'" and "store_ok db" and "pinned_peers local remote db \<noteq> []"
  shows "pinned_peers local remote db' = pinned_peers local remote db"
  using assms(1)
proof (induction rule: rtranclp_induct)
  case (step y z)
  have "store_ok y" using step(1) assms(2) by (rule store_ok_steps)
  then show ?case using step assms(3) store_step_ok_change change_pinned_peers by metis
qed simp

text \<open>What it means that a peer row pins an authority identity at a moment.\<close>

definition pins ::
  "('j, 'z) federation_primitives_scheme \<Rightarrow> timestamp \<Rightarrow> 'j database \<Rightarrow> peer_row \<Rightarrow> endpoint_identity \<Rightarrow> bool" where
  "pins F now db p identity \<longleftrightarrow>
     fp_trust p = ''active'' \<and> fp_fingerprint p = bytes_list (identity_fingerprint F identity) \<and>
     (\<exists>k \<in> set (federation_keys db). fk_peer k = fp_id p \<and> fk_retired_at k = None \<and> now < fk_valid_until k \<and>
        parse_pinned_identity F \<lparr>sk_key = fk_key k, sk_document = fk_document k, sk_valid_until = fk_valid_until k\<rparr> = Some identity)"

lemma find_map_Some: "find_map f xs = Some y \<Longrightarrow> \<exists>x \<in> set xs. f x = Some y"
  by (induction xs) (auto split: option.splits)

lemma trust_active_text: "parse_federation_trust_state s = Inr TrustActive \<Longrightarrow> s = ''active''"
  by (simp add: parse_federation_trust_state_def split: if_splits)

lemma peer_material_Some:
  assumes "federation_peer_material E local remote db = Inr (Some m)"
  obtains p ps where "pinned_peers local remote db = p # ps" and "spr_tenant m = TenantId (fp_tenant p)" and "spr_peer m = fp_id p"
    and "spr_fingerprint m = fp_fingerprint p" and "parse_federation_trust_state (fp_trust p) = Inr (spr_trust m)"
    and "spr_keys m = map (\<lambda>k. \<lparr>sk_key = fk_key k, sk_document = fk_document k, sk_valid_until = fk_valid_until k\<rparr>)
           (sort_key fk_first_seen_at (filter (\<lambda>k. fk_peer k = fp_id p \<and> fk_retired_at k = None \<and>
             fk_valid_until k > env_now E) (federation_keys db)))"
proof (cases "pinned_peers local remote db")
  case Nil
  with assms show thesis by (simp add: federation_peer_material_def flip: pinned_peers_def)
next
  case (Cons p ps)
  with assms show thesis
    by (intro that [OF Cons]) (auto simp: federation_peer_material_def fetch_optional_def and_then_eq_Inr simp flip: pinned_peers_def)
qed

lemma postgres_resolve_pinned:
  assumes "postgres_resolve F W local remote s = (Inr (Some p), s')"
  obtains row rows where "pinned_peers local remote (sys_db s') = row # rows"
    and "resolved_tenant p = TenantId (fp_tenant row)" and "resolved_peer p = fp_id row"
    and "trust_state (resolved_policy p) = TrustActive \<longrightarrow>
      pins F (env_now (world_store W (sys_tick s))) (sys_db s') row (active_authority_identity (resolved_policy p))"
proof -
  from assms obtain m where m: "federation_peer_material (world_store W (sys_tick s)) local remote (sys_db s') = Inr (Some m)"
    and p: "peer_of_material F local remote (Some m) = Inr (Some p)"
    unfolding postgres_resolve_Some by (metis peer_of_material_Some)
  from p have p': "resolved_tenant p = spr_tenant m" "resolved_peer p = spr_peer m" "trust_state (resolved_policy p) = spr_trust m"
    "find_map (parse_pinned_identity F) (spr_keys m) = Some (active_authority_identity (resolved_policy p))"
    "spr_fingerprint m = bytes_list (identity_fingerprint F (active_authority_identity (resolved_policy p)))"
    by (auto elim: peer_of_material_Some)
  from m show thesis
  proof (cases rule: peer_material_Some)
    case (1 row rows)
    show thesis
    proof (rule that [OF 1(1)])
      show "trust_state (resolved_policy p) = TrustActive \<longrightarrow>
          pins F (env_now (world_store W (sys_tick s))) (sys_db s') row (active_authority_identity (resolved_policy p))"
        using 1 p' find_map_Some [OF p'(4)] trust_active_text by (auto simp: pins_def)
    qed (simp_all add: 1 p')
  qed
qed

text \<open>A pinned peer, and a delivery its authority signs.\<close>

definition sample_fed :: "unit federation_primitives" where
  "sample_fed = \<lparr>fed_sha256 = (\<lambda>_. filled 6),
     base64_url_decode = (\<lambda>s. Some (if s = [1] then replicate 32 5 else replicate 1952 5)),
     identity_document_from = (\<lambda>_. Some \<lparr>document_classical = [1], document_post_quantum = [2]\<rparr>)\<rparr>"

definition sample_peer :: peer_row where
  "sample_peer = \<lparr>fp_id = filled 30, fp_tenant = filled 1, fp_domain = str_of ''b.c'', fp_trust = ''active'',
     fp_fingerprint = replicate 32 6\<rparr>"

definition sample_peer_key :: "unit peer_key_row" where
  "sample_peer_key = \<lparr>fk_peer = filled 30, fk_key = [107], fk_document = (), fk_valid_until = 100, fk_retired_at = None,
     fk_first_seen_at = 0\<rparr>"

definition sample_pinned :: "unit database" where
  "sample_pinned = snd (bootstrap_tenant (sample_env 0 1) sample_bootstrap (empty_database [sample_peer] [sample_peer_key]))"

definition sample_delivery :: federation_delivery where
  "sample_delivery = \<lparr>source_domain = DomainName (str_of ''b.c''), destination_domain = DomainName [97],
     delivery_sender = UserAddress (Localpart [100]) (DomainName (str_of ''b.c'')),
     delivery_recipient = UserAddress (Localpart [98]) (DomainName [97]),
     delivery_request = filled 7, issued_at = 0, expires_at = 1000000000, delivery_payload = [1, 2]\<rparr>"

definition sample_signed :: signed_federation_delivery where
  "sample_signed = projr (delivery_sign (demo_signer 5) sample_delivery)"

definition sample_dated :: "timestamp \<Rightarrow> federation_delivery" where
  "sample_dated at' = \<lparr>source_domain = DomainName (str_of ''b.c''), destination_domain = DomainName (str_of ''b.c''),
     delivery_sender = UserAddress (Localpart (str_of ''d'')) (DomainName (str_of ''b.c'')),
     delivery_recipient = UserAddress (Localpart (str_of ''e'')) (DomainName (str_of ''b.c'')),
     delivery_request = filled 7, issued_at = at', expires_at = 1000000000, delivery_payload = [1, 2]\<rparr>"

lemma sample_dated_transcript: "\<exists>t. delivery_transcript (sample_dated 0) = Inr t \<and> delivery_transcript (sample_dated 5) = Inr t"
  by (simp add: delivery_transcript_ok sample_dated_def unix_timestamp_def str_u8_def str_of_def str_bytes_def utf8_def
      user_address_display_def transcript_tail_def)

lemma sample_delivery_transcript: "\<exists>t. delivery_transcript sample_delivery = Inr t"
  by (simp add: delivery_transcript_ok sample_delivery_def unix_timestamp_def str_u8_def str_of_def str_bytes_def utf8_def
      user_address_display_def)

lemma sample_signed_verifies:
  "signed_delivery sample_signed = sample_delivery \<and> delivery_verify demo_crypto sample_signed (demo_identity 5) = Inr ()"
proof -
  obtain x where "delivery_sign (demo_signer 5) sample_delivery = Inr x"
    using sample_delivery_transcript by (auto simp: delivery_sign_def and_then_def)
  then show ?thesis
    using delivery_sign_verifies [of "demo_signer 5" sample_delivery x demo_crypto] demo_signer_honest [of 5]
    by (simp add: sample_signed_def honest_signer_def)
qed

lemma sample_pinned_reachable: "store_reachable sample_pinned"
  unfolding store_reachable_def sample_pinned_def
  by (intro exI r_into_rtranclp [of store_step, OF step_bootstrap]) (rule snd_pair, rule refl)

lemma sample_pinned_eq: "sample_pinned = (sample_db (sample_account_row ''mfa_enrollment_required'' 0) [] (take 1 sample_audits))
    \<lparr>federation_peers := [sample_peer], federation_keys := [sample_peer_key]\<rparr>"
  by (simp add: sample_pinned_def bootstrap_tenant_def sample_simps bootstrap_validate_def)

lemma sample_resolved:
  "federation_peer_material (sample_env 3 b) (DomainName [97]) (DomainName (str_of ''b.c'')) sample_pinned =
     Inr (Some \<lparr>spr_tenant = TenantId (filled 1), spr_peer = filled 30, spr_trust = TrustActive, spr_fingerprint = replicate 32 6,
       spr_keys = [\<lparr>sk_key = [107], sk_document = (), sk_valid_until = 100\<rparr>]\<rparr>)"
  by (simp add: sample_pinned_eq federation_peer_material_def sample_simps fetch_optional_def sample_peer_def sample_peer_key_def
      parse_federation_trust_state_def)

lemma sample_identity:
  "peer_of_material sample_fed l r (Some \<lparr>spr_tenant = TenantId (filled 1), spr_peer = filled 30, spr_trust = TrustActive,
       spr_fingerprint = replicate 32 6, spr_keys = [\<lparr>sk_key = [107], sk_document = (), sk_valid_until = 100\<rparr>]\<rparr>) =
     Inr (Some \<lparr>resolved_tenant = TenantId (filled 1), resolved_peer = filled 30, resolved_policy =
       \<lparr>local_domain = l, remote_domain = r, trust_state = TrustActive, active_authority_identity = demo_identity 5\<rparr>\<rparr>)"
proof -
  have "(try_into (replicate 32 6) :: 32 bytes option) = Some (filled 6)" by simp
  moreover have "(try_into (replicate 32 5) :: 32 bytes option) = Some (filled 5)" by simp
  moreover have "(try_into (replicate 1952 5) :: 1952 bytes option) = Some (filled 5)" by simp
  ultimately show ?thesis
    by (simp add: peer_of_material_def parse_pinned_identity_def sample_fed_def decode_fixed_def identity_fingerprint_def
        demo_identity_def del: try_into_eq_Some)
qed

lemma sample_recorded:
  "\<exists>db. record_federation_replay (sample_env 3 20) \<lparr>rq_tenant = sample_tenant, rq_peer = filled 30, rq_request = filled 7,
     rq_digest = h, rq_expires_at = 1000000000, rq_correlation = [99]\<rparr> sample_pinned = (Inr True, db)"
  by (simp add: record_federation_replay_def insert_replay_def replay_key_def sample_pinned_eq sample_simps sample_peer_def)

lemma sample_ingress:
  "\<exists>s'. ingress_admit demo_crypto sample_fed sample_world (postgres_resolve sample_fed sample_world) sample_signed [99] 0
     \<lparr>sys_db = sample_pinned, sys_tick = 0\<rparr> = (Inr IngressAccepted, s')"
proof -
  have "peer_policy_admit demo_crypto \<lparr>local_domain = DomainName [97], remote_domain = DomainName (str_of ''b.c''),
      trust_state = TrustActive, active_authority_identity = demo_identity 5\<rparr> 0 sample_signed = Inr ()"
    using sample_signed_verifies by (simp add: peer_policy_admit_ok sample_delivery_def unix_timestamp_def)
  moreover obtain h where "canonical_body_digest (fed_sha256 sample_fed) sample_signed = Inr h"
    using sample_delivery_transcript sample_signed_verifies by (auto simp: canonical_body_digest_def and_then_def)
  moreover have "signed_delivery sample_signed = sample_delivery" using sample_signed_verifies by simp
  moreover note sample_recorded [of h]
  ultimately show ?thesis
    by (auto simp: ingress_admit_def postgres_resolve_def attempt_def bind_def return_def run_map_def store_read_def store_call_def
        sample_delivery_def sample_resolved sample_identity map_err_def)
qed

subsection \<open>Properties\<close>

lemma federation_accepted:
  assumes W: "interference W" and ok: "store_ok (sys_db s)"
    and run: "ingress_admit c F W (postgres_resolve F W) x correlation now s = (Inr IngressAccepted, s')"
  obtains row rows db where "pinned_peers (destination_domain (signed_delivery x)) (source_domain (signed_delivery x)) db = row # rows"
    and "pins F (env_now (world_store W (sys_tick s))) db row (authority_identity x)"
    and "peer_policy_admit c \<lparr>local_domain = destination_domain (signed_delivery x), remote_domain = source_domain (signed_delivery x),
      trust_state = TrustActive, active_authority_identity = authority_identity x\<rparr> now x = Inr ()"
    and "\<not> replay_used (fp_tenant row, fp_id row, delivery_request (signed_delivery x)) (sys_db s)"
    and "replay_used (fp_tenant row, fp_id row, delivery_request (signed_delivery x)) (sys_db s')"
    and "store_step\<^sup>*\<^sup>* (sys_db s) db" and "store_step\<^sup>*\<^sup>* db (sys_db s')"
    and "env_now (world_store W (Suc (sys_tick s))) < expires_at (signed_delivery x)"
proof -
  let ?d = "signed_delivery x"
  from W ok run obtain p t where res: "postgres_resolve F W (destination_domain ?d) (source_domain ?d) s = (Inr (Some p), t)"
    and adm: "peer_policy_admit c (resolved_policy p) now x = Inr ()"
    and used: "\<not> replay_used (tenant_uuid (resolved_tenant p), resolved_peer p, delivery_request ?d) (sys_db s)"
      "replay_used (tenant_uuid (resolved_tenant p), resolved_peer p, delivery_request ?d) (sys_db s')"
    and steps: "store_step\<^sup>*\<^sup>* (sys_db s) (sys_db t)" "store_step\<^sup>*\<^sup>* (sys_db t) (sys_db s')"
    and expiry: "env_now (world_store W (sys_tick t)) < expires_at ?d"
    by (rule postgres_peers.admit_accepted)
  from res obtain row rows where rows: "pinned_peers (destination_domain ?d) (source_domain ?d) (sys_db t) = row # rows"
    and ids: "resolved_tenant p = TenantId (fp_tenant row)" "resolved_peer p = fp_id row"
    and pins: "trust_state (resolved_policy p) = TrustActive \<longrightarrow>
      pins F (env_now (world_store W (sys_tick s))) (sys_db t) row (active_authority_identity (resolved_policy p))"
    by (rule postgres_resolve_pinned)
  have "sys_tick t = Suc (sys_tick s)" using res by (auto simp: postgres_resolve_Some)
  moreover have "authority_identity x = active_authority_identity (resolved_policy p)"
    using adm by (simp add: peer_policy_admit_ok delivery_verify_ok)
  ultimately show thesis
    using adm used expiry pins by (intro that [OF rows _ _ _ _ steps]) (simp_all add: ids peer_policy_admit_ok)
qed

text \<open>
  C17.  An inbound delivery that the ingress accepts was signed, with both algorithms over its canonical
  transcript, by an authority identity which the tenant of the destination domain has pinned: at some
  moment of the request the store held an active peer row for exactly the source and destination
  domains, carrying the fingerprint of that identity, with a current and unretired key document that
  decodes to it.  The sender and recipient belong to those domains, the payload and lifetime are within
  bounds, the delivery is fresh by the caller's clock and unexpired by the store's, and its request id was unused
  for that peer before and is recorded after, whatever other requests interleave.
\<close>
theorem federation_ingress_sound:
  assumes "interference W" and "store_reachable (sys_db s)"
    and "ingress_admit c F W (postgres_resolve F W) x correlation now s = (Inr IngressAccepted, s')"
    and "d = signed_delivery x"
  shows "\<exists>db row transcript. store_step\<^sup>*\<^sup>* (sys_db s) db \<and> store_step\<^sup>*\<^sup>* db (sys_db s') \<and>
     row \<in> set (pinned_peers (destination_domain d) (source_domain d) db) \<and>
     pins F (env_now (world_store W (sys_tick s))) db row (authority_identity x) \<and>
     delivery_transcript d = Inr transcript \<and> both_signatures c (authority_identity x) transcript x \<and>
     address_domain (delivery_sender d) = source_domain d \<and> address_domain (delivery_recipient d) = destination_domain d \<and>
     length (delivery_payload d) \<le> 65536 \<and>
     unix_timestamp (issued_at d) < unix_timestamp (expires_at d) \<and> unix_timestamp (expires_at d) \<le> unix_timestamp (issued_at d) + 300 \<and>
     unix_timestamp (issued_at d) \<le> unix_timestamp now + 60 \<and>
     env_now (world_store W (Suc (sys_tick s))) < expires_at d \<and>
     \<not> replay_used (fp_tenant row, fp_id row, delivery_request d) (sys_db s) \<and>
     replay_used (fp_tenant row, fp_id row, delivery_request d) (sys_db s')"
proof -
  from assms(1) store_reachable_ok [OF assms(2)] assms(3) show ?thesis
  proof (cases rule: federation_accepted)
    case (1 row rows db)
    then obtain transcript where "delivery_transcript d = Inr transcript" and "both_signatures c (authority_identity x) transcript x"
      using assms(4) by (auto simp: peer_policy_admit_ok delivery_verify_ok)
    moreover from this(1) have "delivery_validate d = Inr ()" by (simp add: delivery_transcript_ok)
    ultimately show ?thesis
      using 1 assms(4) by (intro exI [of _ db] exI [of _ row] exI [of _ transcript]) (simp add: peer_policy_admit_ok)
  qed
qed

theorem federation_ingress_sound_witness:
  "store_reachable sample_pinned \<and> (\<exists>s' db row.
     ingress_admit demo_crypto sample_fed sample_world (postgres_resolve sample_fed sample_world) sample_signed [99] 0
       \<lparr>sys_db = sample_pinned, sys_tick = 0\<rparr> = (Inr IngressAccepted, s') \<and>
     row \<in> set (pinned_peers (DomainName [97]) (DomainName (str_of ''b.c'')) db) \<and>
     pins sample_fed 3 db row (authority_identity sample_signed) \<and> replay_used (fp_tenant row, fp_id row, filled 7) (sys_db s'))"
proof -
  obtain s' where run: "ingress_admit demo_crypto sample_fed sample_world (postgres_resolve sample_fed sample_world) sample_signed [99] 0
       \<lparr>sys_db = sample_pinned, sys_tick = 0\<rparr> = (Inr IngressAccepted, s')"
    using sample_ingress by blast
  have reach: "store_reachable (sys_db \<lparr>sys_db = sample_pinned, sys_tick = 0\<rparr>)" using sample_pinned_reachable by simp
  show ?thesis
    using federation_ingress_sound [OF sample_interference reach run refl] run sample_pinned_reachable sample_signed_verifies
    by (auto simp: sample_delivery_def sample_env_def)
qed

text \<open>
  A request id is accepted at most once: after the ingress has accepted a delivery, no delivery
  between the same two domains with the same request id is accepted in any later state of the store,
  whatever its signer, payload or times.
\<close>
theorem federation_accepted_once:
  assumes "interference W" and "interference W'" and "store_reachable (sys_db s)"
    and "ingress_admit c F W (postgres_resolve F W) x correlation now s = (Inr IngressAccepted, s')"
    and "store_step\<^sup>*\<^sup>* (sys_db s') (sys_db u)"
    and "source_domain (signed_delivery y) = source_domain (signed_delivery x)"
    and "destination_domain (signed_delivery y) = destination_domain (signed_delivery x)"
    and "delivery_request (signed_delivery y) = delivery_request (signed_delivery x)"
  shows "fst (ingress_admit c F W' (postgres_resolve F W') y correlation' now' u) \<noteq> Inr IngressAccepted"
proof
  assume "fst (ingress_admit c F W' (postgres_resolve F W') y correlation' now' u) = Inr IngressAccepted"
  then obtain u' where second: "ingress_admit c F W' (postgres_resolve F W') y correlation' now' u = (Inr IngressAccepted, u')"
    by (metis prod.collapse)
  have ok: "store_ok (sys_db s)" using assms(3) by (rule store_reachable_ok)
  from assms(1) ok assms(4) obtain row rows db
    where row: "pinned_peers (destination_domain (signed_delivery x)) (source_domain (signed_delivery x)) db = row # rows"
      and used: "replay_used (fp_tenant row, fp_id row, delivery_request (signed_delivery x)) (sys_db s')"
      and steps: "store_step\<^sup>*\<^sup>* (sys_db s) db" "store_step\<^sup>*\<^sup>* db (sys_db s')"
    by (rule federation_accepted)
  have ok_db: "store_ok db" and ok_s: "store_ok (sys_db s')" and ok_u: "store_ok (sys_db u)"
    using ok steps assms(5) store_ok_steps by blast+
  from assms(2) ok_u second obtain row' rows' db'
    where row': "pinned_peers (destination_domain (signed_delivery y)) (source_domain (signed_delivery y)) db' = row' # rows'"
      and unused: "\<not> replay_used (fp_tenant row', fp_id row', delivery_request (signed_delivery y)) (sys_db u)"
      and steps': "store_step\<^sup>*\<^sup>* (sys_db u) db'"
    by (rule federation_accepted)
  have "store_step\<^sup>*\<^sup>* db db'" using steps(2) assms(5) steps' by (meson rtranclp_trans)
  then have "row' = row" using pinned_peers_steps [OF _ ok_db] row row' assms(6,7) by fastforce
  then show False using replay_use.spent_steps [OF assms(5) ok_s used] unused assms(8) by simp
qed

theorem federation_accepted_once_witness:
  "\<exists>s'. ingress_admit demo_crypto sample_fed sample_world (postgres_resolve sample_fed sample_world) sample_signed [99] 0
       \<lparr>sys_db = sample_pinned, sys_tick = 0\<rparr> = (Inr IngressAccepted, s') \<and>
     fst (ingress_admit demo_crypto sample_fed sample_world (postgres_resolve sample_fed sample_world) sample_signed [99] 0 s')
       \<noteq> Inr IngressAccepted"
proof -
  obtain s' where run: "ingress_admit demo_crypto sample_fed sample_world (postgres_resolve sample_fed sample_world) sample_signed [99] 0
       \<lparr>sys_db = sample_pinned, sys_tick = 0\<rparr> = (Inr IngressAccepted, s')"
    using sample_ingress by blast
  have reach: "store_reachable (sys_db \<lparr>sys_db = sample_pinned, sys_tick = 0\<rparr>)" using sample_pinned_reachable by simp
  show ?thesis
    using federation_accepted_once [OF sample_interference sample_interference reach run rtranclp.rtrancl_refl refl refl refl] run by blast
qed

text \<open>
  The transcript that both signatures cover determines the delivery: two deliveries between parsed
  addresses with the same transcript have the same sender, recipient, domains, request id, payload and
  issue and expiry times in seconds.
\<close>
theorem federation_transcript_unambiguous:
  assumes "delivery_transcript d = Inr t" and "delivery_transcript e = Inr t"
    and "user_address_parse nfc idna sd = Inr (delivery_sender d)" "user_address_parse nfc idna rd = Inr (delivery_recipient d)"
    and "user_address_parse nfc idna se = Inr (delivery_sender e)" "user_address_parse nfc idna re = Inr (delivery_recipient e)"
    and "i64_range (unix_timestamp (issued_at d))" "i64_range (unix_timestamp (expires_at d))"
    and "i64_range (unix_timestamp (issued_at e))" "i64_range (unix_timestamp (expires_at e))"
  shows "source_domain d = source_domain e \<and> destination_domain d = destination_domain e \<and>
    delivery_sender d = delivery_sender e \<and> delivery_recipient d = delivery_recipient e \<and>
    delivery_request d = delivery_request e \<and> delivery_payload d = delivery_payload e \<and>
    unix_timestamp (issued_at d) = unix_timestamp (issued_at e) \<and> unix_timestamp (expires_at d) = unix_timestamp (expires_at e)"
proof -
  have "delivery_sender d = delivery_sender e \<and> delivery_recipient d = delivery_recipient e \<and> transcript_tail d = transcript_tail e"
    using assms(1-6) parsed_address_text by (intro delivery_transcript_inject) blast+
  moreover from this transcript_tail_inject [OF _ assms(7-10)] have "delivery_request d = delivery_request e \<and>
    unix_timestamp (issued_at d) = unix_timestamp (issued_at e) \<and> unix_timestamp (expires_at d) = unix_timestamp (expires_at e) \<and>
    delivery_payload d = delivery_payload e" by blast
  moreover have "address_domain (delivery_sender x) = source_domain x \<and> address_domain (delivery_recipient x) = destination_domain x"
    if "delivery_transcript x = Inr t" for x using that by (simp add: delivery_transcript_ok)
  ultimately show ?thesis using assms(1,2) by metis
qed

theorem federation_transcript_unambiguous_witness:
  "\<exists>t. delivery_transcript (sample_dated 0) = Inr t \<and> delivery_transcript (sample_dated 5) = Inr t \<and>
     unix_timestamp (issued_at (sample_dated 0)) = unix_timestamp (issued_at (sample_dated 5))"
proof -
  let ?idna = "\<lambda>s. Some (to_ascii_lowercase s)"
  obtain t where t: "delivery_transcript (sample_dated 0) = Inr t" "delivery_transcript (sample_dated 5) = Inr t"
    using sample_dated_transcript by blast
  have "user_address_parse id ?idna (str_of ''d@b.c'') = Inr (UserAddress (Localpart (str_of ''d'')) (DomainName (str_of ''b.c'')))"
    "user_address_parse id ?idna (str_of ''e@b.c'') = Inr (UserAddress (Localpart (str_of ''e'')) (DomainName (str_of ''b.c'')))"
    by (simp_all add: user_address_parse_def and_then_def ok_or_def map_err_def domain_parse_def localpart_parse_def str_of_def trim_def
        is_whitespace_def ends_with_def starts_with_def to_ascii_lowercase_def is_ascii_uppercase_def str_len_def str_bytes_def utf8_def
        domain_label_ok_def is_ascii_alphanumeric_def is_ascii_lowercase_def is_ascii_digit_def)
  then have parse: "user_address_parse id ?idna (str_of ''d@b.c'') = Inr (delivery_sender (sample_dated n))"
    "user_address_parse id ?idna (str_of ''e@b.c'') = Inr (delivery_recipient (sample_dated n))" for n
    by (simp_all add: sample_dated_def)
  have range: "i64_range (unix_timestamp (issued_at (sample_dated 0)))" "i64_range (unix_timestamp (expires_at (sample_dated 0)))"
    "i64_range (unix_timestamp (issued_at (sample_dated 5)))" "i64_range (unix_timestamp (expires_at (sample_dated 5)))"
    by (simp_all add: sample_dated_def unix_timestamp_def i64_range_def)
  note same = federation_transcript_unambiguous [OF t parse(1) [of 0] parse(2) [of 0] parse(1) [of 5] parse(2) [of 5] range]
  show ?thesis using t same by blast
qed

end
