(* ===== verification/Fabric_Passkeys.thy ===== *)
theory Fabric_Passkeys
  imports Fabric_Federation
begin

text \<open>
  Passkey ceremonies of \<open>fcp-fabric-service\<close> (\<open>webauthn.rs\<close> and its submodules).  The library
  \<open>webauthn-rs\<close>, its values and their JSON forms are the argument \<open>webauthn_library\<close>: \<open>'v\<close> is the type
  of the library's values (passkeys, ceremony states, challenges, responses and results), \<open>'j\<close> that of stored JSON.
  Starting a ceremony draws a challenge, so those operations take the number of the effect.
\<close>

subsection \<open>The relying-party policy\<close>

text \<open>A parsed URL, by the results of its accessors.\<close>

record url =
  url_scheme :: str
  url_host :: "str option"
  url_username :: str
  url_password :: "str option"
  url_port :: "nat option"
  url_query :: "str option"
  url_fragment :: "str option"
  url_path :: str

datatype webauthn_service_error =
    WebauthnInvalidPolicy
  | WebauthnFailed
  | WebauthnSerialization
  | WebauthnStore store_error
  | WebauthnSessionUnavailable
  | WebauthnInvalidCredentialId

record webauthn_policy =
  rp_domain :: domain_name
  rp_origin :: url

definition webauthn_policy_new :: "domain_name \<Rightarrow> url \<Rightarrow> webauthn_service_error + webauthn_policy" where
  "webauthn_policy_new domain origin =
     (if url_scheme origin \<noteq> str_of ''https'' \<or> url_host origin \<noteq> Some (domain_str domain) \<or> url_username origin \<noteq> [] \<or>
         url_password origin \<noteq> None \<or> url_port origin \<noteq> None \<or> url_query origin \<noteq> None \<or> url_fragment origin \<noteq> None \<or>
         url_path origin \<noteq> str_of ''/''
      then Inl WebauthnInvalidPolicy else Inr \<lparr>rp_domain = domain, rp_origin = origin\<rparr>)"

subsection \<open>The library\<close>

record ('j, 'v) webauthn_library =
  webauthn_build :: "str \<Rightarrow> url \<Rightarrow> bool"
  start_passkey_registration :: "nat \<Rightarrow> uuid \<Rightarrow> str \<Rightarrow> 'v list \<Rightarrow> ('v \<times> 'v) option"
  finish_passkey_registration :: "'v \<Rightarrow> 'v \<Rightarrow> 'v option"
  start_passkey_authentication :: "nat \<Rightarrow> 'v list \<Rightarrow> ('v \<times> 'v) option"
  finish_passkey_authentication :: "'v \<Rightarrow> 'v \<Rightarrow> 'v option"
  passkey_cred_id :: "'v \<Rightarrow> 'v"
  result_cred_id :: "'v \<Rightarrow> 'v"
  update_credential :: "'v \<Rightarrow> 'v \<Rightarrow> 'v"
  to_json :: "'v \<Rightarrow> 'j option"
  registration_state_to_json :: "'v \<Rightarrow> str option \<Rightarrow> 'j option"
  registration_state_from_json :: "'j \<Rightarrow> ('v \<times> str option) option"
  authentication_state_from_json :: "'j \<Rightarrow> 'v option"
  passkey_from_json :: "'j \<Rightarrow> 'v option"
  json_as_string :: "'j \<Rightarrow> str option"

definition json_string :: "('j, 'v) webauthn_library \<Rightarrow> 'j \<Rightarrow> webauthn_service_error + str" where
  "json_string L j =
     (case json_as_string L j of
        Some s \<Rightarrow> if s \<noteq> [] \<and> str_len s \<le> 2048 then Inr s else Inl WebauthnInvalidCredentialId
      | None \<Rightarrow> Inl WebauthnInvalidCredentialId)"

definition credential_id_json :: "('j, 'v) webauthn_library \<Rightarrow> 'v \<Rightarrow> webauthn_service_error + str" where
  "credential_id_json L cred_id = and_then (ok_or WebauthnSerialization (to_json L cred_id)) (json_string L)"

definition canonical_credential_id :: "('j, 'v) webauthn_library \<Rightarrow> 'v \<Rightarrow> webauthn_service_error + str" where
  "canonical_credential_id L passkey = credential_id_json L (passkey_cred_id L passkey)"

subsection \<open>The service\<close>

record webauthn_service =
  webauthn_rp :: webauthn_policy
  ceremony_digest_key :: token_digest_key
  binding_digest_key :: token_digest_key

record issued_webauthn_ceremony =
  ceremony_token :: str
  ceremony_binding :: str
  ceremony_expires_at :: timestamp

datatype 'v webauthn_begin_outcome = BeginDenied | BeginChallenge issued_webauthn_ceremony 'v "str option"

datatype webauthn_finish_outcome = FinishDenied | FinishRegistered | FinishAuthenticated authorization_context

definition CEREMONY_LIFETIME :: duration where
  "CEREMONY_LIFETIME = duration_minutes 5"

definition webauthn_service_new ::
  "('j, 'v) webauthn_library \<Rightarrow> webauthn_policy \<Rightarrow> token_digest_key \<Rightarrow> token_digest_key \<Rightarrow>
   webauthn_service_error + webauthn_service" where
  "webauthn_service_new L policy ceremony_key binding_key =
     (if webauthn_build L (domain_str (rp_domain policy)) (rp_origin policy)
      then Inr \<lparr>webauthn_rp = policy, ceremony_digest_key = ceremony_key, binding_digest_key = binding_key\<rparr>
      else Inl WebauthnFailed)"

definition persist_ceremony ::
  "('z) token_primitives_scheme \<Rightarrow> 'j world \<Rightarrow> webauthn_service \<Rightarrow> tenant_id \<Rightarrow> account_id \<Rightarrow> ceremony_kind \<Rightarrow> 'j \<Rightarrow> str \<Rightarrow>
   timestamp \<Rightarrow> ('j, webauthn_service_error + issued_webauthn_ceremony) run" where
  "persist_ceremony T W svc tenant account kind state correlation now =
     bind (issue_token T W (ceremony_digest_key svc)) (\<lambda>token.
     bind (issue_token T W (binding_digest_key svc)) (\<lambda>binding.
     let expires = now + CEREMONY_LIFETIME in
     attempt (run_map (map_err WebauthnStore) (store_call W (\<lambda>E. create_webauthn_ceremony E
       \<lparr>cc_tenant = tenant, cc_account = account, cc_kind = kind, cc_state = state, cc_digest = issued_digest token,
        cc_binding = issued_digest binding, cc_expires_at = expires, cc_correlation = correlation\<rparr>))) (\<lambda>_.
     return (Inr \<lparr>ceremony_token = token_raw token, ceremony_binding = token_raw binding, ceremony_expires_at = expires\<rparr>))))"

definition consume_ceremony ::
  "('z) token_primitives_scheme \<Rightarrow> 'j world \<Rightarrow> webauthn_service \<Rightarrow> str \<Rightarrow> str \<Rightarrow> str \<Rightarrow>
   ('j, webauthn_service_error + 'j ceremony_record) run" where
  "consume_ceremony T W svc token binding correlation =
     run_map (map_err WebauthnStore) (store_call W (\<lambda>E. consume_webauthn_ceremony E
       (derive_opaque_token_digest T (ceremony_digest_key svc) token)
       (derive_opaque_token_digest T (binding_digest_key svc) binding) correlation))"

definition deserialize_active_passkeys ::
  "('j, 'v) webauthn_library \<Rightarrow> 'j world \<Rightarrow> tenant_id \<Rightarrow> account_id \<Rightarrow> ('j, webauthn_service_error + 'v list) run" where
  "deserialize_active_passkeys L W tenant account =
     run_map (try_map (\<lambda>p. ok_or WebauthnSerialization (passkey_from_json L (sp_passkey p))))
       (store_read W (\<lambda>_. active_webauthn_passkeys tenant account))"

definition begin_registration ::
  "(str \<Rightarrow> str) \<Rightarrow> (str \<Rightarrow> str option) \<Rightarrow> ('z) token_primitives_scheme \<Rightarrow> ('j, 'v) webauthn_library \<Rightarrow> 'j world \<Rightarrow> webauthn_service \<Rightarrow>
   tenant_id \<Rightarrow> account_id \<Rightarrow> str option \<Rightarrow> str \<Rightarrow> timestamp \<Rightarrow> ('j, webauthn_service_error + 'v webauthn_begin_outcome) run" where
  "begin_registration nfc idna T L W svc tenant account label correlation now =
     attempt (run_map (map_err WebauthnStore) (store_read W (\<lambda>_. user_address_for_account nfc idna tenant account))) (\<lambda>found.
     case found of None \<Rightarrow> return (Inr BeginDenied)
     | Some address \<Rightarrow>
         if address_domain address \<noteq> rp_domain (webauthn_rp svc) then return (Inr BeginDenied)
         else
           attempt (deserialize_active_passkeys L W tenant account) (\<lambda>existing.
           attempt (tick (\<lambda>n. ok_or WebauthnFailed (start_passkey_registration L n (account_uuid account)
             (user_address_display address) (map (passkey_cred_id L) existing)))) (\<lambda>started.
           attempt (return (ok_or WebauthnSerialization (registration_state_to_json L (snd started) label))) (\<lambda>state.
           attempt (persist_ceremony T W svc tenant account Registration state correlation now) (\<lambda>ceremony.
           return (Inr (BeginChallenge ceremony (fst started) None)))))))"

definition finish_registration ::
  "('z) token_primitives_scheme \<Rightarrow> ('j, 'v) webauthn_library \<Rightarrow> 'j world \<Rightarrow> webauthn_service \<Rightarrow>
   tenant_id \<Rightarrow> account_id \<Rightarrow> str \<Rightarrow> str \<Rightarrow> 'v \<Rightarrow> str \<Rightarrow> ('j, webauthn_service_error + webauthn_finish_outcome) run" where
  "finish_registration T L W svc tenant account token binding response correlation =
     attempt (consume_ceremony T W svc token binding correlation) (\<lambda>ceremony.
     if cr_kind ceremony \<noteq> Registration \<or> cr_tenant ceremony \<noteq> tenant \<or> cr_account ceremony \<noteq> account
     then return (Inr FinishDenied)
     else
       attempt (return (ok_or WebauthnSerialization (registration_state_from_json L (cr_state ceremony)))) (\<lambda>state.
       attempt (return (ok_or WebauthnFailed (finish_passkey_registration L response (fst state)))) (\<lambda>passkey.
       attempt (return (canonical_credential_id L passkey)) (\<lambda>credential.
       attempt (return (ok_or WebauthnSerialization (to_json L passkey))) (\<lambda>passkey_json.
       attempt (run_map (map_err WebauthnStore) (store_call W (\<lambda>E. register_webauthn_passkey E
         \<lparr>rp_tenant = cr_tenant ceremony, rp_account = cr_account ceremony, rp_credential = credential, rp_passkey = passkey_json,
          rp_label = snd state, rp_correlation = correlation\<rparr>))) (\<lambda>_.
       return (Inr FinishRegistered)))))))"

definition begin_authentication ::
  "'p password_primitives \<Rightarrow> ('z) token_primitives_scheme \<Rightarrow> ('j, 'v) webauthn_library \<Rightarrow> 'j world \<Rightarrow> webauthn_service \<Rightarrow>
   user_address \<Rightarrow> str \<Rightarrow> timestamp \<Rightarrow> ('j, webauthn_service_error + 'v webauthn_begin_outcome) run" where
  "begin_authentication A T L W svc address correlation now =
     (if address_domain address \<noteq> rp_domain (webauthn_rp svc) then return (Inr BeginDenied)
      else
        attempt (run_map (map_err WebauthnStore) (store_read W (\<lambda>_. find_login_account A address))) (\<lambda>found.
        case found of None \<Rightarrow> return (Inr BeginDenied)
        | Some account \<Rightarrow>
            if \<not> permits_session (login_state account) then return (Inr BeginDenied)
            else
              attempt (deserialize_active_passkeys L W (login_tenant_id account) (login_account_id account)) (\<lambda>passkeys.
              if passkeys = [] then return (Inr BeginDenied)
              else
                attempt (tick (\<lambda>n. ok_or WebauthnFailed (start_passkey_authentication L n passkeys))) (\<lambda>started.
                attempt (return (ok_or WebauthnSerialization (to_json L (snd started)))) (\<lambda>state.
                attempt (persist_ceremony T W svc (login_tenant_id account) (login_account_id account) Authentication state
                  correlation now) (\<lambda>ceremony.
                return (Inr (BeginChallenge ceremony (fst started) None))))))))"

text \<open>The tail of \<open>finish_authentication\<close>, from the update of the matched passkey on.\<close>

definition record_passkey_use ::
  "('j, 'v) webauthn_library \<Rightarrow> 'j world \<Rightarrow> tenant_id \<Rightarrow> account_id \<Rightarrow> str \<Rightarrow> 'v \<Rightarrow>
   ('j, webauthn_service_error + webauthn_finish_outcome) run" where
  "record_passkey_use L W tenant account credential updated =
     attempt (return (ok_or WebauthnSerialization (to_json L updated))) (\<lambda>passkey_json.
     bind (store_call W (\<lambda>E. update_webauthn_passkey E tenant account credential passkey_json)) (\<lambda>outcome.
     case outcome of
       Inl TargetNotFoundOrUnchanged \<Rightarrow> return (Inr FinishDenied)
     | Inl e \<Rightarrow> return (Inl (WebauthnStore e))
     | Inr _ \<Rightarrow>
         attempt (run_map (map_err WebauthnStore) (store_read W (\<lambda>_. session_authorization_context tenant account))) (\<lambda>found.
         return (case found of None \<Rightarrow> Inl WebauthnSessionUnavailable | Some ctx \<Rightarrow> Inr (FinishAuthenticated ctx)))))"

definition finish_authentication ::
  "('z) token_primitives_scheme \<Rightarrow> ('j, 'v) webauthn_library \<Rightarrow> 'j world \<Rightarrow> webauthn_service \<Rightarrow>
   str \<Rightarrow> str \<Rightarrow> 'v \<Rightarrow> str \<Rightarrow> ('j, webauthn_service_error + webauthn_finish_outcome) run" where
  "finish_authentication T L W svc token binding response correlation =
     attempt (consume_ceremony T W svc token binding correlation) (\<lambda>ceremony.
     if cr_kind ceremony \<noteq> Authentication then return (Inr FinishDenied)
     else
       attempt (return (ok_or WebauthnSerialization (authentication_state_from_json L (cr_state ceremony)))) (\<lambda>state.
       attempt (return (ok_or WebauthnFailed (finish_passkey_authentication L response state))) (\<lambda>verification.
       attempt (return (credential_id_json L (result_cred_id L verification))) (\<lambda>credential.
       attempt (deserialize_active_passkeys L W (cr_tenant ceremony) (cr_account ceremony)) (\<lambda>passkeys.
       case find (\<lambda>passkey. canonical_credential_id L passkey = Inr credential) passkeys of
         None \<Rightarrow> return (Inr FinishDenied)
       | Some passkey \<Rightarrow>
           record_passkey_use L W (cr_tenant ceremony) (cr_account ceremony) credential (update_credential L passkey verification))))))"

subsection \<open>Passkey runs only perform store operations\<close>

lemma case_store_error_steps:
  "only_steps m \<Longrightarrow> (\<And>e. only_steps (h e)) \<Longrightarrow> (\<And>x. only_steps (k x)) \<Longrightarrow>
   only_steps (case v of Inl TargetNotFoundOrUnchanged \<Rightarrow> m | Inl e \<Rightarrow> h e | Inr x \<Rightarrow> k x)"
  by (auto split: sum.split store_error.split)

lemma persist_ceremony_steps [steps_intros]: "interference W \<Longrightarrow> only_steps (persist_ceremony T W svc t a kind state corr now)"
  unfolding persist_ceremony_def Let_def by (intro steps_intros)

lemma consume_ceremony_steps [steps_intros]: "interference W \<Longrightarrow> only_steps (consume_ceremony T W svc token binding corr)"
  unfolding consume_ceremony_def by (intro steps_intros)

lemma deserialize_steps [steps_intros]: "interference W \<Longrightarrow> only_steps (deserialize_active_passkeys L W t a)"
  unfolding deserialize_active_passkeys_def by (intro steps_intros)

lemma begin_registration_steps [steps_intros]:
  "interference W \<Longrightarrow> only_steps (begin_registration nfc idna T L W svc t a label corr now)"
  unfolding begin_registration_def by (intro steps_intros)

lemma finish_registration_steps [steps_intros]:
  "interference W \<Longrightarrow> only_steps (finish_registration T L W svc t a token binding response corr)"
  unfolding finish_registration_def by (intro steps_intros)

lemma begin_authentication_steps [steps_intros]:
  "interference W \<Longrightarrow> only_steps (begin_authentication A T L W svc address corr now)"
  unfolding begin_authentication_def by (intro steps_intros)

lemma record_passkey_use_steps [steps_intros]:
  "interference W \<Longrightarrow> only_steps (record_passkey_use L W t a credential updated)"
  unfolding record_passkey_use_def by (intro steps_intros case_store_error_steps)

lemma finish_authentication_steps [steps_intros]:
  "interference W \<Longrightarrow> only_steps (finish_authentication T L W svc token binding response corr)"
  unfolding finish_authentication_def by (intro steps_intros)

subsection \<open>Inverting the ceremonies\<close>

lemma consume_ceremony_kind:
  assumes "consume_webauthn_ceremony E d b corr db = (Inr r, db')"
  obtains w where "w \<in> set (webauthn_ceremonies db)" and "usable_ceremony d b (env_now E) w"
    and "wc_kind w = ceremony_kind_text (cr_kind r)" and "cr_tenant r = TenantId (wc_tenant w)"
    and "cr_account r = AccountId (wc_account w)" and "cr_state r = wc_state w"
  using assms
  by (auto simp: consume_webauthn_ceremony_def transact_eq and_then_eq_Inr Let_def parse_webauthn_ceremony_kind_def
      split: option.splits if_splits dest!: fetch_optional_Some)

definition ceremony_of ::
  "('z) token_primitives_scheme \<Rightarrow> webauthn_service \<Rightarrow> str \<Rightarrow> str \<Rightarrow> timestamp \<Rightarrow> ceremony_kind \<Rightarrow> 'j ceremony_row \<Rightarrow> bool" where
  "ceremony_of T svc token binding now kind w \<longleftrightarrow>
     usable_ceremony (derive_opaque_token_digest T (ceremony_digest_key svc) token)
       (derive_opaque_token_digest T (binding_digest_key svc) binding) now w \<and> wc_kind w = ceremony_kind_text kind"

lemma consume_ceremony_run:
  assumes W: "interference W" and ok: "store_ok (sys_db s)"
    and run: "consume_ceremony T W svc token binding corr s = (Inr r, t)"
  defines "db \<equiv> world_others W (sys_tick s) (sys_db s)" and "d \<equiv> derive_opaque_token_digest T (ceremony_digest_key svc) token"
  obtains w where "store_step\<^sup>*\<^sup>* (sys_db s) db" and "store_step db (sys_db t)" and "\<not> ceremony_used d (sys_db s)"
    and "ceremony_used d (sys_db t)" and "store_ok (sys_db t)" and "w \<in> set (webauthn_ceremonies db)"
    and "ceremony_of T svc token binding (env_now (world_store W (sys_tick s))) (cr_kind r) w"
    and "cr_tenant r = TenantId (wc_tenant w)" and "cr_account r = AccountId (wc_account w)" and "cr_state r = wc_state w"
proof -
  from run have c: "consume_webauthn_ceremony (world_store W (sys_tick s)) d
      (derive_opaque_token_digest T (binding_digest_key svc) binding) corr db = (Inr r, sys_db t)"
    by (simp add: consume_ceremony_def run_map_err_eq store_call_eq d_def db_def)
  have s1: "store_step\<^sup>*\<^sup>* (sys_db s) db" unfolding db_def using W by (rule interferenceD)
  have s2: "store_step db (sys_db t)" using c by (rule step_consume_ceremony)
  have db: "store_ok db" using s1 ok by (rule store_ok_steps)
  have t: "store_ok (sys_db t)" using store_ok_step db s2 by blast
  have used: "\<not> ceremony_used d db" "ceremony_used d (sys_db t)" using ceremony_accepted [OF c] store_okD(4) [OF db] by blast+
  then have fresh: "\<not> ceremony_used d (sys_db s)" using ceremony_use.spent_steps [OF s1 ok] by blast
  from c obtain w where w: "w \<in> set (webauthn_ceremonies db)"
      "usable_ceremony d (derive_opaque_token_digest T (binding_digest_key svc) binding) (env_now (world_store W (sys_tick s))) w"
      "wc_kind w = ceremony_kind_text (cr_kind r)" "cr_tenant r = TenantId (wc_tenant w)" "cr_account r = AccountId (wc_account w)"
      "cr_state r = wc_state w"
    by (rule consume_ceremony_kind)
  show thesis using s1 s2 fresh used(2) t w by (intro that [of w]) (simp_all add: ceremony_of_def d_def)
qed

definition active_passkey :: "uuid \<Rightarrow> uuid \<Rightarrow> str \<Rightarrow> 'j database \<Rightarrow> bool" where
  "active_passkey t a credential db \<longleftrightarrow> (\<exists>p \<in> set (webauthn_credentials db).
     pk_tenant p = t \<and> pk_account p = a \<and> pk_credential p = credential \<and> pk_disabled_at p = None)"

lemma update_passkey_active:
  assumes "update_webauthn_passkey E t a k pk db = (Inr (), db')"
  shows "active_passkey (tenant_uuid t) (account_uuid a) k db"
proof -
  have "rows_affected (\<lambda>p. pk_tenant p = tenant_uuid t \<and> pk_account p = account_uuid a \<and> pk_credential p = k \<and> pk_disabled_at p = None \<and>
      has_account_in db (tenant_uuid t) (account_uuid a) [''active'']) (webauthn_credentials db) = 1"
    using assms by (auto simp: update_webauthn_passkey_def transact_eq Let_def split: if_splits)
  then have "filter (\<lambda>p. pk_tenant p = tenant_uuid t \<and> pk_account p = account_uuid a \<and> pk_credential p = k \<and> pk_disabled_at p = None \<and>
      has_account_in db (tenant_uuid t) (account_uuid a) [''active'']) (webauthn_credentials db) \<noteq> []"
    unfolding rows_affected_def by (metis length_0_conv zero_neq_one)
  then show ?thesis by (auto simp: filter_empty_conv active_passkey_def)
qed

lemma passkey_update_case:
  assumes "(case v of Inl TargetNotFoundOrUnchanged \<Rightarrow> return (Inr FinishDenied) | Inl e \<Rightarrow> return (Inl (WebauthnStore e)) |
      Inr (_ :: unit) \<Rightarrow> k) u = (Inr (FinishAuthenticated ctx), s')"
  shows "v = Inr () \<and> k u = (Inr (FinishAuthenticated ctx), s')"
proof (cases v)
  case (Inl e)
  with assms show ?thesis by (cases e) (simp_all add: return_eq)
qed (use assms in simp)

lemma record_passkey_use_authenticated:
  assumes "interference W" and "record_passkey_use L W t a k updated s = (Inr (FinishAuthenticated ctx), s')"
  shows "\<exists>db. store_step\<^sup>*\<^sup>* (sys_db s) db \<and> store_step\<^sup>*\<^sup>* db (sys_db s') \<and> active_passkey (tenant_uuid t) (account_uuid a) k db \<and>
    session_authorization_context t a (sys_db s') = Inr (Some ctx)"
proof -
  let ?db = "world_others W (sys_tick s) (sys_db s)"
  let ?k = "attempt (run_map (map_err WebauthnStore) (store_read W (\<lambda>_. session_authorization_context t a))) (\<lambda>found.
      return (case found of None \<Rightarrow> Inl WebauthnSessionUnavailable | Some ctx \<Rightarrow> Inr (FinishAuthenticated ctx)))"
  from assms(2) obtain j v u where call: "store_call W (\<lambda>E. update_webauthn_passkey E t a k j) s = (v, u)"
    and rest: "(case v of Inl TargetNotFoundOrUnchanged \<Rightarrow> return (Inr FinishDenied) | Inl e \<Rightarrow> return (Inl (WebauthnStore e)) |
      Inr (_ :: unit) \<Rightarrow> ?k) u = (Inr (FinishAuthenticated ctx), s')"
    unfolding record_passkey_use_def attempt_return_eq bind_eq by (elim exE conjE)
  have v: "v = Inr ()" and ctx: "?k u = (Inr (FinishAuthenticated ctx), s')" using passkey_update_case [OF rest] by auto
  have up: "update_webauthn_passkey (world_store W (sys_tick s)) t a k j ?db = (Inr (), sys_db u)"
    using call by (simp add: store_call_eq v)
  have s1: "store_step\<^sup>*\<^sup>* (sys_db s) ?db" using assms(1) by (rule interferenceD)
  have s2: "store_step ?db (sys_db u)" using up by (rule step_update)
  have s3: "store_step\<^sup>*\<^sup>* (sys_db u) (sys_db s')"
    using ctx by (rule only_stepsD [rotated]) (intro steps_intros assms(1))
  from ctx obtain found t' where read: "store_read W (\<lambda>_. session_authorization_context t a) u = (Inr found, t')"
    and out: "return (case found of None \<Rightarrow> Inl WebauthnSessionUnavailable | Some ctx \<Rightarrow> Inr (FinishAuthenticated ctx)) t' =
      (Inr (FinishAuthenticated ctx), s')"
    unfolding run_map_err_eq by (elim exE conjE)
  have "found = Some ctx" "t' = s'" using out by (auto simp: return_eq split: option.splits)
  with read have "session_authorization_context t a (sys_db s') = Inr (Some ctx)" unfolding store_read_eq by blast
  then show ?thesis
    using s1 converse_rtranclp_into_rtranclp [of store_step, OF s2 s3] update_passkey_active [OF up] by blast
qed

text \<open>The owner of the sample store registers a passkey and begins a sign-in with it.\<close>

definition sample_library :: "(unit, unit) webauthn_library" where
  "sample_library = \<lparr>webauthn_build = (\<lambda>_ _. True), start_passkey_registration = (\<lambda>_ _ _ _. Some ((), ())),
     finish_passkey_registration = (\<lambda>_ _. Some ()), start_passkey_authentication = (\<lambda>_ _. Some ((), ())),
     finish_passkey_authentication = (\<lambda>_ _. Some ()), passkey_cred_id = (\<lambda>_. ()), result_cred_id = (\<lambda>_. ()),
     update_credential = (\<lambda>_ _. ()), to_json = (\<lambda>_. Some ()), registration_state_to_json = (\<lambda>_ _. Some ()),
     registration_state_from_json = (\<lambda>_. Some ((), None)), authentication_state_from_json = (\<lambda>_. Some ()),
     passkey_from_json = (\<lambda>_. Some ()), json_as_string = (\<lambda>_. Some [107])\<rparr>"

definition sample_tokens :: token_primitives where
  "sample_tokens = \<lparr>hmac_sha256 = (\<lambda>_ _. filled 70), base64_url = (\<lambda>_. [116])\<rparr>"

definition sample_webauthn :: webauthn_service where
  "sample_webauthn = \<lparr>webauthn_rp = \<lparr>rp_domain = DomainName [97], rp_origin = \<lparr>url_scheme = str_of ''https'', url_host = Some [97],
     url_username = [], url_password = None, url_port = None, url_query = None, url_fragment = None, url_path = str_of ''/''\<rparr>\<rparr>,
     ceremony_digest_key = TokenDigestKey (filled 1), binding_digest_key = TokenDigestKey (filled 2)\<rparr>"

definition sample_passkey_request :: "unit register_passkey_request" where
  "sample_passkey_request = \<lparr>rp_tenant = sample_tenant, rp_account = sample_account, rp_credential = [107], rp_passkey = (),
     rp_label = None, rp_correlation = [99]\<rparr>"

definition sample_ceremony_request :: "unit create_ceremony_request" where
  "sample_ceremony_request = \<lparr>cc_tenant = sample_tenant, cc_account = sample_account, cc_kind = Authentication, cc_state = (),
     cc_digest = sample_digest 70, cc_binding = sample_digest 70, cc_expires_at = 100, cc_correlation = [99]\<rparr>"

definition sample_passkey_row :: "unit credential_row" where
  "sample_passkey_row = \<lparr>pk_id = filled 60, pk_tenant = filled 1, pk_account = filled 2, pk_credential = [107], pk_passkey = (),
     pk_label = None, pk_created_at = 3, pk_last_used_at = None, pk_disabled_at = None\<rparr>"

definition sample_ceremony_row :: "unit ceremony_row" where
  "sample_ceremony_row = \<lparr>wc_id = filled 50, wc_tenant = filled 1, wc_account = filled 2, wc_kind = ''authentication'', wc_state = (),
     wc_digest = sample_digest 70, wc_binding = sample_digest 70, wc_created_at = 3, wc_expires_at = 100, wc_consumed_at = None\<rparr>"

definition sample_ceremony_db :: "unit database" where
  "sample_ceremony_db = snd (create_webauthn_ceremony (sample_env 3 50) sample_ceremony_request
     (snd (register_webauthn_passkey (sample_env 3 60) sample_passkey_request sample_active)))"

lemma sample_ceremony_reachable: "store_reachable sample_ceremony_db"
  unfolding sample_ceremony_db_def
proof (rule store_reachable_steps [OF sample_reachable])
  let ?db = "snd (register_webauthn_passkey (sample_env 3 60) sample_passkey_request sample_active)"
  have "store_step sample_active ?db" by (rule step_register, rule snd_pair, rule refl)
  moreover have "store_step ?db (snd (create_webauthn_ceremony (sample_env 3 50) sample_ceremony_request ?db))"
    by (rule step_ceremony, rule snd_pair, rule refl)
  ultimately show "store_step\<^sup>*\<^sup>* sample_active (snd (create_webauthn_ceremony (sample_env 3 50) sample_ceremony_request ?db))" by auto
qed

definition sample_ceremony_audits :: "audit_row list" where
  "sample_ceremony_audits = sample_audits @ [sample_audit 61 PasskeyChanged [(''outcome'', AuditText ''registered'')] 3,
     sample_audit 51 WebauthnCeremonyIssued [(''ceremony_id'', AuditUuid (filled 50)), (''kind'', AuditText ''authentication'')] 3]"

lemma sample_ceremony_eq: "sample_ceremony_db = sample_active\<lparr>webauthn_credentials := [sample_passkey_row],
    webauthn_ceremonies := [sample_ceremony_row], audit_events := sample_ceremony_audits\<rparr>"
  by (simp add: sample_ceremony_db_def create_webauthn_ceremony_def register_webauthn_passkey_def sample_ceremony_request_def
      sample_passkey_request_def sample_active_def insert_credential_def insert_ceremony_def sample_passkey_row_def
      sample_ceremony_row_def sample_ceremony_audits_def str_len_def str_bytes_def utf8_def sample_simps)

definition sample_consumed_db :: "unit database" where
  "sample_consumed_db = snd (consume_webauthn_ceremony (sample_env 3 10) (sample_digest 70) (sample_digest 70) [99] sample_ceremony_db)"

lemma sample_consumed: "consume_webauthn_ceremony (sample_env 3 10) (sample_digest 70) (sample_digest 70) [99] sample_ceremony_db =
    (Inr \<lparr>cr_tenant = sample_tenant, cr_account = sample_account, cr_kind = Authentication, cr_state = ()\<rparr>, sample_consumed_db)"
  by (simp add: sample_consumed_db_def consume_webauthn_ceremony_def sample_ceremony_eq sample_ceremony_row_def usable_ceremony_def
      fetch_optional_def parse_webauthn_ceremony_kind_def sample_active_def sample_ceremony_audits_def sample_simps)

lemma sample_consumed_eq: "webauthn_credentials sample_consumed_db = [sample_passkey_row]"
    "accounts sample_consumed_db = [sample_account_row ''active'' 2]" "account_roles sample_consumed_db = account_roles sample_active"
  by (simp_all add: sample_consumed_db_def consume_webauthn_ceremony_def sample_ceremony_eq sample_ceremony_row_def usable_ceremony_def
      fetch_optional_def parse_webauthn_ceremony_kind_def sample_active_def sample_ceremony_audits_def sample_simps)

lemma sample_passkeys: "active_webauthn_passkeys sample_tenant sample_account sample_consumed_db = [\<lparr>sp_credential = [107], sp_passkey = ()\<rparr>]"
  by (simp add: active_webauthn_passkeys_def sample_consumed_eq sample_passkey_row_def)

lemma sample_updated: "\<exists>db. update_webauthn_passkey (sample_env 3 30) sample_tenant sample_account [107] () sample_consumed_db = (Inr (), db) \<and>
    accounts db = [sample_account_row ''active'' 2] \<and> account_roles db = account_roles sample_active"
  by (simp add: update_webauthn_passkey_def rows_affected_def sample_consumed_eq sample_passkey_row_def transact_def Let_def
      has_account_in_def sample_account_row_def)

lemma sample_context:
  assumes "accounts db = [sample_account_row ''active'' 2]" and "account_roles db = account_roles sample_active"
  shows "session_authorization_context sample_tenant sample_account db =
    Inr (Some (authorization_context_new sample_tenant sample_account AccountActive [Owner] False))"
  using assms by (simp add: session_authorization_context_def fetch_optional_def sample_account_row_def parse_account_state_def
      and_then_def roles_for_account_def sample_active_def sample_db_def parse_role_def)

lemma sample_sign_in:
  "\<exists>ctx s'. finish_authentication sample_tokens sample_library sample_world sample_webauthn [1] [2] () [99]
     \<lparr>sys_db = sample_ceremony_db, sys_tick = 0\<rparr> = (Inr (FinishAuthenticated ctx), s')"
proof -
  obtain db where "update_webauthn_passkey (sample_env 3 30) sample_tenant sample_account [107] () sample_consumed_db = (Inr (), db)"
    and "session_authorization_context sample_tenant sample_account db =
      Inr (Some (authorization_context_new sample_tenant sample_account AccountActive [Owner] False))"
    using sample_updated sample_context by metis
  then show ?thesis
    by (simp add: finish_authentication_def consume_ceremony_def deserialize_active_passkeys_def record_passkey_use_def attempt_def
        bind_def return_def run_map_def store_read_def store_call_def map_err_def ok_or_def and_then_def credential_id_json_def
        canonical_credential_id_def json_string_def str_len_def str_bytes_def utf8_def derive_opaque_token_digest_def token_digest_def
        sample_library_def sample_tokens_def sample_webauthn_def sample_consumed sample_passkeys)
qed

subsection \<open>Properties\<close>

text \<open>
  C19.  A passkey sign-in authenticates only the account of a live authentication ceremony: the presented
  token and browser binding identify an unexpired, unconsumed ceremony row, the WebAuthn library accepted
  the response against the state stored with that row, the credential it reports is an active passkey of the
  same account, and that account is active.  The context carries no step-up, and the
  ceremony is spent: it was unused before the request and is used after it.
\<close>
theorem passkey_authentication_sound:
  assumes "interference W" and "store_reachable (sys_db s)"
    and "finish_authentication T L W svc token binding response correlation s = (Inr (FinishAuthenticated ctx), s')"
    and "d = derive_opaque_token_digest T (ceremony_digest_key svc) token"
  shows "\<exists>db db' w state verification credential.
     store_step\<^sup>*\<^sup>* (sys_db s) db \<and> store_step\<^sup>*\<^sup>* db db' \<and> store_step\<^sup>*\<^sup>* db' (sys_db s') \<and>
     w \<in> set (webauthn_ceremonies db) \<and> ceremony_of T svc token binding (env_now (world_store W (sys_tick s))) Authentication w \<and>
     authentication_state_from_json L (wc_state w) = Some state \<and>
     finish_passkey_authentication L response state = Some verification \<and>
     credential_id_json L (result_cred_id L verification) = Inr credential \<and>
     active_passkey (wc_tenant w) (wc_account w) credential db' \<and>
     context_tenant ctx = TenantId (wc_tenant w) \<and> context_account ctx = AccountId (wc_account w) \<and>
     context_state ctx = AccountActive \<and> \<not> context_step_up ctx \<and>
     \<not> ceremony_used d (sys_db s) \<and> ceremony_used d (sys_db s')"
proof -
  from assms(3) obtain r t state verification credential passkeys u
    where c: "consume_ceremony T W svc token binding correlation s = (Inr r, t)" and kind: "cr_kind r = Authentication"
      and state: "authentication_state_from_json L (cr_state r) = Some state"
      and ver: "finish_passkey_authentication L response state = Some verification"
      and cred: "credential_id_json L (result_cred_id L verification) = Inr credential"
      and des: "deserialize_active_passkeys L W (cr_tenant r) (cr_account r) t = (Inr passkeys, u)"
      and rest: "(case find (\<lambda>passkey. canonical_credential_id L passkey = Inr credential) passkeys of
         None \<Rightarrow> return (Inr FinishDenied)
       | Some passkey \<Rightarrow> record_passkey_use L W (cr_tenant r) (cr_account r) credential (update_credential L passkey verification)) u =
         (Inr (FinishAuthenticated ctx), s')"
    unfolding finish_authentication_def
    by (auto simp: attempt_return_eq return_eq ok_or_eq_Inr attempt_eq_Inr [of "consume_ceremony T W svc token binding correlation"]
        attempt_eq_Inr [of "deserialize_active_passkeys L W x y" for x y] split: if_splits)
  have ok: "store_ok (sys_db s)" using assms(2) by (rule store_reachable_ok)
  from assms(1) ok c obtain w where
    s1: "store_step\<^sup>*\<^sup>* (sys_db s) (world_others W (sys_tick s) (sys_db s))" "store_step (world_others W (sys_tick s) (sys_db s)) (sys_db t)"
    and used: "\<not> ceremony_used d (sys_db s)" "ceremony_used d (sys_db t)" and ok_t: "store_ok (sys_db t)"
    and w: "w \<in> set (webauthn_ceremonies (world_others W (sys_tick s) (sys_db s)))"
      "ceremony_of T svc token binding (env_now (world_store W (sys_tick s))) (cr_kind r) w"
      "cr_tenant r = TenantId (wc_tenant w)" "cr_account r = AccountId (wc_account w)" "cr_state r = wc_state w"
    unfolding assms(4) by (rule consume_ceremony_run)
  have s2: "store_step\<^sup>*\<^sup>* (sys_db t) (sys_db u)" using deserialize_steps [OF assms(1)] des by (rule only_stepsD)
  from rest obtain passkey where "record_passkey_use L W (cr_tenant r) (cr_account r) credential (update_credential L passkey verification) u =
      (Inr (FinishAuthenticated ctx), s')"
    by (auto simp: return_eq split: option.splits)
  from record_passkey_use_authenticated [OF assms(1) this] obtain db'
    where s3: "store_step\<^sup>*\<^sup>* (sys_db u) db'" "store_step\<^sup>*\<^sup>* db' (sys_db s')"
      and act: "active_passkey (wc_tenant w) (wc_account w) credential db'"
      and ctx: "session_authorization_context (TenantId (wc_tenant w)) (AccountId (wc_account w)) (sys_db s') = Inr (Some ctx)"
    by (auto simp: w(3,4))
  have s4: "store_step\<^sup>*\<^sup>* (world_others W (sys_tick s) (sys_db s)) db'"
    using s1(2) s2 s3(1) by (meson converse_rtranclp_into_rtranclp rtranclp_trans)
  have "ceremony_used d (sys_db s')"
    using ceremony_use.spent_steps [OF rtranclp_trans [OF s2 rtranclp_trans [OF s3]] ok_t used(2)] by blast
  then show ?thesis
    using s1(1) s4 s3(2) w kind state ver cred act used(1) session_authorization_context_Some [OF ctx] by (intro exI conjI) simp_all
qed


theorem passkey_authentication_sound_witness:
  "store_reachable sample_ceremony_db \<and> (\<exists>ctx s' (db :: unit database) (db' :: unit database) w credential.
     finish_authentication sample_tokens sample_library sample_world sample_webauthn [1] [2] () [99]
       \<lparr>sys_db = sample_ceremony_db, sys_tick = 0\<rparr> = (Inr (FinishAuthenticated ctx), s') \<and>
     w \<in> set (webauthn_ceremonies db) \<and> ceremony_of sample_tokens sample_webauthn [1] [2] 3 Authentication w \<and>
     active_passkey (wc_tenant w) (wc_account w) credential db' \<and> context_account ctx = AccountId (wc_account w))"
proof -
  obtain ctx s' where run: "finish_authentication sample_tokens sample_library sample_world sample_webauthn [1] [2] () [99]
       \<lparr>sys_db = sample_ceremony_db, sys_tick = 0\<rparr> = (Inr (FinishAuthenticated ctx), s')"
    using sample_sign_in by blast
  have reach: "store_reachable (sys_db \<lparr>sys_db = sample_ceremony_db, sys_tick = 0\<rparr>)" using sample_ceremony_reachable by simp
  have "env_now (world_store sample_world (sys_tick \<lparr>sys_db = sample_ceremony_db, sys_tick = 0\<rparr>)) = 3"
    by (simp add: sample_env_def)
  then show ?thesis
    using passkey_authentication_sound [OF sample_interference reach run refl] run sample_ceremony_reachable by metis
qed

end
