(* ===== verification/Fabric_Kms.thy ===== *)
theory Fabric_Kms
  imports Fabric_Passkeys
begin

text \<open>
  The key provider of \<open>fcp-fabric-service/src/aws_kms.rs\<close>: data keys wrapped by the key management service
  and stored as envelopes.  The service is the argument \<open>kms_client\<close>, whose calls take the number of the effect; the
  textual form of a UUID is the argument \<open>display\<close>.  The contract of the service, that
  decrypting what it generated under the same key and context gives the plaintext back, is \<open>kms_decrypts\<close>.
\<close>

subsection \<open>The provider\<close>

type_synonym encryption_context = "str \<rightharpoonup> str"

record kms_client =
  kms_generate_data_key :: "nat \<Rightarrow> str \<Rightarrow> encryption_context \<Rightarrow> (u8 list option \<times> u8 list option) option"
  kms_decrypt :: "nat \<Rightarrow> str \<Rightarrow> u8 list \<Rightarrow> encryption_context \<Rightarrow> u8 list option option"

definition encryption_context :: "totp_key_reference \<Rightarrow> encryption_context" where
  "encryption_context reference = [str_of ''fcp-fabric-purpose'' \<mapsto> str_of ''totp-data-key/v1'',
     str_of ''fcp-fabric-key-reference'' \<mapsto> key_reference_str reference]"

definition validate_wrapping_key_reference :: "str \<Rightarrow> totp_key_resolution_error + unit" where
  "validate_wrapping_key_reference s =
     (if s = [] \<or> str_len s > 2048 \<or> list_ex is_control s then Inl KeyProviderFailure else Inr ())"

definition data_key_from_plaintext :: "u8 list \<Rightarrow> totp_key_resolution_error + totp_data_encryption_key" where
  "data_key_from_plaintext plaintext = map_sum id TotpDataEncryptionKey (ok_or KeyProviderFailure (try_into plaintext))"

fun kms_map_store_error :: "store_error \<Rightarrow> totp_key_resolution_error" where
  "kms_map_store_error InvalidTotpDataKeyEnvelope = KeyProviderFailure"
| "kms_map_store_error _ = KeyUnavailable"

definition provision_data_key ::
  "kms_client \<Rightarrow> (uuid \<Rightarrow> str) \<Rightarrow> 'j world \<Rightarrow> str \<Rightarrow> timestamp \<Rightarrow> ('j, totp_key_resolution_error + totp_key_reference) run" where
  "provision_data_key C display W wrapping_key now =
     attempt (return (validate_wrapping_key_reference wrapping_key)) (\<lambda>_.
     attempt (tick (\<lambda>n. map_err (\<lambda>_. KeyProviderFailure)
       (totp_key_reference_new (str_of ''aws-kms:totp-dek:'' @ display (world_uuid W n))))) (\<lambda>reference.
     attempt (tick (\<lambda>n. ok_or KeyUnavailable (kms_generate_data_key C n wrapping_key (encryption_context reference)))) (\<lambda>output.
     attempt (return (and_then (ok_or KeyProviderFailure (fst output)) data_key_from_plaintext)) (\<lambda>key.
     attempt (return (ok_or KeyProviderFailure (snd output))) (\<lambda>ciphertext.
     if ciphertext = [] \<or> length ciphertext > 6144 then return (Inl KeyProviderFailure)
     else
       attempt (run_map (map_err kms_map_store_error) (store_call W (\<lambda>_. create_totp_data_key_envelope
         \<lparr>ce_reference = reference, ce_provider = ''aws_kms'', ce_wrapping_key = wrapping_key, ce_data_key = ciphertext,
          ce_created_at = now\<rparr>))) (\<lambda>_.
       return (Inr reference)))))))"

definition resolve_envelope_key ::
  "kms_client \<Rightarrow> 'j world \<Rightarrow> totp_key_reference \<Rightarrow> ('j, totp_key_resolution_error + totp_data_encryption_key) run" where
  "resolve_envelope_key C W reference =
     attempt (run_map (map_err kms_map_store_error) (store_read W (\<lambda>_. totp_data_key_envelope reference))) (\<lambda>found.
     case found of None \<Rightarrow> return (Inl KeyUnavailable)
     | Some envelope \<Rightarrow>
         if se_provider envelope \<noteq> ''aws_kms'' then return (Inl KeyUnavailable)
         else
           attempt (tick (\<lambda>n. ok_or KeyUnavailable (kms_decrypt C n (se_wrapping_key envelope) (se_data_key envelope)
             (encryption_context reference)))) (\<lambda>output.
           return (and_then (ok_or KeyProviderFailure output) data_key_from_plaintext)))"

definition aws_kms_provider :: "kms_client \<Rightarrow> 'j world \<Rightarrow> totp_key_reference \<Rightarrow> 'j totp_key_provider" where
  "aws_kms_provider C W active =
     \<lparr>provider_resolve = resolve_envelope_key C W,
      provider_active = attempt (resolve_envelope_key C W active) (\<lambda>key.
        return (Inr \<lparr>active_reference = active, active_key = key\<rparr>))\<rparr>"

subsection \<open>Store operations only\<close>

lemma resolve_envelope_key_steps [steps_intros]: "interference W \<Longrightarrow> only_steps (resolve_envelope_key C W reference)"
  unfolding resolve_envelope_key_def by (intro steps_intros)

lemma provision_data_key_steps [steps_intros]: "interference W \<Longrightarrow> only_steps (provision_data_key C display W wrapping_key now)"
  unfolding provision_data_key_def by (intro steps_intros)

lemma aws_kms_provider_steps [steps_intros]: "interference W \<Longrightarrow> provider_steps (aws_kms_provider C W active)"
  unfolding provider_steps_def aws_kms_provider_def totp_key_provider.simps by (intro conjI allI steps_intros)

subsection \<open>Envelopes are permanent\<close>

definition envelopes_for :: "totp_key_reference \<Rightarrow> 'j database \<Rightarrow> envelope_row list" where
  "envelopes_for reference db = filter (\<lambda>r. en_reference r = key_reference_str reference) (totp_data_key_envelopes db)"

lemma change_envelopes_for:
  "db_change db db' \<Longrightarrow> envelopes_for reference db \<noteq> [] \<Longrightarrow> envelopes_for reference db' = envelopes_for reference db"
proof (induction rule: db_change.induct)
  case (envelopes e db)
  have "en_reference e \<noteq> key_reference_str reference" using envelopes by (force simp: envelopes_for_def filter_empty_conv)
  then show ?case by (simp add: envelopes_for_def)
qed (simp_all add: envelopes_for_def)

lemma envelopes_for_steps:
  assumes "store_step\<^sup>*\<^sup>* db db'" and "store_ok db" and "envelopes_for reference db \<noteq> []"
  shows "envelopes_for reference db' = envelopes_for reference db"
  using assms(1)
proof (induction rule: rtranclp_induct)
  case (step y z)
  have "store_ok y" using step(1) assms(2) by (rule store_ok_steps)
  then show ?case using step assms(3) store_step_ok_change change_envelopes_for by metis
qed simp

lemma create_envelope_stores:
  assumes "create_totp_data_key_envelope q db = (Inr (), db')"
  shows "envelope_metadata_ok (ce_provider q) (ce_wrapping_key q) (ce_data_key q) \<and>
    envelopes_for (ce_reference q) db' = [\<lparr>en_reference = key_reference_str (ce_reference q), en_provider = ce_provider q,
      en_wrapping_key = ce_wrapping_key q, en_data_key = ce_data_key q, en_created_at = ce_created_at q\<rparr>]"
  using assms
  by (auto simp: create_totp_data_key_envelope_def transact_eq and_then_eq_Inr insert_envelope_def sql_insert_def envelopes_for_def
      filter_empty_conv image_iff split: if_splits) metis

subsection \<open>The contract of the key service\<close>

definition kms_decrypts :: "kms_client \<Rightarrow> bool" where
  "kms_decrypts C \<longleftrightarrow> (\<forall>n m key ctx plaintext ciphertext.
     kms_generate_data_key C n key ctx = Some (Some plaintext, Some ciphertext) \<longrightarrow> kms_decrypt C m key ciphertext ctx = Some (Some plaintext))"

lemma provision_data_key_ok:
  assumes "provision_data_key C display W wrapping_key now s = (Inr reference, s')"
  obtains n plaintext ciphertext key where
    "kms_generate_data_key C n wrapping_key (encryption_context reference) = Some (Some plaintext, Some ciphertext)"
    and "data_key_from_plaintext plaintext = Inr key"
    and "envelope_metadata_ok ''aws_kms'' wrapping_key ciphertext"
    and "envelopes_for reference (sys_db s') = [\<lparr>en_reference = key_reference_str reference, en_provider = ''aws_kms'',
      en_wrapping_key = wrapping_key, en_data_key = ciphertext, en_created_at = now\<rparr>]"
proof -
  have tick: "attempt (tick f) k x = (Inr y, x') \<longleftrightarrow> (\<exists>v. f (sys_tick x) = Inr v \<and> k v (x\<lparr>sys_tick := Suc (sys_tick x)\<rparr>) = (Inr y, x'))"
    for f :: "nat \<Rightarrow> totp_key_resolution_error + 'b" and k :: "'b \<Rightarrow> ('a, totp_key_resolution_error + totp_key_reference) run" and x y x'
    by (auto simp: attempt_def bind_def tick_def return_def split: sum.splits)
  from assms obtain n generated key ciphertext t
    where "kms_generate_data_key C n wrapping_key (encryption_context reference) = Some generated"
      and "and_then (ok_or KeyProviderFailure (fst generated)) data_key_from_plaintext = Inr key"
      and out: "snd generated = Some ciphertext"
      and call: "create_totp_data_key_envelope \<lparr>ce_reference = reference, ce_provider = ''aws_kms'', ce_wrapping_key = wrapping_key,
        ce_data_key = ciphertext, ce_created_at = now\<rparr> t = (Inr (), sys_db s')"
    unfolding provision_data_key_def attempt_return_eq tick
    by (auto simp: ok_or_eq_Inr run_map_err_eq store_call_eq return_eq split: if_splits)
  moreover from this(2) obtain plaintext where "fst generated = Some plaintext" "data_key_from_plaintext plaintext = Inr key"
    by (auto simp: and_then_eq_Inr ok_or_eq_Inr)
  ultimately show thesis using that create_envelope_stores [OF call] by (cases generated) simp
qed

definition sample_kms :: kms_client where
  "sample_kms = \<lparr>kms_generate_data_key = (\<lambda>n key ctx. Some (Some (replicate 32 1), Some [1])),
     kms_decrypt = (\<lambda>n key ciphertext ctx. Some (Some (replicate 32 1)))\<rparr>"

abbreviation sample_start :: "unit system" where
  "sample_start \<equiv> \<lparr>sys_db = sample_active, sys_tick = 0\<rparr>"

lemma sample_provisioned:
  "\<exists>reference s'. provision_data_key sample_kms (\<lambda>_. [48]) sample_world [107] 3 sample_start = (Inr reference, s')"
proof -
  have "(try_into (replicate 32 1) :: 32 bytes option) = Some (filled 1)" by simp
  then show ?thesis
    by (simp add: provision_data_key_def sample_kms_def attempt_def bind_def return_def tick_def run_map_def store_call_def map_err_def
        ok_or_def and_then_def validate_wrapping_key_reference_def totp_key_reference_new_def data_key_from_plaintext_def
        create_totp_data_key_envelope_def envelope_metadata_ok_def insert_envelope_def sql_insert_def transact_def sample_active_def
        sample_db_def empty_database_def str_len_def str_bytes_def utf8_def str_of_def is_control_def del: try_into_eq_Some)
qed

text \<open>
  C36.  Provisioning returns a reference that resolves, in every later state of the store and under any
  interleaving, to the 256-bit data key the key service generated for it: envelopes are never changed or
  removed, and the key service is asked to decrypt under the same wrapping key and encryption context it generated with.
\<close>
theorem kms_provisioned_key_resolves:
  assumes "interference W" and "interference W'" and "kms_decrypts C" and "store_reachable (sys_db s)"
    and "provision_data_key C display W wrapping_key now s = (Inr reference, s')"
    and "store_step\<^sup>*\<^sup>* (sys_db s') (sys_db u)"
  shows "\<exists>n plaintext ciphertext key.
    kms_generate_data_key C n wrapping_key (encryption_context reference) = Some (Some plaintext, Some ciphertext) \<and>
    plaintext = bytes_list (dek_bytes key) \<and> fst (resolve_envelope_key C W' reference u) = Inr key"
proof -
  let ?db = "world_others W' (sys_tick u) (sys_db u)"
  from assms(5) obtain n plaintext ciphertext key where
    gen: "kms_generate_data_key C n wrapping_key (encryption_context reference) = Some (Some plaintext, Some ciphertext)"
    and key: "data_key_from_plaintext plaintext = Inr key" and meta: "envelope_metadata_ok ''aws_kms'' wrapping_key ciphertext"
    and row: "envelopes_for reference (sys_db s') = [\<lparr>en_reference = key_reference_str reference, en_provider = ''aws_kms'',
      en_wrapping_key = wrapping_key, en_data_key = ciphertext, en_created_at = now\<rparr>]"
    by (rule provision_data_key_ok)
  have "store_ok (sys_db s')"
    using only_stepsD [OF provision_data_key_steps [OF assms(1)] assms(5)] store_reachable_ok [OF assms(4)] by (rule store_ok_steps)
  moreover have "store_step\<^sup>*\<^sup>* (sys_db s') ?db" using assms(6) interferenceD [OF assms(2)] by (rule rtranclp_trans)
  ultimately have "envelopes_for reference ?db = envelopes_for reference (sys_db s')"
    using row by (intro envelopes_for_steps) simp_all
  then have "totp_data_key_envelope reference ?db = Inr (Some \<lparr>se_reference = reference, se_provider = ''aws_kms'',
      se_wrapping_key = wrapping_key, se_data_key = ciphertext\<rparr>)"
    using meta row by (simp add: totp_data_key_envelope_def envelopes_for_def fetch_optional_def transpose_map_def and_then_def)
  moreover have "kms_decrypt C m wrapping_key ciphertext (encryption_context reference) = Some (Some plaintext)" for m
    using assms(3) gen by (simp add: kms_decrypts_def)
  ultimately have "fst (resolve_envelope_key C W' reference u) = Inr key"
    using key by (simp add: resolve_envelope_key_def attempt_def bind_def return_def run_map_def store_read_def store_call_def tick_def
        map_err_def ok_or_def and_then_def)
  moreover have "plaintext = bytes_list (dek_bytes key)"
    using key by (auto simp: data_key_from_plaintext_def ok_or_def split: option.splits)
  ultimately show ?thesis using gen by blast
qed

theorem kms_provisioned_key_resolves_witness:
  "kms_decrypts sample_kms \<and> (\<exists>reference s' key.
     provision_data_key sample_kms (\<lambda>_. [48]) sample_world [107] 3 sample_start = (Inr reference, s') \<and>
     fst (resolve_envelope_key sample_kms sample_world reference s') = Inr key)"
proof -
  obtain reference s' where run: "provision_data_key sample_kms (\<lambda>_. [48]) sample_world [107] 3 sample_start = (Inr reference, s')"
    using sample_provisioned by blast
  have kms: "kms_decrypts sample_kms" by (simp add: kms_decrypts_def sample_kms_def)
  have reach: "store_reachable (sys_db sample_start)" using sample_reachable by simp
  show ?thesis
    using kms_provisioned_key_resolves [OF sample_interference sample_interference kms reach run rtranclp.rtrancl_refl] run kms by blast
qed

end
