(* ===== verification/Fabric_Http.thy ===== *)
theory Fabric_Http
  imports Fabric_Kms
begin

text \<open>
  The HTTP boundary of \<open>fcp-fabric-service\<close> without its routes: cookies, cross-site request proofs and
  denials (\<open>transport/browser.rs\<close>), the host guard, request ids and response headers
  (\<open>transport/middleware.rs\<close>).  Every third-party function the transport uses is a field of \<open>externals\<close>.
  A header value is a list of bytes; \<open>header_to_str\<close> is its text when it has one, and \<open>header_value_ok\<close> is
  whether a text is a legal value.
\<close>

subsection \<open>Third-party functions\<close>

record ('p, 'j, 'v) externals =
  ext_passwords :: "'p password_primitives"
  ext_tokens :: token_primitives
  ext_totp :: totp_primitives
  ext_webauthn :: "('j, 'v) webauthn_library"
  ext_federation :: "'j federation_primitives"
  ext_crypto :: crypto
  ext_idna :: "str \<Rightarrow> str option"
  header_to_str :: "u8 list \<Rightarrow> str option"
  header_value_ok :: "str \<Rightarrow> bool"
  uuid_parse :: "str \<Rightarrow> uuid option"
  rfc3339_parse :: "str \<Rightarrow> timestamp option"
  rfc3339_format :: "timestamp \<Rightarrow> str option"

subsection \<open>Requests and responses\<close>

type_synonym header_map = "(string \<times> u8 list) list"

definition header_all :: "header_map \<Rightarrow> string \<Rightarrow> u8 list list" where
  "header_all headers name = map snd (filter (\<lambda>h. fst h = name) headers)"

definition header_get :: "header_map \<Rightarrow> string \<Rightarrow> u8 list option" where
  "header_get headers name = (case header_all headers name of [] \<Rightarrow> None | v # _ \<Rightarrow> Some v)"

datatype 'v response_body =
    NoBody
  | LoginStatus string
  | SessionStatus string str
  | TotpProvisioning string str
  | CreatedAccount str
  | ChallengeJson 'v
  | Readiness string string

record 'v response =
  resp_status :: nat
  resp_cookies :: "str list"
  resp_headers :: "(string \<times> str) list"
  resp_body :: "'v response_body"

definition respond :: "nat \<Rightarrow> 'v response_body \<Rightarrow> 'v response" where
  "respond status body = \<lparr>resp_status = status, resp_cookies = [], resp_headers = [], resp_body = body\<rparr>"

abbreviation status_only :: "nat \<Rightarrow> 'v response" where
  "status_only status \<equiv> respond status NoBody"

text \<open>\<open>HeaderMap::insert\<close> replaces the values of a name.\<close>

definition insert_header :: "string \<Rightarrow> str \<Rightarrow> 'v response \<Rightarrow> 'v response" where
  "insert_header name content r = r\<lparr>resp_headers := filter (\<lambda>h. fst h \<noteq> name) (resp_headers r) @ [(name, content)]\<rparr>"

subsection \<open>Cookies\<close>

definition LOGIN_TRANSACTION_COOKIE :: str where "LOGIN_TRANSACTION_COOKIE = str_of ''__Host-fabric-login''"
definition LOGIN_BINDING_COOKIE :: str where "LOGIN_BINDING_COOKIE = str_of ''__Host-fabric-binding''"
definition LOGIN_CSRF_COOKIE :: str where "LOGIN_CSRF_COOKIE = str_of ''__Host-fabric-csrf''"
definition REFRESH_COOKIE :: str where "REFRESH_COOKIE = str_of ''__Host-fabric-refresh''"
definition ACCESS_COOKIE :: str where "ACCESS_COOKIE = str_of ''__Host-fabric-access''"
definition STEP_UP_COOKIE :: str where "STEP_UP_COOKIE = str_of ''__Secure-fabric-step-up''"
definition SESSION_CSRF_COOKIE :: str where "SESSION_CSRF_COOKIE = str_of ''__Host-fabric-session-csrf''"
definition WEBAUTHN_CEREMONY_COOKIE :: str where "WEBAUTHN_CEREMONY_COOKIE = str_of ''__Host-fabric-webauthn''"
definition WEBAUTHN_BINDING_COOKIE :: str where "WEBAUTHN_BINDING_COOKIE = str_of ''__Host-fabric-webauthn-binding''"
definition WEBAUTHN_CSRF_COOKIE :: str where "WEBAUTHN_CSRF_COOKIE = str_of ''__Host-fabric-webauthn-csrf''"
definition CSRF_HEADER :: string where "CSRF_HEADER = ''x-fabric-csrf''"

definition is_opaque_browser_token :: "str \<Rightarrow> bool" where
  "is_opaque_browser_token s \<longleftrightarrow>
     str_len s = 43 \<and> list_all (\<lambda>b. is_ascii_alphanumeric b \<or> b = 45 \<or> b = 95) (str_bytes s)"

definition cookie_matches :: "('p, 'j, 'v) externals \<Rightarrow> header_map \<Rightarrow> str \<Rightarrow> str list" where
  "cookie_matches X headers name =
     map snd (filter (\<lambda>(candidate, content). candidate = name \<and> is_opaque_browser_token content)
       (List.map_filter (split_once 61)
         (map trim (concat (map (split_on 59) (List.map_filter (header_to_str X) (header_all headers ''cookie'')))))))"

definition browser_cookie :: "('p, 'j, 'v) externals \<Rightarrow> header_map \<Rightarrow> str \<Rightarrow> str option" where
  "browser_cookie X headers name = (case cookie_matches X headers name of [content] \<Rightarrow> Some content | _ \<Rightarrow> None)"

definition csrf_proof_is_valid :: "('p, 'j, 'v) externals \<Rightarrow> header_map \<Rightarrow> str \<Rightarrow> bool" where
  "csrf_proof_is_valid X headers cookie_name =
     (case browser_cookie X headers cookie_name of None \<Rightarrow> False
      | Some cookie \<Rightarrow>
          (case Option.bind (header_get headers CSRF_HEADER) (header_to_str X) of None \<Rightarrow> False
           | Some proof \<Rightarrow> is_opaque_browser_token proof \<and> proof = cookie))"

definition issue_browser_csrf_token :: "('p, 'j, 'v) externals \<Rightarrow> 'j world \<Rightarrow> ('j, str) run" where
  "issue_browser_csrf_token X W = run_map (\<lambda>bytes. base64_url (ext_tokens X) (bytes_list bytes)) (tick (world_random W))"

definition http_only_suffix :: "bool \<Rightarrow> str" where
  "http_only_suffix http_only = (if http_only then str_of ''; HttpOnly'' else [])"

definition webauthn_cookie :: "str \<Rightarrow> str \<Rightarrow> bool \<Rightarrow> str" where
  "webauthn_cookie name content http_only =
     name @ str_of ''='' @ content @ str_of ''; Path=/; Max-Age=300; Secure; SameSite=Strict'' @ http_only_suffix http_only"

definition login_cookie :: "str \<Rightarrow> str \<Rightarrow> str" where
  "login_cookie name content =
     name @ str_of ''='' @ content @ str_of ''; Path=/; Max-Age=300; Secure; HttpOnly; SameSite=Strict''"

definition csrf_cookie :: "str \<Rightarrow> str" where
  "csrf_cookie content =
     LOGIN_CSRF_COOKIE @ str_of ''='' @ content @ str_of ''; Path=/; Max-Age=300; Secure; SameSite=Strict''"

definition refresh_cookie :: "str \<Rightarrow> str" where
  "refresh_cookie content =
     REFRESH_COOKIE @ str_of ''='' @ content @ str_of ''; Path=/; Max-Age=2592000; Secure; HttpOnly; SameSite=Strict''"

definition step_up_cookie :: "str \<Rightarrow> str" where
  "step_up_cookie content =
     STEP_UP_COOKIE @ str_of ''='' @ content @ str_of ''; Path=/v1/admin/accounts; Max-Age=300; Secure; HttpOnly; SameSite=Strict''"

definition access_cookie :: "str \<Rightarrow> str" where
  "access_cookie content =
     ACCESS_COOKIE @ str_of ''='' @ content @ str_of ''; Path=/; Max-Age=900; Secure; HttpOnly; SameSite=Strict''"

definition session_csrf_cookie :: "str \<Rightarrow> str" where
  "session_csrf_cookie content =
     SESSION_CSRF_COOKIE @ str_of ''='' @ content @ str_of ''; Path=/; Max-Age=2592000; Secure; SameSite=Strict''"

definition append_cookies :: "str list \<Rightarrow> 'v response \<Rightarrow> 'v response" where
  "append_cookies cookies r = r\<lparr>resp_cookies := resp_cookies r @ cookies\<rparr>"

text \<open>The three loops that clear cookies differ in their names only.\<close>

definition clear_cookies :: "('p, 'j, 'v) externals \<Rightarrow> (str \<times> bool) list \<Rightarrow> 'v response \<Rightarrow> 'v response" where
  "clear_cookies X names r = append_cookies (filter (header_value_ok X)
     (map (\<lambda>(name, http_only). name @ str_of ''=; Path=/; Max-Age=0; Secure; SameSite=Strict'' @ http_only_suffix http_only) names)) r"

definition clear_webauthn_cookies :: "('p, 'j, 'v) externals \<Rightarrow> 'v response \<Rightarrow> 'v response" where
  "clear_webauthn_cookies X =
     clear_cookies X [(WEBAUTHN_CEREMONY_COOKIE, True), (WEBAUTHN_BINDING_COOKIE, True), (WEBAUTHN_CSRF_COOKIE, False)]"

definition clear_login_cookies :: "('p, 'j, 'v) externals \<Rightarrow> 'v response \<Rightarrow> 'v response" where
  "clear_login_cookies X =
     clear_cookies X [(LOGIN_TRANSACTION_COOKIE, True), (LOGIN_BINDING_COOKIE, True), (LOGIN_CSRF_COOKIE, False)]"

definition clear_session_cookies :: "('p, 'j, 'v) externals \<Rightarrow> 'v response \<Rightarrow> 'v response" where
  "clear_session_cookies X = clear_cookies X [(REFRESH_COOKIE, True), (ACCESS_COOKIE, True), (SESSION_CSRF_COOKIE, False)]"

definition clear_step_up_cookie :: "('p, 'j, 'v) externals \<Rightarrow> 'v response \<Rightarrow> 'v response" where
  "clear_step_up_cookie X r = append_cookies (filter (header_value_ok X)
     [STEP_UP_COOKIE @ str_of ''=; Path=/v1/admin/accounts; Max-Age=0; Secure; HttpOnly; SameSite=Strict'']) r"

definition generic_login_denial :: "'v response" where
  "generic_login_denial = respond 401 (LoginStatus ''denied'')"

definition passkey_denial :: "('p, 'j, 'v) externals \<Rightarrow> 'v response" where
  "passkey_denial X = clear_webauthn_cookies X generic_login_denial"

definition login_flow_denial :: "('p, 'j, 'v) externals \<Rightarrow> 'v response" where
  "login_flow_denial X = clear_login_cookies X generic_login_denial"

definition session_refresh_denial :: "('p, 'j, 'v) externals \<Rightarrow> 'v response" where
  "session_refresh_denial X = clear_session_cookies X generic_login_denial"

definition step_up_required :: "('p, 'j, 'v) externals \<Rightarrow> 'v response" where
  "step_up_required X = clear_step_up_cookie X (status_only 428)"

subsection \<open>Middleware\<close>

definition rsplit_once :: "nat \<Rightarrow> str \<Rightarrow> (str \<times> str) option" where
  "rsplit_once c s = map_option (\<lambda>(a, b). (rev b, rev a)) (split_once c (rev s))"

definition strip_dot :: "str \<Rightarrow> str" where
  "strip_dot s = (if ends_with s 46 then butlast s else s)"

definition canonical_host :: "str \<Rightarrow> str option" where
  "canonical_host s =
     (case (case rsplit_once 58 s of
              Some (host, port) \<Rightarrow> if port \<noteq> [] \<and> list_all is_ascii_digit (str_bytes port) then Some host else None
            | None \<Rightarrow> Some s) of
        None \<Rightarrow> None
      | Some host \<Rightarrow>
          let host = strip_dot host in
          if host = [] \<or> \<not> is_ascii host \<or> 58 \<in> set host then None else Some (to_ascii_lowercase host))"

definition host_accepted :: "('p, 'j, 'v) externals \<Rightarrow> domain_name \<Rightarrow> header_map \<Rightarrow> bool" where
  "host_accepted X public_domain headers \<longleftrightarrow>
     Option.bind (Option.bind (header_get headers ''host'') (header_to_str X)) canonical_host = Some (domain_str public_domain)"

definition is_safe_request_id :: "str \<Rightarrow> bool" where
  "is_safe_request_id s \<longleftrightarrow> s \<noteq> [] \<and> str_len s \<le> 128 \<and>
     list_all (\<lambda>b. is_ascii_alphanumeric b \<or> b = 45 \<or> b = 95 \<or> b = 46) (str_bytes s)"

definition supplied_request_id :: "('p, 'j, 'v) externals \<Rightarrow> header_map \<Rightarrow> str option" where
  "supplied_request_id X headers =
     (case Option.bind (header_get headers ''x-request-id'') (header_to_str X) of
        Some s \<Rightarrow> if is_safe_request_id s then Some s else None
      | None \<Rightarrow> None)"

definition request_correlation ::
  "('p, 'j, 'v) externals \<Rightarrow> 'j world \<Rightarrow> header_map \<Rightarrow> ('j, 'v response) run \<Rightarrow> ('j, 'v response) run" where
  "request_correlation X W headers run_next =
     bind (case supplied_request_id X headers of Some s \<Rightarrow> return s
           | None \<Rightarrow> run_map (uuid_display (ext_totp X)) (tick (world_uuid W))) (\<lambda>request_id.
     run_map (\<lambda>r. if header_value_ok X request_id then insert_header ''x-request-id'' request_id r else r) run_next)"

definition security_headers :: "bool \<Rightarrow> 'v response \<Rightarrow> 'v response" where
  "security_headers enable_hsts r =
     (let r = insert_header ''cache-control'' (str_of ''no-store'') r;
          r = insert_header ''content-security-policy''
                (str_of ''default-src 'none'; base-uri 'none'; frame-ancestors 'none'; form-action 'self'' @ [39]) r;
          r = insert_header ''cross-origin-opener-policy'' (str_of ''same-origin'') r;
          r = insert_header ''cross-origin-resource-policy'' (str_of ''same-origin'') r;
          r = insert_header ''referrer-policy'' (str_of ''no-referrer'') r;
          r = insert_header ''x-content-type-options'' (str_of ''nosniff'') r in
      if enable_hsts then insert_header ''strict-transport-security'' (str_of ''max-age=31536000; includeSubDomains'') r else r)"

definition host_guard ::
  "('p, 'j, 'v) externals \<Rightarrow> domain_name \<Rightarrow> header_map \<Rightarrow> ('j, 'v response) run \<Rightarrow> ('j, 'v response) run" where
  "host_guard X public_domain headers run_next =
     (if host_accepted X public_domain headers then run_next else return (status_only 421))"

end
