(* ===== verification/Fabric_Routes.thy ===== *)
theory Fabric_Routes
  imports Fabric_Http
begin

text \<open>
  The routes of \<open>fcp-fabric-service\<close> (\<open>transport.rs\<close> and \<open>transport/auth.rs\<close>, \<open>session.rs\<close>, \<open>admin.rs\<close>,
  \<open>passkeys.rs\<close>, \<open>federation.rs\<close>) and the whole request path through the middleware.  A route carries the
  path parameters and the body that the framework has extracted.
\<close>

subsection \<open>State\<close>

record 'j mfa_session_services =
  svc_totp_login :: "'j totp_key_provider"
  svc_totp_enrollment :: "'j totp_key_provider"
  svc_enrollment_issuer :: str
  svc_session_issuer :: session_service
  svc_session_rotator :: session_service
  svc_access_key :: token_digest_key
  svc_step_up :: step_up_service
  svc_step_up_totp :: "'j totp_key_provider"
  svc_webauthn :: webauthn_service

record 'j fabric_http_state =
  http_domain :: domain_name
  http_hsts :: bool
  http_login_flow :: "fabric_login_flow option"
  http_mfa_session :: "'j mfa_session_services option"
  http_federation :: "'j resolver option"

text \<open>\<open>match outcome { Ok(x) => x, Err(e) => return response }\<close>.\<close>

definition or_respond :: "('j, 'e + 'a) run \<Rightarrow> ('e \<Rightarrow> 'r) \<Rightarrow> ('a \<Rightarrow> ('j, 'r) run) \<Rightarrow> ('j, 'r) run" where
  "or_respond m h k = bind m (\<lambda>outcome. case outcome of Inl e \<Rightarrow> return (h e) | Inr x \<Rightarrow> k x)"

definition correlation :: "('p, 'j, 'v) externals \<Rightarrow> 'j world \<Rightarrow> string \<Rightarrow> ('j, str) run" where
  "correlation X W prefix = run_map (\<lambda>id. str_of prefix @ uuid_display (ext_totp X) id) (tick (world_uuid W))"

abbreviation now_utc :: "'j world \<Rightarrow> ('j, timestamp) run" where
  "now_utc W \<equiv> tick (world_clock W)"

definition parse_address :: "('p, 'j, 'v) externals \<Rightarrow> str \<Rightarrow> user_address option" where
  "parse_address X s = (case user_address_parse (to_nfc (ext_passwords X)) (ext_idna X) s of Inl _ \<Rightarrow> None | Inr a \<Rightarrow> Some a)"

subsection \<open>Sessions\<close>

definition authenticate_access ::
  "('p, 'j, 'v) externals \<Rightarrow> 'j world \<Rightarrow> 'j mfa_session_services \<Rightarrow> header_map \<Rightarrow>
   ('j, 'v response + authenticated_access_session) run" where
  "authenticate_access X W services headers =
     (if \<not> csrf_proof_is_valid X headers SESSION_CSRF_COOKIE then return (Inl (status_only 403))
      else
        case browser_cookie X headers ACCESS_COOKIE of
          None \<Rightarrow> return (Inl (session_refresh_denial X))
        | Some access_token \<Rightarrow>
            run_map (\<lambda>outcome. case outcome of
                Inr (Some authenticated) \<Rightarrow> Inr authenticated
              | Inr None \<Rightarrow> Inl (session_refresh_denial X)
              | Inl _ \<Rightarrow> Inl (status_only 503))
              (access_authenticate (ext_tokens X) W (svc_access_key services) access_token))"

definition authenticate_admin ::
  "('p, 'j, 'v) externals \<Rightarrow> 'j world \<Rightarrow> 'j mfa_session_services \<Rightarrow> header_map \<Rightarrow> permission \<Rightarrow>
   ('j, 'v response + authenticated_access_session) run" where
  "authenticate_admin X W services headers permission =
     attempt (authenticate_access X W services headers) (\<lambda>authenticated.
     return (case authorization_require (session_context authenticated) permission of
        Inl _ \<Rightarrow> Inl (status_only 403) | Inr _ \<Rightarrow> Inr authenticated))"

definition actor_of :: "authenticated_access_session \<Rightarrow> bool \<Rightarrow> administration_actor" where
  "actor_of authenticated step_up_verified =
     \<lparr>actor_tenant = context_tenant (session_context authenticated), actor_account = context_account (session_context authenticated),
      actor_roles = context_roles (session_context authenticated), actor_step_up = step_up_verified,
      actor_state = context_state (session_context authenticated)\<rparr>"

definition browser_session_response ::
  "('p, 'j, 'v) externals \<Rightarrow> 'j world \<Rightarrow> issued_refresh_session \<Rightarrow> ('j, 'v response) run" where
  "browser_session_response X W session =
     (case rfc3339_format X (issued_expires_at session) of
        None \<Rightarrow> return (status_only 500)
      | Some session_expires_at \<Rightarrow>
          bind (issue_browser_csrf_token X W) (\<lambda>csrf.
          let cookies = [refresh_cookie (issued_refresh_token session), access_cookie (issued_access_token session),
                session_csrf_cookie csrf] in
          return (if \<not> list_all (header_value_ok X) cookies then status_only 500
            else append_cookies cookies (respond 200 (SessionStatus ''authenticated'' session_expires_at)))))"

definition refresh_session_route ::
  "('p, 'j, 'v) externals \<Rightarrow> 'j world \<Rightarrow> 'j fabric_http_state \<Rightarrow> header_map \<Rightarrow> ('j, 'v response) run" where
  "refresh_session_route X W state headers =
     (case http_mfa_session state of None \<Rightarrow> return (status_only 404)
      | Some services \<Rightarrow>
          (case browser_cookie X headers REFRESH_COOKIE of None \<Rightarrow> return (session_refresh_denial X)
           | Some refresh_token \<Rightarrow>
               if \<not> csrf_proof_is_valid X headers SESSION_CSRF_COOKIE then return (status_only 403)
               else
                 bind (correlation X W ''http-refresh-'') (\<lambda>correlation_id.
                 bind (now_utc W) (\<lambda>now.
                 or_respond (session_rotate (ext_tokens X) W (svc_session_rotator services) refresh_token correlation_id now)
                   (\<lambda>_. status_only 503) (\<lambda>outcome.
                 case outcome of
                   SessionRotated session \<Rightarrow> browser_session_response X W session
                 | SessionReuseDetected \<Rightarrow> return (session_refresh_denial X)
                 | SessionDenied \<Rightarrow> return (session_refresh_denial X))))))"

definition issue_browser_session ::
  "('p, 'j, 'v) externals \<Rightarrow> 'j world \<Rightarrow> session_service \<Rightarrow> authorization_context \<Rightarrow> str \<Rightarrow> ('j, 'v response) run" where
  "issue_browser_session X W issuer ctx correlation_id =
     bind (now_utc W) (\<lambda>now.
     or_respond (session_issue (ext_tokens X) W issuer ctx correlation_id now) (\<lambda>_. status_only 503) (\<lambda>session.
     run_map (clear_login_cookies X) (browser_session_response X W session)))"

subsection \<open>Login\<close>

definition start_password_login_route ::
  "('p, 'j, 'v) externals \<Rightarrow> 'j world \<Rightarrow> 'j fabric_http_state \<Rightarrow> str \<Rightarrow> str \<Rightarrow> ('j, 'v response) run" where
  "start_password_login_route X W state address password =
     (case http_login_flow state of None \<Rightarrow> return (status_only 404)
      | Some flow \<Rightarrow>
          (case parse_address X address of None \<Rightarrow> return generic_login_denial
           | Some address \<Rightarrow>
               bind (correlation X W ''http-login-'') (\<lambda>correlation_id.
               bind (now_utc W) (\<lambda>now.
               or_respond (start_password_login (ext_passwords X) (ext_tokens X) W flow address password correlation_id now)
                 (\<lambda>_. status_only 503) (\<lambda>outcome.
               case outcome of
                 FlowDenied \<Rightarrow> return generic_login_denial
               | FlowPending challenge \<Rightarrow>
                   bind (issue_browser_csrf_token X W) (\<lambda>csrf.
                   let cookies = [login_cookie LOGIN_TRANSACTION_COOKIE (transaction_token (challenge_transaction challenge)),
                         login_cookie LOGIN_BINDING_COOKIE (challenge_binding challenge), csrf_cookie csrf] in
                   return (if list_all (header_value_ok X) cookies
                     then append_cookies cookies (respond 202 (LoginStatus ''accepted'')) else status_only 500)))))))"

text \<open>The four continuations of a login begin with the same guards and consume the transaction for their stage.\<close>

definition consume_failure :: "('p, 'j, 'v) externals \<Rightarrow> fabric_login_flow_error \<Rightarrow> 'v response" where
  "consume_failure X e =
     (if e = FlowTransaction (LoginTransactionStore InvalidOrExpiredLoginTransaction) then login_flow_denial X else status_only 503)"

definition with_login_transaction ::
  "('p, 'j, 'v) externals \<Rightarrow> 'j world \<Rightarrow> 'j fabric_http_state \<Rightarrow> header_map \<Rightarrow> string \<Rightarrow> login_stage \<Rightarrow>
   (fabric_login_flow \<Rightarrow> 'j mfa_session_services \<Rightarrow> str \<Rightarrow> str \<Rightarrow> login_transaction_record \<Rightarrow> ('j, 'v response) run) \<Rightarrow>
   ('j, 'v response) run" where
  "with_login_transaction X W state headers prefix stage k =
     (case (http_login_flow state, http_mfa_session state) of
        (Some flow, Some services) \<Rightarrow>
          (case browser_cookie X headers LOGIN_TRANSACTION_COOKIE of None \<Rightarrow> return (login_flow_denial X)
           | Some token \<Rightarrow>
               (case browser_cookie X headers LOGIN_BINDING_COOKIE of None \<Rightarrow> return (login_flow_denial X)
                | Some binding_token \<Rightarrow>
                    if \<not> csrf_proof_is_valid X headers LOGIN_CSRF_COOKIE then return (status_only 403)
                    else
                      bind (correlation X W prefix) (\<lambda>correlation_id.
                      or_respond (consume_next_step (ext_tokens X) W flow token binding_token stage correlation_id)
                        (consume_failure X) (\<lambda>transaction.
                      k flow services binding_token correlation_id transaction))))
      | _ \<Rightarrow> return (status_only 404))"

definition begin_totp_enrollment_route ::
  "('p, 'j, 'v) externals \<Rightarrow> 'j world \<Rightarrow> 'j fabric_http_state \<Rightarrow> header_map \<Rightarrow> ('j, 'v response) run" where
  "begin_totp_enrollment_route X W state headers =
     with_login_transaction X W state headers ''http-totp-enroll-begin-'' MfaEnrollment
       (\<lambda>flow services binding_token correlation_id transaction.
       or_respond (totp_enrollment_begin (ext_totp X) (to_nfc (ext_passwords X)) (ext_idna X) (svc_totp_enrollment services) W
           (svc_enrollment_issuer services) (lr_tenant transaction) (lr_account transaction) correlation_id)
         (\<lambda>_. status_only 503) (\<lambda>enrollment.
       bind (now_utc W) (\<lambda>now.
       or_respond (begin_totp_enrollment_confirmation (ext_tokens X) W flow (lr_tenant transaction) (lr_account transaction)
           (pending_factor_id enrollment) binding_token correlation_id now)
         (\<lambda>_. status_only 503) (\<lambda>confirmation.
       bind (issue_browser_csrf_token X W) (\<lambda>csrf.
       let cookies = [login_cookie LOGIN_TRANSACTION_COOKIE (transaction_token confirmation),
             login_cookie LOGIN_BINDING_COOKIE binding_token, csrf_cookie csrf] in
       return (if \<not> list_all (header_value_ok X) cookies then status_only 500
         else append_cookies cookies (respond 201 (TotpProvisioning ''provisioning'' (pending_uri enrollment)))))))))"

definition confirm_totp_enrollment_route ::
  "('p, 'j, 'v) externals \<Rightarrow> 'j world \<Rightarrow> 'j fabric_http_state \<Rightarrow> header_map \<Rightarrow> str \<Rightarrow> ('j, 'v response) run" where
  "confirm_totp_enrollment_route X W state headers code =
     with_login_transaction X W state headers ''http-totp-enroll-confirm-'' MfaEnrollment
       (\<lambda>flow services binding_token correlation_id transaction.
       case lr_factor transaction of None \<Rightarrow> return (login_flow_denial X)
       | Some factor \<Rightarrow>
           bind (now_utc W) (\<lambda>now.
           or_respond (totp_enrollment_confirm (ext_totp X) (svc_totp_enrollment services) W (lr_tenant transaction)
               (lr_account transaction) factor code correlation_id now)
             (\<lambda>_. status_only 503) (\<lambda>outcome.
           case outcome of
             EnrollmentAuthenticated ctx \<Rightarrow> issue_browser_session X W (svc_session_issuer services) ctx correlation_id
           | EnrollmentDenied \<Rightarrow> return (login_flow_denial X))))"

definition totp_login_continue ::
  "('p, 'j, 'v) externals \<Rightarrow> 'j world \<Rightarrow> 'j mfa_session_services \<Rightarrow> str \<Rightarrow> login_transaction_record \<Rightarrow> str \<Rightarrow> ('j, 'v response) run" where
  "totp_login_continue X W services correlation_id transaction code =
     bind (now_utc W) (\<lambda>now.
     or_respond (totp_login_complete (ext_totp X) (svc_totp_login services) W (lr_tenant transaction) (lr_account transaction) code now)
       (\<lambda>_. status_only 503) (\<lambda>outcome.
     case outcome of
       TotpAuthenticated ctx \<Rightarrow> issue_browser_session X W (svc_session_issuer services) ctx correlation_id
     | TotpDenied \<Rightarrow> return (login_flow_denial X)))"

definition complete_totp_login_route ::
  "('p, 'j, 'v) externals \<Rightarrow> 'j world \<Rightarrow> 'j fabric_http_state \<Rightarrow> header_map \<Rightarrow> str \<Rightarrow> ('j, 'v response) run" where
  "complete_totp_login_route X W state headers code =
     with_login_transaction X W state headers ''http-totp-'' MfaChallenge
       (\<lambda>flow services binding_token correlation_id transaction.
         totp_login_continue X W services correlation_id transaction code)"

definition complete_password_only_login_route ::
  "('p, 'j, 'v) externals \<Rightarrow> 'j world \<Rightarrow> 'j fabric_http_state \<Rightarrow> header_map \<Rightarrow> ('j, 'v response) run" where
  "complete_password_only_login_route X W state headers =
     with_login_transaction X W state headers ''http-session-'' SessionIssuance
       (\<lambda>flow services binding_token correlation_id transaction.
       or_respond (store_read W (\<lambda>_. session_authorization_context (lr_tenant transaction) (lr_account transaction)))
         (\<lambda>_. status_only 503) (\<lambda>found.
       case found of
         Some ctx \<Rightarrow> issue_browser_session X W (svc_session_issuer services) ctx correlation_id
       | None \<Rightarrow> return (login_flow_denial X)))"

subsection \<open>Passkeys\<close>

definition passkey_challenge_response ::
  "('p, 'j, 'v) externals \<Rightarrow> 'j world \<Rightarrow> issued_webauthn_ceremony \<Rightarrow> 'v \<Rightarrow> ('j, 'v response) run" where
  "passkey_challenge_response X W ceremony challenge =
     bind (issue_browser_csrf_token X W) (\<lambda>csrf.
     let cookies = [webauthn_cookie WEBAUTHN_CEREMONY_COOKIE (ceremony_token ceremony) True,
           webauthn_cookie WEBAUTHN_BINDING_COOKIE (ceremony_binding ceremony) True,
           webauthn_cookie WEBAUTHN_CSRF_COOKIE csrf False] in
     return (if \<not> list_all (header_value_ok X) cookies then status_only 500
       else append_cookies cookies (respond 200 (ChallengeJson challenge))))"

definition passkey_failure :: "('p, 'j, 'v) externals \<Rightarrow> webauthn_service_error \<Rightarrow> 'v response" where
  "passkey_failure X e =
     (if e = WebauthnFailed \<or> e = WebauthnStore InvalidOrExpiredWebauthnCeremony then passkey_denial X else status_only 503)"

definition begin_passkey_login_route ::
  "('p, 'j, 'v) externals \<Rightarrow> 'j world \<Rightarrow> 'j fabric_http_state \<Rightarrow> str \<Rightarrow> ('j, 'v response) run" where
  "begin_passkey_login_route X W state address =
     (case http_mfa_session state of None \<Rightarrow> return (status_only 404)
      | Some services \<Rightarrow>
          (case parse_address X address of None \<Rightarrow> return (passkey_denial X)
           | Some address \<Rightarrow>
               bind (correlation X W ''http-passkey-login-begin-'') (\<lambda>correlation_id.
               bind (now_utc W) (\<lambda>now.
               or_respond (begin_authentication (ext_passwords X) (ext_tokens X) (ext_webauthn X) W (svc_webauthn services) address
                   correlation_id now)
                 (\<lambda>_. status_only 503) (\<lambda>outcome.
               case outcome of
                 BeginDenied \<Rightarrow> return (passkey_denial X)
               | BeginChallenge ceremony challenge _ \<Rightarrow> passkey_challenge_response X W ceremony challenge)))))"

definition finish_passkey_login_route ::
  "('p, 'j, 'v) externals \<Rightarrow> 'j world \<Rightarrow> 'j fabric_http_state \<Rightarrow> header_map \<Rightarrow> 'v \<Rightarrow> ('j, 'v response) run" where
  "finish_passkey_login_route X W state headers response =
     (case http_mfa_session state of None \<Rightarrow> return (status_only 404)
      | Some services \<Rightarrow>
          if \<not> csrf_proof_is_valid X headers WEBAUTHN_CSRF_COOKIE then return (status_only 403)
          else
            (case (browser_cookie X headers WEBAUTHN_CEREMONY_COOKIE, browser_cookie X headers WEBAUTHN_BINDING_COOKIE) of
               (Some token, Some binding) \<Rightarrow>
                 bind (correlation X W ''http-passkey-login-finish-'') (\<lambda>correlation_id.
                 or_respond (finish_authentication (ext_tokens X) (ext_webauthn X) W (svc_webauthn services) token binding response
                     correlation_id)
                   (passkey_failure X) (\<lambda>outcome.
                 case outcome of
                   FinishAuthenticated ctx \<Rightarrow>
                     run_map (clear_webauthn_cookies X) (issue_browser_session X W (svc_session_issuer services) ctx correlation_id)
                 | _ \<Rightarrow> return (passkey_denial X)))
             | _ \<Rightarrow> return (passkey_denial X)))"

definition begin_passkey_registration_route ::
  "('p, 'j, 'v) externals \<Rightarrow> 'j world \<Rightarrow> 'j fabric_http_state \<Rightarrow> header_map \<Rightarrow> str option \<Rightarrow> ('j, 'v response) run" where
  "begin_passkey_registration_route X W state headers label =
     (case http_mfa_session state of None \<Rightarrow> return (status_only 404)
      | Some services \<Rightarrow>
          or_respond (authenticate_access X W services headers) id (\<lambda>authenticated.
          bind (correlation X W ''http-passkey-registration-begin-'') (\<lambda>correlation_id.
          bind (now_utc W) (\<lambda>now.
          or_respond (begin_registration (to_nfc (ext_passwords X)) (ext_idna X) (ext_tokens X) (ext_webauthn X) W
              (svc_webauthn services) (context_tenant (session_context authenticated)) (context_account (session_context authenticated))
              label correlation_id now)
            (\<lambda>_. status_only 503) (\<lambda>outcome.
          case outcome of
            BeginDenied \<Rightarrow> return (status_only 403)
          | BeginChallenge ceremony challenge _ \<Rightarrow> passkey_challenge_response X W ceremony challenge)))))"

definition finish_passkey_registration_route ::
  "('p, 'j, 'v) externals \<Rightarrow> 'j world \<Rightarrow> 'j fabric_http_state \<Rightarrow> header_map \<Rightarrow> 'v \<Rightarrow> ('j, 'v response) run" where
  "finish_passkey_registration_route X W state headers response =
     (case http_mfa_session state of None \<Rightarrow> return (status_only 404)
      | Some services \<Rightarrow>
          or_respond (authenticate_access X W services headers) id (\<lambda>authenticated.
          if \<not> csrf_proof_is_valid X headers WEBAUTHN_CSRF_COOKIE then return (status_only 403)
          else
            (case (browser_cookie X headers WEBAUTHN_CEREMONY_COOKIE, browser_cookie X headers WEBAUTHN_BINDING_COOKIE) of
               (Some token, Some binding) \<Rightarrow>
                 bind (correlation X W ''http-passkey-registration-finish-'') (\<lambda>correlation_id.
                 or_respond (finish_registration (ext_tokens X) (ext_webauthn X) W (svc_webauthn services)
                     (context_tenant (session_context authenticated)) (context_account (session_context authenticated))
                     token binding response correlation_id)
                   (passkey_failure X) (\<lambda>outcome.
                 return (case outcome of
                   FinishRegistered \<Rightarrow> clear_webauthn_cookies X (status_only 204)
                 | _ \<Rightarrow> passkey_denial X)))
             | _ \<Rightarrow> return (passkey_denial X))))"

subsection \<open>Administration\<close>

definition administration_failure :: "store_error \<Rightarrow> 'v response" where
  "administration_failure e = (case e of Administration _ \<Rightarrow> status_only 403 | _ \<Rightarrow> status_only 503)"

definition invite_account_route ::
  "('p, 'j, 'v) externals \<Rightarrow> 'j world \<Rightarrow> 'j fabric_http_state \<Rightarrow> header_map \<Rightarrow> str \<Rightarrow> role \<Rightarrow> ('j, 'v response) run" where
  "invite_account_route X W state headers localpart initial_role =
     (case http_mfa_session state of None \<Rightarrow> return (status_only 404)
      | Some services \<Rightarrow>
          or_respond (authenticate_admin X W services headers ManageAccounts) id (\<lambda>authenticated.
          case localpart_parse (to_nfc (ext_passwords X)) localpart of
            Inl _ \<Rightarrow> return (status_only 422)
          | Inr localpart \<Rightarrow>
              bind (correlation X W ''http-admin-invite-'') (\<lambda>correlation_id.
              let command = \<lparr>invite_tenant = context_tenant (session_context authenticated), invite_localpart = localpart,
                    invite_role = initial_role, invite_actor = actor_of authenticated False, invite_correlation = correlation_id\<rparr> in
              or_respond (store_call W (\<lambda>E. invite_account E command)) administration_failure (\<lambda>account.
              return (respond 201 (CreatedAccount (uuid_display (ext_totp X) (account_uuid account))))))))"

definition begin_role_change_step_up_route ::
  "('p, 'j, 'v) externals \<Rightarrow> 'j world \<Rightarrow> 'j fabric_http_state \<Rightarrow> header_map \<Rightarrow> str \<Rightarrow> str \<Rightarrow> role \<Rightarrow> bool \<Rightarrow>
   ('j, 'v response) run" where
  "begin_role_change_step_up_route X W state headers account_id code role grant =
     (case http_mfa_session state of None \<Rightarrow> return (status_only 404)
      | Some services \<Rightarrow>
          or_respond (authenticate_admin X W services headers ManageRoles) id (\<lambda>authenticated.
          case uuid_parse X account_id of None \<Rightarrow> return (status_only 404)
          | Some target \<Rightarrow>
              bind (correlation X W ''http-admin-role-step-up-'') (\<lambda>correlation_id.
              bind (now_utc W) (\<lambda>now.
              or_respond (issue_role_change (ext_totp X) (ext_tokens X) (fed_sha256 (ext_federation X)) (svc_step_up_totp services) W
                  (svc_step_up services) (context_tenant (session_context authenticated)) (context_account (session_context authenticated))
                  (session_family authenticated) \<lparr>target_account = AccountId target, target_role = role, target_grant = grant\<rparr>
                  code correlation_id now)
                (\<lambda>_. status_only 503) (\<lambda>outcome.
              return (case outcome of
                 StepUpIssued issued \<Rightarrow>
                   let cookie = step_up_cookie (grant_token issued) in
                   if \<not> header_value_ok X cookie then status_only 500 else append_cookies [cookie] (status_only 204)
               | StepUpDenied \<Rightarrow> generic_login_denial))))))"

text \<open>The part of \<open>change_account_role\<close> that spends the grant and applies the command.\<close>

definition apply_role_change ::
  "('p, 'j, 'v) externals \<Rightarrow> 'j world \<Rightarrow> 'j mfa_session_services \<Rightarrow> authenticated_access_session \<Rightarrow> change_role_command \<Rightarrow> str \<Rightarrow>
   ('j, 'v response) run" where
  "apply_role_change X W services authenticated command step_up_token =
     or_respond (consume_role_change (ext_tokens X) (fed_sha256 (ext_federation X)) W (svc_step_up services)
         (context_tenant (session_context authenticated)) (context_account (session_context authenticated))
         (session_family authenticated)
         \<lparr>target_account = change_target command, target_role = change_role_of command, target_grant = change_grant command\<rparr>
         step_up_token (change_correlation command))
       (\<lambda>_. status_only 503) (\<lambda>accepted.
     if \<not> accepted then return (step_up_required X)
     else
       run_map (clear_step_up_cookie X)
         (or_respond (store_call W (\<lambda>E. change_role E command)) administration_failure (\<lambda>_. return (status_only 204))))"

definition change_account_role_route ::
  "('p, 'j, 'v) externals \<Rightarrow> 'j world \<Rightarrow> 'j fabric_http_state \<Rightarrow> header_map \<Rightarrow> str \<Rightarrow> role \<Rightarrow> bool \<Rightarrow> ('j, 'v response) run" where
  "change_account_role_route X W state headers account_id role grant =
     (case http_mfa_session state of None \<Rightarrow> return (status_only 404)
      | Some services \<Rightarrow>
          or_respond (authenticate_admin X W services headers ManageRoles) id (\<lambda>authenticated.
          case uuid_parse X account_id of None \<Rightarrow> return (status_only 404)
          | Some account \<Rightarrow>
              bind (correlation X W ''http-admin-role-'') (\<lambda>correlation_id.
              let command = \<lparr>change_tenant = context_tenant (session_context authenticated), change_target = AccountId account,
                    change_role_of = role, change_grant = grant, change_actor = actor_of authenticated True,
                    change_correlation = correlation_id\<rparr> in
              if change_role_validate command \<noteq> Inr () then return (status_only 403)
              else
                (case browser_cookie X headers STEP_UP_COOKIE of None \<Rightarrow> return (step_up_required X)
                 | Some step_up_token \<Rightarrow> apply_role_change X W services authenticated command step_up_token))))"

subsection \<open>Federation\<close>

record federation_delivery_request =
  fdr_source_domain :: str
  fdr_destination_domain :: str
  fdr_sender :: str
  fdr_recipient :: str
  fdr_request_id :: str
  fdr_issued_at :: str
  fdr_expires_at :: str
  fdr_payload :: str
  fdr_classical_public_key :: str
  fdr_post_quantum_public_key :: str
  fdr_classical_signature :: str
  fdr_post_quantum_signature :: str

definition parse_domain :: "('p, 'j, 'v) externals \<Rightarrow> str \<Rightarrow> domain_name option" where
  "parse_domain X s = (case domain_parse (ext_idna X) s of Inl _ \<Rightarrow> None | Inr d \<Rightarrow> Some d)"

definition into_signed :: "('p, 'j, 'v) externals \<Rightarrow> federation_delivery_request \<Rightarrow> signed_federation_delivery option" where
  "into_signed X q =
     Option.bind (parse_domain X (fdr_source_domain q)) (\<lambda>source.
     Option.bind (parse_domain X (fdr_destination_domain q)) (\<lambda>destination.
     Option.bind (parse_address X (fdr_sender q)) (\<lambda>sender.
     Option.bind (parse_address X (fdr_recipient q)) (\<lambda>recipient.
     Option.bind (uuid_parse X (fdr_request_id q)) (\<lambda>request_id.
     Option.bind (rfc3339_parse X (fdr_issued_at q)) (\<lambda>issued.
     Option.bind (rfc3339_parse X (fdr_expires_at q)) (\<lambda>expires.
     Option.bind (base64_url_decode (ext_federation X) (fdr_payload q)) (\<lambda>payload.
     Option.bind (decode_fixed (ext_federation X) (fdr_classical_public_key q)) (\<lambda>classical.
     Option.bind (decode_fixed (ext_federation X) (fdr_post_quantum_public_key q)) (\<lambda>post_quantum.
     Option.bind (decode_fixed (ext_federation X) (fdr_classical_signature q)) (\<lambda>classical_sig.
     Option.bind (decode_fixed (ext_federation X) (fdr_post_quantum_signature q)) (\<lambda>post_quantum_sig.
     Some \<lparr>signed_delivery = \<lparr>source_domain = source, destination_domain = destination, delivery_sender = sender,
             delivery_recipient = recipient, delivery_request = request_id, issued_at = issued, expires_at = expires,
             delivery_payload = payload\<rparr>,
           authority_identity = EndpointIdentity (EndpointKey classical) post_quantum,
           classical_signature = classical_sig, post_quantum_signature = post_quantum_sig\<rparr>))))))))))))"

fun ingress_failure :: "federation_ingress_error \<Rightarrow> 'v response" where
  "ingress_failure IngressRejected = status_only 401"
| "ingress_failure (IngressPolicy _) = status_only 401"
| "ingress_failure IngressResolver = status_only 503"
| "ingress_failure (IngressStore _) = status_only 503"

definition deliver_federation_route ::
  "('p, 'j, 'v) externals \<Rightarrow> 'j world \<Rightarrow> 'j fabric_http_state \<Rightarrow> str \<Rightarrow> federation_delivery_request \<Rightarrow> ('j, 'v response) run" where
  "deliver_federation_route X W state request_id q =
     (case http_federation state of None \<Rightarrow> return (status_only 404)
      | Some resolve \<Rightarrow>
          (case uuid_parse X request_id of None \<Rightarrow> return (status_only 400)
           | Some request_id \<Rightarrow>
               (case into_signed X q of None \<Rightarrow> return (status_only 400)
                | Some x \<Rightarrow>
                    if delivery_request (signed_delivery x) \<noteq> request_id then return (status_only 400)
                    else
                      bind (correlation X W ''http-federation-'') (\<lambda>correlation_id.
                      bind (now_utc W) (\<lambda>now.
                      or_respond (ingress_admit (ext_crypto X) (ext_federation X) W resolve x correlation_id now) ingress_failure
                        (\<lambda>outcome. return (case outcome of IngressAccepted \<Rightarrow> status_only 202 | IngressReplay \<Rightarrow> status_only 409)))))))"

subsection \<open>The router\<close>

datatype 'v route =
    Healthz
  | Readyz
  | Login str str
  | LoginTotp str
  | LoginSession
  | PasskeyLoginBegin str
  | PasskeyLoginFinish 'v
  | EnrollTotpBegin
  | EnrollTotpConfirm str
  | SessionRefresh
  | InviteAccount str role
  | PasskeyBegin "str option"
  | PasskeyFinish 'v
  | DeliverFederation str federation_delivery_request
  | ChangeRole str role bool
  | RoleStepUp str str role bool

fun handle ::
  "('p, 'j, 'v) externals \<Rightarrow> 'j world \<Rightarrow> 'j fabric_http_state \<Rightarrow> header_map \<Rightarrow> 'v route \<Rightarrow> ('j, 'v response) run" where
  "handle X W state headers Healthz = return (status_only 204)"
| "handle X W state headers Readyz = return (respond 200 (Readiness ''fcp-fabric'' ''transport-ready''))"
| "handle X W state headers (Login address password) = start_password_login_route X W state address password"
| "handle X W state headers (LoginTotp code) = complete_totp_login_route X W state headers code"
| "handle X W state headers LoginSession = complete_password_only_login_route X W state headers"
| "handle X W state headers (PasskeyLoginBegin address) = begin_passkey_login_route X W state address"
| "handle X W state headers (PasskeyLoginFinish response) = finish_passkey_login_route X W state headers response"
| "handle X W state headers EnrollTotpBegin = begin_totp_enrollment_route X W state headers"
| "handle X W state headers (EnrollTotpConfirm code) = confirm_totp_enrollment_route X W state headers code"
| "handle X W state headers SessionRefresh = refresh_session_route X W state headers"
| "handle X W state headers (InviteAccount localpart role) = invite_account_route X W state headers localpart role"
| "handle X W state headers (PasskeyBegin label) = begin_passkey_registration_route X W state headers label"
| "handle X W state headers (PasskeyFinish response) = finish_passkey_registration_route X W state headers response"
| "handle X W state headers (DeliverFederation request_id q) = deliver_federation_route X W state request_id q"
| "handle X W state headers (ChangeRole account role grant) = change_account_role_route X W state headers account role grant"
| "handle X W state headers (RoleStepUp account code role grant) =
     begin_role_change_step_up_route X W state headers account code role grant"

text \<open>The layers of \<open>router_inner\<close>, the outermost first.\<close>

definition serve ::
  "('p, 'j, 'v) externals \<Rightarrow> 'j world \<Rightarrow> 'j fabric_http_state \<Rightarrow> header_map \<Rightarrow> 'v route \<Rightarrow> ('j, 'v response) run" where
  "serve X W state headers route =
     host_guard X (http_domain state) headers (request_correlation X W headers
       (run_map (security_headers (http_hsts state)) (handle X W state headers route)))"

subsection \<open>Every request is a run of store operations\<close>

lemma or_respond_steps [steps_intros]: "only_steps m \<Longrightarrow> (\<And>x. only_steps (k x)) \<Longrightarrow> only_steps (or_respond m h k)"
  unfolding or_respond_def by (intro steps_intros) (auto intro: steps_intros split: sum.split)

lemma correlation_steps [steps_intros]: "only_steps (correlation X W prefix)"
  unfolding correlation_def by (intro steps_intros)

lemma csrf_token_steps [steps_intros]: "only_steps (issue_browser_csrf_token X W)"
  unfolding issue_browser_csrf_token_def by (intro steps_intros)

lemma authenticate_access_steps [steps_intros]: "interference W \<Longrightarrow> only_steps (authenticate_access X W services headers)"
  unfolding authenticate_access_def by (intro steps_intros)

lemma authenticate_admin_steps [steps_intros]: "interference W \<Longrightarrow> only_steps (authenticate_admin X W services headers permission)"
  unfolding authenticate_admin_def by (intro steps_intros)

lemma browser_session_response_steps [steps_intros]: "only_steps (browser_session_response X W session)"
  unfolding browser_session_response_def by (intro steps_intros)

lemma case_rotation_steps [steps_intros]:
  "(\<And>x. only_steps (h x)) \<Longrightarrow> only_steps m \<Longrightarrow> only_steps m' \<Longrightarrow>
   only_steps (case v of SessionRotated x \<Rightarrow> h x | SessionReuseDetected \<Rightarrow> m | SessionDenied \<Rightarrow> m')"
  by (cases v) simp_all

lemma case_flow_steps [steps_intros]:
  "only_steps m \<Longrightarrow> (\<And>x. only_steps (k x)) \<Longrightarrow> only_steps (case v of FlowDenied \<Rightarrow> m | FlowPending x \<Rightarrow> k x)"
  by (cases v) simp_all

lemma case_enrollment_steps [steps_intros]:
  "only_steps m \<Longrightarrow> (\<And>x. only_steps (k x)) \<Longrightarrow> only_steps (case v of EnrollmentDenied \<Rightarrow> m | EnrollmentAuthenticated x \<Rightarrow> k x)"
  by (cases v) simp_all

lemma case_begin_steps [steps_intros]:
  "only_steps m \<Longrightarrow> (\<And>x y z. only_steps (k x y z)) \<Longrightarrow> only_steps (case v of BeginDenied \<Rightarrow> m | BeginChallenge x y z \<Rightarrow> k x y z)"
  by (cases v) simp_all

lemma case_finish_steps [steps_intros]:
  "only_steps m \<Longrightarrow> only_steps m' \<Longrightarrow> (\<And>x. only_steps (k x)) \<Longrightarrow>
   only_steps (case v of FinishDenied \<Rightarrow> m | FinishRegistered \<Rightarrow> m' | FinishAuthenticated x \<Rightarrow> k x)"
  by (cases v) simp_all

lemma case_two_options_steps [steps_intros]:
  "(\<And>x y. only_steps (k x y)) \<Longrightarrow> only_steps m \<Longrightarrow> only_steps (case (u, v) of (Some x, Some y) \<Rightarrow> k x y | _ \<Rightarrow> m)"
  by (cases u; cases v) simp_all

lemma issue_browser_session_steps [steps_intros]: "interference W \<Longrightarrow> only_steps (issue_browser_session X W issuer ctx corr)"
  unfolding issue_browser_session_def by (intro steps_intros)

text \<open>The keys and peers of a deployment come from providers that only run store operations.\<close>

definition services_steps :: "'j mfa_session_services \<Rightarrow> bool" where
  "services_steps services \<longleftrightarrow> provider_steps (svc_totp_login services) \<and> provider_steps (svc_totp_enrollment services) \<and>
     provider_steps (svc_step_up_totp services)"

definition state_steps :: "'j fabric_http_state \<Rightarrow> bool" where
  "state_steps state \<longleftrightarrow> pred_option services_steps (http_mfa_session state) \<and>
     pred_option (\<lambda>resolve. \<forall>local remote. only_steps (resolve local remote)) (http_federation state)"

lemma with_login_transaction_steps:
  assumes "interference W" and "state_steps state"
    and "\<And>flow services b corr t. services_steps services \<Longrightarrow> only_steps (k flow services b corr t)"
  shows "only_steps (with_login_transaction X W state headers prefix stage k)"
proof (cases "http_login_flow state")
  case (Some flow)
  then show ?thesis
  proof (cases "http_mfa_session state")
    case mfa: (Some services)
    then have "services_steps services" using assms(2) by (simp add: state_steps_def)
    then show ?thesis unfolding with_login_transaction_def Some mfa prod.case option.case
      by (intro steps_intros assms(1) assms(3))
  qed (simp add: with_login_transaction_def return_steps)
qed (simp add: with_login_transaction_def return_steps)

lemma login_route_steps:
  assumes "interference W" and "state_steps state"
  shows "only_steps (start_password_login_route X W state address password)"
    and "only_steps (begin_totp_enrollment_route X W state headers)"
    and "only_steps (confirm_totp_enrollment_route X W state headers code)"
    and "only_steps (complete_totp_login_route X W state headers code)"
    and "only_steps (complete_password_only_login_route X W state headers)"
    and "only_steps (refresh_session_route X W state headers)"
proof -
  note intros = steps_intros assms(1) with_login_transaction_steps [OF assms]
  show "only_steps (start_password_login_route X W state address password)"
    unfolding start_password_login_route_def Let_def by (intro intros)
  show "only_steps (begin_totp_enrollment_route X W state headers)"
    unfolding begin_totp_enrollment_route_def Let_def by (intro intros) (simp_all add: services_steps_def)
  show "only_steps (confirm_totp_enrollment_route X W state headers code)"
    unfolding confirm_totp_enrollment_route_def by (intro intros) (simp_all add: services_steps_def)
  show "only_steps (complete_totp_login_route X W state headers code)"
    unfolding complete_totp_login_route_def totp_login_continue_def by (intro intros) (simp_all add: services_steps_def)
  show "only_steps (complete_password_only_login_route X W state headers)"
    unfolding complete_password_only_login_route_def by (intro intros)
  show "only_steps (refresh_session_route X W state headers)"
    unfolding refresh_session_route_def by (intro intros)
qed

lemma passkey_challenge_response_steps [steps_intros]: "only_steps (passkey_challenge_response X W ceremony challenge)"
  unfolding passkey_challenge_response_def Let_def by (intro steps_intros)

lemma passkey_route_steps [steps_intros]:
  assumes "interference W"
  shows "only_steps (begin_passkey_login_route X W state address)"
    and "only_steps (finish_passkey_login_route X W state headers response)"
    and "only_steps (begin_passkey_registration_route X W state headers label)"
    and "only_steps (finish_passkey_registration_route X W state headers response)"
proof -
  note intros = steps_intros assms
  show "only_steps (begin_passkey_login_route X W state address)"
    unfolding begin_passkey_login_route_def by (intro intros)
  show "only_steps (finish_passkey_login_route X W state headers response)"
    unfolding finish_passkey_login_route_def by (intro intros)
  show "only_steps (begin_passkey_registration_route X W state headers label)"
    unfolding begin_passkey_registration_route_def by (intro intros)
  show "only_steps (finish_passkey_registration_route X W state headers response)"
    unfolding finish_passkey_registration_route_def by (intro intros)
qed

lemma admin_route_steps:
  assumes "interference W" and "state_steps state"
  shows "only_steps (invite_account_route X W state headers localpart role)"
    and "only_steps (begin_role_change_step_up_route X W state headers account code role grant)"
    and "only_steps (change_account_role_route X W state headers account role grant)"
proof -
  note intros = steps_intros assms(1)
  show "only_steps (invite_account_route X W state headers localpart role)"
    unfolding invite_account_route_def Let_def by (intro intros)
  show "only_steps (begin_role_change_step_up_route X W state headers account code role grant)"
  proof (cases "http_mfa_session state")
    case (Some services)
    then have "provider_steps (svc_step_up_totp services)" using assms(2) by (simp add: state_steps_def services_steps_def)
    then show ?thesis unfolding begin_role_change_step_up_route_def Some option.case by (intro intros)
  qed (simp add: begin_role_change_step_up_route_def return_steps)
  show "only_steps (change_account_role_route X W state headers account role grant)"
    unfolding change_account_role_route_def apply_role_change_def Let_def by (intro intros)
qed

lemma deliver_federation_route_steps:
  assumes "interference W" and "state_steps state"
  shows "only_steps (deliver_federation_route X W state request_id q)"
proof (cases "http_federation state")
  case (Some resolve)
  then have r: "only_steps (resolve local remote)" for local remote using assms(2) by (simp add: state_steps_def)
  have "only_steps (ingress_admit c F W resolve x corr now)" for c F x corr now
    unfolding ingress_admit_def Let_def by (intro steps_intros assms(1) r)
  then show ?thesis unfolding deliver_federation_route_def Some option.case by (intro steps_intros)
qed (simp add: deliver_federation_route_def return_steps)

lemma handle_steps: "interference W \<Longrightarrow> state_steps state \<Longrightarrow> only_steps (handle X W state headers route)"
  by (cases route) (auto intro: login_route_steps passkey_route_steps admin_route_steps deliver_federation_route_steps return_steps)

lemma serve_steps: "interference W \<Longrightarrow> state_steps state \<Longrightarrow> only_steps (serve X W state headers route)"
  unfolding serve_def host_guard_def request_correlation_def by (intro steps_intros handle_steps)

end
