(* ===== verification/Fabric_Requests.thy ===== *)
theory Fabric_Requests
  imports Fabric_Routes
begin

text \<open>
  Cookies that come back as they were set, and sample requests to a sample service, with what the store operations
  of these requests return.
\<close>

subsection \<open>Sample requests\<close>

text \<open>A service whose token digests are all equal, and a browser that sends every cookie with one content.\<close>

definition sample_externals :: "(nat list, unit, unit) externals" where
  "sample_externals = \<lparr>ext_passwords = sample_password_primitives,
     ext_tokens = \<lparr>hmac_sha256 = (\<lambda>_ _. filled 2), base64_url = (\<lambda>_. replicate 43 97)\<rparr>,
     ext_totp = sample_primitives\<lparr>aead_open := (\<lambda>_ _ _ _. Some (replicate 32 7)), uuid_display := (\<lambda>_. [99])\<rparr>,
     ext_webauthn = sample_library, ext_federation = sample_fed, ext_crypto = demo_crypto, ext_idna = Some,
     header_to_str = (\<lambda>bytes. Some (map unat bytes)), header_value_ok = (\<lambda>_. True), uuid_parse = (\<lambda>_. Some (filled 2)),
     rfc3339_parse = (\<lambda>_. Some 3), rfc3339_format = (\<lambda>_. Some [97])\<rparr>"

definition sample_provider :: "unit totp_key_provider" where
  "sample_provider = \<lparr>provider_resolve = (\<lambda>_. return (Inr (TotpDataEncryptionKey (filled 9)))),
     provider_active = return (Inl KeyUnavailable)\<rparr>"

definition sample_issuer :: session_service where
  "sample_issuer = \<lparr>session_digest_key = TokenDigestKey (filled 1),
     session_service_policy = \<lparr>refresh_lifetime = duration_days 30, access_lifetime = duration_minutes 15\<rparr>\<rparr>"

definition sample_services :: "unit mfa_session_services" where
  "sample_services = \<lparr>svc_totp_login = sample_provider, svc_totp_enrollment = sample_provider, svc_enrollment_issuer = [97],
     svc_session_issuer = sample_issuer, svc_session_rotator = sample_issuer, svc_access_key = TokenDigestKey (filled 1),
     svc_step_up = \<lparr>step_up_digest_key = TokenDigestKey (filled 1), step_up_service_policy = step_up_policy_standard\<rparr>,
     svc_step_up_totp = sample_provider, svc_webauthn = sample_webauthn\<rparr>"

definition sample_flow :: fabric_login_flow where
  "sample_flow = \<lparr>flow_password = \<lparr>dummy_verifier = PasswordVerifierString [97], maximum_password_bytes = 128\<rparr>,
     flow_transaction = \<lparr>transaction_digest_key = TokenDigestKey (filled 1), transaction_policy = login_transaction_policy_standard\<rparr>,
     flow_binding_key = TokenDigestKey (filled 1)\<rparr>"

definition sample_state :: "unit fabric_http_state" where
  "sample_state = \<lparr>http_domain = DomainName [97], http_hsts = True, http_login_flow = Some sample_flow,
     http_mfa_session = Some sample_services, http_federation = Some (postgres_resolve sample_fed sample_world)\<rparr>"

text \<open>The cookies that a browser sends back, one line for each, are read as they were set.\<close>

definition cookie_char :: "nat \<Rightarrow> bool" where
  "cookie_char c \<longleftrightarrow> 32 < c \<and> c < 128 \<and> c \<noteq> 59"

definition cookie_pair :: "str \<times> str \<Rightarrow> bool" where
  "cookie_pair p \<longleftrightarrow> (\<forall>c \<in> set (fst p). cookie_char c \<and> c \<noteq> 61) \<and> is_opaque_browser_token (snd p)"

lemma cookie_char_plain: "cookie_char c \<Longrightarrow> \<not> is_whitespace c"
  unfolding cookie_char_def is_whitespace_def by presburger

lemma split_on_none: "c \<notin> set s \<Longrightarrow> split_on c s = [s]"
  by (induction s) auto

lemma opaque_token_chars:
  assumes "is_opaque_browser_token t" and "c \<in> set t"
  shows "cookie_char c"
proof -
  let ?P = "\<lambda>b. is_ascii_alphanumeric b \<or> b = 45 \<or> b = 95"
  have "?P b \<Longrightarrow> b < 0x80" for b using ascii_class_bound(3) [of b] by auto
  from bytes_pred_iff [of ?P t, OF this] have "?P c" using assms unfolding is_opaque_browser_token_def list_all_iff by blast
  then show ?thesis
    unfolding cookie_char_def is_ascii_alphanumeric_def is_ascii_digit_def is_ascii_lowercase_def is_ascii_uppercase_def by presburger
qed

lemma cookie_line:
  assumes "cookie_pair (n, t)"
  shows "trim (n @ 61 # t) = n @ 61 # t" "split_on 59 (n @ 61 # t) = [n @ 61 # t]" "split_once 61 (n @ 61 # t) = Some (n, t)"
proof -
  have "cookie_char 61" by (simp add: cookie_char_def)
  then have chars: "\<forall>c \<in> set (n @ 61 # t). cookie_char c"
    using assms opaque_token_chars [of t] by (auto simp: cookie_pair_def)
  then show "trim (n @ 61 # t) = n @ 61 # t" using cookie_char_plain by (blast intro: trim_id)
  have "\<not> cookie_char 59" by (simp add: cookie_char_def)
  then show "split_on 59 (n @ 61 # t) = [n @ 61 # t]" using chars by (blast intro: split_on_none)
  show "split_once 61 (n @ 61 # t) = Some (n, t)" using assms by (intro split_once_append) (auto simp: cookie_pair_def)
qed

lemma cookie_matches_pairs:
  assumes "List.map_filter (header_to_str X) (header_all headers ''cookie'') = map (\<lambda>(name, token). name @ 61 # token) pairs"
    and "list_all cookie_pair pairs"
  shows "cookie_matches X headers name = map snd (filter (\<lambda>p. fst p = name) pairs)"
proof -
  have "List.map_filter (split_once 61) (map trim (concat (map (split_on 59) (map (\<lambda>(name, token). name @ 61 # token) pairs)))) = pairs"
    using assms(2) by (induction pairs) (auto simp: List.map_filter_simps cookie_line)
  moreover have "filter (\<lambda>(candidate, content). candidate = name \<and> is_opaque_browser_token content) pairs = filter (\<lambda>p. fst p = name) pairs"
    using assms(2) by (induction pairs) (auto simp: cookie_pair_def)
  ultimately show ?thesis by (simp add: cookie_matches_def assms(1))
qed

lemma sample_to_str: "header_to_str sample_externals = (\<lambda>bytes. Some (map unat bytes))"
  by (simp add: sample_externals_def)

abbreviation sample_token :: str where "sample_token \<equiv> replicate 43 97"

definition sample_pairs :: "(str \<times> str) list" where
  "sample_pairs = map (\<lambda>name. (name, sample_token))
     [SESSION_CSRF_COOKIE, ACCESS_COOKIE, STEP_UP_COOKIE, LOGIN_CSRF_COOKIE, LOGIN_TRANSACTION_COOKIE, LOGIN_BINDING_COOKIE]"

definition sample_headers :: header_map where
  "sample_headers = [(''host'', [97]), (''x-request-id'', [97]), (CSRF_HEADER, replicate 43 97)] @
     map (\<lambda>(name, token). (''cookie'', map of_nat (name @ 61 # token))) sample_pairs"

lemmas cookie_names = SESSION_CSRF_COOKIE_def ACCESS_COOKIE_def STEP_UP_COOKIE_def LOGIN_CSRF_COOKIE_def LOGIN_TRANSACTION_COOKIE_def
  LOGIN_BINDING_COOKIE_def

lemma sample_token_opaque: "is_opaque_browser_token sample_token"
  by code_simp

lemma sample_matches: "cookie_matches sample_externals sample_headers name = map snd (filter (\<lambda>p. fst p = name) sample_pairs)"
proof (rule cookie_matches_pairs)
  show "list_all cookie_pair sample_pairs"
    by (simp add: sample_pairs_def cookie_pair_def sample_token_opaque) (simp add: cookie_names str_of_def cookie_char_def)
  have "map unat (map of_nat s :: u8 list) = s" if "\<forall>c \<in> set s. c < 256" for s
    using that by (induction s) (auto simp: unat_of_nat)
  moreover have "\<forall>p \<in> set sample_pairs. \<forall>c \<in> set (fst p @ 61 # snd p). c < 256"
    by (simp add: sample_pairs_def) (simp add: cookie_names str_of_def)
  ultimately show "List.map_filter (header_to_str sample_externals) (header_all sample_headers ''cookie'') =
      map (\<lambda>(name, token). name @ 61 # token) sample_pairs"
    by (auto simp: sample_externals_def sample_headers_def header_all_def CSRF_HEADER_def filter_map comp_def map_filter_def
        split_beta intro!: map_cong)
qed

lemma sample_cookies [simp]:
  "browser_cookie sample_externals sample_headers SESSION_CSRF_COOKIE = Some sample_token"
  "browser_cookie sample_externals sample_headers ACCESS_COOKIE = Some sample_token"
  "browser_cookie sample_externals sample_headers STEP_UP_COOKIE = Some sample_token"
  "browser_cookie sample_externals sample_headers LOGIN_CSRF_COOKIE = Some sample_token"
  "browser_cookie sample_externals sample_headers LOGIN_TRANSACTION_COOKIE = Some sample_token"
  "browser_cookie sample_externals sample_headers LOGIN_BINDING_COOKIE = Some sample_token"
  by (simp_all add: browser_cookie_def sample_matches sample_pairs_def) (simp_all add: cookie_names str_of_def)

lemma sample_sent:
  "header_get sample_headers CSRF_HEADER = Some (replicate 43 97)" "header_get sample_headers ''host'' = Some [97]"
  "header_get sample_headers ''x-request-id'' = Some [97]"
  by (simp_all add: header_get_def header_all_def sample_headers_def CSRF_HEADER_def)

lemma sample_accepted [simp]:
  "csrf_proof_is_valid sample_externals sample_headers SESSION_CSRF_COOKIE"
  "csrf_proof_is_valid sample_externals sample_headers LOGIN_CSRF_COOKIE"
  "host_accepted sample_externals (DomainName [97]) sample_headers" "supplied_request_id sample_externals sample_headers = Some [97]"
proof -
  have "canonical_host [97] = Some [97]" "is_safe_request_id [97]" by code_simp+
  then show "csrf_proof_is_valid sample_externals sample_headers SESSION_CSRF_COOKIE"
    "csrf_proof_is_valid sample_externals sample_headers LOGIN_CSRF_COOKIE"
    "host_accepted sample_externals (DomainName [97]) sample_headers" "supplied_request_id sample_externals sample_headers = Some [97]"
    using sample_token_opaque
    by (simp_all add: csrf_proof_is_valid_def host_accepted_def supplied_request_id_def sample_to_str sample_sent)
qed

lemma sample_state_steps: "state_steps sample_state"
  by (simp add: state_steps_def sample_state_def services_steps_def sample_services_def provider_steps_def sample_provider_def
      return_steps postgres_resolve_steps)

text \<open>The owner of the sample store holds a step-up grant for giving itself the operator role.\<close>

definition sample_grant_request :: create_step_up_request where
  "sample_grant_request = \<lparr>cg_tenant = sample_tenant, cg_account = sample_account, cg_family = filled 10, cg_action = ChangeAccountRole,
     cg_target = filled 6, cg_digest = sample_digest 2, cg_expires_at = 100, cg_correlation = [99]\<rparr>"

definition sample_granted :: "unit database" where
  "sample_granted = snd (create_step_up_grant (sample_env 3 60) sample_grant_request sample_session)"

lemmas sample_grant_simps = sample_granted_def create_step_up_grant_def sample_grant_request_def insert_step_up_def sample_session_simps

lemma sample_granted_created:
  "create_step_up_grant (sample_env 3 60) sample_grant_request sample_session = (Inr \<lparr>grant_id = filled 60, grant_expires_at = 100\<rparr>, sample_granted)"
  by (simp add: sample_grant_simps)

lemma sample_granted_reachable: "store_reachable sample_granted"
  by (rule store_reachable_steps [OF sample_session_reachable r_into_rtranclp [of store_step, OF step_grant [OF sample_granted_created]]])

lemma sample_granted_access:
  "access_session_authorization_context (sample_env 3 b) (sample_digest 2) sample_granted =
     Inr (Some \<lparr>authorization_of = authorization_context_new sample_tenant sample_account AccountActive [Owner] False,
       authorization_family = filled 10\<rparr>)"
  by (simp add: access_session_authorization_context_def roles_for_account_def parse_role_def sample_grant_simps)

lemma sample_digests [simp]: "derive_opaque_token_digest (ext_tokens sample_externals) key token = sample_digest 2"
  by (simp add: derive_opaque_token_digest_def token_digest_def sample_externals_def)

lemma sample_correlation: "store_validate_correlation_id (str_of ''http-admin-role-'' @ [99]) = Inr ()"
  "store_validate_correlation_id (str_of ''http-totp-'' @ [99]) = Inr ()"
  by code_simp+

lemma sample_lengths [simp]: "length (str_of ''http-admin-role-'') = 16" "length (str_of ''http-totp-'') = 10"
  by (simp_all add: str_of_def)

definition sample_role_command :: change_role_command where
  "sample_role_command = \<lparr>change_tenant = sample_tenant, change_target = sample_account, change_role_of = Operator, change_grant = True,
     change_actor = sample_actor [Owner] True, change_correlation = str_of ''http-admin-role-'' @ [99]\<rparr>"

definition sample_spend_request :: consume_step_up_request where
  "sample_spend_request = \<lparr>sg_tenant = sample_tenant, sg_account = sample_account, sg_family = filled 10, sg_action = ChangeAccountRole,
     sg_target = filled 6, sg_digest = sample_digest 2, sg_correlation = str_of ''http-admin-role-'' @ [99]\<rparr>"

definition sample_spent :: "unit database" where
  "sample_spent = snd (consume_step_up_grant (sample_env 3 30) sample_spend_request sample_granted)"

lemma sample_grant_spent: "consume_step_up_grant (sample_env 3 30) sample_spend_request sample_granted = (Inr True, sample_spent)"
  by (simp add: sample_spent_def consume_step_up_grant_def sample_spend_request_def usable_grant_def sample_correlation sample_grant_simps)

lemma sample_role_valid: "change_role_validate sample_role_command = Inr ()"
proof -
  have "validate_correlation_id (str_of ''http-admin-role-'' @ [99]) = Inr ()" by code_simp
  then show ?thesis
    by (simp add: sample_role_command_def change_role_validate_def sample_actor_def require_same_tenant_def actor_require_def
      actor_require_step_up_def and_then_def)
qed

lemma sample_role_changed: "\<exists>db. change_role (sample_env 3 40) sample_role_command sample_spent = (Inr (), db)"
  by (simp add: change_role_def sample_role_valid)
    (simp add: change_role_rows_def sample_role_command_def sample_actor_def sample_spent_def consume_step_up_grant_def sample_spend_request_def
      usable_grant_def sample_correlation sample_grant_simps)

definition sample_auth :: authenticated_access_session where
  "sample_auth = \<lparr>session_context = authorization_context_new sample_tenant sample_account AccountActive [Owner] False,
     session_family = filled 10\<rparr>"

lemma sample_authenticated:
  "authenticate_admin sample_externals sample_world sample_services sample_headers ManageRoles \<lparr>sys_db = sample_granted, sys_tick = 0\<rparr> =
     (Inr sample_auth :: unit response + authenticated_access_session, \<lparr>sys_db = sample_granted, sys_tick = 1\<rparr>)"
  by (simp add: authenticate_admin_def authenticate_access_def attempt_def bind_def run_map_def return_def access_authenticate_def store_read_def
      store_call_def sample_granted_access sample_auth_def map_err_def authorization_require_def authorization_context_new_def)

text \<open>The owner of the sample store has given the password and is asked for a code, long after enrolling.\<close>

abbreviation sample_later :: "unit world" where
  "sample_later \<equiv> sample_world\<lparr>world_clock := (\<lambda>_. 1700000000 * 1000000000)\<rparr>"

lemma sample_later_interference: "interference sample_later"
  by (simp add: interference_def)

definition sample_challenge_request :: create_login_request where
  "sample_challenge_request = \<lparr>cl_tenant = sample_tenant, cl_account = sample_account, cl_digest = sample_digest 2, cl_stage = MfaChallenge,
     cl_binding = filled 2, cl_factor = None, cl_expires_at = 100, cl_correlation = [99]\<rparr>"

definition sample_challenge_record :: login_transaction_record where
  "sample_challenge_record = \<lparr>lr_id = filled 60, lr_tenant = sample_tenant, lr_account = sample_account, lr_stage = MfaChallenge,
     lr_expires_at = 100, lr_factor = None\<rparr>"

definition sample_challenge :: "unit database" where
  "sample_challenge = snd (create_login_transaction (sample_env 3 60) sample_challenge_request sample_active)"

definition sample_answered :: "unit database" where
  "sample_answered = snd (consume_login_transaction (sample_env 3 20) (sample_digest 2) MfaChallenge (filled 2) (str_of ''http-totp-'' @ [99])
     sample_challenge)"

lemmas sample_challenge_simps = sample_challenge_def sample_challenge_request_def sample_challenge_record_def sample_answered_def
  sample_correlation sample_login_simps

lemma sample_challenge_created:
  "create_login_transaction (sample_env 3 60) sample_challenge_request sample_active = (Inr sample_challenge_record, sample_challenge)"
  by (simp add: sample_challenge_simps)

lemma sample_challenge_reachable: "store_reachable sample_challenge"
  by (rule store_reachable_steps [OF sample_reachable r_into_rtranclp [of store_step, OF step_login [OF sample_challenge_created]]])

lemma sample_challenge_answered:
  "consume_login_transaction (sample_env 3 20) (sample_digest 2) MfaChallenge (filled 2) (str_of ''http-totp-'' @ [99]) sample_challenge =
     (Inr sample_challenge_record, sample_answered)"
  by (simp add: sample_challenge_simps)

definition sample_persisted :: persisted_totp_factor where
  "sample_persisted = \<lparr>factor_id = filled 9, factor_seed = Fabric_Assurance.sample_seed, factor_last_step = Some 40\<rparr>"

lemma sample_answered_factor: "active_totp_factor sample_tenant sample_account sample_answered = Inr (Some sample_persisted)"
proof -
  have "(try_into (replicate 12 0) :: 12 bytes option) = Some (filled 0)" by simp
  moreover have "totp_key_reference_new [107] = Inr (TotpKeyReference [107])" by code_simp
  ultimately show ?thesis
    by (simp add: active_totp_factor_def factor_from_row_def sample_persisted_def transpose_map_def ok_or_def sample_challenge_simps
        del: try_into_eq_Some)
qed

lemma sample_code_verified:
  "verify_totp (ext_totp sample_externals) (TotpDataEncryptionKey (filled 9)) (factor_seed sample_persisted)
     \<lparr>binding_tenant = sample_tenant, binding_account = sample_account, binding_factor = filled 9\<rparr> (str_of ''666666'')
     (1700000000 * 1000000000) (factor_last_step sample_persisted) = Inr (AcceptedTotpStep 56666666)"
proof -
  have step: "i64_range (unix_timestamp (1700000000 * 1000000000))" "totp_step (1700000000 * 1000000000) = 56666666"
    "length (str_of ''666666'') = 6" "list_all is_ascii_digit (str_of ''666666'')" by code_simp+
  have seed: "(try_into (replicate 32 7) :: 32 bytes option) = Some (filled 7)" by simp
  have "decrypt_seed (ext_totp sample_externals) (TotpDataEncryptionKey (filled 9)) (factor_seed sample_persisted) b = Inr (filled 7)" for b
    unfolding decrypt_seed_def using seed by (simp add: sample_externals_def ok_or_def and_then_def del: try_into_eq_Some)
  moreover have "code_for_step (ext_totp sample_externals) (filled 7) 56666666 = Inr 666666"
    using sample_code by (simp add: code_for_step_def sample_externals_def)
  moreover have "parse_u32 (str_of ''666666'') = Some 666666"
    by (simp add: parse_u32_def str_of_def is_ascii_digit_def)
  moreover have "seed_digits (factor_seed sample_persisted) = 6" "seed_period (factor_seed sample_persisted) = 30"
    by (simp_all add: sample_persisted_def Fabric_Assurance.sample_seed_def)
  ultimately show ?thesis
    using step by (subst verify_totp_wellformed) (simp_all add: and_then_def ok_or_def sample_persisted_def try_steps.simps)
qed

definition sample_signed_in :: "unit database" where
  "sample_signed_in = snd (consume_totp_step sample_tenant sample_account (filled 9) 56666666 sample_answered)"

lemma sample_step_spent:
  "consume_totp_step sample_tenant sample_account (filled 9) 56666666 sample_answered = (Inr (), sample_signed_in)"
  by (simp add: sample_signed_in_def consume_totp_step_def unspent_factor_def sample_challenge_simps)

lemma sample_signed_in_context:
  "session_authorization_context sample_tenant sample_account sample_signed_in =
     Inr (Some (authorization_context_new sample_tenant sample_account AccountActive [Owner] False))"
  by (simp add: session_authorization_context_def sample_signed_in_def consume_totp_step_def unspent_factor_def
     roles_for_account_def parse_role_def sample_challenge_simps)

end
