(* ===== verification/Fabric_Service.thy ===== *)
theory Fabric_Service
  imports Fabric_Requests "HOL-Library.Sublist"
begin

text \<open>
  What the composed service guarantees at its HTTP boundary: every request keeps the store's invariant under
  any interleaving, forged cross-site requests change nothing, every cookie is hardened, and the privileged
  and sign-in routes only succeed with the credentials they require, which they spend.
\<close>

subsection \<open>Refused requests\<close>

lemma or_respond_return: "or_respond (return (Inl e)) h k = return (h e)" "or_respond (return (Inr x)) h k = k x"
  by (simp_all add: or_respond_def bind_def return_def fun_eq_iff)

lemma attempt_return: "attempt (return (Inl e)) k = return (Inl e)" "attempt (return (Inr x)) k = k x"
  by (simp_all add: attempt_def bind_def return_def fun_eq_iff)

text \<open>The routes that need a cross-site proof, and the cookie that carries it.\<close>

fun csrf_cookie_of :: "'v route \<Rightarrow> str option" where
  "csrf_cookie_of (LoginTotp _) = Some LOGIN_CSRF_COOKIE"
| "csrf_cookie_of LoginSession = Some LOGIN_CSRF_COOKIE"
| "csrf_cookie_of EnrollTotpBegin = Some LOGIN_CSRF_COOKIE"
| "csrf_cookie_of (EnrollTotpConfirm _) = Some LOGIN_CSRF_COOKIE"
| "csrf_cookie_of (PasskeyLoginFinish _) = Some WEBAUTHN_CSRF_COOKIE"
| "csrf_cookie_of SessionRefresh = Some SESSION_CSRF_COOKIE"
| "csrf_cookie_of (InviteAccount _ _) = Some SESSION_CSRF_COOKIE"
| "csrf_cookie_of (PasskeyBegin _) = Some SESSION_CSRF_COOKIE"
| "csrf_cookie_of (PasskeyFinish _) = Some SESSION_CSRF_COOKIE"
| "csrf_cookie_of (ChangeRole _ _ _) = Some SESSION_CSRF_COOKIE"
| "csrf_cookie_of (RoleStepUp _ _ _ _) = Some SESSION_CSRF_COOKIE"
| "csrf_cookie_of _ = None"

definition refused :: "('j, 'v response) run \<Rightarrow> bool" where
  "refused m \<longleftrightarrow> (\<exists>r. m = return r \<and> resp_status r \<in> {401, 403, 404})"

lemma denial_status [simp]:
  "resp_status (respond n b) = n" "resp_status (append_cookies cs r) = resp_status r" "resp_status (clear_login_cookies X r) = resp_status r"
  "resp_status (clear_session_cookies X r) = resp_status r" "resp_status (clear_webauthn_cookies X r) = resp_status r"
  "resp_status (clear_step_up_cookie X r) = resp_status r" "resp_status generic_login_denial = 401"
  "resp_status (login_flow_denial X) = 401" "resp_status (session_refresh_denial X) = 401" "resp_status (passkey_denial X) = 401"
  "resp_status (step_up_required X) = 428" "resp_status (insert_header h c r) = resp_status r"
  "resp_status (security_headers hsts r) = resp_status r"
  by (simp_all add: respond_def append_cookies_def clear_login_cookies_def clear_session_cookies_def clear_webauthn_cookies_def
      clear_cookies_def clear_step_up_cookie_def generic_login_denial_def login_flow_denial_def session_refresh_denial_def
      passkey_denial_def step_up_required_def insert_header_def security_headers_def Let_def)

lemma refused_return: "resp_status r \<in> {401, 403, 404} \<Longrightarrow> refused (return r)"
  by (auto simp: refused_def)

lemma with_login_transaction_refused:
  "\<not> csrf_proof_is_valid X headers LOGIN_CSRF_COOKIE \<Longrightarrow> refused (with_login_transaction X W state headers pre stage k)"
  by (auto simp: with_login_transaction_def intro!: refused_return split: option.splits)

lemma handle_refused:
  assumes "csrf_cookie_of route = Some name" and "\<not> csrf_proof_is_valid X headers name"
  shows "refused (handle X W state headers route)"
  using assms
  by (cases route)
    (auto simp: complete_totp_login_route_def complete_password_only_login_route_def begin_totp_enrollment_route_def
      confirm_totp_enrollment_route_def finish_passkey_login_route_def refresh_session_route_def invite_account_route_def
      begin_passkey_registration_route_def finish_passkey_registration_route_def change_account_role_route_def
      begin_role_change_step_up_route_def authenticate_admin_def authenticate_access_def attempt_return or_respond_return
      intro!: with_login_transaction_refused refused_return split: option.splits)

subsection \<open>What a response can contain\<close>

definition yields :: "('r \<Rightarrow> bool) \<Rightarrow> ('j, 'r) run \<Rightarrow> bool" where
  "yields Q m \<longleftrightarrow> (\<forall>s. Q (fst (m s)))"

named_theorems yields_intros

lemma yields_return [yields_intros]: "Q r \<Longrightarrow> yields Q (return r)"
  by (simp add: yields_def return_def)

lemma yields_bind [yields_intros]: "(\<And>x. yields Q (k x)) \<Longrightarrow> yields Q (bind m k)"
  by (simp add: yields_def bind_def split: prod.split)

lemma yields_run_map: "yields (\<lambda>x. Q (f x)) m \<Longrightarrow> yields Q (run_map f m)"
  by (simp add: yields_def run_map_def bind_def return_def split: prod.splits) (metis fst_conv)

lemma yields_or_respond [yields_intros]:
  "(\<And>e. Q (h e)) \<Longrightarrow> (\<And>x. yields Q (k x)) \<Longrightarrow> yields Q (or_respond m h k)"
  unfolding or_respond_def by (rule yields_bind) (auto intro: yields_return split: sum.split)

lemma yields_or_respond_id:
  assumes "yields (case_sum Q (\<lambda>_. True)) m" and "\<And>x. yields Q (k x)"
  shows "yields Q (or_respond m id k)"
  using assms by (auto simp: yields_def or_respond_def bind_def return_def split: prod.split sum.split) (metis fst_conv sum.case(1))

lemma yields_cases [yields_intros]:
  "yields Q m \<Longrightarrow> yields Q m' \<Longrightarrow> yields Q (if b then m else m')"
  "yields Q m \<Longrightarrow> (\<And>x. yields Q (k x)) \<Longrightarrow> yields Q (case v of None \<Rightarrow> m | Some x \<Rightarrow> k x)"
  "(\<And>x. yields Q (g x)) \<Longrightarrow> (\<And>x. yields Q (k x)) \<Longrightarrow> yields Q (case w of Inl x \<Rightarrow> g x | Inr x \<Rightarrow> k x)"
  by (simp_all split: option.split sum.split)

lemma yields_outcomes [yields_intros]:
  "(\<And>x. yields Q (k x)) \<Longrightarrow> yields Q m \<Longrightarrow> yields Q m' \<Longrightarrow>
     yields Q (case rot of SessionRotated x \<Rightarrow> k x | SessionReuseDetected \<Rightarrow> m | SessionDenied \<Rightarrow> m')"
  "yields Q m \<Longrightarrow> (\<And>x. yields Q (l x)) \<Longrightarrow> yields Q (case flow of FlowDenied \<Rightarrow> m | FlowPending x \<Rightarrow> l x)"
  "yields Q m \<Longrightarrow> (\<And>x. yields Q (c x)) \<Longrightarrow> yields Q (case totp of TotpDenied \<Rightarrow> m | TotpAuthenticated x \<Rightarrow> c x)"
  "yields Q m \<Longrightarrow> (\<And>x. yields Q (c x)) \<Longrightarrow> yields Q (case enr of EnrollmentDenied \<Rightarrow> m | EnrollmentAuthenticated x \<Rightarrow> c x)"
  "yields Q m \<Longrightarrow> (\<And>x y z. yields Q (b x y z)) \<Longrightarrow> yields Q (case beg of BeginDenied \<Rightarrow> m | BeginChallenge x y z \<Rightarrow> b x y z)"
  "yields Q m \<Longrightarrow> yields Q m' \<Longrightarrow> (\<And>x. yields Q (c x)) \<Longrightarrow>
     yields Q (case fin of FinishDenied \<Rightarrow> m | FinishRegistered \<Rightarrow> m' | FinishAuthenticated x \<Rightarrow> c x)"
  "(\<And>x y. yields Q (p x y)) \<Longrightarrow> yields Q m \<Longrightarrow> yields Q (case (u, v) of (Some x, Some y) \<Rightarrow> p x y | _ \<Rightarrow> m)"
  by (simp_all split: session_rotation_outcome.split fabric_login_start.split totp_login_outcome.split totp_enrollment_outcome.split
      webauthn_begin_outcome.split webauthn_finish_outcome.split option.split)

text \<open>Every cookie is \<open>Secure\<close> and \<open>SameSite=Strict\<close>, and every credential cookie is \<open>HttpOnly\<close>.\<close>

definition hardened_cookie :: "str \<Rightarrow> bool" where
  "hardened_cookie c \<longleftrightarrow> sublist (str_of ''; Secure'') c \<and> sublist (str_of ''; SameSite=Strict'') c \<and>
     (sublist (str_of ''; HttpOnly'') c \<or>
      (\<exists>name \<in> {LOGIN_CSRF_COOKIE, SESSION_CSRF_COOKIE, WEBAUTHN_CSRF_COOKIE}. prefix (name @ str_of ''='') c))"

definition hardened :: "'v response \<Rightarrow> bool" where
  "hardened r \<longleftrightarrow> list_all hardened_cookie (resp_cookies r)"

lemma sublist_extend: "sublist a b \<Longrightarrow> sublist a (x @ b)" "sublist a b \<Longrightarrow> sublist a (b @ x)"
  unfolding sublist_def by (metis append.assoc)+

text \<open>The two attribute lists that the cookies end with, after a path and a lifetime.\<close>

lemma plain_attributes:
  "sublist (str_of ''; Secure'') (str_of (head @ ''; Secure; SameSite=Strict''))"
  "sublist (str_of ''; SameSite=Strict'') (str_of (head @ ''; Secure; SameSite=Strict''))"
  unfolding str_of_def map_append by (rule sublist_extend(1), code_simp)+

lemma http_only_attributes:
  "sublist (str_of ''; Secure'') (str_of (head @ ''; Secure; HttpOnly; SameSite=Strict''))"
  "sublist (str_of ''; SameSite=Strict'') (str_of (head @ ''; Secure; HttpOnly; SameSite=Strict''))"
  "sublist (str_of ''; HttpOnly'') (str_of (head @ ''; Secure; HttpOnly; SameSite=Strict''))"
  unfolding str_of_def map_append by (rule sublist_extend(1), code_simp)+

lemmas cookie_attributes =
  plain_attributes [of "''; Path=/; Max-Age=300''", simplified]
  plain_attributes [of "''; Path=/; Max-Age=2592000''", simplified]
  plain_attributes [of "''=; Path=/; Max-Age=0''", simplified]
  http_only_attributes [of "''; Path=/; Max-Age=300''", simplified]
  http_only_attributes [of "''; Path=/; Max-Age=2592000''", simplified]
  http_only_attributes [of "''; Path=/; Max-Age=900''", simplified]
  http_only_attributes [of "''; Path=/v1/admin/accounts; Max-Age=300''", simplified]
  http_only_attributes [of "''=; Path=/v1/admin/accounts; Max-Age=0''", simplified]

lemma http_only_attribute: "sublist (str_of ''; HttpOnly'') (str_of ''; HttpOnly'')"
  by simp

lemma login_cookie_hardened: "hardened_cookie (login_cookie name content)"
  and refresh_cookie_hardened: "hardened_cookie (refresh_cookie content)"
  and access_cookie_hardened: "hardened_cookie (access_cookie content)"
  and step_up_cookie_hardened: "hardened_cookie (step_up_cookie content)"
  unfolding hardened_cookie_def login_cookie_def refresh_cookie_def access_cookie_def step_up_cookie_def
  by (intro conjI disjI1 sublist_extend(1) cookie_attributes)+

lemma csrf_cookie_hardened: "hardened_cookie (csrf_cookie content)"
  and session_csrf_cookie_hardened: "hardened_cookie (session_csrf_cookie content)"
  unfolding hardened_cookie_def csrf_cookie_def session_csrf_cookie_def
  by (intro conjI disjI2 sublist_extend(1) cookie_attributes; simp)+

lemma webauthn_cookie_hardened:
  "hardened_cookie (webauthn_cookie name content True)" "hardened_cookie (webauthn_cookie WEBAUTHN_CSRF_COOKIE content False)"
proof -
  show "hardened_cookie (webauthn_cookie name content True)"
    unfolding hardened_cookie_def webauthn_cookie_def http_only_suffix_def if_True
    by (intro conjI disjI1 sublist_extend(1) sublist_extend(2) [OF cookie_attributes(1)] sublist_extend(2) [OF cookie_attributes(2)]
        http_only_attribute)
  show "hardened_cookie (webauthn_cookie WEBAUTHN_CSRF_COOKIE content False)"
    unfolding hardened_cookie_def webauthn_cookie_def http_only_suffix_def
    by (auto intro!: sublist_extend(1) cookie_attributes)
qed

lemma cleared_cookie_hardened:
  assumes "http_only \<or> name \<in> {LOGIN_CSRF_COOKIE, SESSION_CSRF_COOKIE, WEBAUTHN_CSRF_COOKIE}"
  shows "hardened_cookie (name @ str_of ''=; Path=/; Max-Age=0; Secure; SameSite=Strict'' @ http_only_suffix http_only)"
proof -
  let ?a = "str_of ''=; Path=/; Max-Age=0; Secure; SameSite=Strict''"
  have a: "?a = str_of ''='' @ str_of ''; Path=/; Max-Age=0; Secure; SameSite=Strict''" by (simp add: str_of_def)
  have "prefix (n @ str_of ''='') (n @ ?a @ x)" for n x unfolding a append.assoc by simp
  moreover have "sublist (str_of ''; Secure'') (name @ ?a @ x)" "sublist (str_of ''; SameSite=Strict'') (name @ ?a @ x)" for x
    by (intro sublist_extend(1) sublist_extend(2) [OF cookie_attributes(5)] sublist_extend(2) [OF cookie_attributes(6)])+
  moreover have "http_only \<Longrightarrow> sublist (str_of ''; HttpOnly'') (name @ ?a @ http_only_suffix http_only)"
    by (simp add: http_only_suffix_def sublist_extend(1))
  ultimately show ?thesis unfolding hardened_cookie_def using assms by (metis (no_types, lifting))
qed

lemma hardened_append [simp]: "hardened (append_cookies cs r) \<longleftrightarrow> hardened r \<and> list_all hardened_cookie cs"
  by (auto simp: hardened_def append_cookies_def)

lemma hardened_respond [simp]: "hardened (respond n b)"
  by (simp add: hardened_def respond_def)

lemma hardened_cleared [simp]:
  "hardened (clear_login_cookies X r) = hardened r" "hardened (clear_session_cookies X r) = hardened r"
  "hardened (clear_webauthn_cookies X r) = hardened r" "hardened (clear_step_up_cookie X r) = hardened r"
proof -
  have clear: "hardened (clear_cookies X names r) = hardened r"
    if "list_all (\<lambda>(name, http_only). http_only \<or> name \<in> {LOGIN_CSRF_COOKIE, SESSION_CSRF_COOKIE, WEBAUTHN_CSRF_COOKIE}) names" for names
    using that unfolding clear_cookies_def by (fastforce simp: list_all_iff intro: cleared_cookie_hardened)
  show "hardened (clear_login_cookies X r) = hardened r" "hardened (clear_session_cookies X r) = hardened r"
    "hardened (clear_webauthn_cookies X r) = hardened r"
    unfolding clear_login_cookies_def clear_session_cookies_def clear_webauthn_cookies_def by (rule clear, simp)+
  have "hardened_cookie (STEP_UP_COOKIE @ str_of ''=; Path=/v1/admin/accounts; Max-Age=0; Secure; HttpOnly; SameSite=Strict'')"
    unfolding hardened_cookie_def by (intro conjI disjI1 sublist_extend(1) cookie_attributes)
  then show "hardened (clear_step_up_cookie X r) = hardened r" by (auto simp: clear_step_up_cookie_def)
qed

lemma hardened_denials [simp]:
  "hardened generic_login_denial" "hardened (login_flow_denial X)" "hardened (session_refresh_denial X)" "hardened (passkey_denial X)"
  "hardened (step_up_required X)" "hardened (consume_failure X e)" "hardened (passkey_failure X pe)" "hardened (ingress_failure ie)"
  "hardened (administration_failure ae)"
  by (simp_all add: generic_login_denial_def login_flow_denial_def session_refresh_denial_def passkey_denial_def step_up_required_def
      consume_failure_def passkey_failure_def administration_failure_def split: store_error.split)
    (cases ie; simp)

lemmas hardened_cookies = login_cookie_hardened refresh_cookie_hardened access_cookie_hardened step_up_cookie_hardened
  csrf_cookie_hardened session_csrf_cookie_hardened webauthn_cookie_hardened

lemma session_response_hardened [yields_intros]: "yields hardened (browser_session_response X W session)"
  unfolding browser_session_response_def Let_def by (intro yields_intros) (simp_all add: hardened_cookies)

lemma issue_session_hardened [yields_intros]: "yields hardened (issue_browser_session X W issuer ctx corr)"
  unfolding issue_browser_session_def by (intro yields_intros yields_run_map) (simp_all add: session_response_hardened)

lemma challenge_hardened [yields_intros]: "yields hardened (passkey_challenge_response X W ceremony challenge)"
  unfolding passkey_challenge_response_def Let_def by (intro yields_intros) (simp_all add: hardened_cookies)

lemma authenticate_hardened:
  "yields (case_sum hardened (\<lambda>_. True)) (authenticate_access X W services headers)"
  "yields (case_sum hardened (\<lambda>_. True)) (authenticate_admin X W services headers permission)"
proof -
  show *: "yields (case_sum hardened (\<lambda>_. True)) (authenticate_access X W services headers)"
    unfolding authenticate_access_def by (auto simp: yields_def run_map_def bind_def return_def split: option.split prod.split sum.split)
  show "yields (case_sum hardened (\<lambda>_. True)) (authenticate_admin X W services headers permission)"
    using * unfolding authenticate_admin_def
    by (auto simp: yields_def attempt_def bind_def return_def split: option.split prod.split sum.split) (metis fst_conv sum.case(1))
qed

lemma transaction_hardened:
  "(\<And>flow services b corr t. yields hardened (k flow services b corr t)) \<Longrightarrow>
   yields hardened (with_login_transaction X W state headers pre stage k)"
  unfolding with_login_transaction_def by (intro yields_intros) simp_all

lemmas hardened_intros = yields_intros transaction_hardened yields_or_respond_id [OF authenticate_hardened(1)]
  yields_or_respond_id [OF authenticate_hardened(2)] yields_run_map

lemma route_hardened:
  "yields hardened (start_password_login_route X W state address password)"
  "yields hardened (complete_totp_login_route X W state headers code)"
  "yields hardened (complete_password_only_login_route X W state headers)"
  "yields hardened (begin_totp_enrollment_route X W state headers)"
  "yields hardened (confirm_totp_enrollment_route X W state headers code)"
  "yields hardened (refresh_session_route X W state headers)"
  "yields hardened (begin_passkey_login_route X W state address)"
  "yields hardened (finish_passkey_login_route X W state headers response)"
  "yields hardened (begin_passkey_registration_route X W state headers label)"
  "yields hardened (finish_passkey_registration_route X W state headers response)"
  "yields hardened (invite_account_route X W state headers localpart role)"
  "yields hardened (begin_role_change_step_up_route X W state headers account code role grant)"
  "yields hardened (change_account_role_route X W state headers account role grant)"
  "yields hardened (deliver_federation_route X W state request_id q)"
proof -
  show "yields hardened (start_password_login_route X W state address password)"
    unfolding start_password_login_route_def Let_def by (intro hardened_intros) (simp_all add: hardened_cookies)
  show "yields hardened (complete_totp_login_route X W state headers code)"
    unfolding complete_totp_login_route_def totp_login_continue_def Let_def by (intro hardened_intros) (simp_all add: hardened_cookies)
  show "yields hardened (complete_password_only_login_route X W state headers)"
    unfolding complete_password_only_login_route_def Let_def by (intro hardened_intros) (simp_all add: hardened_cookies)
  show "yields hardened (begin_totp_enrollment_route X W state headers)"
    unfolding begin_totp_enrollment_route_def Let_def by (intro hardened_intros) (simp_all add: hardened_cookies)
  show "yields hardened (confirm_totp_enrollment_route X W state headers code)"
    unfolding confirm_totp_enrollment_route_def Let_def by (intro hardened_intros) (simp_all add: hardened_cookies)
  show "yields hardened (refresh_session_route X W state headers)"
    unfolding refresh_session_route_def Let_def by (intro hardened_intros) (simp_all add: hardened_cookies)
  show "yields hardened (begin_passkey_login_route X W state address)"
    unfolding begin_passkey_login_route_def Let_def by (intro hardened_intros) (simp_all add: hardened_cookies)
  show "yields hardened (finish_passkey_login_route X W state headers response)"
    unfolding finish_passkey_login_route_def Let_def by (intro hardened_intros) (simp_all add: hardened_cookies issue_session_hardened)
  show "yields hardened (begin_passkey_registration_route X W state headers label)"
    unfolding begin_passkey_registration_route_def Let_def by (intro hardened_intros) (simp_all add: hardened_cookies)
  show "yields hardened (finish_passkey_registration_route X W state headers response)"
    unfolding finish_passkey_registration_route_def Let_def by (intro hardened_intros) (simp_all add: hardened_cookies split: federation_ingress_outcome.split step_up_issue_outcome.split webauthn_finish_outcome.split)
  show "yields hardened (invite_account_route X W state headers localpart role)"
    unfolding invite_account_route_def Let_def by (intro hardened_intros) (simp_all add: hardened_cookies)
  show "yields hardened (begin_role_change_step_up_route X W state headers account code role grant)"
    unfolding begin_role_change_step_up_route_def Let_def by (intro hardened_intros) (simp_all add: hardened_cookies split: federation_ingress_outcome.split step_up_issue_outcome.split webauthn_finish_outcome.split)
  show "yields hardened (change_account_role_route X W state headers account role grant)"
    unfolding change_account_role_route_def apply_role_change_def Let_def by (intro hardened_intros) (simp_all add: hardened_cookies)
  show "yields hardened (deliver_federation_route X W state request_id q)"
    unfolding deliver_federation_route_def Let_def by (intro hardened_intros) (simp_all add: hardened_cookies split: federation_ingress_outcome.split step_up_issue_outcome.split webauthn_finish_outcome.split)
qed

lemma handle_hardened: "yields hardened (handle X W state headers route)"
  by (cases route) (simp_all add: route_hardened yields_return)

lemma hardened_headers [simp]:
  "hardened (insert_header h c r) \<longleftrightarrow> hardened r" "hardened (security_headers hsts r) \<longleftrightarrow> hardened r"
  by (simp_all add: hardened_def insert_header_def security_headers_def Let_def)

lemma serve_hardened: "yields hardened (serve X W state headers route)"
  unfolding serve_def host_guard_def request_correlation_def
  by (auto intro!: yields_return yields_bind yields_run_map intro: handle_hardened)

subsection \<open>Inverting responses\<close>

lemma serve_inverted:
  assumes "serve X W state headers route s = (r, s')" and "resp_status r \<noteq> 421"
  obtains r' t where "handle X W state headers route t = (r', s')" and "resp_status r' = resp_status r" and "sys_db t = sys_db s"
    and "sys_tick s \<le> sys_tick t"
  using assms
  by (auto simp: serve_def host_guard_def request_correlation_def run_map_def bind_def return_def tick_def
      split: option.splits prod.splits if_splits)

lemma or_respond_inverted:
  assumes "or_respond m h k s = (r, s')" and "resp_status r = n" and "\<And>e t. m s = (Inl e, t) \<Longrightarrow> resp_status (h e) \<noteq> n"
  obtains x t where "m s = (Inr x, t)" and "k x t = (r, s')"
  using assms by (auto simp: or_respond_def bind_def return_def split: prod.splits sum.splits)

lemma correlation_inverted:
  assumes "bind (correlation X W pre) k s = (r, s')"
  obtains c t where "k c t = (r, s')" and "sys_db t = sys_db s" and "sys_tick s \<le> sys_tick t"
  using assms by (auto simp: correlation_def run_map_def bind_def return_def tick_def)

lemma now_inverted:
  assumes "bind (now_utc W) k s = (r, s')"
  obtains t where "k (world_clock W (sys_tick s)) t = (r, s')" and "sys_db t = sys_db s"
  using assms by (auto simp: bind_def tick_def)

lemma authenticate_access_failure:
  "authenticate_access X W services headers s = (Inl r, t) \<Longrightarrow> resp_status r \<in> {401, 403, 503}"
  by (auto simp: authenticate_access_def run_map_def bind_def return_def split: option.splits prod.splits sum.splits if_splits)

lemma authenticate_admin_failure:
  assumes "authenticate_admin X W services headers permission s = (Inl r, t)"
  shows "resp_status r \<in> {401, 403, 503}"
proof (cases "authenticate_access X W services headers s")
  case (Pair x u)
  with assms authenticate_access_failure show ?thesis
    by (cases x) (fastforce simp: authenticate_admin_def attempt_def bind_def return_def split: sum.splits)+
qed

definition live_session :: "timestamp \<Rightarrow> opaque_token_digest \<Rightarrow> 'j database \<Rightarrow> uuid \<Rightarrow> uuid \<Rightarrow> uuid \<Rightarrow> bool" where
  "live_session now d db tenant account family \<longleftrightarrow>
     (\<exists>x \<in> set (access_sessions db). as_digest x = d \<and> as_revoked_at x = None \<and> now < as_expires_at x \<and>
        as_tenant x = tenant \<and> as_account x = account \<and> as_family x = family) \<and>
     (\<exists>f \<in> set (session_families db). fm_id f = family \<and> fm_revoked_at f = None) \<and>
     has_account_in db tenant account [''active'']"

lemma authenticate_access_ok:
  assumes "authenticate_access X W services headers s = (Inr auth, t)"
  obtains access where "csrf_proof_is_valid X headers SESSION_CSRF_COOKIE" and "browser_cookie X headers ACCESS_COOKIE = Some access"
    and "live_session (env_now (world_store W (sys_tick s))) (derive_opaque_token_digest (ext_tokens X) (svc_access_key services) access)
      (sys_db t) (tenant_uuid (context_tenant (session_context auth))) (account_uuid (context_account (session_context auth)))
      (session_family auth)"
    and "sys_tick s < sys_tick t"
    and "\<And>r. r \<in> set (context_roles (session_context auth)) \<longleftrightarrow>
      (tenant_uuid (context_tenant (session_context auth)), account_uuid (context_account (session_context auth)), role_text r)
        \<in> role_key ` set (account_roles (sys_db t))"
proof -
  from assms obtain access where csrf: "csrf_proof_is_valid X headers SESSION_CSRF_COOKIE"
    and access: "browser_cookie X headers ACCESS_COOKIE = Some access"
    and auth: "access_authenticate (ext_tokens X) W (svc_access_key services) access s = (Inr (Some auth), t)"
    by (auto simp: authenticate_access_def run_map_def bind_def return_def split: option.splits prod.splits sum.splits if_splits)
  let ?d = "derive_opaque_token_digest (ext_tokens X) (svc_access_key services) access"
  from auth obtain found u where read: "store_read W (\<lambda>E. access_session_authorization_context E ?d) s = (Inr found, u)"
    and out: "return (Inr (map_option (\<lambda>a. \<lparr>session_context = authorization_of a, session_family = authorization_family a\<rparr>) found)) u =
      (Inr (Some auth) :: access_session_authentication_error + authenticated_access_session option, t)"
    unfolding access_authenticate_def run_map_err_eq by (elim exE conjE)
  from out obtain a where a: "found = Some a" "auth = \<lparr>session_context = authorization_of a, session_family = authorization_family a\<rparr>" "u = t"
    by (cases found) (auto simp: return_eq)
  with read have ctx: "access_session_authorization_context (world_store W (sys_tick s)) ?d (sys_db t) = Inr (Some a)"
    unfolding store_read_eq by blast
  have "sys_tick s < sys_tick t" using read a(3) by (auto simp: store_read_eq)
  show thesis
  proof (rule that [OF csrf access])
    show "sys_tick s < sys_tick t" by fact
    from ctx show "live_session (env_now (world_store W (sys_tick s))) ?d (sys_db t)
        (tenant_uuid (context_tenant (session_context auth))) (account_uuid (context_account (session_context auth))) (session_family auth)"
      by (rule access_authorization_Some) (auto simp: live_session_def a has_account_in_def list_ex_iff)
    from ctx show "r \<in> set (context_roles (session_context auth)) \<longleftrightarrow>
        (tenant_uuid (context_tenant (session_context auth)), account_uuid (context_account (session_context auth)), role_text r)
        \<in> role_key ` set (account_roles (sys_db t))" for r
      by (rule access_authorization_Some) (simp add: a)
  qed
qed

lemma authenticate_admin_ok:
  assumes "authenticate_admin X W services headers permission s = (Inr auth, t)"
  shows "authenticate_access X W services headers s = (Inr auth, t) \<and>
    (\<exists>r \<in> set (context_roles (session_context auth)). role_grants r permission)"
  using assms unfolding authenticate_admin_def attempt_eq_Inr
  by (auto simp: return_eq authorization_require_def list_ex_iff split: sum.splits if_splits)

lemma change_role_outcome:
  assumes "change_role E c db = (Inr (), db')"
  shows "(tenant_uuid (change_tenant c), account_uuid (change_target c), role_text (change_role_of c)) \<in> role_key ` set (account_roles db')
    \<longleftrightarrow> change_grant c"
proof (cases "change_grant c")
  case True
  from assms show ?thesis
  proof (cases rule: change_role_effect)
    case (granted rl au)
    then show ?thesis using True by (auto intro: rev_image_eqI)
  next
    case (revoked au)
    show ?thesis using assms True
      by (auto simp: change_role_def change_role_rows_def transact_eq and_then_eq_Inr Let_def insert_role_def sql_insert_def
          insert_audit_def role_key_def split: if_splits)
  qed simp
next
  case False
  with assms show ?thesis
    by (auto simp: change_role_def change_role_rows_def transact_eq and_then_eq_Inr Let_def insert_audit_def sql_insert_def
        split: if_splits)
qed

subsection \<open>Role changes\<close>

lemma apply_role_change_inverted:
  assumes "apply_role_change X W services auth command token s = (r, s')" and "resp_status r = 204"
  obtains t where "consume_role_change (ext_tokens X) (fed_sha256 (ext_federation X)) W (svc_step_up services)
      (context_tenant (session_context auth)) (context_account (session_context auth)) (session_family auth)
      \<lparr>target_account = change_target command, target_role = change_role_of command, target_grant = change_grant command\<rparr>
      token (change_correlation command) s = (Inr True, t)"
    and "store_call W (\<lambda>E. change_role E command) t = (Inr (), s')"
proof -
  from assms obtain accepted t where consumed: "consume_role_change (ext_tokens X) (fed_sha256 (ext_federation X)) W
        (svc_step_up services) (context_tenant (session_context auth)) (context_account (session_context auth)) (session_family auth)
        \<lparr>target_account = change_target command, target_role = change_role_of command, target_grant = change_grant command\<rparr>
        token (change_correlation command) s = (Inr accepted, t)"
    and rest: "(if \<not> accepted then return (step_up_required X)
         else run_map (clear_step_up_cookie X)
           (or_respond (store_call W (\<lambda>E. change_role E command)) administration_failure (\<lambda>_. return (status_only 204)))) t = (r, s')"
    unfolding apply_role_change_def by (rule or_respond_inverted) simp
  have accepted: accepted using rest assms(2) by (auto simp: return_eq split: if_splits)
  with rest obtain r' where change: "or_respond (store_call W (\<lambda>E. change_role E command)) administration_failure
      (\<lambda>_. return (status_only 204)) t = (r', s')" and r': "r = clear_step_up_cookie X r'"
    by (auto simp: run_map_eq)
  have "resp_status r' = 204" using r' assms(2) by simp
  with change obtain u where "store_call W (\<lambda>E. change_role E command) t = (Inr (), u)" and "return (status_only 204) u = (r', s')"
    by (rule or_respond_inverted) (auto simp: administration_failure_def split: store_error.splits)
  then show thesis using that consumed accepted by (simp add: return_eq)
qed

lemma change_account_role_inverted:
  assumes "change_account_role_route X W state headers path role grant s = (r, s')" and "resp_status r = 204"
    and "http_mfa_session state = Some services"
  obtains auth t account token u corr where
    "authenticate_admin X W services headers ManageRoles s = (Inr auth, t)" and "uuid_parse X path = Some account"
    and "browser_cookie X headers STEP_UP_COOKIE = Some token" and "sys_db u = sys_db t" and "sys_tick t \<le> sys_tick u" and "role \<noteq> Owner"
    and "apply_role_change X W services auth \<lparr>change_tenant = context_tenant (session_context auth), change_target = AccountId account,
      change_role_of = role, change_grant = grant, change_actor = actor_of auth True, change_correlation = corr\<rparr> token u = (r, s')"
proof -
  let ?cmd = "\<lambda>auth account corr. \<lparr>change_tenant = context_tenant (session_context auth), change_target = AccountId account,
      change_role_of = role, change_grant = grant, change_actor = actor_of auth True, change_correlation = corr\<rparr>"
  let ?k = "\<lambda>auth account corr. let command = ?cmd auth account corr in
      if change_role_validate command \<noteq> Inr () then return (status_only 403)
      else (case browser_cookie X headers STEP_UP_COOKIE of None \<Rightarrow> return (step_up_required X)
            | Some token \<Rightarrow> apply_role_change X W services auth command token)"
  from assms obtain auth t where auth: "authenticate_admin X W services headers ManageRoles s = (Inr auth, t)"
    and run: "(case uuid_parse X path of None \<Rightarrow> return (status_only 404)
      | Some account \<Rightarrow> bind (correlation X W ''http-admin-role-'') (?k auth account)) t = (r, s')"
    unfolding change_account_role_route_def by simp (rule or_respond_inverted, assumption+, use authenticate_admin_failure in fastforce)
  from run assms(2) obtain account where account: "uuid_parse X path = Some account"
    by (cases "uuid_parse X path") (auto simp: return_eq)
  from run [unfolded account option.case] obtain corr u where db: "sys_db u = sys_db t" "sys_tick t \<le> sys_tick u" and run: "?k auth account corr u = (r, s')"
    by (rule correlation_inverted)
  from run assms(2) obtain token where "change_role_validate (?cmd auth account corr) = Inr ()"
    and "browser_cookie X headers STEP_UP_COOKIE = Some token"
    and "apply_role_change X W services auth (?cmd auth account corr) token u = (r, s')"
    by (auto simp: Let_def return_eq split: if_splits option.splits)
  then show thesis using that auth account db by (simp add: change_role_validate_iff)
qed

definition spendable_grant ::
  "timestamp \<Rightarrow> opaque_token_digest \<Rightarrow> uuid \<Rightarrow> uuid \<Rightarrow> uuid \<Rightarrow> 32 bytes \<Rightarrow> 'j database \<Rightarrow> bool" where
  "spendable_grant now d tenant account family target db \<longleftrightarrow> (\<exists>g \<in> set (step_up_grants db).
     su_digest g = d \<and> su_tenant g = tenant \<and> su_account g = account \<and> su_family g = family \<and>
     su_action g = ''change_account_role'' \<and> su_target g = target \<and> su_consumed_at g = None \<and>
     now < su_expires_at g)"

lemma consume_role_change_accepted:
  assumes "interference W" and "store_ok (sys_db s)"
    and "consume_role_change T sha256 W svc tenant account family target token corr s = (Inr True, t)"
    and "d = derive_opaque_token_digest T (step_up_digest_key svc) token"
  shows "\<exists>db. store_step\<^sup>*\<^sup>* (sys_db s) db \<and> store_step db (sys_db t) \<and>
    spendable_grant (env_now (world_store W (sys_tick s))) d (tenant_uuid tenant) (account_uuid account) family (role_change_target_digest sha256 target) db \<and>
    \<not> grant_used d (sys_db s) \<and> grant_used d (sys_db t)"
proof -
  let ?db = "world_others W (sys_tick s) (sys_db s)"
  let ?q = "\<lparr>sg_tenant = tenant, sg_account = account, sg_family = family, sg_action = ChangeAccountRole,
        sg_target = role_change_target_digest sha256 target, sg_digest = d, sg_correlation = corr\<rparr>"
  from assms(3,4) have c: "consume_step_up_grant (world_store W (sys_tick s)) ?q ?db = (Inr True, sys_db t)"
    by (simp add: consume_role_change_def run_map_err_eq store_call_eq)
  have s1: "store_step\<^sup>*\<^sup>* (sys_db s) ?db" using assms(1) by (rule interferenceD)
  have s2: "store_step ?db (sys_db t)" using c by (rule step_consume_grant)
  have ok: "store_ok ?db" using s1 assms(2) by (rule store_ok_steps)
  have used: "\<not> grant_used d ?db" "grant_used d (sys_db t)" using grant_accepted [OF c] store_okD(4) [OF ok] by simp_all
  then have "\<not> grant_used d (sys_db s)" using grant_use.spent_steps [OF s1 assms(2)] by blast
  moreover from c have "spendable_grant (env_now (world_store W (sys_tick s))) d (tenant_uuid tenant) (account_uuid account) family (role_change_target_digest sha256 target) ?db"
    by (cases rule: consume_step_up_grant_effect) (auto simp: spendable_grant_def usable_grant_def)
  ultimately show ?thesis using s1 s2 used(2) by blast
qed

lemma apply_role_change_effect:
  assumes W: "interference W" and ok: "store_ok (sys_db s)"
    and run: "apply_role_change X W services auth command token s = (r, s')" "resp_status r = 204"
    and d: "d = derive_opaque_token_digest (ext_tokens X) (step_up_digest_key (svc_step_up services)) token"
  shows "\<exists>db. store_step\<^sup>*\<^sup>* (sys_db s) db \<and> store_step\<^sup>*\<^sup>* db (sys_db s') \<and>
    spendable_grant (env_now (world_store W (sys_tick s))) d (tenant_uuid (context_tenant (session_context auth))) (account_uuid (context_account (session_context auth)))
      (session_family auth) (role_change_target_digest (fed_sha256 (ext_federation X))
        \<lparr>target_account = change_target command, target_role = change_role_of command, target_grant = change_grant command\<rparr>) db \<and>
    \<not> grant_used d (sys_db s) \<and> grant_used d (sys_db s') \<and>
    ((tenant_uuid (change_tenant command), account_uuid (change_target command), role_text (change_role_of command))
      \<in> role_key ` set (account_roles (sys_db s')) \<longleftrightarrow> change_grant command)"
proof -
  from run obtain t where consumed: "consume_role_change (ext_tokens X) (fed_sha256 (ext_federation X)) W (svc_step_up services)
      (context_tenant (session_context auth)) (context_account (session_context auth)) (session_family auth)
      \<lparr>target_account = change_target command, target_role = change_role_of command, target_grant = change_grant command\<rparr>
      token (change_correlation command) s = (Inr True, t)"
    and changed: "store_call W (\<lambda>E. change_role E command) t = (Inr (), s')"
    by (rule apply_role_change_inverted)
  from consume_role_change_accepted [OF W ok consumed d] obtain db where db: "store_step\<^sup>*\<^sup>* (sys_db s) db" "store_step db (sys_db t)"
      "spendable_grant (env_now (world_store W (sys_tick s))) d (tenant_uuid (context_tenant (session_context auth))) (account_uuid (context_account (session_context auth)))
        (session_family auth) (role_change_target_digest (fed_sha256 (ext_federation X))
        \<lparr>target_account = change_target command, target_role = change_role_of command, target_grant = change_grant command\<rparr>) db"
      "\<not> grant_used d (sys_db s)" "grant_used d (sys_db t)" by blast
  let ?db = "world_others W (sys_tick t) (sys_db t)"
  have c: "change_role (world_store W (sys_tick t)) command ?db = (Inr (), sys_db s')" using changed by (simp add: store_call_eq)
  have steps: "store_step\<^sup>*\<^sup>* (sys_db t) (sys_db s')"
    using interferenceD [OF W] step_change_role [OF c] by (rule rtranclp.rtrancl_into_rtrancl)
  have "store_ok (sys_db t)" using store_ok_steps [OF db(1) ok] db(2) store_ok_step by blast
  then have "grant_used d (sys_db s')" using grant_use.spent_steps [OF steps] db(5) by blast
  then show ?thesis
    using db(1,3,4) converse_rtranclp_into_rtranclp [of store_step, OF db(2) steps] change_role_outcome [OF c] by blast
qed

lemma authenticated_owner:
  assumes "authenticate_admin X W services headers ManageRoles s = (Inr auth, t)"
  obtains access where "csrf_proof_is_valid X headers SESSION_CSRF_COOKIE" and "browser_cookie X headers ACCESS_COOKIE = Some access"
    and "live_session (env_now (world_store W (sys_tick s))) (derive_opaque_token_digest (ext_tokens X) (svc_access_key services) access)
      (sys_db t) (tenant_uuid (context_tenant (session_context auth))) (account_uuid (context_account (session_context auth)))
      (session_family auth)"
    and "(tenant_uuid (context_tenant (session_context auth)), account_uuid (context_account (session_context auth)), ''owner'')
        \<in> role_key ` set (account_roles (sys_db t))"
    and "sys_tick s < sys_tick t"
proof -
  have access: "authenticate_access X W services headers s = (Inr auth, t)" and owner: "Owner \<in> set (context_roles (session_context auth))"
    using authenticate_admin_ok [OF assms] by (auto simp: grants_manage_roles)
  from access show thesis
  proof (cases rule: authenticate_access_ok)
    case (1 access)
    have "(tenant_uuid (context_tenant (session_context auth)), account_uuid (context_account (session_context auth)), role_text Owner)
        \<in> role_key ` set (account_roles (sys_db t))" using 1(5) owner by blast
    then show thesis using that 1(1-4) by simp
  qed
qed

subsection \<open>Logging in with a second factor\<close>

lemma with_login_transaction_inverted:
  assumes run: "with_login_transaction X W state headers pre stage k s = (r, s')" and status: "resp_status r = 200"
    and state: "http_login_flow state = Some flow" "http_mfa_session state = Some services"
  obtains token binding corr tx t u where "browser_cookie X headers LOGIN_TRANSACTION_COOKIE = Some token"
    and "browser_cookie X headers LOGIN_BINDING_COOKIE = Some binding" and "csrf_proof_is_valid X headers LOGIN_CSRF_COOKIE"
    and "sys_db t = sys_db s" and "consume_next_step (ext_tokens X) W flow token binding stage corr t = (Inr tx, u)"
    and "k flow services binding corr tx u = (r, s')"
proof -
  from run status state obtain token binding where cookies: "browser_cookie X headers LOGIN_TRANSACTION_COOKIE = Some token"
      "browser_cookie X headers LOGIN_BINDING_COOKIE = Some binding" "csrf_proof_is_valid X headers LOGIN_CSRF_COOKIE"
    and run: "bind (correlation X W pre) (\<lambda>c. or_respond (consume_next_step (ext_tokens X) W flow token binding stage c)
        (consume_failure X) (\<lambda>tx. k flow services binding c tx)) s = (r, s')"
    by (auto simp: with_login_transaction_def return_eq split: option.splits if_splits)
  from run obtain c t where t: "sys_db t = sys_db s" and run: "or_respond (consume_next_step (ext_tokens X) W flow token binding stage c)
        (consume_failure X) (\<lambda>tx. k flow services binding c tx) t = (r, s')"
    by (rule correlation_inverted)
  from run status obtain tx u where "consume_next_step (ext_tokens X) W flow token binding stage c t = (Inr tx, u)"
    and "k flow services binding c tx u = (r, s')"
    by (rule or_respond_inverted) (auto simp: consume_failure_def)
  then show thesis using that cookies t by blast
qed

lemma consume_next_step_accepted:
  assumes "interference W" and "store_ok (sys_db s)" and "consume_next_step T W flow token binding stage corr s = (Inr tx, t)"
    and "d = derive_opaque_token_digest T (transaction_digest_key (flow_transaction flow)) token"
  shows "\<exists>db l. store_step\<^sup>*\<^sup>* (sys_db s) db \<and> store_step db (sys_db t) \<and> \<not> login_used d (sys_db s) \<and> login_used d (sys_db t) \<and>
    l \<in> set (login_transactions db) \<and> usable_login d (digest_bytes (derive_opaque_token_digest T (flow_binding_key flow) binding)) stage
      (env_now (world_store W (sys_tick s))) l \<and> lr_tenant tx = TenantId (lt_tenant l) \<and> lr_account tx = AccountId (lt_account l)"
proof -
  let ?db = "world_others W (sys_tick s) (sys_db s)"
  let ?b = "digest_bytes (derive_opaque_token_digest T (flow_binding_key flow) binding)"
  from assms(3,4) have c: "consume_login_transaction (world_store W (sys_tick s)) d stage ?b corr ?db = (Inr tx, sys_db t)"
    by (simp add: consume_next_step_def login_transaction_consume_def run_map_err_eq store_call_eq)
  have s1: "store_step\<^sup>*\<^sup>* (sys_db s) ?db" using assms(1) by (rule interferenceD)
  have s2: "store_step ?db (sys_db t)" using c by (rule step_consume_login)
  have ok: "store_ok ?db" using s1 assms(2) by (rule store_ok_steps)
  have used: "\<not> login_used d ?db" "login_used d (sys_db t)" using login_accepted [OF c] store_okD(4) [OF ok] by simp_all
  then have "\<not> login_used d (sys_db s)" using login_use.spent_steps [OF s1 assms(2)] by blast
  moreover from c obtain l where "l \<in> set (login_transactions ?db)" "usable_login d ?b stage (env_now (world_store W (sys_tick s))) l"
      "lr_tenant tx = TenantId (lt_tenant l)" "lr_account tx = AccountId (lt_account l)"
    by (cases rule: consume_login_transaction_effect) auto
  ultimately show ?thesis using s1 s2 used(2) by blast
qed

text \<open>A code that is accepted verifies against the active factor, and its time step is spent.\<close>

definition code_accepted ::
  "totp_primitives \<Rightarrow> 'j totp_key_provider \<Rightarrow> tenant_id \<Rightarrow> account_id \<Rightarrow> str \<Rightarrow> timestamp \<Rightarrow> 'j database \<Rightarrow> 'j database \<Rightarrow> bool" where
  "code_accepted P K tenant account code now db db' \<longleftrightarrow> (\<exists>factor key accepted t u.
     active_totp_factor tenant account db = Inr (Some factor) \<and>
     provider_resolve K (seed_key_reference (factor_seed factor)) t = (Inr key, u) \<and> sys_db t = db \<and>
     verify_totp P key (factor_seed factor)
       \<lparr>binding_tenant = tenant, binding_account = account, binding_factor = factor_id factor\<rparr> code now (factor_last_step factor) =
       Inr accepted \<and>
     \<not> totp_used (factor_id factor, accepted_step accepted) db \<and> totp_used (factor_id factor, accepted_step accepted) db')"

lemma code_accepted_later:
  assumes "code_accepted P K tenant account code now db db1" and "store_step\<^sup>*\<^sup>* db1 db2" and "store_ok db1"
  shows "code_accepted P K tenant account code now db db2"
  using assms(1) totp_use.spent_steps [OF assms(2,3)] unfolding code_accepted_def by (elim exE conjE) (intro exI conjI, assumption+, simp)

lemma accept_totp_code_inverted:
  assumes W: "interference W" and run: "accept_totp_code P W tenant account factor key code now s = (Inr (TotpAuthenticated ctx), s')"
  obtains accepted t where "verify_totp P key (factor_seed factor)
      \<lparr>binding_tenant = tenant, binding_account = account, binding_factor = factor_id factor\<rparr> code now (factor_last_step factor) = Inr accepted"
    and "store_call W (\<lambda>_. consume_totp_step tenant account (factor_id factor) (accepted_step accepted)) s = (Inr (), t)"
    and "store_step\<^sup>*\<^sup>* (sys_db t) (sys_db s')"
proof -
  let ?verify = "verify_totp P key (factor_seed factor)
      \<lparr>binding_tenant = tenant, binding_account = account, binding_factor = factor_id factor\<rparr> code now (factor_last_step factor)"
  from run obtain accepted where verified: "?verify = Inr accepted"
    by (cases ?verify) (auto simp: accept_totp_code_def return_eq split: if_splits)
  from run obtain consumed t where call: "store_call W (\<lambda>_. consume_totp_step tenant account (factor_id factor) (accepted_step accepted)) s = (consumed, t)"
    and rest: "(case consumed of
            Inl e \<Rightarrow> return (if e = TargetNotFoundOrUnchanged then Inr TotpDenied else Inl (TotpLoginStore e))
          | Inr _ \<Rightarrow>
              attempt (run_map (map_err TotpLoginStore) (store_read W (\<lambda>_. session_authorization_context tenant account))) (\<lambda>ctx.
              return (Inr (case ctx of None \<Rightarrow> TotpDenied | Some c \<Rightarrow> TotpAuthenticated c)))) t = (Inr (TotpAuthenticated ctx), s')"
    unfolding accept_totp_code_def Let_def verified sum.case bind_eq by (elim exE conjE)
  from rest have consumed: "consumed = Inr ()" by (cases consumed) (auto simp: return_eq split: if_splits)
  have "only_steps (attempt (run_map (map_err TotpLoginStore) (store_read W (\<lambda>_. session_authorization_context tenant account))) (\<lambda>ctx.
              return (Inr (case ctx of None \<Rightarrow> TotpDenied | Some c \<Rightarrow> TotpAuthenticated c))))"
    using W by (intro steps_intros)
  from only_stepsD [OF this rest [unfolded consumed sum.case]] show thesis using that verified call consumed by blast
qed

lemma totp_login_complete_accepted:
  assumes W: "interference W" and K: "provider_steps K" and ok: "store_ok (sys_db s)"
    and run: "totp_login_complete P K W tenant account code now s = (Inr (TotpAuthenticated ctx), s')"
  shows "\<exists>db. store_step\<^sup>*\<^sup>* (sys_db s) db \<and> store_step\<^sup>*\<^sup>* db (sys_db s') \<and> code_accepted P K tenant account code now db (sys_db s')"
proof -
  let ?k = "\<lambda>found. case found of None \<Rightarrow> return (Inr TotpDenied)
     | Some factor \<Rightarrow> attempt (run_map (map_err TotpLoginKeyResolution) (provider_resolve K (seed_key_reference (factor_seed factor))))
         (\<lambda>key. accept_totp_code P W tenant account factor key code now)"
  from run obtain found t where read: "store_read W (\<lambda>_. active_totp_factor tenant account) s = (Inr found, t)"
    and rest: "?k found t = (Inr (TotpAuthenticated ctx), s')"
    unfolding totp_login_complete_def run_map_err_eq by (elim exE conjE)
  from rest obtain factor where factor: "found = Some factor" by (cases found) (auto simp: return_eq)
  from rest [unfolded factor option.case run_map_err_eq] obtain key u
    where key: "provider_resolve K (seed_key_reference (factor_seed factor)) t = (Inr key, u)"
      and code: "accept_totp_code P W tenant account factor key code now u = (Inr (TotpAuthenticated ctx), s')"
    by (elim exE conjE)
  from W code obtain accepted v where verified: "verify_totp P key (factor_seed factor)
      \<lparr>binding_tenant = tenant, binding_account = account, binding_factor = factor_id factor\<rparr> code now (factor_last_step factor) = Inr accepted"
    and call: "store_call W (\<lambda>_. consume_totp_step tenant account (factor_id factor) (accepted_step accepted)) u = (Inr (), v)"
    and final: "store_step\<^sup>*\<^sup>* (sys_db v) (sys_db s')"
    by (rule accept_totp_code_inverted)
  let ?db = "world_others W (sys_tick u) (sys_db u)" and ?k = "(factor_id factor, accepted_step accepted)"
  have c: "consume_totp_step tenant account (factor_id factor) (accepted_step accepted) ?db = (Inr (), sys_db v)"
    using call by (simp add: store_call_eq)
  have s1: "store_step\<^sup>*\<^sup>* (sys_db s) (sys_db t)" using read interferenceD [OF W] by (simp add: store_read_eq)
  have "only_steps (provider_resolve K (seed_key_reference (factor_seed factor)))" using K by (simp add: provider_steps_def)
  then have s2: "store_step\<^sup>*\<^sup>* (sys_db t) (sys_db u)" using key by (rule only_stepsD)
  have s3: "store_step\<^sup>*\<^sup>* (sys_db t) ?db" using s2 interferenceD [OF W] by (rule rtranclp_trans)
  have ok1: "store_ok (sys_db t)" using s1 ok by (rule store_ok_steps)
  have ok2: "store_ok ?db" using s3 ok1 by (rule store_ok_steps)
  have used: "\<not> totp_used ?k ?db" "totp_used ?k (sys_db v)" using totp_accepted [OF c store_okD(3) [OF ok2]] by simp_all
  have before: "\<not> totp_used ?k (sys_db t)" using used(1) totp_use.spent_steps [OF s3 ok1] by blast
  have ok3: "store_ok (sys_db v)" using ok2 step_totp [OF c] by (rule store_ok_step)
  have after: "totp_used ?k (sys_db s')" using totp_use.spent_steps [OF final ok3] used(2) by blast
  have "store_step\<^sup>*\<^sup>* (sys_db t) (sys_db s')"
    using rtranclp_trans [OF rtranclp.rtrancl_into_rtrancl [OF s3 step_totp [OF c]] final] .
  moreover have "active_totp_factor tenant account (sys_db t) = Inr (Some factor)" using read factor unfolding store_read_eq by blast
  moreover have "code_accepted P K tenant account code now (sys_db t) (sys_db s')"
    unfolding code_accepted_def using calculation(2) key verified before after refl [of "sys_db t"] by (intro exI conjI)
  ultimately show ?thesis using s1 by blast
qed

lemma totp_login_continue_accepted:
  assumes W: "interference W" and K: "provider_steps (svc_totp_login services)" and ok: "store_ok (sys_db s)"
    and run: "totp_login_continue X W services corr tx code s = (r, s')" "resp_status r = 200"
  shows "\<exists>db j. store_step\<^sup>*\<^sup>* (sys_db s) db \<and> store_step\<^sup>*\<^sup>* db (sys_db s') \<and>
    code_accepted (ext_totp X) (svc_totp_login services) (lr_tenant tx) (lr_account tx) code (world_clock W j) db (sys_db s')"
proof -
  let ?now = "world_clock W (sys_tick s)"
  let ?k = "\<lambda>outcome. case outcome of TotpAuthenticated ctx \<Rightarrow> issue_browser_session X W (svc_session_issuer services) ctx corr
     | TotpDenied \<Rightarrow> return (login_flow_denial X)"
  from run(1) obtain t where t: "sys_db t = sys_db s"
    and rest: "or_respond (totp_login_complete (ext_totp X) (svc_totp_login services) W (lr_tenant tx) (lr_account tx) code ?now)
      (\<lambda>_. status_only 503) ?k t = (r, s')"
    unfolding totp_login_continue_def by (rule now_inverted)
  from rest run(2) obtain outcome u where login: "totp_login_complete (ext_totp X) (svc_totp_login services) W (lr_tenant tx) (lr_account tx)
      code ?now t = (Inr outcome, u)" and rest: "?k outcome u = (r, s')"
    by (rule or_respond_inverted) simp
  from rest run(2) obtain ctx where outcome: "outcome = TotpAuthenticated ctx" by (cases outcome) (auto simp: return_eq)
  have "only_steps (issue_browser_session X W (svc_session_issuer services) ctx corr)" using W by (rule issue_browser_session_steps)
  moreover have "issue_browser_session X W (svc_session_issuer services) ctx corr u = (r, s')" using rest by (simp add: outcome)
  ultimately have final: "store_step\<^sup>*\<^sup>* (sys_db u) (sys_db s')" by (rule only_stepsD)
  from totp_login_complete_accepted [OF W K _ login [unfolded outcome]] ok obtain db where
    db: "store_step\<^sup>*\<^sup>* (sys_db s) db" "store_step\<^sup>*\<^sup>* db (sys_db u)"
      "code_accepted (ext_totp X) (svc_totp_login services) (lr_tenant tx) (lr_account tx) code ?now db (sys_db u)"
    unfolding t by blast
  have "store_ok (sys_db u)" using store_ok_steps [OF rtranclp_trans [OF db(1,2)] ok] .
  then have "code_accepted (ext_totp X) (svc_totp_login services) (lr_tenant tx) (lr_account tx) code ?now db (sys_db s')"
    by (rule code_accepted_later [OF db(3) final])
  then show ?thesis using db(1) rtranclp_trans [OF db(2) final] by blast
qed

subsection \<open>What the password step leaves behind\<close>

lemma login_transaction_begin_pending:
  assumes "login_transaction_begin T W svc outcome binding corr now s = (Inr (StartPending x), s')"
    and "stage_for outcome = Some (tenant, account, stage, ctx)"
  shows "\<exists>l \<in> set (login_transactions (sys_db s')). lt_digest l = derive_opaque_token_digest T (transaction_digest_key svc) (transaction_token x) \<and>
    lt_binding l = binding \<and> lt_stage l = login_stage_text stage \<and> lt_tenant l = tenant_uuid tenant \<and> lt_account l = account_uuid account \<and>
    lt_expires_at l = now + transaction_lifetime (transaction_policy svc) \<and> lt_consumed_at l = None"
proof -
  from assms obtain issued r t u where issued: "issue_token T W (transaction_digest_key svc) s = (issued, t)"
    and call: "store_call W (\<lambda>E. create_login_transaction E
            \<lparr>cl_tenant = tenant, cl_account = account, cl_digest = issued_digest issued, cl_stage = stage, cl_binding = binding,
             cl_factor = None, cl_expires_at = now + transaction_lifetime (transaction_policy svc), cl_correlation = corr\<rparr>) t = (Inr r, u)"
    and out: "x = \<lparr>transaction_token = token_raw issued, transaction_record = r, transaction_context = ctx\<rparr>" "u = s'"
    unfolding login_transaction_begin_def assms(2) by (auto simp: bind_eq run_map_err_eq return_eq)
  have "issued_digest issued = derive_opaque_token_digest T (transaction_digest_key svc) (token_raw issued)"
    using issued by (auto simp: issue_token_eq issue_opaque_token_def derive_opaque_token_digest_def Let_def)
  moreover from call have "create_login_transaction (world_store W (sys_tick t))
            \<lparr>cl_tenant = tenant, cl_account = account, cl_digest = issued_digest issued, cl_stage = stage, cl_binding = binding,
             cl_factor = None, cl_expires_at = now + transaction_lifetime (transaction_policy svc), cl_correlation = corr\<rparr>
             (world_others W (sys_tick t) (sys_db t)) = (Inr r, sys_db s')" by (simp add: store_call_eq out(2))
  then obtain l au where "login_transactions (sys_db s') = login_transactions (world_others W (sys_tick t) (sys_db t)) @ [l]"
    and "lt_digest l = issued_digest issued" "lt_consumed_at l = None" "lt_stage l = login_stage_text stage" "lt_binding l = binding"
      "lt_expires_at l = now + transaction_lifetime (transaction_policy svc)" "lt_tenant l = tenant_uuid tenant" "lt_account l = account_uuid account"
    by (cases rule: create_login_transaction_effect) auto
  ultimately show ?thesis using out(1) by auto
qed

lemma start_password_login_inverted:
  assumes "start_password_login A T W flow address password corr now s = (Inr (FlowPending ch), s')"
  obtains outcome t binding u v where "password_authenticate A W (flow_password flow) address password s = (Inr outcome, t)"
    and "issue_token T W (flow_binding_key flow) t = (binding, u)" and "challenge_binding ch = token_raw binding"
    and "login_transaction_begin T W (flow_transaction flow) outcome
      (digest_bytes (derive_opaque_token_digest T (flow_binding_key flow) (token_raw binding))) corr now u =
      (Inr (StartPending (challenge_transaction ch)), s')"
proof -
  let ?k = "\<lambda>outcome. if outcome = PasswordDenied then return (Inr FlowDenied)
     else
       bind (issue_token T W (flow_binding_key flow)) (\<lambda>binding.
       let digest = derive_opaque_token_digest T (flow_binding_key flow) (token_raw binding) in
       attempt (run_map (map_err FlowTransaction)
         (login_transaction_begin T W (flow_transaction flow) outcome (digest_bytes digest) corr now)) (\<lambda>started.
       return (Inr (case started of
          StartDenied \<Rightarrow> FlowDenied
        | StartPending transaction \<Rightarrow> FlowPending \<lparr>challenge_transaction = transaction, challenge_binding = token_raw binding\<rparr>))))"
  from assms obtain outcome t where out: "password_authenticate A W (flow_password flow) address password s = (Inr outcome, t)"
    and rest: "?k outcome t = (Inr (FlowPending ch), s')"
    unfolding start_password_login_def run_map_err_eq by (elim exE conjE)
  from rest have "outcome \<noteq> PasswordDenied" by (auto simp: return_eq)
  with rest obtain binding u started v where b: "issue_token T W (flow_binding_key flow) t = (binding, u)"
    and start: "login_transaction_begin T W (flow_transaction flow) outcome
      (digest_bytes (derive_opaque_token_digest T (flow_binding_key flow) (token_raw binding))) corr now u = (Inr started, v)"
    and final: "return (Inr (case started of
          StartDenied \<Rightarrow> FlowDenied
        | StartPending transaction \<Rightarrow> FlowPending \<lparr>challenge_transaction = transaction, challenge_binding = token_raw binding\<rparr>)) v =
        (Inr (FlowPending ch) :: fabric_login_flow_error + fabric_login_start, s')"
    unfolding Let_def bind_eq run_map_err_eq if_not_P [OF \<open>outcome \<noteq> PasswordDenied\<close>] by (elim exE conjE)
  show thesis
  proof (cases started)
    case (StartPending tx)
    with final have "ch = \<lparr>challenge_transaction = tx, challenge_binding = token_raw binding\<rparr>" "v = s'" by (auto simp: return_eq)
    then show thesis using that out b start StartPending by simp
  qed (use final in \<open>auto simp: return_eq\<close>)
qed

subsection \<open>Lifetimes\<close>

lemma session_issue_expiries:
  assumes "session_issue T W svc ctx corr now s = (Inr x, s')"
  shows "issued_expires_at x = now + refresh_lifetime (session_service_policy svc) \<and>
    issued_access_expires_at x = now + access_lifetime (session_service_policy svc)"
proof -
  from assms obtain issued access :: issued_opaque_token and r t u where call: "store_call W (\<lambda>E. create_refresh_session E
       \<lparr>cs_tenant = context_tenant ctx, cs_account = context_account ctx, cs_refresh_digest = issued_digest issued,
        cs_access_digest = issued_digest access, cs_refresh_expires_at = now + refresh_lifetime (session_service_policy svc),
        cs_access_expires_at = now + access_lifetime (session_service_policy svc), cs_correlation = corr\<rparr>) t = (Inr r, u)"
    and "return (Inr \<lparr>issued_refresh_token = token_raw issued, issued_access_token = token_raw access, issued_family = sr_family r,
       issued_credential = sr_credential r, issued_expires_at = sr_expires_at r,
       issued_access_expires_at = sr_access_expires_at r\<rparr>) u = (Inr x :: session_issue_error + issued_refresh_session, s')"
    unfolding session_issue_def bind_eq run_map_err_eq by (elim exE conjE)
  then have x: "issued_expires_at x = sr_expires_at r" "issued_access_expires_at x = sr_access_expires_at r"
    by (auto simp: return_eq)
  from call [unfolded store_call_eq, THEN conjunct1] show ?thesis
    unfolding x by (cases rule: create_refresh_session_effect) auto
qed

lemma create_step_up_grant_stores:
  assumes "create_step_up_grant E q db = (Inr r, db')"
  shows "\<exists>g \<in> set (step_up_grants db'). su_digest g = cg_digest q \<and> su_expires_at g = cg_expires_at q"
  using assms by (auto simp: create_step_up_grant_def transact_eq and_then_eq_Inr Let_def insert_step_up_def insert_audit_def sql_insert_def
      split: if_splits)

lemma issue_role_change_stored:
  assumes "issue_role_change P T sha256 K W svc tenant account family target code corr now s = (Inr (StepUpIssued x), s')"
  shows "\<exists>g \<in> set (step_up_grants (sys_db s')). su_digest g = derive_opaque_token_digest T (step_up_digest_key svc) (grant_token x) \<and>
    su_expires_at g = issued_grant_expires_at x \<and> issued_grant_expires_at x = now + grant_lifetime (step_up_service_policy svc)"
proof -
  let ?expires = "now + grant_lifetime (step_up_service_policy svc)"
  let ?q = "\<lambda>issued. \<lparr>cg_tenant = tenant, cg_account = account, cg_family = family, cg_action = ChangeAccountRole,
              cg_target = role_change_target_digest sha256 target, cg_digest = issued_digest issued, cg_expires_at = ?expires,
              cg_correlation = corr\<rparr>"
  let ?k = "bind (issue_token T W (step_up_digest_key svc)) (\<lambda>issued. let expires = ?expires in
           attempt (run_map (map_err StepUpStore) (store_call W (\<lambda>E. create_step_up_grant E
             \<lparr>cg_tenant = tenant, cg_account = account, cg_family = family, cg_action = ChangeAccountRole,
              cg_target = role_change_target_digest sha256 target, cg_digest = issued_digest issued, cg_expires_at = expires,
              cg_correlation = corr\<rparr>))) (\<lambda>_.
           return (Inr (StepUpIssued \<lparr>grant_token = token_raw issued, issued_grant_expires_at = expires\<rparr>))))"
  from assms obtain outcome t where out: "(case outcome of TotpDenied \<Rightarrow> return (Inr StepUpDenied)
     | TotpAuthenticated ctx \<Rightarrow>
         if context_tenant ctx \<noteq> tenant \<or> context_account ctx \<noteq> account then return (Inr StepUpDenied) else ?k) t =
     (Inr (StepUpIssued x), s')"
    unfolding issue_role_change_def run_map_err_eq by (elim exE conjE)
  then have "?k t = (Inr (StepUpIssued x), s')" by (cases outcome) (auto simp: return_eq split: if_splits)
  then obtain issued t1 r u where issued: "issue_token T W (step_up_digest_key svc) t = (issued, t1)"
    and call: "store_call W (\<lambda>E. create_step_up_grant E (?q issued)) t1 = (Inr r, u)"
    and "return (Inr (StepUpIssued \<lparr>grant_token = token_raw issued, issued_grant_expires_at = ?expires\<rparr>)) u =
      (Inr (StepUpIssued x) :: step_up_error + step_up_issue_outcome, s')"
    unfolding Let_def bind_eq run_map_err_eq by (elim exE conjE)
  then have x: "x = \<lparr>grant_token = token_raw issued, issued_grant_expires_at = ?expires\<rparr>" "u = s'" by (auto simp: return_eq)
  have "issued_digest issued = derive_opaque_token_digest T (step_up_digest_key svc) (token_raw issued)"
    using issued by (auto simp: issue_token_eq issue_opaque_token_def derive_opaque_token_digest_def Let_def)
  then show ?thesis using create_step_up_grant_stores [OF call [unfolded store_call_eq, THEN conjunct1]] x by auto
qed

lemma issue_recovery_codes_length: "issue_recovery_codes T W key n s = (xs, s') \<Longrightarrow> length xs = n"
  by (induction n arbitrary: s xs s') (auto simp: bind_eq return_eq)

lemma recovery_replace_count:
  assumes "recovery_replace T W key policy tenant account corr s = (Inr x, s')"
  shows "length (recovery_codes x) = policy_code_count policy \<and> recovery_code_count x = policy_code_count policy"
proof -
  from assms obtain issued t r u where issued: "issue_recovery_codes T W key (policy_code_count policy) s = (issued, t)"
    and call: "store_call W (\<lambda>E. replace_recovery_code_set E tenant account (map snd issued) corr) t = (Inr r, u)"
    and x: "recovery_codes x = map fst issued" "recovery_code_count x = code_count r"
    unfolding recovery_replace_def bind_eq run_map_err_eq by (auto simp: return_eq)
  from call [unfolded store_call_eq, THEN conjunct1] have "code_count r = length issued"
    by (cases rule: replace_recovery_code_set_effect) auto
  then show ?thesis using issue_recovery_codes_length [OF issued] x by simp
qed

subsection \<open>Sample responses\<close>

lemma sample_uuids: "uuid_display (ext_totp sample_externals) u = [99]" "uuid_parse sample_externals path = Some (filled 2)"
  by (simp_all add: sample_externals_def)

lemma sample_served:
  "serve sample_externals W sample_state sample_headers route s =
     (case handle sample_externals W sample_state sample_headers route s of (r, s') \<Rightarrow>
        (if header_value_ok sample_externals [97] then insert_header ''x-request-id'' [97] (security_headers True r)
         else security_headers True r, s'))"
  by (simp add: serve_def host_guard_def request_correlation_def run_map_def bind_def return_def sample_state_def split: prod.split)

lemma sample_role_applied:
  "\<exists>r s'. apply_role_change sample_externals sample_world sample_services sample_auth sample_role_command sample_token
     \<lparr>sys_db = sample_granted, sys_tick = 2\<rparr> = (r, s') \<and> resp_status r = 204"
proof -
  have "consume_role_change (ext_tokens sample_externals) (fed_sha256 (ext_federation sample_externals)) sample_world (svc_step_up sample_services)
      sample_tenant sample_account (filled 10) \<lparr>target_account = sample_account, target_role = Operator, target_grant = True\<rparr> sample_token
      (str_of ''http-admin-role-'' @ [99]) \<lparr>sys_db = sample_granted, sys_tick = 2\<rparr> = (Inr True, \<lparr>sys_db = sample_spent, sys_tick = 3\<rparr>)"
    using sample_grant_spent by (simp add: consume_role_change_def run_map_def bind_def return_def store_call_def map_err_def
        sample_spend_request_def role_change_target_digest_def sample_externals_def sample_fed_def derive_opaque_token_digest_def token_digest_def)
  moreover obtain db where "change_role (sample_env 3 40) sample_role_command sample_spent = (Inr (), db)"
    using sample_role_changed by blast
  ultimately show ?thesis
    by (simp add: apply_role_change_def or_respond_def bind_def run_map_def return_def store_call_def sample_auth_def authorization_context_new_def
        sample_role_command_def)
qed

lemma sample_role_served:
  "\<exists>r s'. serve sample_externals sample_world sample_state sample_headers (ChangeRole [] Operator True) \<lparr>sys_db = sample_granted, sys_tick = 0\<rparr> =
     (r, s') \<and> resp_status r = 204"
proof -
  obtain r s' where applied: "apply_role_change sample_externals sample_world sample_services sample_auth sample_role_command sample_token
     \<lparr>sys_db = sample_granted, sys_tick = 2\<rparr> = (r, s')" "resp_status r = 204"
    using sample_role_applied by blast
  have command: "\<lparr>change_tenant = context_tenant (session_context sample_auth), change_target = sample_account, change_role_of = Operator,
      change_grant = True, change_actor = actor_of sample_auth True, change_correlation = str_of ''http-admin-role-'' @ [99]\<rparr> = sample_role_command"
    by (simp add: sample_auth_def authorization_context_new_def actor_of_def sample_role_command_def sample_actor_def)
  have "change_account_role_route sample_externals sample_world sample_state sample_headers [] Operator True
      \<lparr>sys_db = sample_granted, sys_tick = 0\<rparr> = (r, s')"
    using applied(1) [unfolded numeral_2_eq_2] sample_role_valid sample_authenticated
    by (simp add: change_account_role_route_def sample_state_def or_respond_def bind_def return_def correlation_def run_map_def tick_def
        sample_uuids command Let_def)
  then show ?thesis
    using applied(2) by (simp add: sample_served)
qed

lemma sample_session_stored:
  "\<exists>x db. create_refresh_session (sample_env 3 100) \<lparr>cs_tenant = sample_tenant, cs_account = sample_account, cs_refresh_digest = sample_digest 2,
      cs_access_digest = sample_digest 2, cs_refresh_expires_at = 1700000000 * 1000000000 + duration_days 30,
      cs_access_expires_at = 1700000000 * 1000000000 + duration_minutes 15, cs_correlation = str_of ''http-totp-'' @ [99]\<rparr> sample_signed_in =
    (Inr x, db)"
  by (simp add: duration_days_def duration_minutes_def sample_signed_in_def consume_totp_step_def unspent_factor_def sample_challenge_simps)

lemma sample_session_run:
  "\<exists>x s'. session_issue (ext_tokens sample_externals) sample_later sample_issuer
      (authorization_context_new sample_tenant sample_account AccountActive [Owner] False) (str_of ''http-totp-'' @ [99]) (1700000000 * 1000000000)
      \<lparr>sys_db = sample_signed_in, sys_tick = 7\<rparr> = (Inr x, s')"
proof -
  have "issued_digest (issue_opaque_token (ext_tokens sample_externals) drawn key) = sample_digest 2" for drawn key
    by (simp add: issue_opaque_token_def token_digest_def sample_externals_def Let_def)
  then show ?thesis
    using sample_session_stored
    by (auto simp: session_issue_def issue_token_def bind_def run_map_def return_def tick_def attempt_def store_call_def sample_issuer_def
        authorization_context_new_def map_err_def)
qed

lemma sample_session_issued:
  "\<exists>r s'. issue_browser_session sample_externals sample_later sample_issuer
     (authorization_context_new sample_tenant sample_account AccountActive [Owner] False) (str_of ''http-totp-'' @ [99])
     \<lparr>sys_db = sample_signed_in, sys_tick = 6\<rparr> = (r, s') \<and> resp_status r = 200"
proof -
  obtain x s' where "session_issue (ext_tokens sample_externals) sample_later sample_issuer
      (authorization_context_new sample_tenant sample_account AccountActive [Owner] False) (str_of ''http-totp-'' @ [99]) (1700000000 * 1000000000)
      \<lparr>sys_db = sample_signed_in, sys_tick = 7\<rparr> = (Inr x, s')"
    using sample_session_run by blast
  moreover have "rfc3339_format sample_externals at = Some [97]" "header_value_ok sample_externals c" for at c
    by (simp_all add: sample_externals_def)
  ultimately show ?thesis
    by (simp add: issue_browser_session_def or_respond_def bind_def run_map_def return_def tick_def browser_session_response_def
        issue_browser_csrf_token_def Let_def list_all_iff)
qed

lemma sample_totp_served:
  "\<exists>r s'. serve sample_externals sample_later sample_state sample_headers (LoginTotp (str_of ''666666''))
     \<lparr>sys_db = sample_challenge, sys_tick = 0\<rparr> = (r, s') \<and> resp_status r = 200"
proof -
  have answered: "consume_next_step (ext_tokens sample_externals) sample_later sample_flow sample_token sample_token MfaChallenge
      (str_of ''http-totp-'' @ [99]) \<lparr>sys_db = sample_challenge, sys_tick = 1\<rparr> =
    (Inr sample_challenge_record, \<lparr>sys_db = sample_answered, sys_tick = 2\<rparr>)"
    using sample_challenge_answered
    by (simp add: consume_next_step_def login_transaction_consume_def run_map_def bind_def return_def store_call_def map_err_def)
  have login: "totp_login_complete (ext_totp sample_externals) sample_provider sample_later sample_tenant sample_account (str_of ''666666'')
      (1700000000 * 1000000000) \<lparr>sys_db = sample_answered, sys_tick = 3\<rparr> =
    (Inr (TotpAuthenticated (authorization_context_new sample_tenant sample_account AccountActive [Owner] False)),
     \<lparr>sys_db = sample_signed_in, sys_tick = 6\<rparr>)"
    using sample_code_verified
    by (simp add: totp_login_complete_def accept_totp_code_def attempt_def bind_def run_map_def return_def store_read_def store_call_def map_err_def
        sample_answered_factor sample_provider_def sample_step_spent sample_signed_in_context sample_persisted_def)
  obtain r s' where issued: "issue_browser_session sample_externals sample_later sample_issuer
     (authorization_context_new sample_tenant sample_account AccountActive [Owner] False) (str_of ''http-totp-'' @ [99])
     \<lparr>sys_db = sample_signed_in, sys_tick = 6\<rparr> = (r, s')" "resp_status r = 200"
    using sample_session_issued by blast
  have "complete_totp_login_route sample_externals sample_later sample_state sample_headers (str_of ''666666'')
      \<lparr>sys_db = sample_challenge, sys_tick = 0\<rparr> = (r, s')"
    using answered login issued(1)
    by (simp add: complete_totp_login_route_def with_login_transaction_def sample_state_def correlation_def bind_def run_map_def return_def tick_def
        sample_uuids or_respond_def totp_login_continue_def sample_challenge_record_def sample_services_def)
  then show ?thesis using issued(2) by (simp add: sample_served)
qed

text \<open>The owner of the sample store has a password and starts a login with it.\<close>

definition sample_password_db :: "unit database" where
  "sample_password_db = snd (store_password_verifier (sample_env 3 90) sample_tenant sample_account (PasswordVerifierString [36, 97]) None [99] sample_active)"

definition sample_login_address :: user_address where
  "sample_login_address = UserAddress (Localpart [98]) (DomainName [97])"

lemmas sample_password_simps = sample_password_db_def store_password_verifier_def sample_login_simps

lemma sample_password_reachable: "store_reachable sample_password_db"
  unfolding sample_password_db_def
  by (rule store_reachable_steps [OF sample_reachable r_into_rtranclp [of store_step, OF step_password [OF surjective_pairing]]])

lemma sample_password_account: "find_login_account sample_password_primitives sample_login_address sample_password_db =
    Inr (Some \<lparr>login_account_id = sample_account, login_tenant_id = sample_tenant, login_state = AccountActive,
      login_verifier = Some (PasswordVerifierString [36, 97])\<rparr>)"
  by (simp add: find_login_account_def sample_login_address_def transpose_map_def verifier_from_persisted_def
      sample_password_primitives_def starts_with_def sample_password_simps)

lemma sample_password_accepted:
  "password_authenticate sample_password_primitives sample_world (flow_password sample_flow) sample_login_address [97]
     \<lparr>sys_db = sample_password_db, sys_tick = 0\<rparr> = (Inr (TotpChallenge sample_tenant sample_account), \<lparr>sys_db = sample_password_db, sys_tick = 3\<rparr>)"
proof -
  have "verify_password sample_password_primitives [97] (PasswordVerifierString [36, 97]) 128 = Inr ()"
    by (simp add: verify_password_def normalize_for_verification_def sample_password_primitives_def starts_with_def and_then_def ok_or_def
        str_bytes_def str_len_def utf8_def Let_def)
  moreover have "roles_for_account sample_tenant sample_account sample_password_db = Inr [Owner]"
    "has_active_totp_factor sample_tenant sample_account sample_password_db"
    by (simp_all add: roles_for_account_def parse_role_def has_active_totp_factor_def sample_password_simps)
  ultimately show ?thesis
    by (simp add: password_authenticate_def password_next_step_def attempt_def bind_def run_map_def return_def store_read_def store_call_def
        map_err_def sample_password_account sample_flow_def Let_def)
qed

lemma sample_password_started:
  "\<exists>ch s'. start_password_login sample_password_primitives (ext_tokens sample_externals) sample_world sample_flow sample_login_address [97] [99] 3
     \<lparr>sys_db = sample_password_db, sys_tick = 0\<rparr> = (Inr (FlowPending ch), s')"
proof -
  have "issued_digest (issue_opaque_token (ext_tokens sample_externals) drawn key) = sample_digest 2" for drawn key
    by (simp add: issue_opaque_token_def token_digest_def sample_externals_def Let_def)
  moreover have "\<exists>r db. create_login_transaction (sample_env 3 60) \<lparr>cl_tenant = sample_tenant, cl_account = sample_account, cl_digest = sample_digest 2,
      cl_stage = MfaChallenge, cl_binding = filled 2, cl_factor = None, cl_expires_at = 3 + duration_minutes 5, cl_correlation = [99]\<rparr>
      sample_password_db = (Inr r, db)"
    by (simp add: duration_minutes_def sample_password_simps)
  ultimately show ?thesis
    by (auto simp: start_password_login_def sample_password_accepted [unfolded sample_flow_def, simplified] attempt_def bind_def run_map_def
        return_def tick_def issue_token_def login_transaction_begin_def store_call_def map_err_def sample_flow_def
        login_transaction_policy_standard_def Let_def)
qed

subsection \<open>Properties\<close>



text \<open>
  C4.  Completing a login with a one-time password answers 200 only if the request carries a valid
  cross-site proof and the two login cookies, these name an unspent, unexpired transaction that the password
  step left waiting for a second factor, and the submitted code verifies against the active factor of
  that transaction's account at a time step that was not used before.  The transaction and the time step
  are then spent, whatever other requests do in between.
\<close>
theorem http_totp_login_sound:
  assumes "interference W" and "state_steps state" and "store_reachable (sys_db s)"
    and "http_login_flow state = Some flow" and "http_mfa_session state = Some services"
    and "serve X W state headers (LoginTotp code) s = (r, s')" and "resp_status r = 200"
  shows "\<exists>token binding l db db' i j. let d = derive_opaque_token_digest (ext_tokens X) (transaction_digest_key (flow_transaction flow)) token in
     csrf_proof_is_valid X headers LOGIN_CSRF_COOKIE \<and> browser_cookie X headers LOGIN_TRANSACTION_COOKIE = Some token \<and>
     browser_cookie X headers LOGIN_BINDING_COOKIE = Some binding \<and>
     store_step\<^sup>*\<^sup>* (sys_db s) db \<and> l \<in> set (login_transactions db) \<and>
     usable_login d (digest_bytes (derive_opaque_token_digest (ext_tokens X) (flow_binding_key flow) binding)) MfaChallenge
       (env_now (world_store W i)) l \<and>
     \<not> login_used d (sys_db s) \<and> login_used d (sys_db s') \<and>
     store_step\<^sup>*\<^sup>* db db' \<and> store_step\<^sup>*\<^sup>* db' (sys_db s') \<and>
     code_accepted (ext_totp X) (svc_totp_login services) (TenantId (lt_tenant l)) (AccountId (lt_account l)) code
       (world_clock W j) db' (sys_db s')"
proof -
  let ?d = "\<lambda>token. derive_opaque_token_digest (ext_tokens X) (transaction_digest_key (flow_transaction flow)) token"
  have "resp_status r \<noteq> 421" using assms(7) by simp
  with assms(6) obtain r0 s0 where "handle X W state headers (LoginTotp code) s0 = (r0, s')"
    and r0: "resp_status r0 = resp_status r" and s0: "sys_db s0 = sys_db s"
    by (rule serve_inverted)
  then have run: "complete_totp_login_route X W state headers code s0 = (r0, s')" and ok: "resp_status r0 = 200"
    using assms(7) by simp_all
  from run ok assms(4,5) obtain token binding corr tx t u where cookies: "browser_cookie X headers LOGIN_TRANSACTION_COOKIE = Some token"
      "browser_cookie X headers LOGIN_BINDING_COOKIE = Some binding" "csrf_proof_is_valid X headers LOGIN_CSRF_COOKIE"
    and t: "sys_db t = sys_db s0" and tx: "consume_next_step (ext_tokens X) W flow token binding MfaChallenge corr t = (Inr tx, u)"
    and rest: "totp_login_continue X W services corr tx code u = (r0, s')"
    unfolding complete_totp_login_route_def by (rule with_login_transaction_inverted)
  have db: "sys_db t = sys_db s" using s0 t by simp
  have ok_t: "store_ok (sys_db t)" using assms(3) by (simp add: db store_reachable_ok)
  from consume_next_step_accepted [OF assms(1) ok_t tx refl] obtain db1 l where
    l: "store_step\<^sup>*\<^sup>* (sys_db s) db1" "store_step db1 (sys_db u)" "\<not> login_used (?d token) (sys_db s)" "login_used (?d token) (sys_db u)"
      "l \<in> set (login_transactions db1)" "usable_login (?d token) (digest_bytes (derive_opaque_token_digest (ext_tokens X) (flow_binding_key flow) binding))
        MfaChallenge (env_now (world_store W (sys_tick t))) l" "lr_tenant tx = TenantId (lt_tenant l)" "lr_account tx = AccountId (lt_account l)"
    unfolding db by blast
  have su: "store_step\<^sup>*\<^sup>* (sys_db s) (sys_db u)" using l(1,2) by (rule rtranclp.rtrancl_into_rtrancl)
  have ok_u: "store_ok (sys_db u)" using store_ok_steps [OF su] ok_t by (simp add: db)
  from totp_login_continue_accepted [OF assms(1) _ ok_u rest ok] assms(2,5) obtain db2 j where
    c: "store_step\<^sup>*\<^sup>* (sys_db u) db2" "store_step\<^sup>*\<^sup>* db2 (sys_db s')"
      "code_accepted (ext_totp X) (svc_totp_login services) (lr_tenant tx) (lr_account tx) code (world_clock W j) db2 (sys_db s')"
    by (auto simp: state_steps_def services_steps_def)
  have "login_used (?d token) (sys_db s')" using login_use.spent_steps [OF rtranclp_trans [OF c(1,2)] ok_u] l(4) by blast
  then show ?thesis
    using cookies l c(2,3) converse_rtranclp_into_rtranclp [of store_step, OF l(2) c(1)] unfolding Let_def l(7,8)
    by (intro exI conjI)
qed

theorem http_totp_login_sound_witness:
  "\<exists>r s'. serve sample_externals sample_later sample_state sample_headers (LoginTotp (str_of ''666666''))
      \<lparr>sys_db = sample_challenge, sys_tick = 0\<rparr> = (r, s') \<and> resp_status r = 200 \<and>
     \<not> login_used (sample_digest 2) sample_challenge \<and> login_used (sample_digest 2) (sys_db s')"
proof -
  obtain r s' where run: "serve sample_externals sample_later sample_state sample_headers (LoginTotp (str_of ''666666''))
      \<lparr>sys_db = sample_challenge, sys_tick = 0\<rparr> = (r, s')" and ok: "resp_status r = 200"
    using sample_totp_served by blast
  have "store_reachable (sys_db \<lparr>sys_db = sample_challenge, sys_tick = 0\<rparr>)" by (simp add: sample_challenge_reachable)
  moreover have "http_login_flow sample_state = Some sample_flow" "http_mfa_session sample_state = Some sample_services"
    by (simp_all add: sample_state_def)
  ultimately have "\<not> login_used (sample_digest 2) (sys_db \<lparr>sys_db = sample_challenge, sys_tick = 0\<rparr>) \<and> login_used (sample_digest 2) (sys_db s')"
    using http_totp_login_sound [OF sample_later_interference sample_state_steps _ _ _ run ok] unfolding Let_def sample_digests by blast
  then show ?thesis using run ok by simp
qed








text \<open>
  C9.  A request that a foreign site could forge does nothing: on every route that relies on the
  browser's cookies, a request without the matching cross-site token is refused and leaves the database as it was.
\<close>
theorem http_forgery_refused:
  assumes "csrf_cookie_of route = Some name" and "\<not> csrf_proof_is_valid X headers name"
  shows "sys_db (snd (serve X W state headers route s)) = sys_db s \<and>
    resp_status (fst (serve X W state headers route s)) \<in> {401, 403, 404, 421}"
proof -
  obtain r where "handle X W state headers route = return r" "resp_status r \<in> {401, 403, 404}"
    using handle_refused [OF assms] unfolding refused_def by blast
  then show ?thesis
    by (auto simp: serve_def host_guard_def request_correlation_def run_map_def bind_def return_def tick_def split: option.splits)
qed

theorem http_forgery_refused_witness:
  "sys_db (snd (serve sample_externals sample_world sample_state [] SessionRefresh \<lparr>sys_db = sample_session, sys_tick = 0\<rparr>)) = sample_session"
proof -
  have "\<not> csrf_proof_is_valid sample_externals [] SESSION_CSRF_COOKIE"
    by (simp add: csrf_proof_is_valid_def browser_cookie_def cookie_matches_def header_all_def map_filter_def)
  from http_forgery_refused [OF _ this, of SessionRefresh] show ?thesis by simp
qed


text \<open>
  C33.  Every cookie that a response sets, on every route and branch, carries the attributes \<open>Secure\<close> and
  \<open>SameSite=Strict\<close>, and also \<open>HttpOnly\<close> unless it is one of the three cross-site tokens that
  scripts must read.
\<close>
theorem http_cookies_hardened:
  "list_all hardened_cookie (resp_cookies (fst (serve X W state headers route s)))"
  using serve_hardened [of X W state headers route] by (simp add: yields_def hardened_def)

end
