(* ===== verification/Spec2Isabelle.thy ===== *)
theory Spec2Isabelle
  imports Webrtc Wasm Fabric_Service
begin

text \<open>
  \<^bold>\<open>libfcp: a verification library for the Federated CFR Connect Protocol.\<close>

  \<^bold>\<open>The program.\<close>  The repository has two halves.  The protocol stack lets two endpoints of a federation
  connect directly: \<open>libfcp-core\<close> is the wire format, the identities and the per-peer state machine;
  \<open>libfcp-server\<close> publishes signed member lists; \<open>libfcp\<close> is the client that applies them and routes
  payloads; \<open>libfcp-webrtc\<close> drives a WebRTC engine, \<open>libfcp-ffi\<close> and \<open>libfcp-wasm\<close> offer the state machine to
  C and to the browser.  The authority (\<open>fcp-fabric-*\<close>) administers tenants and accounts: domain rules,
  credentials, a PostgreSQL store, and an HTTP service with password, TOTP and passkey sign-in,
  sessions, step-up grants and federation ingress.

  \<^bold>\<open>Conventions.\<close>  A \<open>Result\<close> is a sum with the error on the left; \<open>and_then\<close> is the \<open>?\<close> operator, and
  \<open>or_bail\<close> is \<open>?\<close> inside a method on \<open>&mut self\<close>, which keeps the state of the moment of return.  Machine integers are
  words; byte arrays of a fixed width are the type \<open>'n bytes\<close>; strings of the authority are lists of
  Unicode scalar values; timestamps are integers in nanoseconds.  A panic is a value of the type \<open>fault\<close>.

  \<^bold>\<open>Theories of the protocol stack\<close> (sources under \<open>src/crates\<close>):
  \<^item> \<open>Prelude\<close>, \<open>BTree\<close>: results, byte arrays, big-endian integers, checked slicing; the ordered maps of the standard library.
  \<^item> \<open>Fcp_Types\<close>: \<open>libfcp-core/src/types.rs\<close>, \<open>error.rs\<close>, \<open>identity.rs\<close>.
  \<^item> \<open>Wire\<close>, \<open>Envelope\<close>: \<open>envelope.rs\<close>.  The locale \<open>wire_field\<close> is the contract of one field of the format (what is written is read
    back, and only that); it is interpreted on every field writer and reader of the source, and the round trip, the
    equality of the borrowing verifier with parse-then-verify, the error set and the unambiguous transcript follow.
  \<^item> \<open>Connection\<close>: \<open>connection.rs\<close>.  \<open>conn_apply\<close> dispatches the operations, \<open>conn_reach\<close> is reachability.  Authentic delivery,
    the invariant, the phase diagram as a refinement, the handshake, the replay window and its eviction.
  \<^item> \<open>Configuration\<close>, \<open>Server\<close>, \<open>Client\<close>: \<open>configuration.rs\<close>, \<open>libfcp-server\<close>, \<open>libfcp/src\<close>.  The parser with its slice expressions,
    publication, and the client's bindings, directory and routing.
  \<^item> \<open>Transport\<close>, \<open>Webrtc\<close>: \<open>libfcp/src/transport\<close> and \<open>libfcp-webrtc\<close>.  The adapter trait is a locale, interpreted on
    the command queue.  A WebRTC session is a record; the callbacks and pump tasks are the relation \<open>background\<close>, and every operation that
    awaits lets any number of such steps happen.
  \<^item> \<open>Ffi\<close>, \<open>Wasm\<close>: \<open>libfcp-ffi\<close> and \<open>libfcp-wasm\<close>.  The C ABI over an explicit heap of buffers and handles, in which a
    dangling use is an undefined result; its calls refine the state machine, a host that follows the ownership rules never meets
    undefined behaviour and owns exactly what is allocated, and the browser facade shows the same results call by call.

  \<^bold>\<open>Theories of the authority:\<close>
  \<^item> \<open>Fabric_Text\<close>, \<open>Fabric_Identity\<close>, \<open>Fabric_Policy\<close>: string slices; \<open>fcp-fabric-domain\<close>.
  \<^item> \<open>Fabric_Totp\<close>, \<open>Fabric_Credentials\<close>: \<open>fcp-fabric-auth\<close>.
  \<^item> \<open>Fabric_Schema\<close>, \<open>Fabric_Accounts\<close>, \<open>Fabric_Mfa\<close>, \<open>Fabric_Sessions\<close>, \<open>Fabric_Transactions\<close>: \<open>fcp-fabric-store\<close>.  The
    database is a record of tables, a transaction is a function on it, and the constraints of the migrations are
    the checks that make it fail.
  \<^item> \<open>Fabric_Store\<close>, \<open>Fabric_Assurance\<close>: the store as a transition system \<open>store_step\<close> with one rule per operation, its
    invariant, and what holds along every run: reuse detection, one-use credentials, sound authorization.
  \<^item> \<open>Fabric_Runtime\<close>: how a request runs.  Its effects are store calls, the clock and randomness, and other requests may run between
    any two of them; \<open>interference\<close> says that what they do to the database are store operations.
  \<^item> \<open>Fabric_Login\<close>, \<open>Fabric_Federation\<close>, \<open>Fabric_Passkeys\<close>, \<open>Fabric_Kms\<close>: the services of \<open>fcp-fabric-service/src\<close>.
  \<^item> \<open>Fabric_Http\<close>, \<open>Fabric_Routes\<close>, \<open>Fabric_Requests\<close>, \<open>Fabric_Service\<close>: cookies and middleware, every route of \<open>transport.rs\<close>, sample
    requests, and the guarantees of the composed service.

  \<^bold>\<open>Parameters and hypotheses.\<close>  Third-party code enters as records of functions that the definitions take as
  arguments, with what is relied on as named predicates: \<open>honest_signer\<close> and \<open>signs_correctly\<close> (what a key signs
  its public key verifies), \<open>aead_correct\<close> and \<open>aead_authentic\<close> (the AEAD opens what it sealed, and only with the
  same associated data), \<open>kms_decrypts\<close> (the key service decrypts its own ciphertext under the same context), \<open>idna_idempotent\<close> (domain
  conversion is stable), \<open>uuid_display_ok\<close> (the text of a UUID determines it).  Hashes are
  unconstrained; where two identifiers must differ the theorem says so.  Each such theorem has a witness that
  instantiates the parameters with concrete functions.

  \<^bold>\<open>Bounds and fuel.\<close>  No definition uses fuel: every loop is structural recursion or a function with a
  termination proof.  The replay window is 1024 identifiers, the session channels hold 128 items and 64 staged candidates, as in
  the source.  A send on a full channel that never returns is the value \<open>None\<close>; \<open>Webrtc\<close> proves when it cannot happen.

  \<^bold>\<open>Not modelled.\<close>  The binaries (\<open>fcp-fabric-service/src/main.rs\<close>, \<open>fcp-fabricctl\<close>) and the connection pool and migration runner
  read the environment and wire objects together.  The web framework's extraction of paths and JSON bodies, its
  body limit and trace layers, the database engine beyond the statements used, and the WebRTC engine are third-party.  The
  language bindings forward calls to the C ABI.  Isolation of transactions is taken as serial: each store
  operation is one step.
\<close>

section \<open>Properties across components\<close>

text \<open>
  C12.  The whole path of a message: a server's published snapshot travels as bytes and is accepted
  by a fresh client that pinned its authority; the client routes a CFR payload to a member of the
  snapshot over its established connection; and the member's connection, fed the bytes of the
  resulting envelope, delivers exactly that payload with the sender's endpoint.  The hypotheses
  are the signature contract, the mirrored pins of the two connections, and that the envelope's
  identifier is not already in the receiver's replay window.
\<close>

theorem federation_end_to_end:
  assumes server: "server_reach ops f si srv" "signs_correctly c ops si"
    and policy: "pol_federation policy = f" "pol_authority policy = signing_identity_endpoint ops si" "inj sigf"
    and local: "m \<in> set (cfg_members (srv_configuration srv))"
      "sigf (member_cfr_identity m) = pol_local_cfr_identity policy" "member_endpoint m = pol_local_endpoint policy"
    and remote: "r \<in> set (cfg_members (srv_configuration srv))"
      "sigf (member_cfr_identity r) \<noteq> pol_local_cfr_identity policy"
    and sender: "conn_federation conn = f" "conn_local conn = pol_local_endpoint policy"
      "conn_remote conn = member_endpoint r" "conn_phase conn = Established"
    and receiver: "conn_federation peer = f" "conn_attempt peer = conn_attempt conn"
      "conn_local peer = member_endpoint r" "conn_remote peer = pol_local_endpoint policy" "conn_phase peer = Established"
    and signer: "honest_signer c s" "signer_endpoint s = pol_local_endpoint policy"
    and env: "sign s f (conn_attempt conn) (member_endpoint r) (CfrControl payload) = Inr env"
      "env_id c env \<notin> Inr ` set (conn_seen peer)"
  shows "\<exists>sc w cl1 cl2 old ew i peer'.
     publish ops srv = Inr sc \<and> config_encode sc = Inr w \<and> config_decode_verified c w = Inr sc \<and>
     apply_configuration c sigf sc (client_new policy) = (Inr (), cl1) \<and>
     insert_connection conn cl1 = (Inr old, cl2) \<and>
     client_route_outbound \<lparr> msg_to = Peer (sigf (member_cfr_identity r)), msg_payload = payload \<rparr> s cl2 = Inr [Send env] \<and>
     encode env = Inr ew \<and>
     apply_event c (ControlBinary ew) peer = (Inr [DeliverCfr i (pol_local_endpoint policy) payload], peer')"
proof -
  obtain sc where sc: "publish ops srv = Inr sc" "sfc_configuration sc = srv_configuration srv"
    using publish_ok [OF server(1)] by blast
  then have pub: "server_published c ops f si sc" using server by (auto simp: server_published_def)
  let ?cl = "client_new policy"
  obtain cl1 where cl1: "apply_configuration c sigf sc ?cl = (Inr (), cl1)"
    using server.published_applies [OF pub, of ?cl m sigf] policy local sc
    by (auto simp: client_new_def newer_def)
  have frame: "cl_connections cl1 = directory_new f (pol_local_endpoint policy)"
    using cl1 policy unfolding apply_configuration_Inr by (elim conjE) (simp add: client_new_def)
  have bound: "bindings_endpoint (cl_bindings cl1) (sigf (member_cfr_identity r)) = Some (member_endpoint r)"
    using applied_bindings [OF policy(3) cl1] remote sc by (auto simp: client_new_def)
  define cl2 where "cl2 = snd (insert_connection conn cl1)"
  have cl2: "insert_connection conn cl1 = (Inr None, cl2)" "cl_bindings cl2 = cl_bindings cl1"
    "directory_get (cl_connections cl2) (member_endpoint r) = Some conn"
    using sender frame by (simp_all add: cl2_def insert_connection_def directory_insert_def directory_new_def
        directory_get_def btree_new_def)
  have "client_route_outbound \<lparr> msg_to = Peer (sigf (member_cfr_identity r)), msg_payload = payload \<rparr> s cl2 = Inr [Send env]"
    using bound cl2 sender signer env(1)
    by (simp add: client_route_outbound_def route_outbound_def route_one_def cfr_control_def require_local_signer_def
        conn_sign_def)
  moreover have "\<exists>i peer'. apply_event c (ControlBinary (envelope_bytes env)) peer =
      (Inr [DeliverCfr i (pol_local_endpoint policy) payload], peer')" "encode env = Inr (envelope_bytes env)"
    using wire_delivery [of c s f "conn_attempt conn" peer payload env] signer receiver env by simp_all
  ultimately show ?thesis
    using sc(1) server.published_wire [OF pub] cl1 cl2(1) by blast
qed

theorem federation_end_to_end_witness:
  "\<exists>sc w cl1 cl2 old ew i peer'.
     publish demo_ops demo_server = Inr sc \<and> config_encode sc = Inr w \<and> config_decode_verified demo_crypto w = Inr sc \<and>
     apply_configuration demo_crypto id sc (client_new demo_policy) = (Inr (), cl1) \<and>
     insert_connection demo_peer cl1 = (Inr old, cl2) \<and>
     client_route_outbound \<lparr> msg_to = Peer (filled 14), msg_payload = demo_payload 9 \<rparr> (demo_signer 3) cl2 =
       Inr [Send (demo_control 9)] \<and>
     encode (demo_control 9) = Inr ew \<and>
     apply_event demo_crypto (ControlBinary ew) demo_established = (Inr [DeliverCfr i (demo_identity 3) (demo_payload 9)], peer')"
proof -
  have "FederationMember (filled 13) (demo_identity 3) \<in> set (cfg_members (srv_configuration demo_server))"
    "FederationMember (filled 14) (demo_identity 4) \<in> set (cfg_members (srv_configuration demo_server))"
    by (simp_all add: demo_server_def demo_configuration_def demo_members_def)
  from federation_end_to_end [OF demo_server_reach demo_signs_correctly _ _ inj_on_id this(1) _ _ this(2),
      where policy = demo_policy and conn = demo_peer and peer = demo_established and s = "demo_signer 3" and
        env = "demo_control 9" and payload = "demo_payload 9"]
  show ?thesis
    using demo_signed_eq [OF demo_payload_ok, of 9]
    by (simp add: demo_policy_def demo_signing_endpoint demo_peer_def demo_established_def demo_connection_def
        demo_control_def)
qed

end
